(* ===== verification/Prelude.thy ===== *)
theory Prelude
  imports Main
begin

text \<open>
  What every component of the development shares.

  Go's \<open>string\<close> and \<open>[]byte\<close> are both sequences of bytes, and an Isabelle \<open>char\<close> is a byte, so
  both are modelled by \<open>string\<close> here (the synonym \<open>bytes\<close> where the source has \<open>[]byte\<close>). Lengths
  and sizes that stay far from the end of \<open>int64\<close> are \<open>int\<close>; where a wrap-around can be reached the
  component keeps the width (theory Policy).

  The theory holds the big-endian integer encodings of \<open>encoding/binary\<close>, \<open>io.ReadFull\<close> on a finite
  input, and the locale \<open>prefix_codec\<close>: the contract of a self-delimiting encoding, which the frame
  formats of the components (LAN frames, signed-hop fields, sealed chunks) discharge.
\<close>

type_synonym bytes = string

named_theorems size_simps "lengths of the encodings and field records"
named_theorems codec_simps "decoding what an encoder wrote"

section \<open>Big-endian integers\<close>

text \<open>\<open>binary.BigEndian.PutUintN\<close> on \<open>k\<close> bytes: the value is reduced modulo \<open>256 ^ k\<close>, which is the
  conversion \<open>uint32(len(x))\<close> the callers write.\<close>

fun be_put :: "nat \<Rightarrow> nat \<Rightarrow> bytes" where
  "be_put 0 n = []"
| "be_put (Suc k) n = char_of (n div 256 ^ k) # be_put k n"

text \<open>\<open>binary.BigEndian.UintN\<close>.\<close>

fun be_get_acc :: "nat \<Rightarrow> bytes \<Rightarrow> nat" where
  "be_get_acc a [] = a"
| "be_get_acc a (c # cs) = be_get_acc (a * 256 + of_char c) cs"

definition be_get :: "bytes \<Rightarrow> nat" where
  "be_get cs = be_get_acc 0 cs"

lemma length_be_put [simp, size_simps]: "length (be_put k n) = k"
  by (induction k) auto

lemma be_get_acc_eq: "be_get_acc a cs = a * 256 ^ length cs + be_get_acc 0 cs"
proof (induction cs arbitrary: a)
  case Nil
  show ?case by simp
next
  case (Cons c cs)
  have 1: "be_get_acc a (c # cs) = (a * 256 + of_char c) * 256 ^ length cs + be_get_acc 0 cs"
    using Cons.IH [of "a * 256 + of_char c"] by simp
  have 2: "be_get_acc 0 (c # cs) = of_char c * 256 ^ length cs + be_get_acc 0 cs"
    using Cons.IH [of "of_char c"] by simp
  show ?case using 1 2 by (simp add: algebra_simps)
qed

lemma of_char_char_of_div: "of_char (char_of (n div m :: nat)) = n div m mod 256"
  by simp

lemma be_get_acc_put: "be_get_acc a (be_put k n) = a * 256 ^ k + n mod 256 ^ k"
proof (induction k arbitrary: a)
  case 0
  show ?case by simp
next
  case (Suc k)
  have "n mod 256 ^ Suc k = 256 ^ k * (n div 256 ^ k mod 256) + n mod 256 ^ k"
    by (metis mod_mult2_eq mult.commute power_Suc)
  then show ?case
    using Suc.IH [of "a * 256 + of_char (char_of (n div 256 ^ k) :: char)"]
    by (simp add: algebra_simps)
qed

lemma be_get_put [simp, codec_simps]: "be_get (be_put k n) = n mod 256 ^ k"
  by (simp add: be_get_def be_get_acc_put)

lemma be_put_inj: "be_put k m = be_put k n \<Longrightarrow> m mod 256 ^ k = n mod 256 ^ k"
  by (metis be_get_put)

lemma be_get_bound: "be_get cs < 256 ^ length cs"
proof (induction cs rule: rev_induct)
  case Nil
  show ?case by (simp add: be_get_def)
next
  case (snoc c cs)
  have app: "be_get_acc a (xs @ [c]) = be_get_acc a xs * 256 + of_char c" for a xs
    by (induction xs arbitrary: a) auto
  have "(of_char c :: nat) < 256" by (cases c) (simp add: of_char_Char horner_sum_simps)
  moreover have "be_get_acc 0 cs + 1 \<le> 256 ^ length cs" using snoc.IH by (simp add: be_get_def)
  ultimately have "be_get_acc 0 cs * 256 + of_char c < 256 * 256 ^ length cs" by linarith
  then show ?case by (simp add: be_get_def app)
qed

lemma be_put_mod: "be_put k (n mod 256 ^ j) = be_put k n" if "k \<le> j"
  using that
proof (induction k)
  case 0
  show ?case by simp
next
  case (Suc k)
  have "n mod 256 ^ j div 256 ^ k mod 256 = n div 256 ^ k mod 256"
  proof -
    obtain d where j: "j = Suc k + d" using Suc.prems le_Suc_ex by blast
    have p: "(256::nat) ^ j = 256 ^ k * 256 ^ Suc d" by (simp add: j power_add)
    have "n mod 256 ^ j div 256 ^ k = n div 256 ^ k mod 256 ^ Suc d"
      unfolding p by (simp add: mod_mult2_eq)
    then show ?thesis by (simp add: mod_mod_cancel)
  qed
  then have "(char_of (n mod 256 ^ j div 256 ^ k) :: char) = char_of (n div 256 ^ k)"
    by (metis char_of_eq_iff of_char_of of_char_eq_iff)
  then show ?case using Suc by simp
qed

lemma be_put_get: "be_put (length cs) (be_get cs) = cs"
proof (induction cs)
  case Nil
  show ?case by simp
next
  case (Cons c cs)
  have eq: "be_get (c # cs) = of_char c * 256 ^ length cs + be_get cs"
    using be_get_acc_eq [of "of_char c" cs] by (simp add: be_get_def)
  have lt: "be_get cs < 256 ^ length cs" by (rule be_get_bound)
  have "be_get (c # cs) div 256 ^ length cs = of_char c" using lt eq by simp
  moreover have "be_put (length cs) (be_get (c # cs)) = be_put (length cs) (be_get cs)"
    using be_put_mod [of "length cs" "length cs" "be_get (c # cs)"]
      be_put_mod [of "length cs" "length cs" "be_get cs"] lt eq by simp
  ultimately show ?case using Cons.IH by simp
qed

section \<open>Hexadecimal\<close>

text \<open>\<open>hex.EncodeToString\<close> and \<open>hex.DecodeString\<close>.\<close>

definition hex_digit :: "nat \<Rightarrow> char" where
  "hex_digit n = (if n < 10 then char_of (48 + n) else char_of (87 + n))"

definition hex_encode :: "bytes \<Rightarrow> string" where
  "hex_encode bs = concat (map (\<lambda>b. [hex_digit (of_char b div 16), hex_digit (of_char b mod 16)]) bs)"

definition hex_val :: "char \<Rightarrow> nat option" where
  "hex_val c = (let n = (of_char c :: nat) in
     if 48 \<le> n \<and> n \<le> 57 then Some (n - 48)
     else if 97 \<le> n \<and> n \<le> 102 then Some (n - 87)
     else if 65 \<le> n \<and> n \<le> 70 then Some (n - 55) else None)"

fun hex_decode :: "string \<Rightarrow> bytes option" where
  "hex_decode [] = Some []"
| "hex_decode [c] = None"
| "hex_decode (a # b # cs) =
     (case (hex_val a, hex_val b, hex_decode cs) of
        (Some x, Some y, Some bs) \<Rightarrow> Some (char_of (x * 16 + y) # bs)
      | _ \<Rightarrow> None)"

lemma hex_encode_Cons:
  "hex_encode (b # bs) = hex_digit (of_char b div 16) # hex_digit (of_char b mod 16) # hex_encode bs"
  by (simp add: hex_encode_def)

lemma hex_encode_Nil [simp]: "hex_encode [] = []"
  by (simp add: hex_encode_def)

lemma hex_val_digit [simp]: "n < 16 \<Longrightarrow> hex_val (hex_digit n) = Some n"
  by (simp add: hex_val_def hex_digit_def)

lemma of_char_less [simp]: "(of_char (c :: char) :: nat) < 256"
  by (cases c) (simp add: of_char_Char horner_sum_simps)

lemma hex_decode_encode [simp, codec_simps]: "hex_decode (hex_encode bs) = Some bs"
proof (induction bs)
  case Nil
  show ?case by simp
next
  case (Cons b bs)
  have "of_char b div 16 < (16::nat)" using of_char_less [of b] by linarith
  then show ?case using Cons by (simp add: hex_encode_Cons)
qed

lemma hex_encode_inj: "hex_encode a = hex_encode b \<longleftrightarrow> a = b"
  by (metis hex_decode_encode option.inject)

lemma length_hex_encode [simp, size_simps]: "length (hex_encode bs) = 2 * length bs"
  by (induction bs) (simp_all add: hex_encode_Cons)

section \<open>Reading from a finite input\<close>

text \<open>\<open>io.ReadFull\<close> of \<open>n\<close> bytes: the bytes and the rest of the input, or \<open>None\<close> when the input ends
  first (\<open>io.EOF\<close> or \<open>io.ErrUnexpectedEOF\<close>, which no caller here tells apart).\<close>

definition read_full :: "nat \<Rightarrow> bytes \<Rightarrow> (bytes \<times> bytes) option" where
  "read_full n inp = (if n \<le> length inp then Some (take n inp, drop n inp) else None)"

lemma read_full_append [simp, codec_simps]:
  "length a = n \<Longrightarrow> read_full n (a @ r) = Some (a, r)"
  by (simp add: read_full_def)

lemma read_full_be_put [simp, codec_simps]: "read_full k (be_put k n @ r) = Some (be_put k n, r)"
  by simp

lemma read_full_SomeD: "read_full n inp = Some (a, r) \<Longrightarrow> inp = a @ r \<and> length a = n"
  by (auto simp: read_full_def split: if_splits)

lemma read_full_None [simp]: "read_full n inp = None \<longleftrightarrow> length inp < n"
  by (auto simp: read_full_def)

section \<open>Self-delimiting encodings\<close>

text \<open>
  The contract of an encoding a reader can take off the front of a stream: decoding gives back the
  value and exactly the bytes behind it. \<open>ok\<close> is the domain on which the encoder keeps the contract
  (a length that fits its prefix). The two consequences are what the components need: a sequence of
  encoded values has one reading, and no non-empty encoding is empty.
\<close>

locale prefix_codec =
  fixes enc :: "'a \<Rightarrow> bytes"
    and dec :: "bytes \<Rightarrow> ('a \<times> bytes) option"
    and ok :: "'a \<Rightarrow> bool"
  assumes dec_enc: "ok x \<Longrightarrow> dec (enc x @ r) = Some (x, r)"
    and dec_Nil: "dec [] = None"
begin

lemma enc_append_inj:
  assumes "ok x" "ok y" "enc x @ r = enc y @ s"
  shows "x = y \<and> r = s"
proof -
  have "dec (enc x @ r) = Some (x, r)" using assms(1) by (rule dec_enc)
  moreover have "dec (enc x @ r) = Some (y, s)" using assms(2,3) dec_enc by simp
  ultimately show ?thesis by simp
qed

lemma enc_nonempty: "ok x \<Longrightarrow> enc x \<noteq> []"
  using dec_enc [of x "[]"] dec_Nil by auto

lemma concat_inj:
  "list_all ok xs \<Longrightarrow> list_all ok ys \<Longrightarrow> concat (map enc xs) = concat (map enc ys) \<Longrightarrow> xs = ys"
proof (induction xs arbitrary: ys)
  case Nil
  then show ?case by (cases ys) (auto dest: enc_nonempty)
next
  case (Cons x xs)
  from Cons.prems obtain y ys' where ys: "ys = y # ys'"
    by (cases ys) (auto dest: enc_nonempty)
  with Cons.prems have "x = y \<and> concat (map enc xs) = concat (map enc ys')"
    by (intro enc_append_inj) auto
  with Cons ys show ?case by auto
qed

lemma concat_append_inj:
  "list_all ok xs \<Longrightarrow> list_all ok ys \<Longrightarrow> length xs = length ys \<Longrightarrow>
   concat (map enc xs) @ r = concat (map enc ys) @ s \<Longrightarrow> xs = ys \<and> r = s"
proof (induction xs arbitrary: ys)
  case Nil
  then show ?case by simp
next
  case (Cons x xs)
  from Cons.prems(3) obtain y ys' where ys: "ys = y # ys'" by (cases ys) auto
  with Cons.prems have "x = y \<and> concat (map enc xs) @ r = concat (map enc ys') @ s"
    by (intro enc_append_inj) auto
  with Cons ys show ?case by auto
qed

end

section \<open>Lists\<close>

lemma take_append_cases:
  "take n (xs @ ys) = (if n \<le> length xs then take n xs else xs @ take (n - length xs) ys)"
  by simp

lemma append_eq_sep:
  "xs @ c # r = ys @ c # s \<Longrightarrow> c \<notin> set xs \<Longrightarrow> c \<notin> set ys \<Longrightarrow> xs = ys \<and> r = s"
proof (induction xs arbitrary: ys)
  case Nil
  then show ?case by (cases ys) auto
next
  case (Cons x xs)
  then show ?case by (cases ys) auto
qed

lemma append_eq_sep_last:
  "r @ c # xs = s @ c # ys \<Longrightarrow> c \<notin> set xs \<Longrightarrow> c \<notin> set ys \<Longrightarrow> r = s \<and> xs = ys"
  using append_eq_sep [of "rev xs" c "rev r" "rev ys" "rev s"]
  by (metis append_Cons append_Nil append_assoc rev_append rev_rev_ident rev_singleton_conv set_rev rev.simps(2))

lemma list_all_length_concat:
  "concat (map f xs) = [] \<Longrightarrow> x \<in> set xs \<Longrightarrow> f x = []"
  by auto

end
