(* ===== verification/GoText.thy ===== *)
theory GoText
  imports Prelude
begin

text \<open>
  The parts of Go's \<open>strings\<close>, \<open>unicode\<close> and \<open>unicode/utf8\<close> that the components use, on byte
  strings. \<open>runes\<close> is the decoding a \<open>range\<close> loop over a string performs: each step yields a rune with
  the bytes it came from, an invalid byte yielding \<open>U+FFFD\<close> with width one.

  \<open>to_lower\<close> is exact on ASCII and on the two runes whose lower case is ASCII (\<open>U+0130\<close> and
  \<open>U+212A\<close>), and leaves every other rune alone; so a comparison of \<open>to_lower s\<close> with an ASCII
  literal, a prefix or a suffix, the only use the modelled code makes of it, has the source's answer.
\<close>

section \<open>UTF-8\<close>

definition runeError :: nat where "runeError = 0xFFFD"

definition in_range :: "nat \<Rightarrow> nat \<Rightarrow> nat \<Rightarrow> bool" where
  "in_range lo hi b \<longleftrightarrow> lo \<le> b \<and> b \<le> hi"

text \<open>\<open>utf8.DecodeRuneInString\<close>, on the byte values: the rune and its width.\<close>

fun decode2 :: "nat \<Rightarrow> nat list \<Rightarrow> nat \<times> nat" where
  "decode2 b0 (b1 # bs) =
     (if in_range 0x80 0xBF b1 then ((b0 - 0xC0) * 64 + (b1 - 0x80), 2) else (runeError, 1))"
| "decode2 b0 [] = (runeError, 1)"

fun decode3 :: "nat \<Rightarrow> nat list \<Rightarrow> nat \<times> nat" where
  "decode3 b0 (b1 # b2 # bs) =
     (if in_range (if b0 = 0xE0 then 0xA0 else 0x80) (if b0 = 0xED then 0x9F else 0xBF) b1
         \<and> in_range 0x80 0xBF b2
      then ((b0 - 0xE0) * 4096 + (b1 - 0x80) * 64 + (b2 - 0x80), 3) else (runeError, 1))"
| "decode3 b0 _ = (runeError, 1)"

fun decode4 :: "nat \<Rightarrow> nat list \<Rightarrow> nat \<times> nat" where
  "decode4 b0 (b1 # b2 # b3 # bs) =
     (if in_range (if b0 = 0xF0 then 0x90 else 0x80) (if b0 = 0xF4 then 0x8F else 0xBF) b1
         \<and> in_range 0x80 0xBF b2 \<and> in_range 0x80 0xBF b3
      then ((b0 - 0xF0) * 262144 + (b1 - 0x80) * 4096 + (b2 - 0x80) * 64 + (b3 - 0x80), 4)
      else (runeError, 1))"
| "decode4 b0 _ = (runeError, 1)"

fun decode_vals :: "nat list \<Rightarrow> nat \<times> nat" where
  "decode_vals [] = (runeError, 0)"
| "decode_vals (b0 # bs) =
     (if b0 < 0x80 then (b0, 1)
      else if in_range 0xC2 0xDF b0 then decode2 b0 bs
      else if in_range 0xE0 0xEF b0 then decode3 b0 bs
      else if in_range 0xF0 0xF4 b0 then decode4 b0 bs
      else (runeError, 1))"

definition decode_rune :: "string \<Rightarrow> nat \<times> nat" where
  "decode_rune s = decode_vals (map of_char (take 4 s))"

lemma decode_multi_width:
  "1 \<le> snd (decode2 b0 bs) \<and> snd (decode2 b0 bs) \<le> Suc (length bs)"
  "1 \<le> snd (decode3 b0 bs) \<and> snd (decode3 b0 bs) \<le> Suc (length bs)"
  "1 \<le> snd (decode4 b0 bs) \<and> snd (decode4 b0 bs) \<le> Suc (length bs)"
proof -
  show "1 \<le> snd (decode2 b0 bs) \<and> snd (decode2 b0 bs) \<le> Suc (length bs)" by (cases bs) simp_all
  show "1 \<le> snd (decode3 b0 bs) \<and> snd (decode3 b0 bs) \<le> Suc (length bs)"
    by (cases "(b0, bs)" rule: decode3.cases) simp_all
  show "1 \<le> snd (decode4 b0 bs) \<and> snd (decode4 b0 bs) \<le> Suc (length bs)"
    by (cases "(b0, bs)" rule: decode4.cases) simp_all
qed

lemma decode_vals_width: "bs \<noteq> [] \<Longrightarrow> 1 \<le> snd (decode_vals bs) \<and> snd (decode_vals bs) \<le> length bs"
  using decode_multi_width by (cases bs) auto

lemma decode_rune_width:
  "s \<noteq> [] \<Longrightarrow> 1 \<le> snd (decode_rune s) \<and> snd (decode_rune s) \<le> length s"
  using decode_vals_width [of "map of_char (take 4 s)"] by (auto simp: decode_rune_def)

text \<open>The steps of a \<open>range\<close> loop: each rune with its bytes.\<close>

function runes :: "string \<Rightarrow> (nat \<times> string) list" where
  "runes s = (if s = [] then []
     else (let w = snd (decode_rune s) in (fst (decode_rune s), take w s) # runes (drop w s)))"
  by pat_completeness auto
termination
proof (relation "measure length", goal_cases)
  case 1
  show ?case by simp
next
  case (2 s w)
  then show ?case using decode_rune_width [of s] by auto
qed

declare runes.simps [simp del]

lemma runes_Nil [simp]: "runes [] = []"
  by (simp add: runes.simps)

lemma runes_step:
  "s \<noteq> [] \<Longrightarrow> runes s = (fst (decode_rune s), take (snd (decode_rune s)) s) # runes (drop (snd (decode_rune s)) s)"
  by (subst runes.simps) (simp add: Let_def)

lemma runes_ascii_Cons [simp]:
  "of_char c < (0x80::nat) \<Longrightarrow> runes (c # s) = (of_char c, [c]) # runes s"
  by (subst runes_step) (auto simp: decode_rune_def decode_vals.simps)

lemma concat_runes [simp]: "concat (map snd (runes s)) = s"
proof (induction s rule: runes.induct)
  case (1 s)
  then show ?case
    by (cases "s = []") (simp_all add: runes_step)
qed

lemma runes_bytes: "rb \<in> set (runes s) \<Longrightarrow> set (snd rb) \<subseteq> set s"
  by (metis concat_runes image_eqI set_concat set_map Union_upper)

text \<open>\<open>utf8.ValidString\<close>: no step decodes an invalid byte.\<close>

definition rune_ok :: "nat \<times> string \<Rightarrow> bool" where
  "rune_ok rb \<longleftrightarrow> \<not> (fst rb = runeError \<and> length (snd rb) = 1)"

definition utf8_valid :: "string \<Rightarrow> bool" where
  "utf8_valid s \<longleftrightarrow> list_all rune_ok (runes s)"

text \<open>\<open>utf8.AppendRune\<close> on a valid rune.\<close>

definition encode_rune :: "nat \<Rightarrow> string" where
  "encode_rune r =
     (if r < 0x80 then [char_of r]
      else if r < 0x800 then [char_of (0xC0 + r div 64), char_of (0x80 + r mod 64)]
      else if r < 0x10000 then
        [char_of (0xE0 + r div 4096), char_of (0x80 + r div 64 mod 64), char_of (0x80 + r mod 64)]
      else [char_of (0xF0 + r div 262144), char_of (0x80 + r div 4096 mod 64),
            char_of (0x80 + r div 64 mod 64), char_of (0x80 + r mod 64)])"

section \<open>Case, white space, prefixes and suffixes\<close>

definition lower_char :: "char \<Rightarrow> char" where
  "lower_char c = (let n = (of_char c :: nat) in if 0x41 \<le> n \<and> n \<le> 0x5A then char_of (n + 32) else c)"

definition lower_rune :: "nat \<times> string \<Rightarrow> string" where
  "lower_rune rb = (let (r, bs) = rb in
     if r = 0x130 then ''i'' else if r = 0x212A then ''k''
     else if rune_ok rb then map lower_char bs else encode_rune runeError)"

text \<open>\<open>strings.ToLower\<close>.\<close>

definition to_lower :: "string \<Rightarrow> string" where
  "to_lower s = concat (map lower_rune (runes s))"

text \<open>\<open>unicode.IsSpace\<close>.\<close>

definition is_space :: "nat \<Rightarrow> bool" where
  "is_space r \<longleftrightarrow> (9 \<le> r \<and> r \<le> 13) \<or> r = 0x20 \<or> r = 0x85 \<or> r = 0xA0 \<or> r = 0x1680 \<or>
     (0x2000 \<le> r \<and> r \<le> 0x200a) \<or> r = 0x2028 \<or> r = 0x2029 \<or> r = 0x202f \<or> r = 0x205f \<or> r = 0x3000"

text \<open>\<open>strings.TrimSpace\<close>: the steps of the decoding with a white-space rune are dropped at both
  ends. (The source trims the right end by decoding backwards; UTF-8 is self-synchronising, so a
  white-space rune at the end is a step of the forward decoding too.)\<close>

definition trim_runes :: "(nat \<times> string) list \<Rightarrow> (nat \<times> string) list" where
  "trim_runes rs = rev (dropWhile (\<lambda>rb. is_space (fst rb)) (rev (dropWhile (\<lambda>rb. is_space (fst rb)) rs)))"

definition trim_space :: "string \<Rightarrow> string" where
  "trim_space s = concat (map snd (trim_runes (runes s)))"

definition has_prefix :: "string \<Rightarrow> string \<Rightarrow> bool" where
  "has_prefix s p \<longleftrightarrow> take (length p) s = p"

definition has_suffix :: "string \<Rightarrow> string \<Rightarrow> bool" where
  "has_suffix s p \<longleftrightarrow> length p \<le> length s \<and> drop (length s - length p) s = p"

definition trim_prefix :: "string \<Rightarrow> string \<Rightarrow> string" where
  "trim_prefix s p = (if has_prefix s p then drop (length p) s else s)"

definition trim_suffix :: "string \<Rightarrow> string \<Rightarrow> string" where
  "trim_suffix s p = (if has_suffix s p then take (length s - length p) s else s)"

text \<open>\<open>strings.TrimRight\<close> with an ASCII cutset.\<close>

definition trim_right :: "string \<Rightarrow> string \<Rightarrow> string" where
  "trim_right s cset = rev (dropWhile (\<lambda>c. c \<in> set cset) (rev s))"

section \<open>Lemmas\<close>

lemma has_prefix_append [simp]: "has_prefix (p @ s) p"
  by (simp add: has_prefix_def)

lemma has_suffix_append [simp]: "has_suffix (s @ p) p"
  by (simp add: has_suffix_def)

lemma has_suffixE: "has_suffix s p \<Longrightarrow> \<exists>t. s = t @ p"
  by (metis append_take_drop_id has_suffix_def)

lemma trim_suffix_append [simp]: "trim_suffix (s @ p) p = s"
  by (simp add: trim_suffix_def)

lemma trim_right_set: "set (trim_right s cset) \<subseteq> set s"
  using set_dropWhileD by (fastforce simp: trim_right_def)

lemma trim_right_last: "trim_right s cset \<noteq> [] \<Longrightarrow> last (trim_right s cset) \<notin> set cset"
proof -
  assume ne: "trim_right s cset \<noteq> []"
  let ?d = "dropWhile (\<lambda>c. c \<in> set cset) (rev s)"
  have d: "?d \<noteq> []" using ne by (simp add: trim_right_def)
  then have "\<not> hd ?d \<in> set cset" by (rule hd_dropWhile)
  then show ?thesis using d by (simp add: trim_right_def last_rev)
qed

lemma trim_right_prefix: "\<exists>t. s = trim_right s cset @ t"
proof -
  have "rev s = takeWhile (\<lambda>c. c \<in> set cset) (rev s) @ dropWhile (\<lambda>c. c \<in> set cset) (rev s)" by simp
  then have "s = trim_right s cset @ rev (takeWhile (\<lambda>c. c \<in> set cset) (rev s))"
    by (metis rev_append rev_rev_ident trim_right_def)
  then show ?thesis by blast
qed

lemma trim_runes_sublist: "set (trim_runes rs) \<subseteq> set rs"
  by (auto simp: trim_runes_def dest!: set_dropWhileD)

lemma trim_space_set: "set (trim_space s) \<subseteq> set s"
  using trim_runes_sublist [of "runes s"] runes_bytes by (fastforce simp: trim_space_def)

lemma trim_space_Nil [simp]: "trim_space [] = []"
  by (simp add: trim_space_def trim_runes_def)

lemma runes_ascii:
  "list_all (\<lambda>c. of_char c < (0x80::nat)) s \<Longrightarrow> runes s = map (\<lambda>c. (of_char c, [c])) s"
  by (induction s) auto

lemma trim_space_ascii_id:
  assumes "list_all (\<lambda>c. of_char c < (0x80::nat)) s" "s \<noteq> []"
    "\<not> is_space (of_char (hd s))" "\<not> is_space (of_char (last s))"
  shows "trim_space s = s"
proof -
  have hd: "dropWhile (\<lambda>rb. is_space (fst rb)) (map (\<lambda>c. (of_char c, [c])) s) = map (\<lambda>c. (of_char c, [c])) s"
    using assms(2,3) by (cases s) auto
  have tl: "dropWhile (\<lambda>rb. is_space (fst rb)) (rev (map (\<lambda>c. (of_char c, [c])) s))
      = rev (map (\<lambda>c. (of_char c, [c])) s)"
    using assms(2,4) by (cases s rule: rev_cases) auto
  have "concat (map snd (map (\<lambda>c. (of_char c :: nat, [c])) s)) = s" by (induction s) auto
  then show ?thesis using assms(1) by (simp add: trim_space_def trim_runes_def runes_ascii hd tl)
qed

lemma to_lower_ascii:
  "list_all (\<lambda>c. of_char c < (0x80::nat)) s \<Longrightarrow> to_lower s = map lower_char s"
  by (induction s) (auto simp: to_lower_def lower_rune_def rune_ok_def runeError_def)

section \<open>ASCII bytes in the decoding\<close>

lemma not_in_range_ascii:
  assumes "x < (0x80::nat)"
  shows "\<not> in_range 0x80 h x" "\<not> in_range (if P then 0xA0 else 0x80) h x"
    "\<not> in_range (if P then 0x90 else 0x80) h x"
  using assms by (simp_all add: in_range_def)

lemma decode_multi_snoc:
  assumes "x < (0x80::nat)"
  shows "decode2 b0 (bs @ [x]) = decode2 b0 bs"
    "decode3 b0 (bs @ [x]) = decode3 b0 bs"
    "decode4 b0 (bs @ [x]) = decode4 b0 bs"
proof -
  note ns = not_in_range_ascii [OF assms]
  show "decode2 b0 (bs @ [x]) = decode2 b0 bs" using ns by (cases bs) simp_all
  show "decode3 b0 (bs @ [x]) = decode3 b0 bs"
    using ns by (cases "(b0, bs)" rule: decode3.cases) (simp_all split del: if_split)
  show "decode4 b0 (bs @ [x]) = decode4 b0 bs"
    using ns by (cases "(b0, bs)" rule: decode4.cases) (simp_all split del: if_split)
qed

lemma decode_vals_ascii_snoc:
  "bs \<noteq> [] \<Longrightarrow> x < 0x80 \<Longrightarrow> decode_vals (bs @ [x]) = decode_vals bs"
  by (cases bs) (simp_all add: decode_multi_snoc)

lemma decode_rune_ascii_snoc:
  assumes "s \<noteq> []" "of_char c < (0x80::nat)"
  shows "decode_rune (s @ [c]) = decode_rune s"
proof (cases "4 \<le> length s")
  case True
  then show ?thesis by (simp add: decode_rune_def)
next
  case False
  then have "take 4 (s @ [c]) = s @ [c]" "take 4 s = s" by simp_all
  then show ?thesis using assms decode_vals_ascii_snoc [of "map of_char s" "of_char c"]
    by (simp add: decode_rune_def)
qed

lemma runes_ascii_snoc:
  "of_char c < (0x80::nat) \<Longrightarrow> runes (s @ [c]) = runes s @ [(of_char c, [c])]"
proof (induction s rule: runes.induct)
  case (1 s)
  show ?case
  proof (cases "s = []")
    case True
    then show ?thesis using 1(2) by simp
  next
    case False
    let ?w = "snd (decode_rune s)"
    have w: "?w \<le> length s" using decode_rune_width [OF False] by simp
    have d: "decode_rune (s @ [c]) = decode_rune s" using False 1(2) by (rule decode_rune_ascii_snoc)
    have ih: "runes (drop ?w s @ [c]) = runes (drop ?w s) @ [(of_char c, [c])]"
      using False 1(2) by (intro 1(1)) auto
    have "runes (s @ [c]) = (fst (decode_rune s), take ?w s) # runes (drop ?w s @ [c])"
      using w d by (subst runes_step) simp_all
    then show ?thesis using ih runes_step [OF False] by simp
  qed
qed

lemma runes_trim_right:
  assumes "list_all (\<lambda>c. of_char c < (0x80::nat)) cset"
  shows "set (runes (trim_right s cset)) \<subseteq> set (runes s)"
proof (induction s rule: rev_induct)
  case Nil
  show ?case by (simp add: trim_right_def)
next
  case (snoc c s)
  then show ?case using assms by (auto simp: trim_right_def runes_ascii_snoc list_all_iff)
qed

text \<open>An ASCII byte is always a step of its own.\<close>

lemma in_range_high:
  "in_range lo hi b \<Longrightarrow> 0x80 \<le> lo \<Longrightarrow> 0x80 \<le> (b :: nat)"
  by (simp add: in_range_def)

lemma decode2_high:
  "0x80 \<le> b0 \<Longrightarrow> 1 < snd (decode2 b0 bs) \<Longrightarrow> b \<in> set (take (snd (decode2 b0 bs)) (b0 # bs)) \<Longrightarrow> 0x80 \<le> b"
  by (cases bs) (auto dest: in_range_high split: if_splits)

lemma decode3_high:
  "0x80 \<le> b0 \<Longrightarrow> 1 < snd (decode3 b0 bs) \<Longrightarrow> b \<in> set (take (snd (decode3 b0 bs)) (b0 # bs)) \<Longrightarrow> 0x80 \<le> b"
  by (cases "(b0, bs)" rule: decode3.cases)
    (auto dest: in_range_high simp: numeral_3_eq_3 split: if_splits)

lemma decode4_multi:
  "1 < snd (decode4 b0 bs) \<Longrightarrow> snd (decode4 b0 bs) = 4 \<and>
     (\<exists>b1 b2 b3 r. bs = b1 # b2 # b3 # r \<and> 0x80 \<le> b1 \<and> 0x80 \<le> b2 \<and> 0x80 \<le> b3)"
proof (cases "(b0, bs)" rule: decode4.cases)
  case (1 c0 b1 b2 b3 r)
  assume "1 < snd (decode4 b0 bs)"
  then have c: "in_range (if b0 = 0xF0 then 0x90 else 0x80) (if b0 = 0xF4 then 0x8F else 0xBF) b1 \<and>
      in_range 0x80 0xBF b2 \<and> in_range 0x80 0xBF b3"
    using 1 by (simp only: prod.inject decode4.simps split: if_splits) simp_all
  have lo: "0x80 \<le> (if b0 = 0xF0 then 0x90 else 0x80 :: nat)" by simp
  have h: "0x80 \<le> b1" using c in_range_high [OF _ lo] by blast
  have h': "0x80 \<le> b2" "0x80 \<le> b3" using c in_range_high [OF _ order_refl] by blast+
  have bs: "bs = b1 # b2 # b3 # r" using 1 by (simp only: prod.inject)
  have "snd (decode4 b0 bs) = 4" unfolding bs decode4.simps using c by (simp only: if_True snd_conv simp_thms)
  then show ?thesis using bs h h' by blast
qed simp_all

lemma decode4_high:
  "0x80 \<le> b0 \<Longrightarrow> 1 < snd (decode4 b0 bs) \<Longrightarrow> b \<in> set (take (snd (decode4 b0 bs)) (b0 # bs)) \<Longrightarrow> 0x80 \<le> b"
  using decode4_multi [of b0 bs] by (auto simp: take_Cons')

lemma decode_vals_high:
  "1 < snd (decode_vals bs) \<Longrightarrow> b \<in> set (take (snd (decode_vals bs)) bs) \<Longrightarrow> 0x80 \<le> b"
proof (cases bs)
  case (Cons b0 l)
  assume "1 < snd (decode_vals bs)" "b \<in> set (take (snd (decode_vals bs)) bs)"
  then show ?thesis
    using Cons decode2_high [of b0 l b] decode3_high [of b0 l b] decode4_high [of b0 l b]
    by (simp split: if_splits)
qed simp

lemma decode_vals_max: "snd (decode_vals bs) \<le> 4"
proof -
  have "snd (decode2 b l) \<le> 4" for b l by (cases l) auto
  moreover have "snd (decode3 b l) \<le> 4" for b l by (cases "(b, l)" rule: decode3.cases) auto
  moreover have "snd (decode4 b l) \<le> 4" for b l by (cases "(b, l)" rule: decode4.cases) auto
  ultimately show ?thesis by (cases bs) auto
qed

lemma runes_ascii_mem:
  "c \<in> set s \<Longrightarrow> of_char c < (0x80::nat) \<Longrightarrow> (of_char c, [c]) \<in> set (runes s)"
proof (induction s rule: runes.induct)
  case (1 s)
  then have ne: "s \<noteq> []" by auto
  let ?w = "snd (decode_rune s)"
  have st: "runes s = (fst (decode_rune s), take ?w s) # runes (drop ?w s)" using ne by (rule runes_step)
  have "s = take ?w s @ drop ?w s" by simp
  then have "c \<in> set (take ?w s) \<or> c \<in> set (drop ?w s)" using 1(2) by (metis Un_iff set_append)
  then show ?case
  proof
    assume cin: "c \<in> set (take ?w s)"
    show ?thesis
    proof (cases "1 < ?w")
      case True
      have w4: "?w \<le> 4" by (simp add: decode_rune_def decode_vals_max)
      have "of_char c \<in> set (take ?w (map of_char (take 4 s)) :: nat list)"
        using cin w4 by (auto simp: take_map min_absorb1)
      then have "0x80 \<le> (of_char c :: nat)"
        using True decode_vals_high by (simp add: decode_rune_def)
      then show ?thesis using 1(3) by simp
    next
      case False
      then have w1: "?w = 1" using decode_rune_width [OF ne] by simp
      obtain d s' where s: "s = d # s'" using ne by (cases s) auto
      with w1 cin have "d = c" by simp
      then show ?thesis using s 1(3) by simp
    qed
  next
    assume "c \<in> set (drop ?w s)"
    then have "(of_char c, [c]) \<in> set (runes (drop ?w s))" using ne 1(3) by (intro 1(1)) auto
    then show ?thesis using st by simp
  qed
qed

text \<open>A rune below \<open>0x80\<close> is its own byte.\<close>

lemma decode_multi_low:
  "in_range 0xC2 0xDF b \<Longrightarrow> 0x80 \<le> fst (decode2 b l)"
  "in_range 0xE0 0xEF b \<Longrightarrow> 0x80 \<le> fst (decode3 b l)"
  "in_range 0xF0 0xF4 b \<Longrightarrow> 0x80 \<le> fst (decode4 b l)"
proof -
  show "in_range 0xC2 0xDF b \<Longrightarrow> 0x80 \<le> fst (decode2 b l)"
    by (cases l) (auto simp: runeError_def in_range_def)
  have a: "0x80 \<le> (b - 0xE0) * 4096 + (c - 0x80) * 64 + d" if "0xA0 \<le> c \<or> 0xE0 < b" for b c d :: nat
    using that by (cases "0xA0 \<le> c") auto
  show "in_range 0xE0 0xEF b \<Longrightarrow> 0x80 \<le> fst (decode3 b l)"
    using a [of "hd l" b] by (cases "(b, l)" rule: decode3.cases) (auto simp: runeError_def in_range_def)
  have e: "0x80 \<le> (b - 0xF0) * 262144 + (c - 0x80) * 4096 + d + f" if "0x90 \<le> c \<or> 0xF0 < b" for b c d f :: nat
    using that by (cases "0x90 \<le> c") auto
  show "in_range 0xF0 0xF4 b \<Longrightarrow> 0x80 \<le> fst (decode4 b l)"
    using e [of "hd l" b] by (cases "(b, l)" rule: decode4.cases) (auto simp: runeError_def in_range_def)
qed

lemma decode_vals_low:
  assumes "bs \<noteq> []" "fst (decode_vals bs) < 0x80"
  shows "decode_vals bs = (hd bs, 1) \<and> hd bs < 0x80"
  using assms decode_multi_low [of "hd bs" "tl bs"] by (cases bs) (auto simp: runeError_def split: if_splits)

lemma runes_low: "rb \<in> set (runes s) \<Longrightarrow> fst rb < 0x80 \<Longrightarrow> snd rb = [char_of (fst rb)]"
proof (induction s rule: runes.induct)
  case (1 s)
  then have ne: "s \<noteq> []" by auto
  then obtain c s' where s: "s = c # s'" by (cases s) auto
  have "snd rb = [char_of (fst rb)]" if "rb = (fst (decode_rune s), take (snd (decode_rune s)) s)"
    using that 1(3) decode_vals_low [of "map of_char (take 4 s)"] s by (auto simp: decode_rune_def)
  then show ?case using 1 ne by (auto simp: runes_step [OF ne])
qed

text \<open>\<open>strings.EqualFold\<close>, for the letters of ASCII (the folding of other letters is not modelled).\<close>

definition equal_fold :: "string \<Rightarrow> string \<Rightarrow> bool" where
  "equal_fold a b \<longleftrightarrow> map lower_char a = map lower_char b"

lemma equal_fold_equiv [simp, intro]: "equal_fold a a" "equal_fold a b \<Longrightarrow> equal_fold b a"
  by (simp_all add: equal_fold_def)

lemma equal_fold_trans [trans]: "equal_fold a b \<Longrightarrow> equal_fold b c \<Longrightarrow> equal_fold a c"
  by (simp add: equal_fold_def)

lemma equal_fold_cong: "equal_fold a b \<Longrightarrow> equal_fold a c \<longleftrightarrow> equal_fold b c"
  by (simp add: equal_fold_def)

section \<open>Decimal numbers\<close>

text \<open>\<open>strconv.Itoa\<close> and \<open>strconv.FormatInt(n, 10)\<close>.\<close>

fun digits :: "nat \<Rightarrow> string" where
  "digits n = (if n < 10 then [char_of (48 + n)] else digits (n div 10) @ [char_of (48 + n mod 10)])"

declare digits.simps [simp del]

definition itoa :: "int \<Rightarrow> string" where
  "itoa n = (if n < 0 then CHR ''-'' # digits (nat (- n)) else digits (nat n))"

definition is_digit :: "char \<Rightarrow> bool" where
  "is_digit c \<longleftrightarrow> 48 \<le> (of_char c :: nat) \<and> of_char c \<le> (57 :: nat)"

text \<open>The value of a decimal numeral; \<open>None\<close> on an empty one or one with another character.\<close>

definition digits_value :: "string \<Rightarrow> nat option" where
  "digits_value s = (if s \<noteq> [] \<and> list_all is_digit s
     then Some (foldl (\<lambda>a c. a * 10 + (of_char c - 48)) 0 s) else None)"

lemma digits_value_digits [simp]: "digits_value (digits n) = Some n"
proof (induction n rule: less_induct)
  case (less n)
  have "digits_value (digits (n div 10)) = Some (n div 10)" if "\<not> n < 10" using that by (intro less.IH) simp
  then show ?case
    by (subst digits.simps) (auto simp: digits_value_def is_digit_def split: if_splits)
qed

lemma digits_inj: "digits m = digits n \<longleftrightarrow> m = n"
  by (metis digits_value_digits option.inject)

lemma digits_set: "c \<in> set (digits n) \<Longrightarrow> is_digit c"
  using digits_value_digits [of n] by (auto simp: digits_value_def list_all_iff split: if_splits)

lemma digits_ne [simp]: "digits n \<noteq> []"
  using digits_value_digits [of n] by (auto simp: digits_value_def)

lemma is_digit_not [simp]:
  "\<not> is_digit (CHR ''-'')" "\<not> is_digit (CHR '':'')" "\<not> is_digit (CHR ''['')" "\<not> is_digit (CHR '']'')"
  by (simp_all add: is_digit_def of_char_Char horner_sum_simps)

lemma itoa_inj: "itoa m = itoa n \<longleftrightarrow> m = n"
proof -
  have no: "CHR ''-'' # s \<noteq> digits k" for s k
    using digits_set [of "CHR ''-''" k] by (metis is_digit_not(1) list.set_intros(1))
  then have no': "digits k \<noteq> CHR ''-'' # s" for s k by metis
  show ?thesis by (cases "m < 0"; cases "n < 0") (simp_all add: itoa_def digits_inj no no', linarith+)
qed

lemma itoa_no_nul: "CHR 0x00 \<notin> set (itoa n)"
  using digits_set [of "CHR 0x00"] by (auto simp: itoa_def is_digit_def)

end
