(* ===== verification/GoPath.thy ===== *)
theory GoPath
  imports GoText
begin

text \<open>
  \<open>path/filepath\<close> as it behaves on Unix (separator \<open>/\<close>, no volume names): \<open>Clean\<close>, \<open>Join\<close> of two
  elements, \<open>Dir\<close>, \<open>Base\<close>, \<open>Split\<close> and \<open>Ext\<close>. \<open>Clean\<close> is computed on the list of components, the
  form in which its laws are provable; the last section shows that joining a plain name onto a
  directory stays in that directory.
\<close>

definition sep :: char where "sep = CHR ''/''"

text \<open>The components of a path: the maximal parts without a separator (\<open>strings.Split(p, "/")\<close>).\<close>

fun split_sep :: "string \<Rightarrow> string list" where
  "split_sep [] = [[]]"
| "split_sep (c # cs) =
     (if c = sep then [] # split_sep cs
      else (case split_sep cs of [] \<Rightarrow> [[c]] | p # ps \<Rightarrow> (c # p) # ps))"

fun join_sep :: "string list \<Rightarrow> string" where
  "join_sep [] = []"
| "join_sep [p] = p"
| "join_sep (p # q # ps) = p @ sep # join_sep (q # ps)"

text \<open>One component of \<open>Clean\<close>'s loop over the output built so far (last component first).\<close>

definition clean_step :: "bool \<Rightarrow> string \<Rightarrow> string list \<Rightarrow> string list" where
  "clean_step rooted c out =
     (if c = [] \<or> c = ''.'' then out
      else if c = ''..'' then
        (case out of
           [] \<Rightarrow> if rooted then [] else [''..'']
         | d # ds \<Rightarrow> if d = ''..'' then c # out else ds)
      else c # out)"

definition clean_comps :: "bool \<Rightarrow> string list \<Rightarrow> string list" where
  "clean_comps rooted cs = rev (fold (clean_step rooted) cs [])"

definition rooted :: "string \<Rightarrow> bool" where
  "rooted p \<longleftrightarrow> p \<noteq> [] \<and> hd p = sep"

definition render :: "bool \<Rightarrow> string list \<Rightarrow> string" where
  "render r cs = (if r then sep # join_sep cs else if cs = [] then ''.'' else join_sep cs)"

definition Clean :: "string \<Rightarrow> string" where
  "Clean p = render (rooted p) (clean_comps (rooted p) (split_sep p))"

text \<open>\<open>filepath.Join(a, b)\<close>: empty leading elements are skipped.\<close>

definition Join :: "string \<Rightarrow> string \<Rightarrow> string" where
  "Join a b = (if a \<noteq> [] then Clean (a @ sep # b) else if b \<noteq> [] then Clean b else [])"

text \<open>Everything up to and including the last separator, and the rest (\<open>filepath.Split\<close>).\<close>

definition split_last :: "string \<Rightarrow> string \<times> string" where
  "split_last p = (let f = rev (takeWhile (\<lambda>c. c \<noteq> sep) (rev p)) in (take (length p - length f) p, f))"

definition Dir :: "string \<Rightarrow> string" where
  "Dir p = Clean (fst (split_last p))"

definition Base :: "string \<Rightarrow> string" where
  "Base p = (if p = [] then ''.''
     else (let q = trim_right p [sep]; f = snd (split_last q) in if f = [] then [sep] else f))"

text \<open>\<open>filepath.Ext\<close>: from the last dot of the last element.\<close>

definition Ext :: "string \<Rightarrow> string" where
  "Ext p = (let f = snd (split_last p); e = takeWhile (\<lambda>c. c \<noteq> CHR ''.'') (rev f) in
     if length e < length f then CHR ''.'' # rev e else [])"

section \<open>Components\<close>

lemma split_sep_ne [simp]: "split_sep p \<noteq> []"
  by (cases p) (auto split: list.splits)

lemma split_sep_plain [simp]: "sep \<notin> set p \<Longrightarrow> split_sep p = [p]"
  by (induction p) auto

lemma split_sep_append: "split_sep (p @ sep # q) = split_sep p @ split_sep q"
proof (induction p)
  case Nil
  show ?case by simp
next
  case (Cons c p)
  then show ?case by (cases "split_sep p") auto
qed

lemma split_sep_no_sep: "c \<in> set (split_sep p) \<Longrightarrow> sep \<notin> set c"
  by (induction p arbitrary: c) (fastforce split: if_splits list.splits)+

lemma split_join:
  "cs \<noteq> [] \<Longrightarrow> list_all (\<lambda>c. sep \<notin> set c) cs \<Longrightarrow> split_sep (join_sep cs) = cs"
  by (induction cs rule: join_sep.induct) (auto simp: split_sep_append)

lemma join_sep_snoc: "cs \<noteq> [] \<Longrightarrow> join_sep (cs @ [c]) = join_sep cs @ sep # c"
  by (induction cs rule: join_sep.induct) auto

lemma split_last_plain [simp]: "sep \<notin> set f \<Longrightarrow> split_last f = ([], f)"
proof -
  assume "sep \<notin> set f"
  then have tw: "takeWhile (\<lambda>c. c \<noteq> sep) (rev f) = rev f" by (auto simp: takeWhile_eq_all_conv)
  show ?thesis by (simp only: split_last_def tw) simp
qed

lemma split_last_sep [simp]: "sep \<notin> set f \<Longrightarrow> split_last (d @ sep # f) = (d @ [sep], f)"
proof -
  assume "sep \<notin> set f"
  then have "takeWhile (\<lambda>c. c \<noteq> sep) (rev f @ sep # rev d) = rev f"
    by (subst takeWhile_append2) auto
  then show ?thesis by (simp add: split_last_def)
qed

lemma snd_split_last_no_sep: "sep \<notin> set (snd (split_last p))"
  by (auto simp: split_last_def Let_def dest: set_takeWhileD)

text \<open>The components \<open>Clean\<close> leaves: no empty or dot component, and dot-dots only in front of a
  relative path.\<close>

fun dotdots_first :: "bool \<Rightarrow> string list \<Rightarrow> bool" where
  "dotdots_first r [] = True"
| "dotdots_first r (c # cs) =
     (if c = ''..'' then \<not> r \<and> dotdots_first r cs else list_all (\<lambda>c. c \<noteq> ''..'') cs)"

definition clean_list :: "bool \<Rightarrow> string list \<Rightarrow> bool" where
  "clean_list r cs \<longleftrightarrow>
     list_all (\<lambda>c. c \<noteq> [] \<and> c \<noteq> ''.'' \<and> sep \<notin> set c) cs \<and> dotdots_first r cs"

lemma dotdots_first_snoc:
  "dotdots_first r (cs @ [c]) \<longleftrightarrow> dotdots_first r cs \<and>
     (c = ''..'' \<longrightarrow> \<not> r \<and> list_all (\<lambda>d. d = ''..'') cs)"
  by (induction cs) (auto simp: list_all_iff)

lemma dotdots_first_last:
  "dotdots_first r (cs @ [''..'']) \<Longrightarrow> list_all (\<lambda>d. d = ''..'') cs"
  by (simp add: dotdots_first_snoc)

lemma clean_step_list:
  assumes "clean_list r (rev out)" "sep \<notin> set c"
  shows "clean_list r (rev (clean_step r c out))"
proof (cases out)
  case Nil
  then show ?thesis using assms
    by (auto simp: clean_step_def clean_list_def sep_def)
next
  case (Cons d ds)
  have snoc: "dotdots_first r (rev ds @ [d, e]) \<longleftrightarrow> dotdots_first r (rev ds @ [d]) \<and>
      (e = ''..'' \<longrightarrow> \<not> r \<and> list_all (\<lambda>d. d = ''..'') (rev ds @ [d]))" for e
    using dotdots_first_snoc [of r "rev ds @ [d]" e] by simp
  have inv: "dotdots_first r (rev ds @ [d])" using assms(1) Cons by (simp add: clean_list_def)
  then have "dotdots_first r (rev ds)" "d = ''..'' \<Longrightarrow> list_all (\<lambda>d. d = ''..'') (rev ds)"
    "d = ''..'' \<Longrightarrow> \<not> r"
    by (simp_all add: dotdots_first_snoc)
  then show ?thesis using assms Cons inv snoc [of c]
    by (cases r; cases "c = ''..''"; cases "d = ''..''")
      (auto simp: clean_step_def clean_list_def sep_def list_all_iff)
qed

lemma clean_fold_list:
  "clean_list r (rev out) \<Longrightarrow> list_all (\<lambda>c. sep \<notin> set c) cs \<Longrightarrow>
   clean_list r (rev (fold (clean_step r) cs out))"
  by (induction cs arbitrary: out) (auto intro: clean_step_list)

lemma clean_comps_list: "clean_list r (clean_comps r (split_sep p))"
  unfolding clean_comps_def
  by (rule clean_fold_list) (auto simp: clean_list_def list_all_iff dest: split_sep_no_sep)

text \<open>Cleaning a clean list changes nothing.\<close>

lemma clean_step_clean:
  "clean_list r (rev out @ [c]) \<Longrightarrow> clean_step r c out = c # out"
proof (cases out)
  case Nil
  then show "clean_list r (rev out @ [c]) \<Longrightarrow> ?thesis"
    by (auto simp: clean_step_def clean_list_def)
next
  case (Cons a ds)
  assume "clean_list r (rev out @ [c])"
  then have "clean_list r ((rev ds @ [a]) @ [c])" using Cons by simp
  then have "c = ''..'' \<Longrightarrow> a = ''..''" "c \<noteq> []" "c \<noteq> ''.''"
    by (auto simp: clean_list_def dotdots_first_snoc simp del: append_assoc rev.simps)
  then show ?thesis using Cons by (auto simp: clean_step_def)
qed

lemma clean_list_append1: "clean_list r (cs @ ds) \<Longrightarrow> clean_list r cs"
proof (induction ds rule: rev_induct)
  case Nil
  then show ?case by simp
next
  case (snoc d ds)
  have "clean_list r (cs @ ds)"
    using snoc.prems dotdots_first_snoc [of r "cs @ ds" d] by (simp add: clean_list_def)
  then show ?case by (rule snoc.IH)
qed

lemma clean_fold_clean:
  "clean_list r (rev out @ cs) \<Longrightarrow> fold (clean_step r) cs out = rev cs @ out"
proof (induction cs arbitrary: out)
  case Nil
  show ?case by simp
next
  case (Cons c cs)
  have "clean_list r ((rev out @ [c]) @ cs)" using Cons.prems by simp
  then have "clean_list r (rev out @ [c])" by (rule clean_list_append1)
  then have st: "clean_step r c out = c # out" by (rule clean_step_clean)
  have "fold (clean_step r) cs (c # out) = rev cs @ c # out"
    using Cons.prems by (intro Cons.IH) simp
  then show ?case using st by simp
qed

lemma clean_comps_clean: "clean_list r cs \<Longrightarrow> clean_comps r cs = cs"
  using clean_fold_clean [of r "[]" cs] by (simp add: clean_comps_def)

lemma Clean_Nil [simp]: "Clean [] = ''.''"
  by (simp add: Clean_def rooted_def render_def clean_comps_def clean_step_def)

section \<open>Joining a plain name\<close>

definition plain_name :: "string \<Rightarrow> bool" where
  "plain_name n \<longleftrightarrow> n \<noteq> [] \<and> n \<noteq> ''.'' \<and> n \<noteq> ''..'' \<and> sep \<notin> set n"

lemma clean_comps_snoc:
  "plain_name n \<Longrightarrow> clean_comps r (cs @ [n]) = clean_comps r cs @ [n]"
  by (simp add: clean_comps_def clean_step_def plain_name_def)

lemma rooted_append [simp]: "d \<noteq> [] \<Longrightarrow> rooted (d @ e) = rooted d"
  by (cases d) (auto simp: rooted_def)

lemma split_sep_rooted: "split_sep (sep # p) = [] # split_sep p"
  by simp

lemma clean_comps_lead [simp]: "clean_comps r ([] # cs) = clean_comps r cs"
  by (simp add: clean_comps_def clean_step_def)

lemma clean_comps_trail [simp]: "clean_comps r (cs @ [[]]) = clean_comps r cs"
  by (simp add: clean_comps_def clean_step_def)

lemma join_not_rooted:
  "clean_list r cs \<Longrightarrow> cs \<noteq> [] \<Longrightarrow> \<not> rooted (join_sep cs @ e)"
  by (cases cs rule: join_sep.cases) (auto simp: rooted_def clean_list_def hd_append dest: hd_in_set)

text \<open>\<open>Clean\<close> of a rendered clean list, with a trailing separator, is the rendered list.\<close>

lemma Clean_render_trailing:
  assumes "clean_list r cs" "cs \<noteq> [] \<or> r"
  shows "Clean (if cs = [] then [sep] else (if r then [sep] else []) @ join_sep cs @ [sep]) = render r cs"
proof (cases "cs = []")
  case True
  then show ?thesis using assms
    by (simp add: Clean_def rooted_def render_def clean_comps_def clean_step_def)
next
  case False
  have ns: "list_all (\<lambda>c. sep \<notin> set c) cs" using assms(1) by (auto simp: clean_list_def list_all_iff)
  have sj: "split_sep (join_sep cs @ [sep]) = cs @ [[]]"
    using split_sep_append [of "join_sep cs" "[]"] split_join [OF False ns] by simp
  have cc: "clean_comps r cs = cs" using assms(1) by (rule clean_comps_clean)
  show ?thesis
  proof (cases r)
    case True
    then show ?thesis using False sj cc by (simp add: Clean_def rooted_def)
  next
    case False
    have "\<not> rooted (join_sep cs @ [sep])" using assms(1) \<open>cs \<noteq> []\<close> by (rule join_not_rooted)
    then show ?thesis using False \<open>cs \<noteq> []\<close> sj cc by (simp add: Clean_def)
  qed
qed

lemma Join_plain:
  assumes "plain_name n" "d \<noteq> []"
  shows "Join d n = render (rooted d) (clean_comps (rooted d) (split_sep d) @ [n])"
proof -
  have "sep \<notin> set n" using assms(1) by (simp add: plain_name_def)
  then have "split_sep (d @ sep # n) = split_sep d @ [n]" by (simp add: split_sep_append)
  then show ?thesis using assms by (simp add: Join_def Clean_def clean_comps_snoc)
qed

theorem Dir_Join:
  assumes "plain_name n" "d \<noteq> []"
  shows "Dir (Join d n) = Clean d"
proof -
  let ?r = "rooted d" and ?cs = "clean_comps (rooted d) (split_sep d)"
  have cl: "clean_list ?r ?cs" by (rule clean_comps_list)
  have nsep: "sep \<notin> set n" using assms(1) by (simp add: plain_name_def)
  have j: "Join d n = render ?r (?cs @ [n])" using assms by (rule Join_plain)
  show ?thesis
  proof (cases "?cs = []")
    case True
    then show ?thesis
    proof (cases ?r)
      case r: True
      have "split_last ([] @ sep # n) = ([] @ [sep], n)" by (rule split_last_sep [OF nsep])
      then show ?thesis using True r j Clean_render_trailing [OF cl]
        by (simp add: Dir_def render_def Clean_def [of d])
    next
      case r: False
      then show ?thesis using True j nsep by (simp add: Dir_def render_def Clean_def [of d])
    qed
  next
    case False
    have js: "join_sep (?cs @ [n]) = join_sep ?cs @ sep # n" using False by (rule join_sep_snoc)
    have "render r (cs @ [n]) = ((if r then [sep] else []) @ join_sep cs) @ sep # n"
      if "join_sep (cs @ [n]) = join_sep cs @ sep # n" for r cs
      using that by (simp add: render_def)
    from this [OF js]
    have "render ?r (?cs @ [n]) = ((if ?r then [sep] else []) @ join_sep ?cs) @ sep # n" .
    then have "split_last (Join d n) = (((if ?r then [sep] else []) @ join_sep ?cs) @ [sep], n)"
      using j split_last_sep [OF nsep] by (simp only:)
    then show ?thesis using False Clean_render_trailing [OF cl]
      by (simp add: Dir_def Clean_def [of d])
  qed
qed

lemma Base_plain: "plain_name n \<Longrightarrow> Base n = n"
proof -
  assume n: "plain_name n"
  then have "last n \<noteq> sep" by (metis last_in_set plain_name_def)
  with n have "trim_right n [sep] = n"
    by (cases n rule: rev_cases) (auto simp: trim_right_def plain_name_def)
  with n show ?thesis by (simp add: Base_def plain_name_def)
qed

lemma Base_no_sep: "Base p \<noteq> [sep] \<Longrightarrow> sep \<notin> set (Base p)"
  using snd_split_last_no_sep by (auto simp: Base_def Let_def sep_def split: if_splits)

lemma Base_Join:
  assumes "plain_name n" "d \<noteq> []"
  shows "Base (Join d n) = n"
proof -
  let ?r = "rooted d" and ?cs = "clean_comps (rooted d) (split_sep d)"
  have nsep: "sep \<notin> set n" and ne: "n \<noteq> []" using assms(1) by (auto simp: plain_name_def)
  have j: "Join d n = render ?r (?cs @ [n])" using assms by (rule Join_plain)
  obtain pre where pre: "Join d n = pre @ n" "pre = [] \<or> last pre = sep"
  proof (cases "?cs = []")
    case True
    then show ?thesis using j that [of "if ?r then [sep] else []"] by (simp add: render_def)
  next
    case False
    have js: "join_sep (?cs @ [n]) = join_sep ?cs @ sep # n" using False by (rule join_sep_snoc)
    have "render r (cs @ [n]) = ((if r then [sep] else []) @ join_sep cs @ [sep]) @ n"
      if "join_sep (cs @ [n]) = join_sep cs @ sep # n" for r cs
      using that by (simp add: render_def)
    from this [OF js]
    have "Join d n = ((if ?r then [sep] else []) @ join_sep ?cs @ [sep]) @ n" using j by simp
    then show ?thesis by (rule that) simp
  qed
  have lastn: "last n \<noteq> sep" using nsep ne by (metis last_in_set)
  have tr: "trim_right (pre @ n) [sep] = pre @ n"
    using lastn ne by (cases n rule: rev_cases) (auto simp: trim_right_def)
  have sl: "snd (split_last (pre @ n)) = n"
  proof (cases "pre = []")
    case True
    then show ?thesis using nsep by simp
  next
    case False
    then have "pre = butlast pre @ [sep]" using pre(2) by (metis append_butlast_last_id)
    then show ?thesis using split_last_sep [OF nsep, of "butlast pre"] by (metis append.assoc append_Cons append_Nil snd_conv)
  qed
  show ?thesis using pre(1) ne tr sl by (simp add: Base_def)
qed

lemma Clean_render:
  assumes "clean_list r cs"
  shows "Clean (render r cs) = render r cs"
proof (cases "cs = []")
  case True
  then show ?thesis
    by (cases r) (simp_all add: Clean_def rooted_def render_def clean_comps_def clean_step_def sep_def)
next
  case False
  have ns: "list_all (\<lambda>c. sep \<notin> set c) cs" using assms by (auto simp: clean_list_def list_all_iff)
  have sj: "split_sep (join_sep cs) = cs" using False ns by (rule split_join)
  have cc: "clean_comps r cs = cs" using assms by (rule clean_comps_clean)
  show ?thesis
  proof (cases r)
    case True
    then show ?thesis using False sj cc by (simp add: Clean_def rooted_def render_def)
  next
    case nr: False
    have "\<not> rooted (join_sep cs)" using join_not_rooted [OF assms False, of "[]"] by simp
    then show ?thesis using False nr sj cc by (simp add: Clean_def render_def)
  qed
qed

lemma Clean_idem [simp]: "Clean (Clean p) = Clean p"
  using Clean_render [OF clean_comps_list] by (simp add: Clean_def [of p])

lemma hex_digit_no_sep: "n < 16 \<Longrightarrow> hex_digit n \<noteq> sep"
proof -
  assume n: "n < 16"
  then have "(of_char (hex_digit n) :: nat) = (if n < 10 then 48 + n else 87 + n)"
    by (simp add: hex_digit_def)
  then show ?thesis using n by (auto simp: sep_def split: if_splits)
qed

lemma hex_encode_no_sep: "sep \<notin> set (hex_encode bs)"
proof (induction bs)
  case (Cons b bs)
  have "of_char b div 16 < (16::nat)" "of_char b mod 16 < (16::nat)" using of_char_less [of b] by linarith+
  then show ?case using Cons hex_digit_no_sep by (simp add: hex_encode_Cons not_sym)
qed simp

end
