(* ===== verification/GoNet.thy ===== *)
theory GoNet
  imports GoText
begin

text \<open>
  The parts of Go's \<open>net\<close> the LAN code uses: \<open>ParseIP\<close> (dotted decimal, and IPv6 with an ellipsis and
  an embedded IPv4 tail), \<open>IP.Equal\<close>, \<open>SplitHostPort\<close> and \<open>JoinHostPort\<close>. An address is its sixteen
  bytes as numbers, an IPv4 address in the \<open>::ffff:a.b.c.d\<close> form \<open>ParseIP\<close> returns.
\<close>

type_synonym ip = "nat list"

section \<open>Splitting at a character\<close>

fun split_char :: "char \<Rightarrow> string \<Rightarrow> string list" where
  "split_char d [] = [[]]"
| "split_char d (c # cs) =
     (if c = d then [] # split_char d cs
      else (case split_char d cs of [] \<Rightarrow> [[c]] | p # ps \<Rightarrow> (c # p) # ps))"

lemma split_char_ne [simp]: "split_char d s \<noteq> []"
  by (cases s) (auto split: list.splits)

section \<open>IPv4\<close>

text \<open>One field: digits, at most 255, no leading zero.\<close>

definition parse_octet :: "string \<Rightarrow> nat option" where
  "parse_octet s =
     (case digits_value s of
        None \<Rightarrow> None
      | Some v \<Rightarrow> if (1 < length s \<and> hd s = CHR ''0'') \<or> v > 255 then None else Some v)"

definition parse_v4 :: "string \<Rightarrow> nat list option" where
  "parse_v4 s =
     (case map parse_octet (split_char CHR ''.'' s) of
        [Some a, Some b, Some c, Some d] \<Rightarrow> Some [a, b, c, d]
      | _ \<Rightarrow> None)"

definition v4_in_6 :: "nat list \<Rightarrow> ip" where
  "v4_in_6 v = replicate 10 0 @ [255, 255] @ v"

section \<open>IPv6\<close>

definition hex_number :: "string \<Rightarrow> nat" where
  "hex_number ds = foldl (\<lambda>a c. a * 16 + the (hex_val c)) 0 ds"

text \<open>The group loop: the bytes so far, where the ellipsis was, and the text to go. Each group takes
  at least one character, so the text is its own bound.\<close>

function parse_groups :: "nat list \<Rightarrow> nat option \<Rightarrow> string \<Rightarrow> (nat list \<times> nat option) option" where
  "parse_groups bs el s =
     (if 16 \<le> length bs then (if s = [] then Some (bs, el) else None)
      else
        let ds = takeWhile (\<lambda>c. hex_val c \<noteq> None) s; r = drop (length ds) s in
        if ds = [] \<or> length ds > 4 then None
        else if r \<noteq> [] \<and> hd r = CHR ''.'' then
          (if (el = None \<and> length bs \<noteq> 12) \<or> length bs + 4 > 16 then None
           else (case parse_v4 s of None \<Rightarrow> None | Some v \<Rightarrow> Some (bs @ v, el)))
        else
          let bs' = bs @ [hex_number ds div 256, hex_number ds mod 256] in
          if r = [] then Some (bs', el)
          else if hd r \<noteq> CHR '':'' \<or> length r = 1 then None
          else if hd (tl r) = CHR '':'' then
            (if el \<noteq> None then None
             else if tl (tl r) = [] then Some (bs', Some (length bs'))
             else parse_groups bs' (Some (length bs')) (tl (tl r)))
          else parse_groups bs' el (tl r))"
  by pat_completeness auto
termination
  by (relation "measure (\<lambda>(bs, el, s). length s)") (auto simp: Let_def neq_Nil_conv)

declare parse_groups.simps [simp del]

definition expand_ellipsis :: "nat list \<times> nat option \<Rightarrow> ip option" where
  "expand_ellipsis g = (case g of
     (bs, None) \<Rightarrow> if length bs = 16 then Some bs else None
   | (bs, Some e) \<Rightarrow> if length bs < 16 then Some (take e bs @ replicate (16 - length bs) 0 @ drop e bs) else None)"

definition parse_v6 :: "string \<Rightarrow> ip option" where
  "parse_v6 s =
     (if s = ''::'' then Some (replicate 16 0)
      else Option.bind (if has_prefix s ''::'' then parse_groups [] (Some 0) (drop 2 s) else parse_groups [] None s)
             expand_ellipsis)"

text \<open>\<open>net.ParseIP\<close>: the first of \<open>.\<close>, \<open>:\<close> and \<open>%\<close> decides the family; a zone is refused.\<close>

definition parseIP :: "string \<Rightarrow> ip option" where
  "parseIP s =
     (case find (\<lambda>c. c \<in> set ''.:%'') s of
        None \<Rightarrow> None
      | Some c \<Rightarrow> if c = CHR ''.'' then map_option v4_in_6 (parse_v4 s)
                  else if c = CHR '':'' then (if CHR ''%'' \<in> set s then None else parse_v6 s)
                  else None)"

section \<open>Host and port\<close>

text \<open>The position of the last colon, as the text before and after it.\<close>

definition split_last_colon :: "string \<Rightarrow> (string \<times> string) option" where
  "split_last_colon s =
     (if CHR '':'' \<in> set s
      then (let p = rev (takeWhile (\<lambda>c. c \<noteq> CHR '':'') (rev s)) in
            Some (take (length s - length p - 1) s, p))
      else None)"

definition SplitHostPort :: "string \<Rightarrow> (string \<times> string) option" where
  "SplitHostPort s =
     (case split_last_colon s of
        None \<Rightarrow> None
      | Some (front, port) \<Rightarrow>
          if hd s = CHR ''['' then
            (let host = takeWhile (\<lambda>c. c \<noteq> CHR '']'') (tl s); e = Suc (length host) in
             if CHR '']'' \<notin> set s then None
             else if Suc e \<noteq> length front then None
             else if CHR ''['' \<in> set (tl s) \<or> CHR '']'' \<in> set (drop (Suc e) s) then None
             else Some (host, port))
          else if CHR '':'' \<in> set front \<or> CHR ''['' \<in> set s \<or> CHR '']'' \<in> set s then None
          else Some (front, port))"

definition JoinHostPort :: "string \<Rightarrow> string \<Rightarrow> string" where
  "JoinHostPort host port =
     (if CHR '':'' \<in> set host then CHR ''['' # host @ '']:'' @ port else host @ CHR '':'' # port)"

lemma split_last_colon_append [simp]:
  "CHR '':'' \<notin> set p \<Longrightarrow> split_last_colon (h @ CHR '':'' # p) = Some (h, p)"
proof -
  assume "CHR '':'' \<notin> set p"
  then have "takeWhile (\<lambda>c. c \<noteq> CHR '':'') (rev p @ CHR '':'' # rev h) = rev p"
    by (subst takeWhile_append2) auto
  then show ?thesis by (simp add: split_last_colon_def)
qed

text \<open>A host without brackets and a port without colons or brackets survive the round trip.\<close>

lemma SplitHostPort_Join:
  assumes h: "CHR ''['' \<notin> set h" "CHR '']'' \<notin> set h"
    and p: "CHR '':'' \<notin> set p" "CHR ''['' \<notin> set p" "CHR '']'' \<notin> set p"
  shows "SplitHostPort (JoinHostPort h p) = Some (h, p)"
proof (cases "CHR '':'' \<in> set h")
  case True
  have tw: "takeWhile (\<lambda>c. c \<noteq> CHR '']'') (h @ CHR '']'' # CHR '':'' # p) = h"
    using h(2) by (subst takeWhile_append2) auto
  have "split_last_colon ((CHR ''['' # h @ '']'') @ CHR '':'' # p) = Some (CHR ''['' # h @ '']'', p)"
    using p(1) by (rule split_last_colon_append)
  then show ?thesis using True h p by (simp add: JoinHostPort_def SplitHostPort_def tw)
next
  case False
  have "hd (h @ CHR '':'' # p) \<noteq> CHR ''[''" using h(1) by (cases h) auto
  then show ?thesis using False h p by (simp add: JoinHostPort_def SplitHostPort_def)
qed

lemma parse_v4_length: "parse_v4 s = Some v \<Longrightarrow> length v = 4"
  by (auto simp: parse_v4_def split: list.split_asm option.split_asm)

end
