(* ===== verification/Wire.thy ===== *)
theory Wire
  imports Prelude
begin

text \<open>
  The LAN wire format, \<open>lanshare/protocol.go\<close>: typed, length-prefixed frames over an established TLS
  connection, the control messages carried in them, and the readers that enforce the size caps. A
  connection's inbound side is the finite list of bytes that will arrive on it; a read past its end
  is the error the source gets from a closed or timed-out connection. \<open>encoding/json\<close> is a parameter
  of the readers and writers that use it (\<open>un\<close> unmarshals, \<open>mar\<close> marshals).
\<close>

section \<open>Constants and messages\<close>

definition protocolVersion :: int where "protocolVersion = 1"

definition msgHello :: nat where "msgHello = 1"
definition msgPake :: nat where "msgPake = 2"
definition msgConfirm :: nat where "msgConfirm = 3"
definition msgAccept :: nat where "msgAccept = 4"
definition msgData :: nat where "msgData = 5"
definition msgEOF :: nat where "msgEOF = 6"
definition msgDone :: nat where "msgDone = 7"
definition msgError :: nat where "msgError = 8"
definition msgDownloadReq :: nat where "msgDownloadReq = 9"

definition maxControlFrame :: nat where "maxControlFrame = 64 * 1024"
definition chunkBytes :: nat where "chunkBytes = 64 * 1024"
definition maxDataFrame :: nat where "maxDataFrame = chunkBytes + 4096"

lemmas msg_defs = msgHello_def msgPake_def msgConfirm_def msgAccept_def msgData_def msgEOF_def
  msgDone_def msgError_def msgDownloadReq_def

lemmas cap_defs = maxControlFrame_def chunkBytes_def maxDataFrame_def

record hello =
  h_version :: int
  h_name :: string
  h_size :: int
  h_is_dir :: bool
  h_has_password :: bool
  h_identity_pub :: bytes
  h_identity_sig :: bytes
  h_sender_name :: string
  h_supports_resume :: bool
  h_sha256 :: string

record accept =
  a_ok :: bool
  a_reason :: string
  a_size :: int
  a_identity_pub :: bytes
  a_identity_sig :: bytes
  a_resume_offset :: int

definition zero_accept :: accept where
  "zero_accept = \<lparr>a_ok = False, a_reason = '''', a_size = 0, a_identity_pub = [],
     a_identity_sig = [], a_resume_offset = 0\<rparr>"

record downloadReq =
  q_version :: int
  q_offset :: int
  q_identity_pub :: bytes
  q_identity_sig :: bytes
  q_downloader_name :: string

record done_msg =
  d_ok :: bool
  d_bytes :: int
  d_sha256 :: string
  d_reason :: string

datatype frame_err =
    FrameTooLarge                \<comment> \<open>writer: payload over 32 bits\<close>
  | ControlTooLarge              \<comment> \<open>writer: control payload over the cap\<close>
  | MarshalFailed
  | ReadFailed                   \<comment> \<open>the connection ended inside a frame\<close>
  | LengthExceedsCap nat nat
  | RemoteError string
  | UnexpectedType nat nat       \<comment> \<open>got, want\<close>
  | UnmarshalFailed
  | ConnWrite                    \<comment> \<open>the connection refused the bytes\<close>

section \<open>Frames\<close>

text \<open>\<open>writeFrame\<close>: the bytes put on the wire, header first.\<close>

definition writeFrame :: "nat \<Rightarrow> bytes \<Rightarrow> frame_err + bytes" where
  "writeFrame typ payload =
     (if length payload > 2 ^ 32 - 1 then Inl FrameTooLarge
      else Inr (char_of typ # be_put 4 (length payload) @ payload))"

text \<open>\<open>readFrame\<close>: the length is compared with the cap before anything of the payload is read.\<close>

definition readFrame :: "nat \<Rightarrow> bytes \<Rightarrow> frame_err + (nat \<times> bytes \<times> bytes)" where
  "readFrame maxLen inp =
     (case read_full 5 inp of
        None \<Rightarrow> Inl ReadFailed
      | Some (hdr, rest) \<Rightarrow>
          let typ = of_char (hd hdr); len = be_get (tl hdr) in
          if len > maxLen then Inl (LengthExceedsCap len maxLen)
          else if len = 0 then Inr (typ, [], rest)
          else (case read_full len rest of
                  None \<Rightarrow> Inl ReadFailed
                | Some (buf, rest') \<Rightarrow> Inr (typ, buf, rest')))"

text \<open>\<open>writeJSON\<close>.\<close>

definition writeJSON :: "('v \<Rightarrow> bytes option) \<Rightarrow> nat \<Rightarrow> 'v \<Rightarrow> frame_err + bytes" where
  "writeJSON mar typ v =
     (case mar v of
        None \<Rightarrow> Inl MarshalFailed
      | Some payload \<Rightarrow>
          if length payload > maxControlFrame then Inl ControlTooLarge
          else writeFrame typ payload)"

text \<open>The message of a \<open>msgError\<close> frame: \<open>un_err\<close> reads the \<open>message\<close> field (empty when the payload is
  not a \<open>wireError\<close>).\<close>

definition remoteMessage :: "(bytes \<Rightarrow> string) \<Rightarrow> bytes \<Rightarrow> string" where
  "remoteMessage un_err payload =
     (let m = un_err payload in if m = '''' then ''remote error'' else m)"

text \<open>\<open>readControl\<close>.\<close>

definition readControl ::
  "(bytes \<Rightarrow> 'v option) \<Rightarrow> (bytes \<Rightarrow> string) \<Rightarrow> nat \<Rightarrow> bytes \<Rightarrow> frame_err + ('v \<times> bytes)" where
  "readControl un un_err wantType inp =
     (case readFrame maxControlFrame inp of
        Inl e \<Rightarrow> Inl e
      | Inr (typ, payload, rest) \<Rightarrow>
          if typ = msgError then Inl (RemoteError (remoteMessage un_err payload))
          else if typ \<noteq> wantType then Inl (UnexpectedType typ wantType)
          else (case un payload of None \<Rightarrow> Inl UnmarshalFailed | Some v \<Rightarrow> Inr (v, rest)))"

text \<open>\<open>readExpect\<close> of \<open>auth.go\<close>: the raw payload of a frame of the wanted type.\<close>

definition readExpect :: "(bytes \<Rightarrow> string) \<Rightarrow> nat \<Rightarrow> bytes \<Rightarrow> frame_err + (bytes \<times> bytes)" where
  "readExpect un_err want inp =
     (case readFrame maxControlFrame inp of
        Inl e \<Rightarrow> Inl e
      | Inr (typ, payload, rest) \<Rightarrow>
          if typ = msgError then Inl (RemoteError (remoteMessage un_err payload))
          else if typ \<noteq> want then Inl (UnexpectedType typ want)
          else Inr (payload, rest))"

text \<open>A frame written on a connection: \<open>wok i\<close> says whether the \<open>i\<close>-th write of the handler goes out.\<close>

definition send_frame :: "(nat \<Rightarrow> bool) \<Rightarrow> nat \<Rightarrow> nat \<Rightarrow> bytes \<Rightarrow> frame_err + bytes" where
  "send_frame wok i typ payload = (if wok i then writeFrame typ payload else Inl ConnWrite)"

section \<open>Lemmas\<close>

lemma msg_byte [simp]:
  "msgHello < 256" "msgPake < 256" "msgConfirm < 256" "msgAccept < 256" "msgData < 256"
  "msgEOF < 256" "msgDone < 256" "msgError < 256" "msgDownloadReq < 256"
  by (simp_all add: msg_defs)

lemma msg_not_error [simp]:
  "msgHello \<noteq> msgError" "msgPake \<noteq> msgError" "msgConfirm \<noteq> msgError"
  "msgAccept \<noteq> msgError" "msgData \<noteq> msgError" "msgEOF \<noteq> msgError" 
  "msgDone \<noteq> msgError" "msgDownloadReq \<noteq> msgError"
  by (simp_all add: msg_defs)

text \<open>The frame as bytes, when the writer accepts it.\<close>

definition frame :: "nat \<Rightarrow> bytes \<Rightarrow> bytes" where
  "frame typ payload = char_of typ # be_put 4 (length payload) @ payload"

lemma writeFrame_ok: "length payload < 2 ^ 32 \<Longrightarrow> writeFrame typ payload = Inr (frame typ payload)"
  by (simp add: writeFrame_def frame_def)

lemma send_frame_Inr:
  "send_frame wok i typ p = Inr b \<longleftrightarrow> wok i \<and> length p < 2 ^ 32 \<and> b = frame typ p"
  by (auto simp: send_frame_def writeFrame_def frame_def)

lemma length_frame [simp, size_simps]: "length (frame t p) = 5 + length p"
  by (simp add: frame_def)

lemma frame_nonempty [simp]: "frame t p \<noteq> []"
  by (simp add: frame_def)

lemma readFrame_frame [codec_simps]:
  assumes "typ < 256" "length p \<le> m" "length p < 2 ^ 32"
  shows "readFrame m (frame typ p @ r) = Inr (typ, p, r)"
proof -
  have "read_full 5 (frame typ p @ r) = Some (char_of typ # be_put 4 (length p), p @ r)"
    by (simp add: frame_def read_full_def)
  then show ?thesis using assms by (simp add: readFrame_def)
qed

lemma readFrame_Nil [simp]: "readFrame m [] = Inl ReadFailed"
  by (simp add: readFrame_def read_full_def)

text \<open>What a successful read says about its input.\<close>

lemma readFrame_InrD:
  assumes "readFrame m inp = Inr (t, p, r)"
  shows "t < 256 \<and> length p \<le> m \<and> length inp = 5 + length p + length r"
proof -
  from assms obtain hdr rest where hr: "read_full 5 inp = Some (hdr, rest)"
    by (auto simp: readFrame_def split: option.splits)
  then have inp: "inp = hdr @ rest" "length hdr = 5" by (auto dest: read_full_SomeD)
  have t: "t = of_char (hd hdr)" using assms hr
    by (auto simp: readFrame_def Let_def split: if_splits option.splits)
  have "(of_char (hd hdr) :: nat) < 256" by (cases "hd hdr") (simp add: of_char_Char horner_sum_simps)
  moreover have "length p \<le> m \<and> length rest = length p + length r" using assms hr
    by (auto simp: readFrame_def Let_def split: if_splits option.splits dest!: read_full_SomeD)
  ultimately show ?thesis using inp t by simp
qed

lemma readFrame_shrinks: "readFrame m inp = Inr (t, p, r) \<Longrightarrow> length r < length inp"
  by (drule readFrame_InrD) simp

text \<open>A frame that was read is exactly the bytes consumed.\<close>

lemma readFrame_exact:
  assumes "readFrame m inp = Inr (t, p, r)"
  shows "inp = frame t p @ r \<and> t < 256 \<and> length p \<le> m"
proof -
  from assms obtain hdr rest where hr: "read_full 5 inp = Some (hdr, rest)"
    by (auto simp: readFrame_def split: option.splits)
  then have inp: "inp = hdr @ rest" and l5: "length hdr = 5" by (auto dest: read_full_SomeD)
  then obtain c cs where h: "hdr = c # cs" "length cs = 4" by (cases hdr) auto
  have t: "t = of_char c" using assms hr h
    by (auto simp: readFrame_def Let_def split: if_splits option.splits)
  have "rest = p @ r \<and> be_get cs = length p" using assms hr h
    by (auto simp: readFrame_def Let_def split: if_splits option.splits dest!: read_full_SomeD)
  moreover from this have "be_put 4 (length p) = cs" using be_put_get [of cs] h(2) by simp
  ultimately show ?thesis using inp h t readFrame_InrD [OF assms] by (simp add: frame_def)
qed

text \<open>A truncated frame is never read as a frame.\<close>

lemma readFrame_truncated:
  assumes "n < length (frame t p)" "length p \<le> m" "length p < 2 ^ 32"
  shows "readFrame m (take n (frame t p)) = Inl ReadFailed"
proof (cases "n < 5")
  case True
  then show ?thesis by (simp add: readFrame_def read_full_def)
next
  case False
  then obtain k where n: "n = 5 + k" by (metis le_Suc_ex not_le)
  have hd5: "take n (frame t p) = (char_of t # be_put 4 (length p)) @ take k p"
  proof -
    have "frame t p = (char_of t # be_put 4 (length p)) @ p" by (simp add: frame_def)
    then show ?thesis by (simp only: take_append) (simp add: n)
  qed
  have k: "k < length p" using assms(1) n by simp
  have "read_full 5 (take n (frame t p)) = Some (char_of t # be_put 4 (length p), take k p)"
    unfolding hd5 by (rule read_full_append) simp
  moreover have "p \<noteq> []" using k by auto
  ultimately show ?thesis using assms k
    by (simp add: readFrame_def Let_def read_full_def [of "length p" "take k p"])
qed

interpretation lan_frame: prefix_codec
  "\<lambda>(t, p). frame t p"
  "\<lambda>inp. case readFrame maxDataFrame inp of Inl _ \<Rightarrow> None | Inr (t, p, r) \<Rightarrow> Some ((t, p), r)"
  "\<lambda>(t, p). t < 256 \<and> length p \<le> maxDataFrame"
proof (unfold_locales, goal_cases)
  case (1 x r)
  then show ?case by (auto simp: readFrame_frame cap_defs)
next
  case 2
  show ?case by simp
qed

lemma readControl_frame [codec_simps]:
  assumes "un pl = Some v" "length pl \<le> maxControlFrame" "want < 256" "want \<noteq> msgError"
  shows "readControl un un_err want (frame want pl @ r) = Inr (v, r)"
  using assms by (simp add: readControl_def readFrame_frame cap_defs)

lemma readControl_InrD:
  assumes "readControl un un_err want inp = Inr (v, r)"
  shows "\<exists>pl. readFrame maxControlFrame inp = Inr (want, pl, r) \<and> un pl = Some v \<and> want \<noteq> msgError"
  using assms by (auto simp: readControl_def split: sum.splits if_splits option.splits)

lemma readExpect_frame [codec_simps]:
  "want < 256 \<Longrightarrow> want \<noteq> msgError \<Longrightarrow> length pl \<le> maxControlFrame \<Longrightarrow>
   readExpect un_err want (frame want pl @ r) = Inr (pl, r)"
  by (simp add: readExpect_def readFrame_frame cap_defs)

lemma readExpect_shrinks: "readExpect un_err want inp = Inr (pl, r) \<Longrightarrow> length r < length inp"
  by (auto simp: readExpect_def split: sum.splits if_splits dest: readFrame_shrinks)

end
