(* ===== verification/DestPath.thy ===== *)
theory DestPath
  imports GoPath GoNet
begin

text \<open>
  The local guards of a LAN receiver (\<open>lanshare/receive.go\<close>): \<open>destPath\<close>, which turns the name a peer
  declared into the path the file lands on, the source-address list, and \<open>normalizeDest\<close> of the
  sender. \<open>destPath\<close> is the code's sequence of refusals; the last one, the escape check, is shown
  never to be what stops a name, because what passes the others is a plain component.
\<close>

section \<open>The destination path\<close>

datatype dest_err =
    InvalidName | IllegalCharacter | ControlCharacter | DirectionOverride | ReservedName | EscapesDir

definition winReservedNames :: "string set" where
  "winReservedNames = set [''con'', ''prn'', ''aux'', ''nul'',
     ''com1'', ''com2'', ''com3'', ''com4'', ''com5'', ''com6'', ''com7'', ''com8'', ''com9'',
     ''lpt1'', ''lpt2'', ''lpt3'', ''lpt4'', ''lpt5'', ''lpt6'', ''lpt7'', ''lpt8'', ''lpt9'']"

text \<open>The \<open>switch\<close> of the \<open>range\<close> loop, on one rune.\<close>

definition bad_rune :: "nat \<Rightarrow> dest_err option" where
  "bad_rune r =
     (if r = 0x2F \<or> r = 0x5C \<or> r = 0x3A then Some IllegalCharacter
      else if r < 0x20 \<or> r = 0x7F then Some ControlCharacter
      else if r = 0x200E \<or> r = 0x200F \<or> (0x202A \<le> r \<and> r \<le> 0x202E) \<or> (0x2066 \<le> r \<and> r \<le> 0x2069)
      then Some DirectionOverride
      else None)"

fun scan_runes :: "(nat \<times> string) list \<Rightarrow> dest_err option" where
  "scan_runes [] = None"
| "scan_runes (rb # rbs) = (case bad_rune (fst rb) of Some e \<Rightarrow> Some e | None \<Rightarrow> scan_runes rbs)"

definition destPath :: "string \<Rightarrow> string \<Rightarrow> dest_err + string" where
  "destPath dir name =
     (let base = Base (trim_space name) in
      if base = [] \<or> base = ''.'' \<or> base = ''..'' \<or> base = [sep] then Inl InvalidName
      else (case scan_runes (runes base) of
        Some e \<Rightarrow> Inl e
      | None \<Rightarrow>
          let base = trim_right base ''. '' in
          if base = [] \<or> base = ''.'' \<or> base = ''..'' then Inl InvalidName
          else
            let stem = takeWhile (\<lambda>c. c \<noteq> CHR ''.'') base in
            if to_lower stem \<in> winReservedNames then Inl ReservedName
            else
              let out = Join dir base in
              if Dir out \<noteq> Clean dir then Inl EscapesDir else Inr out))"

section \<open>Source addresses\<close>

fun parseAllowIPs :: "string list \<Rightarrow> string + ip list" where
  "parseAllowIPs [] = Inr []"
| "parseAllowIPs (raw # rest) =
     (if trim_space raw = [] then parseAllowIPs rest
      else (case parseIP (trim_space raw) of
        None \<Rightarrow> Inl (trim_space raw)
      | Some a \<Rightarrow> (case parseAllowIPs rest of Inl e \<Rightarrow> Inl e | Inr as \<Rightarrow> Inr (a # as))))"

definition ipAllowed :: "string \<Rightarrow> ip list \<Rightarrow> bool" where
  "ipAllowed ipStr allow =
     (case parseIP ipStr of None \<Rightarrow> False | Some a \<Rightarrow> list_ex (\<lambda>b. b = a) allow)"

text \<open>\<open>remoteIP\<close> on the textual remote address.\<close>

definition remoteIP :: "string \<Rightarrow> string" where
  "remoteIP addr = (case SplitHostPort addr of None \<Rightarrow> [] | Some (host, _) \<Rightarrow> host)"

definition DefaultPort :: int where "DefaultPort = 4300"
definition portRangeEnd :: int where "portRangeEnd = 4600"

definition normalizeDest :: "string \<Rightarrow> string option" where
  "normalizeDest dest =
     (if dest = [] then None
      else (case SplitHostPort dest of
              Some _ \<Rightarrow> Some dest
            | None \<Rightarrow> Some (JoinHostPort dest (itoa DefaultPort))))"

section \<open>What \<open>destPath\<close> guarantees\<close>

lemma scan_runes_None: "scan_runes rbs = None \<longleftrightarrow> (\<forall>rb\<in>set rbs. bad_rune (fst rb) = None)"
  by (induction rbs) (auto split: option.splits)

lemma Join_Nil: "plain_name n \<Longrightarrow> Join [] n = n"
proof -
  assume n: "plain_name n"
  then have r: "\<not> rooted n" by (auto simp: plain_name_def rooted_def dest: hd_in_set)
  with n show ?thesis
    by (simp add: Join_def Clean_def plain_name_def clean_comps_def clean_step_def render_def)
qed

lemma Dir_Join_any: "plain_name n \<Longrightarrow> Dir (Join d n) = Clean d"
  by (cases "d = []") (simp_all add: Join_Nil Dir_Join, simp add: Dir_def plain_name_def)

lemma Base_Join_any: "plain_name n \<Longrightarrow> Base (Join d n) = n"
  by (cases "d = []") (simp_all add: Join_Nil Base_plain Base_Join)

text \<open>The name that lands on disk: a component of its own, without a rune the scan refuses, not
  ending in a dot or a space and not a device name.\<close>

definition safe_base :: "string \<Rightarrow> bool" where
  "safe_base b \<longleftrightarrow> plain_name b \<and> (\<forall>rb\<in>set (runes b). bad_rune (fst rb) = None) \<and>
     last b \<notin> {CHR ''.'', CHR '' ''} \<and> to_lower (takeWhile (\<lambda>c. c \<noteq> CHR ''.'') b) \<notin> winReservedNames"

lemma trimmed_base:
  assumes "base \<noteq> [sep]" "base = Base p" "scan_runes (runes base) = None"
    "b = trim_right base ''. ''" "b \<noteq> []" "b \<noteq> ''.''" "b \<noteq> ''..''"
  shows "plain_name b \<and> (\<forall>rb\<in>set (runes b). bad_rune (fst rb) = None) \<and> last b \<notin> {CHR ''.'', CHR '' ''}"
proof -
  have "sep \<notin> set base" using assms(1,2) Base_no_sep by simp
  then have "sep \<notin> set b" using trim_right_set assms(4) by blast
  moreover have "set (runes b) \<subseteq> set (runes base)"
    unfolding assms(4) by (rule runes_trim_right) (simp add: of_char_Char horner_sum_simps)
  moreover have "last b \<notin> set ''. ''" using trim_right_last assms(4,5) by blast
  ultimately show ?thesis using assms(3,5-7) by (auto simp: plain_name_def scan_runes_None)
qed

lemma destPath_cases:
  "destPath dir name = Inr out \<Longrightarrow> \<exists>b. safe_base b \<and> out = Join dir b"
proof -
  assume d: "destPath dir name = Inr out"
  let ?base = "Base (trim_space name)"
  let ?b = "trim_right ?base ''. ''"
  from d have "plain_name ?b \<and> (\<forall>rb\<in>set (runes ?b). bad_rune (fst rb) = None) \<and>
      last ?b \<notin> {CHR ''.'', CHR '' ''}"
    by (intro trimmed_base [OF _ refl _ refl])
      (auto simp: destPath_def Let_def split: if_split_asm option.split_asm)
  moreover from d have "to_lower (takeWhile (\<lambda>c. c \<noteq> CHR ''.'') ?b) \<notin> winReservedNames \<and> out = Join dir ?b"
    by (auto simp: destPath_def Let_def split: if_split_asm option.split_asm)
  ultimately show ?thesis unfolding safe_base_def by blast
qed

lemma destPath_not_escape: "destPath dir name \<noteq> Inl EscapesDir"
proof
  assume d: "destPath dir name = Inl EscapesDir"
  let ?base = "Base (trim_space name)"
  let ?b = "trim_right ?base ''. ''"
  have ne: "bad_rune r \<noteq> Some EscapesDir" for r by (simp add: bad_rune_def)
  have "scan_runes rbs \<noteq> Some EscapesDir" for rbs
    using ne by (induction rbs) (auto split: option.splits)
  with d have "plain_name ?b \<and> Dir (Join dir ?b) \<noteq> Clean dir"
    using trimmed_base [OF _ refl _ refl, of "trim_space name"]
    by (auto simp: destPath_def Let_def split: if_split_asm option.split_asm)
  then show False using Dir_Join_any by blast
qed

lemma itoa_DefaultPort: "itoa DefaultPort = ''4300''"
  by (simp add: itoa_def DefaultPort_def digits.simps) (simp add: char_of_def bit_0)

lemma example_destPath: "destPath ''/d'' '' a '' = Inr ''/d/a''"
proof -
  have r: "runes '' a '' = [(32, '' ''), (97, ''a''), (32, '' '')]" "runes ''a'' = [(97, ''a'')]" by simp_all
  have ts: "trim_space '' a '' = ''a''" by (simp add: trim_space_def trim_runes_def r is_space_def)
  have tl: "to_lower ''a'' = ''a''" by (simp add: to_lower_ascii lower_char_def)
  have p: "Base ''a'' = ''a''" "trim_right ''a'' ''. '' = ''a''" "Join ''/d'' ''a'' = ''/d/a''"
    "Dir ''/d/a'' = ''/d''" "Clean ''/d'' = ''/d''" by code_simp+
  show ?thesis by (simp add: destPath_def ts p r bad_rune_def tl winReservedNames_def sep_def Let_def)
qed

section \<open>Properties\<close>

text \<open>C8 A declared name cannot leave the destination directory: what \<open>destPath\<close> returns lies directly in
  it, and its last element is a single plain component with no separator, backslash, colon, C0 control
  character or direction override, that does not end in a dot or a space and is no Windows device name.\<close>

theorem destPath_safe:
  assumes "destPath dir name = Inr out"
  shows "Dir out = Clean dir \<and> out = Join dir (Base out) \<and>
    (let b = Base out in
      b \<noteq> [] \<and> b \<noteq> ''.'' \<and> b \<noteq> ''..'' \<and> last b \<noteq> CHR ''.'' \<and> last b \<noteq> CHR '' '' \<and>
      (\<forall>c\<in>set b. c \<noteq> CHR ''/'' \<and> c \<noteq> CHR 0x5C \<and> c \<noteq> CHR '':'' \<and> \<not> of_char c < (0x20::nat) \<and> c \<noteq> CHR 0x7F) \<and>
      (\<forall>rb\<in>set (runes b). bad_rune (fst rb) = None) \<and>
      to_lower (takeWhile (\<lambda>c. c \<noteq> CHR ''.'') b) \<notin> winReservedNames)"
proof -
  from destPath_cases [OF assms] obtain b where b: "safe_base b" "out = Join dir b" by blast
  then have p: "plain_name b" by (simp add: safe_base_def)
  have base: "Base out = b" "Dir out = Clean dir" using b(2) Base_Join_any [OF p] Dir_Join_any [OF p] by simp_all
  have nb: "bad_rune (fst rb) = None" if "rb \<in> set (runes b)" for rb using b(1) that by (simp add: safe_base_def)
  have "c \<noteq> CHR ''/'' \<and> c \<noteq> CHR 0x5C \<and> c \<noteq> CHR '':'' \<and> \<not> of_char c < (0x20::nat) \<and> c \<noteq> CHR 0x7F" if "c \<in> set b" for c
  proof (cases "of_char c < (0x80::nat)")
    case True
    then have "bad_rune (of_char c) = None" using nb [OF runes_ascii_mem [OF that True]] by simp
    then show ?thesis by (auto simp: bad_rune_def of_char_Char horner_sum_simps split: if_splits)
  next
    case False
    then show ?thesis by (auto simp: of_char_Char horner_sum_simps)
  qed
  then show ?thesis using b p nb unfolding base Let_def by (auto simp: safe_base_def plain_name_def)
qed

lemma destPath_safe_witness:
  "Dir ''/d/a'' = Clean ''/d'' \<and> ''/d/a'' = Join ''/d'' (Base ''/d/a'') \<and>
    (let b = Base ''/d/a'' in
      b \<noteq> [] \<and> b \<noteq> ''.'' \<and> b \<noteq> ''..'' \<and> last b \<noteq> CHR ''.'' \<and> last b \<noteq> CHR '' '' \<and>
      to_lower (takeWhile (\<lambda>c. c \<noteq> CHR ''.'') b) \<notin> winReservedNames)"
  using destPath_safe [OF example_destPath] unfolding Let_def by (elim conjE, intro conjI) assumption+

text \<open>The escape check behind the sanitising never fires: no name makes \<open>destPath\<close> answer that it escapes
  the destination directory, whatever the directory string is; the earlier refusals are enough.\<close>

theorem destPath_never_escapes: "destPath dir name \<noteq> Inl EscapesDir"
  by (rule destPath_not_escape)

text \<open>A C1 control character passes: the scan refuses C0 controls and DEL but lets U+009B, the
  one-character form of the terminal's control sequence introducer, through to the approval prompt and the
  disk, although the label cleaner of the same package drops it.\<close>

theorem destPath_admits_C1:
  "destPath ''/d'' [CHR ''a'', CHR 0xC2, CHR 0x9B, CHR ''b''] = Inr (''/d/'' @ [CHR ''a'', CHR 0xC2, CHR 0x9B, CHR ''b''])"
proof -
  let ?n = "[CHR ''a'', CHR 0xC2, CHR 0x9B, CHR ''b'']"
  have r: "runes ?n = [(97, ''a''), (0x9B, [CHR 0xC2, CHR 0x9B]), (98, ''b'')]"
    by (simp add: runes_step decode_rune_def in_range_def)
  have ts: "trim_space ?n = ?n" by (simp add: trim_space_def trim_runes_def r is_space_def)
  have tl: "to_lower ?n = ?n" by (simp add: to_lower_def lower_rune_def r rune_ok_def runeError_def lower_char_def)
  have p: "Base ?n = ?n" "trim_right ?n ''. '' = ?n" "Join ''/d'' ?n = ''/d/'' @ ?n"
    "Dir (''/d/'' @ ?n) = ''/d''" "Clean ''/d'' = ''/d''" by code_simp+
  have tw: "takeWhile (\<lambda>c. c \<noteq> CHR ''.'') ?n = ?n" by simp
  show ?thesis unfolding destPath_def ts p r tw Let_def tl
    by (simp add: bad_rune_def winReservedNames_def sep_def p)
qed

text \<open>A destination given with a port is used as it is, and one without gets the default port in a form
  that reads back: for every host without brackets \<open>normalizeDest\<close> yields an address whose host is that
  host and whose port is 4300, and normalizing again changes nothing.\<close>

theorem normalizeDest_default_port:
  assumes "SplitHostPort dest = None" "dest \<noteq> []" "CHR ''['' \<notin> set dest" "CHR '']'' \<notin> set dest"
  shows "\<exists>addr. normalizeDest dest = Some addr \<and> SplitHostPort addr = Some (dest, ''4300'') \<and>
    normalizeDest addr = Some addr"
proof -
  have p: "itoa DefaultPort = ''4300''" by (rule itoa_DefaultPort)
  have "SplitHostPort (JoinHostPort dest ''4300'') = Some (dest, ''4300'')"
    using assms by (intro SplitHostPort_Join) simp_all
  moreover have "JoinHostPort dest ''4300'' \<noteq> []" by (simp add: JoinHostPort_def)
  ultimately show ?thesis using assms by (simp add: normalizeDest_def p)
qed

lemma normalizeDest_default_port_witness:
  "\<exists>addr. normalizeDest ''fe80::1'' = Some addr \<and> SplitHostPort addr = Some (''fe80::1'', ''4300'') \<and>
    normalizeDest addr = Some addr"
proof (rule normalizeDest_default_port)
  show "SplitHostPort ''fe80::1'' = None" by code_simp
qed simp_all

text \<open>A bracketed IPv6 literal without a port is mangled: \<open>normalizeDest\<close> puts a second pair of
  brackets around it, and the result is not an address any more.\<close>

theorem normalizeDest_bracketed:
  "normalizeDest ''[fe80::1]'' = Some ''[[fe80::1]]:4300'' \<and> SplitHostPort ''[[fe80::1]]:4300'' = None"
proof -
  have p: "itoa DefaultPort = ''4300''" by (rule itoa_DefaultPort)
  have "SplitHostPort ''[fe80::1]'' = None" "JoinHostPort ''[fe80::1]'' ''4300'' = ''[[fe80::1]]:4300''"
    "SplitHostPort ''[[fe80::1]]:4300'' = None" by code_simp+
  then show ?thesis by (simp add: normalizeDest_def p)
qed

end
