(* ===== verification/RecvLoop.thy ===== *)
theory RecvLoop
  imports Wire DestPath
begin

text \<open>
  The data phase of a LAN transfer: the sender's streaming loops (\<open>lanshare/send.go\<close>) and the three
  receiving loops with their staging files (\<open>receiveToFile\<close>, \<open>receiveResumableToFile\<close> of
  \<open>lanshare/receive.go\<close>, \<open>receiveResumable\<close> of \<open>lanshare/broadcast.go\<close>), \<open>placeFile\<close>, \<open>resumeOffset\<close> and
  \<open>partialName\<close>.

  The file system is a map from path to node. A staging file is written through its open handle: the
  loop's state holds its content, and the map shows it when the loop ends. Everything the machine may
  do is a field of the environment record: a failing system call, a short write, a cancellation seen
  at the n-th poll, and \<open>meddle\<close>, what other processes did to the file system while the stream ran.
  SHA-256 is the parameter \<open>sha\<close> of every definition that uses it.
\<close>

section \<open>Files and the environment\<close>

datatype node = File bytes | Directory

type_synonym fs = "string \<rightharpoonup> node"

record io_env =
  temp_suffix :: string          \<comment> \<open>what \<open>os.CreateTemp\<close> put for the star\<close>
  create_ok :: bool
  chmod_ok :: bool
  open_ok :: bool
  truncate_ok :: bool
  seek_ok :: bool
  sync_ok :: bool
  close_ok :: bool
  rename_ok :: bool
  link_ok :: bool
  remove_ok :: bool
  short_write :: "nat \<Rightarrow> nat option"  \<comment> \<open>the n-th write fails after some bytes\<close>
  cancelled :: "nat \<Rightarrow> bool"          \<comment> \<open>the n-th poll finds the context done\<close>
  discard_set :: bool             \<comment> \<open>\<open>discardOnCancel\<close> at that moment\<close>
  meddle :: "fs \<Rightarrow> fs"

definition good_env :: io_env where
  "good_env = \<lparr>temp_suffix = ''1'', create_ok = True, chmod_ok = True, open_ok = True,
     truncate_ok = True, seek_ok = True, sync_ok = True, close_ok = True, rename_ok = True,
     link_ok = True, remove_ok = True, short_write = (\<lambda>_. None), cancelled = (\<lambda>_. False),
     discard_set = False, meddle = (\<lambda>f. f)\<rparr>"

datatype rx_err =
    TempFile | Chmod | OpenPartial | Rehash | Truncate | Seek | Sync | CloseFailed
  | CtxDone
  | ReadStream frame_err
  | Exceeded int int
  | WriteFailed
  | IncompleteTransfer int int
  | UnexpectedFrame nat
  | ShaMismatch
  | AlreadyExists string
  | Finalize

section \<open>The receiving loop\<close>

text \<open>The state the loops keep: the content of the staging file, \<open>received\<close>, the bytes fed to the
  digest, and the calls of \<open>onProgress\<close>.\<close>

record rx_state =
  rx_data :: bytes
  rx_received :: int
  rx_hashed :: bytes
  rx_progress :: "int list"

definition rx_start :: "bytes \<Rightarrow> rx_state" where
  "rx_start held = \<lparr>rx_data = held, rx_received = int (length held), rx_hashed = held, rx_progress = []\<rparr>"

datatype rx_stop =
    StopCancelled
  | StopRead frame_err
  | StopExceeded int
  | StopWrite
  | StopIncomplete int
  | StopType nat
  | StopComplete

text \<open>The \<open>for\<close> loop the three receivers share, up to what each does when it stops.\<close>

function stream_loop ::
  "io_env \<Rightarrow> int \<Rightarrow> nat \<Rightarrow> rx_state \<Rightarrow> bytes \<Rightarrow> rx_stop \<times> rx_state \<times> bytes" where
  "stream_loop env tot i st inp =
     (if cancelled env i then (StopCancelled, st, inp)
      else case readFrame maxDataFrame inp of
        Inl e \<Rightarrow> (StopRead e, st, inp)
      | Inr (typ, payload, rest) \<Rightarrow>
          if typ = msgData then
            let received = rx_received st + int (length payload) in
            if received > tot then (StopExceeded received, st\<lparr>rx_received := received\<rparr>, rest)
            else (case short_write env i of
                Some n \<Rightarrow>
                  (StopWrite, st\<lparr>rx_received := received, rx_data := rx_data st @ take n payload\<rparr>, rest)
              | None \<Rightarrow>
                  stream_loop env tot (Suc i)
                    \<lparr>rx_data = rx_data st @ payload, rx_received = received,
                     rx_hashed = rx_hashed st @ payload, rx_progress = rx_progress st @ [received]\<rparr> rest)
          else if typ = msgEOF then
            (if rx_received st \<noteq> tot then (StopIncomplete (rx_received st), st, rest)
             else (StopComplete, st, rest))
          else (StopType typ, st, rest))"
  by pat_completeness auto
termination
  by (relation "measure (\<lambda>(env, tot, i, st, inp). length inp)") (auto dest: readFrame_shrinks)

declare stream_loop.simps [simp del]

section \<open>Placing the file\<close>

definition os_remove :: "io_env \<Rightarrow> fs \<Rightarrow> string \<Rightarrow> fs" where
  "os_remove env f p = (if remove_ok env then f(p := None) else f)"

text \<open>\<open>os.Rename\<close> onto a name that is a directory, and \<open>os.Link\<close> onto any existing name, fail.\<close>

definition placeFile :: "io_env \<Rightarrow> fs \<Rightarrow> string \<Rightarrow> string \<Rightarrow> bool \<Rightarrow> fs \<times> (rx_err + unit)" where
  "placeFile env f tmpName outPath overwrite =
     (if overwrite then
        (if \<not> rename_ok env \<or> f tmpName = None \<or> f outPath = Some Directory then (f, Inl Finalize)
         else ((f(tmpName := None))(outPath := f tmpName), Inr ()))
      else
        (if f outPath \<noteq> None then (f, Inl (AlreadyExists (Base outPath)))
         else if \<not> link_ok env \<or> f tmpName = None then (f, Inl Finalize)
         else (os_remove env (f(outPath := f tmpName)) tmpName, Inr ())))"

definition partial_prefix :: string where "partial_prefix = ''.s2u-partial-''"

definition temp_path :: "io_env \<Rightarrow> string \<Rightarrow> string" where
  "temp_path env outPath = Join (Dir outPath) (partial_prefix @ temp_suffix env)"

text \<open>How \<open>receiveToFile\<close> ends: the deferred cleanup removes the temp file on every path but success.\<close>

definition temp_finish ::
  "(bytes \<Rightarrow> bytes) \<Rightarrow> io_env \<Rightarrow> fs \<Rightarrow> string \<Rightarrow> string \<Rightarrow> int \<Rightarrow> bool \<Rightarrow> rx_stop \<Rightarrow> rx_state \<Rightarrow>
   fs \<times> (rx_err + int \<times> string)" where
  "temp_finish sha env f tmp outPath tot overwrite stop st =
     (let fail = (\<lambda>e. (os_remove env f tmp, Inl e)) in
      (case stop of
         StopCancelled \<Rightarrow> fail CtxDone
       | StopRead e \<Rightarrow> fail (ReadStream e)
       | StopExceeded n \<Rightarrow> fail (Exceeded n tot)
       | StopWrite \<Rightarrow> fail WriteFailed
       | StopIncomplete n \<Rightarrow> fail (IncompleteTransfer n tot)
       | StopType t \<Rightarrow> fail (UnexpectedFrame t)
       | StopComplete \<Rightarrow>
           if \<not> sync_ok env then fail Sync
           else if \<not> close_ok env then fail CloseFailed
           else (case placeFile env f tmp outPath overwrite of
               (f', Inl e) \<Rightarrow> (os_remove env f' tmp, Inl e)
             | (f', Inr u) \<Rightarrow> (f', Inr (rx_received st, hex_encode (sha (rx_hashed st)))))))"

definition receiveToFile ::
  "(bytes \<Rightarrow> bytes) \<Rightarrow> io_env \<Rightarrow> fs \<Rightarrow> bytes \<Rightarrow> string \<Rightarrow> int \<Rightarrow> bool \<Rightarrow>
   fs \<times> (rx_err + int \<times> string) \<times> int list" where
  "receiveToFile sha env f inp outPath tot overwrite =
     (let tmp = temp_path env outPath in
      if \<not> create_ok env \<or> f tmp \<noteq> None then (f, Inl TempFile, [])
      else if \<not> chmod_ok env then (os_remove env (f(tmp \<mapsto> File [])) tmp, Inl Chmod, [])
      else
        let (stop, st, rest) = stream_loop env tot 0 (rx_start []) inp;
            f1 = meddle env (f(tmp \<mapsto> File (rx_data st)));
            (f2, r) = temp_finish sha env f1 tmp outPath tot overwrite stop st in
        (f2, r, rx_progress st))"

section \<open>Resumable staging files\<close>

text \<open>Opening the partial, common to both resumable receivers: the content the handle starts with, or
  the error, with the file system as it then is.\<close>

definition open_partial :: "io_env \<Rightarrow> fs \<Rightarrow> string \<Rightarrow> int \<Rightarrow> fs \<times> (rx_err + bytes)" where
  "open_partial env f partialPath offset =
     (if offset > 0 then
        (case f partialPath of
           Some (File c) \<Rightarrow>
             if \<not> open_ok env then (f, Inl OpenPartial)
             else if length c < nat offset then (f, Inl Rehash)
             else if \<not> truncate_ok env then (f, Inl Truncate)
             else if \<not> seek_ok env then (f(partialPath \<mapsto> File (take (nat offset) c)), Inl Seek)
             else (f(partialPath \<mapsto> File (take (nat offset) c)), Inr (take (nat offset) c))
         | _ \<Rightarrow> (f, Inl OpenPartial))
      else
        (if \<not> open_ok env \<or> f partialPath = Some Directory then (f, Inl OpenPartial)
         else (f(partialPath \<mapsto> File []), Inr [])))"

text \<open>How the two end: the partial is kept or dropped.\<close>

definition resumable_finish ::
  "(bytes \<Rightarrow> bytes) \<Rightarrow> io_env \<Rightarrow> fs \<Rightarrow> string \<Rightarrow> string \<Rightarrow> int \<Rightarrow> string \<Rightarrow> bool \<Rightarrow> rx_stop \<Rightarrow> rx_state \<Rightarrow>
   fs \<times> (rx_err + int \<times> string)" where
  "resumable_finish sha env f partialPath outPath tot wantSHA overwrite stop st =
     (let keep = (\<lambda>e. (f, Inl e)); drop = (\<lambda>e. (os_remove env f partialPath, Inl e)) in
      (case stop of
         StopCancelled \<Rightarrow> if discard_set env then drop CtxDone else keep CtxDone
       | StopRead e \<Rightarrow> keep (ReadStream e)
       | StopExceeded n \<Rightarrow> drop (Exceeded n tot)
       | StopWrite \<Rightarrow> keep WriteFailed
       | StopIncomplete n \<Rightarrow> drop (IncompleteTransfer n tot)
       | StopType t \<Rightarrow> drop (UnexpectedFrame t)
       | StopComplete \<Rightarrow>
           let dg = hex_encode (sha (rx_hashed st)) in
           if wantSHA \<noteq> [] \<and> dg \<noteq> wantSHA then drop ShaMismatch
           else if \<not> sync_ok env then keep Sync
           else if \<not> close_ok env then keep CloseFailed
           else (case placeFile env f partialPath outPath overwrite of
               (f', Inl e) \<Rightarrow> (f', Inl e)
             | (f', Inr u) \<Rightarrow> (f', Inr (rx_received st, dg)))))"

definition receiveResumableToFile ::
  "(bytes \<Rightarrow> bytes) \<Rightarrow> io_env \<Rightarrow> fs \<Rightarrow> bytes \<Rightarrow> string \<Rightarrow> string \<Rightarrow> int \<Rightarrow> int \<Rightarrow> string \<Rightarrow> bool \<Rightarrow>
   fs \<times> (rx_err + int \<times> string) \<times> int list" where
  "receiveResumableToFile sha env f inp partialPath outPath offset tot wantSHA overwrite =
     (case open_partial env f partialPath offset of
        (f0, Inl e) \<Rightarrow> (f0, Inl e, [])
      | (f0, Inr held) \<Rightarrow>
          let (stop, st, rest) = stream_loop env tot 0 (rx_start held) inp;
              f1 = meddle env (f0(partialPath \<mapsto> File (rx_data st)));
              (f2, r) = resumable_finish sha env f1 partialPath outPath tot wantSHA overwrite stop st in
          (f2, r, rx_progress st))"

text \<open>\<open>receiveResumable\<close> of the downloader: it stages the file and leaves placing it to \<open>Download\<close>.\<close>

definition download_finish ::
  "(bytes \<Rightarrow> bytes) \<Rightarrow> io_env \<Rightarrow> fs \<Rightarrow> string \<Rightarrow> int \<Rightarrow> rx_stop \<Rightarrow> rx_state \<Rightarrow> fs \<times> (rx_err + int \<times> string)" where
  "download_finish sha env f partialPath tot stop st =
     (let keep = (\<lambda>e. (f, Inl e)); discard = (\<lambda>e. (os_remove env f partialPath, Inl e)) in
      (case stop of
         StopCancelled \<Rightarrow> keep CtxDone
       | StopRead e \<Rightarrow> keep (ReadStream e)
       | StopExceeded n \<Rightarrow> discard (Exceeded n tot)
       | StopWrite \<Rightarrow> keep WriteFailed
       | StopIncomplete n \<Rightarrow> keep (IncompleteTransfer n tot)
       | StopType t \<Rightarrow> discard (UnexpectedFrame t)
       | StopComplete \<Rightarrow>
           if \<not> sync_ok env then keep Sync
           else if \<not> close_ok env then keep CloseFailed
           else (f, Inr (rx_received st, hex_encode (sha (rx_hashed st))))))"

definition receiveResumable ::
  "(bytes \<Rightarrow> bytes) \<Rightarrow> io_env \<Rightarrow> fs \<Rightarrow> bytes \<Rightarrow> string \<Rightarrow> int \<Rightarrow> int \<Rightarrow>
   fs \<times> (rx_err + int \<times> string) \<times> bytes" where
  "receiveResumable sha env f inp partialPath offset tot =
     (case open_partial env f partialPath offset of
        (f0, Inl e) \<Rightarrow> (f0, Inl e, inp)
      | (f0, Inr held) \<Rightarrow>
          let (stop, st, rest) = stream_loop env tot 0 (rx_start held) inp;
              f1 = meddle env (f0(partialPath \<mapsto> File (rx_data st)));
              (f2, r) = download_finish sha env f1 partialPath tot stop st in
          (f2, r, rest))"

definition resumeOffset :: "fs \<Rightarrow> string \<Rightarrow> int \<Rightarrow> int" where
  "resumeOffset f partialPath tot =
     (case f partialPath of
        Some (File c) \<Rightarrow> if 0 < int (length c) \<and> int (length c) < tot then int (length c) else 0
      | _ \<Rightarrow> 0)"

definition partialName :: "(bytes \<Rightarrow> bytes) \<Rightarrow> string \<Rightarrow> string \<Rightarrow> int \<Rightarrow> string" where
  "partialName sha fingerprint name sz =
     partial_prefix @
     hex_encode (take 12 (sha (fingerprint @ [CHR 0x00] @ name @ [CHR 0x00] @ itoa sz)))"

text \<open>\<open>SweepStalePartials\<close>: the entries of the directory are given with their modification times;
  \<open>now\<close> and \<open>maxAge\<close> are in the same unit.\<close>

definition SweepStalePartials ::
  "io_env \<Rightarrow> fs \<Rightarrow> string \<Rightarrow> (string \<times> int) list \<Rightarrow> int \<Rightarrow> int \<Rightarrow> fs" where
  "SweepStalePartials env f dir entries now maxAge =
     fold (\<lambda>(name, mtime) g.
             if f (Join dir name) = Some Directory \<or> \<not> has_prefix name partial_prefix then g
             else if mtime < now - maxAge then os_remove env g (Join dir name) else g) entries f"

text \<open>\<open>fileSHA\<close>.\<close>

definition fileSHA :: "(bytes \<Rightarrow> bytes) \<Rightarrow> fs \<Rightarrow> string \<Rightarrow> string option" where
  "fileSHA sha f path = (case f path of Some (File c) \<Rightarrow> Some (hex_encode (sha c)) | _ \<Rightarrow> None)"

section \<open>What the receiving loop does\<close>

text \<open>A run of the loop as a relation: it halts on what it finds, fails inside a write, or consumes one
  data frame and goes on. The lemmas about the loop are rule inductions over it.\<close>

inductive stream_run ::
  "io_env \<Rightarrow> int \<Rightarrow> nat \<Rightarrow> rx_state \<Rightarrow> bytes \<Rightarrow> rx_stop \<Rightarrow> rx_state \<Rightarrow> bytes \<Rightarrow> bool"
  for env tot where
  halted: "stop \<in> {StopCancelled, StopRead e, StopType t} \<Longrightarrow> stream_run env tot i st inp stop st rest"
| exceeded: "n = rx_received st + int (length payload) \<Longrightarrow> n > tot \<Longrightarrow>
    inp = frame msgData payload @ rest \<Longrightarrow>
    stream_run env tot i st inp (StopExceeded n) (st\<lparr>rx_received := n\<rparr>) rest"
| incomplete: "rx_received st \<noteq> tot \<Longrightarrow> inp = frame msgEOF p @ rest \<Longrightarrow>
    stream_run env tot i st inp (StopIncomplete (rx_received st)) st rest"
| complete: "rx_received st = tot \<Longrightarrow> inp = frame msgEOF p @ rest \<Longrightarrow>
    stream_run env tot i st inp StopComplete st rest"
| short: "received = rx_received st + int (length payload) \<Longrightarrow> received \<le> tot \<Longrightarrow>
    inp = frame msgData payload @ rest \<Longrightarrow> short_write env i = Some n \<Longrightarrow>
    stream_run env tot i st inp StopWrite
      (st\<lparr>rx_received := received, rx_data := rx_data st @ take n payload\<rparr>) rest"
| more: "received = rx_received st + int (length payload) \<Longrightarrow> received \<le> tot \<Longrightarrow>
    inp = frame msgData payload @ rest \<Longrightarrow> length payload \<le> maxDataFrame \<Longrightarrow>
    stream_run env tot (Suc i)
      \<lparr>rx_data = rx_data st @ payload, rx_received = received,
       rx_hashed = rx_hashed st @ payload, rx_progress = rx_progress st @ [received]\<rparr> rest stop st' rest' \<Longrightarrow>
    stream_run env tot i st inp stop st' rest'"

lemma stream_loop_run:
  "stream_loop env tot i st inp = (stop, st', rest) \<Longrightarrow> stream_run env tot i st inp stop st' rest"
proof (induction env tot i st inp rule: stream_loop.induct)
  case (1 env tot i st inp)
  have eq: "stream_loop env tot i st inp = (stop, st', rest)" by (rule 1(2))
  show ?case
  proof (cases "cancelled env i")
    case True
    then show ?thesis using eq by (auto simp: stream_loop.simps intro: halted)
  next
    case nc: False
    show ?thesis
    proof (cases "readFrame maxDataFrame inp")
      case (Inl e)
      then show ?thesis using eq nc by (auto simp: stream_loop.simps intro: halted)
    next
      case (Inr b)
      then obtain ty payload r where rf: "readFrame maxDataFrame inp = Inr (ty, payload, r)"
        by (cases b) auto
      from rf have inp: "inp = frame ty payload @ r" and pl: "length payload \<le> maxDataFrame"
        by (auto dest: readFrame_exact)
      let ?received = "rx_received st + int (length payload)"
      consider (1) "ty = msgData" "?received > tot"
        | (2) n where "ty = msgData" "?received \<le> tot" "short_write env i = Some n"
        | (3) "ty = msgData" "?received \<le> tot" "short_write env i = None"
        | (4) "ty = msgEOF" | (5) "ty \<noteq> msgData" "ty \<noteq> msgEOF"
        by (metis linorder_not_le not_None_eq)
      then show ?thesis
      proof cases
        case 1
        then show ?thesis using eq nc rf inp
          by (subst (asm) stream_loop.simps) (auto simp: Let_def intro: exceeded)
      next
        case (2 n)
        then show ?thesis using eq nc rf inp
          by (subst (asm) stream_loop.simps) (auto simp: Let_def intro: short)
      next
        case 3
        let ?st = "\<lparr>rx_data = rx_data st @ payload, rx_received = ?received,
          rx_hashed = rx_hashed st @ payload, rx_progress = rx_progress st @ [?received]\<rparr>"
        from eq have run: "stream_loop env tot (Suc i) ?st r = (stop, st', rest)"
          using 3 nc rf by (subst (asm) stream_loop.simps) (simp add: Let_def)
        have rr: "stream_run env tot (Suc i) ?st r stop st' rest"
          by (rule "1.IH" [OF nc rf refl refl _ refl _ _ run]) (use 3 in \<open>simp_all only: not_less\<close>)
        have "inp = frame msgData payload @ r" using 3(1) inp by simp
        then show ?thesis by (rule more [OF refl 3(2) _ pl rr])
      next
        case 4
        then have "ty \<noteq> msgData" by (simp add: msg_defs)
        then have res: "(stop, st', rest) = (if rx_received st \<noteq> tot
            then (StopIncomplete (rx_received st), st, r) else (StopComplete, st, r))"
          using 4 eq nc rf by (subst (asm) stream_loop.simps) simp
        show ?thesis
        proof (cases "rx_received st = tot")
          case True
          then show ?thesis using res 4 inp by (simp add: complete)
        next
          case False
          then show ?thesis using res 4 inp by (simp add: incomplete)
        qed
      next
        case 5
        then show ?thesis using eq nc rf
          by (subst (asm) stream_loop.simps) (auto intro: halted)
      qed
    qed
  qed
qed

text \<open>\<open>rx_ok\<close>: the staging file, the digest and the counter agree, within the declared size.\<close>

definition rx_ok :: "int \<Rightarrow> rx_state \<Rightarrow> bool" where
  "rx_ok tot st \<longleftrightarrow> rx_received st = int (length (rx_data st)) \<and> rx_hashed st = rx_data st \<and>
     rx_received st \<le> tot"

lemma rx_ok_start [simp]: "rx_ok tot (rx_start held) \<longleftrightarrow> int (length held) \<le> tot"
  by (simp add: rx_ok_def rx_start_def)

lemma rx_start_sel [simp]:
  "rx_data (rx_start held) = held" "rx_received (rx_start held) = int (length held)"
  "rx_hashed (rx_start held) = held" "rx_progress (rx_start held) = []"
  by (simp_all add: rx_start_def)

lemma stream_run_bound:
  "stream_run env tot i st inp stop st' rest \<Longrightarrow> rx_ok tot st \<Longrightarrow>
   int (length (rx_data st')) \<le> tot \<and> (\<exists>d. rx_data st' = rx_data st @ d)"
  by (induction rule: stream_run.induct) (auto simp: rx_ok_def)

lemma stream_run_complete:
  "stream_run env tot i st inp stop st' rest \<Longrightarrow> rx_ok tot st \<Longrightarrow> stop = StopComplete \<Longrightarrow>
   rx_ok tot st' \<and> rx_received st' = tot \<and>
   (\<exists>cs p. inp = concat (map (frame msgData) cs) @ frame msgEOF p @ rest \<and>
           rx_data st' = rx_data st @ concat cs)"
proof (induction rule: stream_run.induct)
  case (complete st inp p rest i)
  then have "inp = concat (map (frame msgData) []) @ frame msgEOF p @ rest \<and>
      rx_data st = rx_data st @ concat []" by simp
  with complete show ?case by blast
next
  case (more received st payload inp rest i stop st' rest')
  from more.prems more.hyps(1,2) more.IH obtain cs p where
    "rx_ok tot st'" "rx_received st' = tot"
    "rest = concat (map (frame msgData) cs) @ frame msgEOF p @ rest'"
    "rx_data st' = (rx_data st @ payload) @ concat cs"
    by (auto simp: rx_ok_def)
  moreover from this more.hyps(3)
  have "inp = concat (map (frame msgData) (payload # cs)) @ frame msgEOF p @ rest' \<and>
      rx_data st' = rx_data st @ concat (payload # cs)" by simp
  ultimately show ?case by blast
qed simp_all

lemma stream_run_incomplete:
  "stream_run env tot i st inp stop st' rest \<Longrightarrow> stop = StopIncomplete n \<Longrightarrow> n \<noteq> tot"
  by (induction rule: stream_run.induct) simp_all

text \<open>Progress reports: increasing, and never past the declared size.\<close>

lemma stream_run_progress:
  "stream_run env tot i st inp stop st' rest \<Longrightarrow>
   sorted (rx_progress st) \<Longrightarrow> (\<forall>n\<in>set (rx_progress st). n \<le> rx_received st) \<Longrightarrow> rx_received st \<le> tot \<Longrightarrow>
   sorted (rx_progress st') \<and> (\<forall>n\<in>set (rx_progress st'). n \<le> tot)"
proof (induction rule: stream_run.induct)
  case (more received st payload inp rest i stop st' rest')
  have "\<forall>n\<in>set (rx_progress st). n \<le> received" using more.hyps(1) more.prems(2) by fastforce
  then show ?case using more.hyps(1,2) more.prems by (intro more.IH) (auto simp: sorted_append)
qed (simp_all, auto intro: order_trans)

lemmas stream_facts = stream_loop_run [THEN stream_run_bound] stream_loop_run [THEN stream_run_complete]

end
