(* ===== verification/SendLoop.thy ===== *)
theory SendLoop
  imports RecvLoop
begin

text \<open>
  The sender's loops (\<open>lanshare/send.go\<close>): \<open>streamBodyFrom\<close>, which frames and hashes the source,
  \<open>ctxCopyN\<close> and \<open>hashSeekable\<close>, which hash it before a resumable send. A source is an \<open>io.Reader\<close> that
  follows its contract: each read returns at least one byte and at most what the buffer holds, or the
  end, or an error; the end may come with the last bytes or after them. How many bytes each read
  returns is the reader's choice (\<open>rd_len\<close>).
\<close>

section \<open>Readers\<close>

datatype rd_status = RdMore | RdEOF | RdErr

record reader =
  rd_len :: "nat \<Rightarrow> nat"
  rd_fail :: "nat \<Rightarrow> bool"
  rd_eof_with_data :: bool

definition plain_reader :: reader where
  "plain_reader = \<lparr>rd_len = (\<lambda>_. 3), rd_fail = (\<lambda>_. False), rd_eof_with_data = False\<rparr>"

text \<open>The \<open>i\<close>-th \<open>Read\<close> into a buffer of \<open>cap\<close> bytes, with \<open>data\<close> left in the source.\<close>

definition read_once :: "reader \<Rightarrow> nat \<Rightarrow> nat \<Rightarrow> bytes \<Rightarrow> bytes \<times> rd_status" where
  "read_once rd i cap data =
     (if rd_fail rd i then ([], RdErr)
      else if data = [] then ([], RdEOF)
      else let c = take (max 1 (min (rd_len rd i) cap)) data in
        (c, if rd_eof_with_data rd \<and> length c = length data then RdEOF else RdMore))"

lemma take_append_drop_length: "c = take n xs \<Longrightarrow> c @ drop (length c) xs = xs"
  by (cases "n \<le> length xs") (simp_all add: min_def)

lemma read_once_more:
  "read_once rd i cap data = (c, RdMore) \<Longrightarrow>
   c \<noteq> [] \<and> c @ drop (length c) data = data \<and> length c \<le> max 1 cap"
proof -
  assume r: "read_once rd i cap data = (c, RdMore)"
  then have d: "data \<noteq> []" and c: "c = take (max 1 (min (rd_len rd i) cap)) data"
    by (auto simp: read_once_def Let_def split: if_splits)
  have "c \<noteq> [] \<and> length c \<le> max 1 cap" using c d by (cases data) auto
  then show ?thesis using take_append_drop_length [OF c] by simp
qed

lemma read_once_eof:
  "read_once rd i cap data = (c, RdEOF) \<Longrightarrow> data = c \<and> length c \<le> max 1 cap"
  by (auto simp: read_once_def Let_def split: if_splits)

lemma read_once_no_err: "\<not> rd_fail rd i \<Longrightarrow> read_once rd i cap data \<noteq> (c, RdErr)"
  by (auto simp: read_once_def Let_def split: if_splits)

section \<open>\<open>ctxCopyN\<close>\<close>

datatype copy_err = CopyCtx | CopyUnexpectedEOF | CopyRead

text \<open>The bytes copied into the digest, the error and what is left in the source. \<open>want\<close> is \<open>None\<close>
  for \<open>n < 0\<close>, else the number of bytes still to copy; the buffer is one MiB.\<close>

definition copyBuf :: nat where "copyBuf = 2 ^ 20"

function ctxCopyN ::
  "(nat \<Rightarrow> bool) \<Rightarrow> reader \<Rightarrow> nat \<Rightarrow> nat option \<Rightarrow> bytes \<Rightarrow> bytes \<times> copy_err option \<times> bytes" where
  "ctxCopyN cancel rd i want data =
     (if want = Some 0 then ([], None, data)
      else if cancel i then ([], Some CopyCtx, data)
      else
        let cap = (case want of None \<Rightarrow> copyBuf | Some n \<Rightarrow> min n copyBuf);
            (c, status) = read_once rd i cap data;
            want' = map_option (\<lambda>n. n - length c) want;
            left = drop (length c) data in
        (case status of
           RdEOF \<Rightarrow> (c, if want' \<noteq> None \<and> want' \<noteq> Some 0 then Some CopyUnexpectedEOF else None, left)
         | RdErr \<Rightarrow> (c, Some CopyRead, left)
         | RdMore \<Rightarrow>
             let (cs, e, rest) = ctxCopyN cancel rd (Suc i) want' left in (c @ cs, e, rest)))"
  by pat_completeness auto
termination
proof (relation "measure (\<lambda>(cancel, rd, i, want, data). length data)", goal_cases)
  case 1
  show ?case by simp
next
  case (2 cancel rd i want data cap x c status)
  then have "read_once rd i cap data = (c, RdMore)" by (auto split: rd_status.splits)
  then show ?case using 2 read_once_more [of rd i cap data c] by (cases data) auto
qed

declare ctxCopyN.simps [simp del]

text \<open>\<open>hashSeekable\<close>: both seeks to the start succeed on the seekable sources it is given.\<close>

definition hashSeekable ::
  "(bytes \<Rightarrow> bytes) \<Rightarrow> (nat \<Rightarrow> bool) \<Rightarrow> reader \<Rightarrow> bytes \<Rightarrow> copy_err + string" where
  "hashSeekable sha cancel rd data =
     (case ctxCopyN cancel rd 0 None data of
        (c, Some e, _) \<Rightarrow> Inl e
      | (c, None, _) \<Rightarrow> Inr (hex_encode (sha c)))"

section \<open>\<open>streamBodyFrom\<close>\<close>

record tx_env =
  tx_cancelled :: "nat \<Rightarrow> bool"
  tx_write_ok :: "nat \<Rightarrow> bool"

definition good_tx :: tx_env where
  "good_tx = \<lparr>tx_cancelled = (\<lambda>_. False), tx_write_ok = (\<lambda>_. True)\<rparr>"

record tx_state =
  tx_wire :: bytes
  tx_hashed :: bytes
  tx_sent :: int
  tx_progress :: "int list"

datatype tx_err = TxCtx | TxWrite | TxRead

definition tx_start :: "bytes \<Rightarrow> tx_state" where
  "tx_start held =
     \<lparr>tx_wire = [], tx_hashed = held, tx_sent = int (length held), tx_progress = []\<rparr>"

text \<open>One read's worth of bytes sent: \<open>writeFrame\<close>, the digest, the counter, the report.\<close>

definition send_chunk :: "bytes \<Rightarrow> tx_state \<Rightarrow> tx_state" where
  "send_chunk c st = st\<lparr>tx_wire := tx_wire st @ frame msgData c, tx_hashed := tx_hashed st @ c,
     tx_sent := tx_sent st + int (length c), tx_progress := tx_progress st @ [tx_sent st + int (length c)]\<rparr>"

definition send_eof :: "tx_env \<Rightarrow> nat \<Rightarrow> tx_state \<Rightarrow> tx_err option \<times> tx_state" where
  "send_eof env i st =
     (if tx_write_ok env i then (None, st\<lparr>tx_wire := tx_wire st @ frame msgEOF []\<rparr>) else (Some TxWrite, st))"

function streamBodyFrom ::
  "tx_env \<Rightarrow> reader \<Rightarrow> nat \<Rightarrow> bytes \<Rightarrow> tx_state \<Rightarrow> tx_err option \<times> tx_state" where
  "streamBodyFrom env rd i data st =
     (if tx_cancelled env i then (Some TxCtx, st)
      else
        let (c, status) = read_once rd i chunkBytes data in
        if c \<noteq> [] \<and> \<not> tx_write_ok env i then (Some TxWrite, st)
        else
          let st' = (if c \<noteq> [] then send_chunk c st else st) in
          (case status of
             RdEOF \<Rightarrow> send_eof env (Suc i) st'
           | RdErr \<Rightarrow> (Some TxRead, st')
           | RdMore \<Rightarrow> streamBodyFrom env rd (Suc i) (drop (length c) data) st'))"
  by pat_completeness auto
termination
proof (relation "measure (\<lambda>(env, rd, i, data, st). length data)", goal_cases)
  case 1
  show ?case by simp
next
  case (2 env rd i data st x c status st')
  then have "read_once rd i chunkBytes data = (c, RdMore)" by (auto split: rd_status.splits)
  then show ?case using read_once_more [of rd i chunkBytes data c] by (cases data) auto
qed

declare streamBodyFrom.simps [simp del]

section \<open>The wire of a completed send\<close>

definition wire_of :: "bytes list \<Rightarrow> bytes" where
  "wire_of cs = concat (map (frame msgData) cs) @ frame msgEOF []"

definition chunks_ok :: "bytes list \<Rightarrow> bool" where
  "chunks_ok cs \<longleftrightarrow> list_all (\<lambda>c. c \<noteq> [] \<and> length c \<le> chunkBytes) cs"

lemma wire_of_simps [simp]:
  "wire_of [] = frame msgEOF []" "wire_of (c # cs) = frame msgData c @ wire_of cs"
  by (simp_all add: wire_of_def)

lemma ctxCopyN_all:
  "(\<forall>j. \<not> cancel j) \<Longrightarrow> (\<forall>j. \<not> rd_fail rd j) \<Longrightarrow> ctxCopyN cancel rd i None data = (data, None, [])"
proof (induction data arbitrary: i rule: length_induct)
  case (1 data)
  obtain c s where r: "read_once rd i copyBuf data = (c, s)" by fastforce
  show ?case
  proof (cases s)
    case RdMore
    with r have c: "c \<noteq> []" "c @ drop (length c) data = data" using read_once_more by metis+
    then have "length (drop (length c) data) < length data" by (cases data) auto
    then have "ctxCopyN cancel rd (Suc i) None (drop (length c) data) = (drop (length c) data, None, [])"
      using 1 by blast
    then show ?thesis using 1(2) r RdMore c(2)
      by (subst ctxCopyN.simps) simp
  next
    case RdEOF
    then show ?thesis using 1(2) r read_once_eof [of rd i copyBuf data c]
      by (subst ctxCopyN.simps) simp
  next
    case RdErr
    then show ?thesis using r 1(3) read_once_no_err by blast
  qed
qed

lemma ctxCopyN_some:
  "(\<forall>j. \<not> cancel j) \<Longrightarrow> (\<forall>j. \<not> rd_fail rd j) \<Longrightarrow> n \<le> length data \<Longrightarrow>
   ctxCopyN cancel rd i (Some n) data = (take n data, None, drop n data)"
proof (induction data arbitrary: i n rule: length_induct)
  case (1 data)
  show ?case
  proof (cases "n = 0")
    case True
    then show ?thesis by (subst ctxCopyN.simps) simp
  next
    case n0: False
    obtain c s where r: "read_once rd i (min n copyBuf) data = (c, s)" by fastforce
    have cap: "max 1 (min n copyBuf) \<le> n" using n0 by (simp add: copyBuf_def)
    show ?thesis
    proof (cases s)
      case RdMore
      with r have c: "c \<noteq> []" "c @ drop (length c) data = data" "length c \<le> n"
        using read_once_more [of rd i "min n copyBuf" data c] cap by auto
      then have "length (drop (length c) data) < length data" by (cases data) auto
      moreover have "n - length c \<le> length (drop (length c) data)" using 1(4) by simp
      ultimately have "ctxCopyN cancel rd (Suc i) (Some (n - length c)) (drop (length c) data)
          = (take (n - length c) (drop (length c) data), None, drop (n - length c) (drop (length c) data))"
        using 1 by blast
      moreover have "c @ take (n - length c) (drop (length c) data) = take n data"
        using c(2,3) by (metis take_all take_append)
      ultimately show ?thesis using 1(2) r RdMore c(3) n0
        by (subst ctxCopyN.simps) simp
    next
      case RdEOF
      then have "data = c" "length c \<le> n" using r read_once_eof [of rd i "min n copyBuf" data c] cap by auto
      then show ?thesis using 1(2,4) r RdEOF n0 by (subst ctxCopyN.simps) simp
    next
      case RdErr
      then show ?thesis using r 1(3) read_once_no_err by blast
    qed
  qed
qed

lemma streamBodyFrom_wire:
  "(\<forall>j. \<not> tx_cancelled env j) \<Longrightarrow> (\<forall>j. tx_write_ok env j) \<Longrightarrow> (\<forall>j. \<not> rd_fail rd j) \<Longrightarrow>
   \<exists>cs st'. streamBodyFrom env rd i data st = (None, st') \<and> chunks_ok cs \<and> concat cs = data \<and>
     tx_wire st' = tx_wire st @ wire_of cs \<and> tx_hashed st' = tx_hashed st @ data \<and>
     tx_sent st' = tx_sent st + int (length data)"
proof (induction data arbitrary: i st rule: length_induct)
  case (1 data)
  obtain c s where r: "read_once rd i chunkBytes data = (c, s)" by fastforce
  show ?case
  proof (cases s)
    case RdMore
    with r have c: "c \<noteq> []" "c @ drop (length c) data = data" "length c \<le> chunkBytes"
      using read_once_more [of rd i chunkBytes data c] by (auto simp: chunkBytes_def)
    have "length (drop (length c) data) < length data" using c(1,2) by (cases data) auto
    then obtain cs st' where ih: "streamBodyFrom env rd (Suc i) (drop (length c) data) (send_chunk c st) = (None, st')"
      "chunks_ok cs" "concat cs = drop (length c) data"
      "tx_wire st' = tx_wire (send_chunk c st) @ wire_of cs"
      "tx_hashed st' = tx_hashed (send_chunk c st) @ drop (length c) data"
      "tx_sent st' = tx_sent (send_chunk c st) + int (length (drop (length c) data))"
      using 1 by blast
    have "streamBodyFrom env rd i data st = (None, st')"
      using 1(2,3) r RdMore c(1) ih(1) by (subst streamBodyFrom.simps) simp
    moreover have "chunks_ok (c # cs)" "concat (c # cs) = data"
      using c ih(2,3) by (auto simp: chunks_ok_def)
    moreover have "tx_wire st' = tx_wire st @ wire_of (c # cs)" "tx_hashed st' = tx_hashed st @ data"
      using ih(4,5) c(2) by (simp_all add: send_chunk_def)
    moreover have "tx_sent st' = tx_sent st + int (length data)"
      using ih(6) arg_cong [OF c(2), of length] by (simp add: send_chunk_def)
    ultimately show ?thesis by blast
  next
    case RdEOF
    with r have c: "data = c" "length c \<le> chunkBytes"
      using read_once_eof [of rd i chunkBytes data c] by (auto simp: chunkBytes_def)
    let ?cs = "if c = [] then [] else [c]"
    have "streamBodyFrom env rd i data st =
        (None, (if c = [] then st else send_chunk c st)\<lparr>tx_wire := tx_wire (if c = [] then st else send_chunk c st) @ frame msgEOF []\<rparr>)"
      using 1(2,3) r RdEOF by (subst streamBodyFrom.simps) (simp add: send_eof_def Let_def)
    moreover have "chunks_ok ?cs" "concat ?cs = data" using c by (auto simp: chunks_ok_def)
    ultimately show ?thesis
      by (intro exI [of _ ?cs] exI conjI) (use c in \<open>auto simp: send_chunk_def\<close>)
  next
    case RdErr
    then show ?thesis using r 1(4) read_once_no_err by blast
  qed
qed

end
