(* ===== verification/Delivery.thy ===== *)
theory Delivery
  imports SendLoop
begin

text \<open>
  What the data phase delivers: the receiving loops of RecvLoop run on the wire of SendLoop, whole or
  cut anywhere, and on input from a peer that follows no protocol at all.
\<close>

section \<open>The loops together\<close>

definition quiet :: "io_env \<Rightarrow> bool" where
  "quiet env \<longleftrightarrow> (\<forall>i. \<not> cancelled env i) \<and> (\<forall>i. short_write env i = None)"

text \<open>Nothing fails and nobody interferes.\<close>

definition calm :: "io_env \<Rightarrow> bool" where
  "calm env \<longleftrightarrow> quiet env \<and> create_ok env \<and> chmod_ok env \<and> open_ok env \<and> truncate_ok env \<and> seek_ok env \<and>
     sync_ok env \<and> close_ok env \<and> rename_ok env \<and> link_ok env \<and> remove_ok env \<and> meddle env = (\<lambda>f. f)"

definition tx_calm :: "tx_env \<Rightarrow> reader \<Rightarrow> bool" where
  "tx_calm env rd \<longleftrightarrow> (\<forall>j. \<not> tx_cancelled env j) \<and> (\<forall>j. tx_write_ok env j) \<and> (\<forall>j. \<not> rd_fail rd j)"

lemma calm_good [simp]: "calm good_env"
  by (simp add: calm_def quiet_def good_env_def)

lemma good_env_sel [simp]:
  "temp_suffix good_env = ''1''" "create_ok good_env" "chmod_ok good_env" "open_ok good_env"
  "truncate_ok good_env" "seek_ok good_env" "sync_ok good_env" "close_ok good_env"
  "rename_ok good_env" "link_ok good_env" "remove_ok good_env" "short_write good_env i = None"
  "\<not> cancelled good_env i" "\<not> discard_set good_env" "meddle good_env f = f" "quiet good_env"
  by (simp_all add: good_env_def quiet_def)

lemma tx_calm_good [simp]: "tx_calm good_tx plain_reader"
  by (simp add: tx_calm_def good_tx_def plain_reader_def)

definition rx_feed :: "bytes \<Rightarrow> rx_state \<Rightarrow> rx_state" where
  "rx_feed c st = \<lparr>rx_data = rx_data st @ c, rx_received = rx_received st + int (length c),
     rx_hashed = rx_hashed st @ c, rx_progress = rx_progress st @ [rx_received st + int (length c)]\<rparr>"

lemma stream_loop_data:
  "quiet env \<Longrightarrow> length c \<le> chunkBytes \<Longrightarrow> rx_received st + int (length c) \<le> tot \<Longrightarrow>
   stream_loop env tot i st (frame msgData c @ r) = stream_loop env tot (Suc i) (rx_feed c st) r"
  by (subst stream_loop.simps)
    (simp add: quiet_def readFrame_frame cap_defs msg_defs rx_feed_def Let_def)

lemma stream_loop_eof:
  "quiet env \<Longrightarrow> rx_received st = tot \<Longrightarrow>
   stream_loop env tot i st (frame msgEOF [] @ r) = (StopComplete, st, r)"
  by (subst stream_loop.simps) (simp add: quiet_def readFrame_frame cap_defs msg_defs)

lemma rx_ok_feed [simp]:
  "rx_ok tot st \<Longrightarrow> rx_received st + int (length c) \<le> tot \<Longrightarrow> rx_ok tot (rx_feed c st)"
  by (simp add: rx_ok_def rx_feed_def)

lemma rx_feed_simps [simp]:
  "rx_data (rx_feed c st) = rx_data st @ c" "rx_hashed (rx_feed c st) = rx_hashed st @ c"
  "rx_received (rx_feed c st) = rx_received st + int (length c)"
  by (simp_all add: rx_feed_def)

lemma stream_loop_wire:
  "quiet env \<Longrightarrow> chunks_ok cs \<Longrightarrow> rx_ok tot st \<Longrightarrow> rx_received st + int (length (concat cs)) = tot \<Longrightarrow>
   \<exists>st'. stream_loop env tot i st (wire_of cs @ r) = (StopComplete, st', r) \<and> rx_ok tot st' \<and>
     rx_received st' = tot \<and> rx_data st' = rx_data st @ concat cs"
proof (induction cs arbitrary: i st)
  case Nil
  then show ?case by (auto simp: stream_loop_eof)
next
  case (Cons c cs)
  have "\<exists>st'. stream_loop env tot (Suc i) (rx_feed c st) (wire_of cs @ r) = (StopComplete, st', r) \<and>
      rx_ok tot st' \<and> rx_received st' = tot \<and> rx_data st' = rx_data (rx_feed c st) @ concat cs"
    using Cons.prems by (intro Cons.IH) (auto simp: chunks_ok_def)
  then show ?case using Cons.prems by (auto simp: stream_loop_data chunks_ok_def)
qed

text \<open>A connection cut anywhere before the end leaves a prefix in the staging file.\<close>

lemma stream_loop_cut:
  "quiet env \<Longrightarrow> chunks_ok cs \<Longrightarrow> rx_ok tot st \<Longrightarrow> rx_received st + int (length (concat cs)) = tot \<Longrightarrow>
   m < length (wire_of cs) \<Longrightarrow>
   \<exists>st' r k. stream_loop env tot i st (take m (wire_of cs)) = (StopRead ReadFailed, st', r) \<and> rx_ok tot st' \<and>
     rx_data st' = rx_data st @ concat (take k cs)"
proof (induction cs arbitrary: i st m)
  case Nil
  then have "readFrame maxDataFrame (take m (frame msgEOF [])) = Inl ReadFailed"
    by (intro readFrame_truncated) auto
  then have "stream_loop env tot i st (take m (wire_of [])) = (StopRead ReadFailed, st, take m (frame msgEOF []))"
    using Nil(1) by (subst stream_loop.simps) (simp add: quiet_def)
  then show ?case using Nil(3) by fastforce
next
  case (Cons c cs)
  have c: "length c \<le> chunkBytes" "chunks_ok cs" using Cons.prems(2) by (auto simp: chunks_ok_def)
  show ?case
  proof (cases "m < length (frame msgData c)")
    case True
    have tk: "take m (wire_of (c # cs)) = take m (frame msgData c)" using True by simp
    have "readFrame maxDataFrame (take m (frame msgData c)) = Inl ReadFailed"
      using True c(1) by (intro readFrame_truncated) (auto simp: cap_defs)
    then have "stream_loop env tot i st (take m (wire_of (c # cs))) =
        (StopRead ReadFailed, st, take m (frame msgData c))"
      using Cons.prems(1) by (subst stream_loop.simps) (simp only: tk, simp add: quiet_def del: take_append)
    then show ?thesis using Cons.prems(3) by (intro exI [of _ st] exI exI [of _ 0]) simp
  next
    case False
    then obtain j where m: "m = length (frame msgData c) + j" by (metis le_Suc_ex not_le)
    have tk: "take m (wire_of (c # cs)) = frame msgData c @ take j (wire_of cs)" by (simp add: m)
    have "\<exists>st' r k. stream_loop env tot (Suc i) (rx_feed c st) (take j (wire_of cs)) = (StopRead ReadFailed, st', r) \<and>
        rx_ok tot st' \<and> rx_data st' = rx_data (rx_feed c st) @ concat (take k cs)"
      using Cons.prems c m by (intro Cons.IH) auto
    then obtain st' r k where "stream_loop env tot (Suc i) (rx_feed c st) (take j (wire_of cs)) = (StopRead ReadFailed, st', r)"
      "rx_ok tot st'" "rx_data st' = rx_data st @ concat (take (Suc k) (c # cs))" by auto
    then show ?thesis using Cons.prems c tk by (auto simp: stream_loop_data simp del: take_Suc_Cons)
  qed
qed

section \<open>Placing\<close>

lemma placeFile_rename:
  "rename_ok env \<Longrightarrow> f tmp = Some n \<Longrightarrow> f out \<noteq> Some Directory \<Longrightarrow> tmp \<noteq> out \<Longrightarrow>
   placeFile env f tmp out True = (f(tmp := None, out \<mapsto> n), Inr ())"
  by (simp add: placeFile_def)

lemma placeFile_link:
  "link_ok env \<Longrightarrow> remove_ok env \<Longrightarrow> f tmp = Some n \<Longrightarrow> f out = None \<Longrightarrow> tmp \<noteq> out \<Longrightarrow>
   placeFile env f tmp out False = (f(tmp := None, out \<mapsto> n), Inr ())"
  by (simp add: placeFile_def os_remove_def fun_upd_twist)

lemma placeFile_ok:
  assumes "rename_ok env" "link_ok env" "remove_ok env" "f tmp = Some n" "tmp \<noteq> out"
    "if ow then f out \<noteq> Some Directory else f out = None"
  shows "placeFile env f tmp out ow = (f(tmp := None, out \<mapsto> n), Inr ())"
  using assms by (cases ow) (simp_all add: placeFile_rename placeFile_link)

lemma placeFile_InrD:
  assumes "placeFile env f tmp out ow = (f', Inr ())"
  shows "f tmp \<noteq> None \<and> (tmp \<noteq> out \<longrightarrow> f' out = f tmp) \<and> (\<not> ow \<longrightarrow> f out = None) \<and>
    (\<forall>p. p \<noteq> tmp \<longrightarrow> p \<noteq> out \<longrightarrow> f' p = f p)"
  using assms by (auto simp: placeFile_def os_remove_def split: if_splits)

lemma placeFile_InlD: "placeFile env f tmp out ow = (f', Inl e) \<Longrightarrow> f' = f"
  by (auto simp: placeFile_def split: if_splits)

lemmas placeFile_facts = placeFile_InrD placeFile_InlD

section \<open>Opening a partial\<close>

lemma open_partial_InrD:
  assumes "open_partial env f partial off = (f0, Inr held)"
  shows "f0 = f(partial \<mapsto> File held) \<and> length held = nat off \<and>
    (off > 0 \<longrightarrow> (\<exists>c. f partial = Some (File c) \<and> held = take (nat off) c))"
  using assms by (auto simp: open_partial_def split: if_splits option.splits node.splits)

lemma open_partial_fresh:
  "open_ok env \<Longrightarrow> f partial \<noteq> Some Directory \<Longrightarrow> off \<le> 0 \<Longrightarrow>
   open_partial env f partial off = (f(partial \<mapsto> File []), Inr [])"
  by (simp add: open_partial_def)

lemma open_partial_resume:
  "open_ok env \<Longrightarrow> truncate_ok env \<Longrightarrow> seek_ok env \<Longrightarrow> f partial = Some (File c) \<Longrightarrow> c \<noteq> [] \<Longrightarrow>
   open_partial env f partial (int (length c)) = (f(partial \<mapsto> File c), Inr c)"
  by (simp add: open_partial_def)

lemma resumeOffset_cases:
  "resumeOffset f partial tot = 0 \<or>
   (\<exists>c. f partial = Some (File c) \<and> c \<noteq> [] \<and> int (length c) < tot \<and> resumeOffset f partial tot = int (length c))"
  by (auto simp: resumeOffset_def split: option.splits node.splits)

text \<open>Opening at the offset the receiver computed itself always works on a healthy disk.\<close>

lemma open_partial_resumeOffset:
  assumes "calm env" "f partial \<noteq> Some Directory" "0 \<le> tot"
  shows "\<exists>held. open_partial env f partial (resumeOffset f partial tot) = (f(partial \<mapsto> File held), Inr held) \<and>
    int (length held) = resumeOffset f partial tot \<and> int (length held) \<le> tot \<and>
    (\<forall>c. f partial = Some (File c) \<longrightarrow> held = take (length held) c)"
proof (cases "resumeOffset f partial tot = 0")
  case True
  then show ?thesis using assms by (simp add: open_partial_fresh calm_def)
next
  case False
  then obtain c where "f partial = Some (File c)" "c \<noteq> []" "int (length c) < tot"
    "resumeOffset f partial tot = int (length c)" using resumeOffset_cases by blast
  then show ?thesis using assms by (simp add: open_partial_resume calm_def)
qed

section \<open>How the receivers end\<close>

lemma temp_finish_stop:
  "stop \<noteq> StopComplete \<Longrightarrow> \<exists>e. temp_finish sha env f tmp out tot ow stop st = (os_remove env f tmp, Inl e)"
  by (cases stop) (simp_all add: temp_finish_def)

lemma temp_finish_complete:
  "temp_finish sha env f tmp out tot ow StopComplete st =
     (if \<not> sync_ok env then (os_remove env f tmp, Inl Sync)
      else if \<not> close_ok env then (os_remove env f tmp, Inl CloseFailed)
      else (case snd (placeFile env f tmp out ow) of
          Inl e \<Rightarrow> (os_remove env (fst (placeFile env f tmp out ow)) tmp, Inl e)
        | Inr u \<Rightarrow> (fst (placeFile env f tmp out ow), Inr (rx_received st, hex_encode (sha (rx_hashed st))))))"
  by (simp add: temp_finish_def split_beta)

lemma temp_finish_Inr:
  assumes "temp_finish sha env f tmp out tot ow stop st = (f', Inr (n, dg))"
  shows "stop = StopComplete \<and> placeFile env f tmp out ow = (f', Inr ()) \<and> n = rx_received st \<and>
    dg = hex_encode (sha (rx_hashed st))"
proof -
  have c: "stop = StopComplete"
    using assms temp_finish_stop [of stop sha env f tmp out tot ow st] by fastforce
  obtain f2 r where "placeFile env f tmp out ow = (f2, r)" by fastforce
  then show ?thesis using assms unfolding c temp_finish_complete
    by (cases r) (simp_all split: if_split_asm)
qed

lemma temp_finish_Inl:
  assumes "temp_finish sha env f tmp out tot ow stop st = (f', Inl e)"
  shows "f' = os_remove env f tmp"
proof (cases "stop = StopComplete")
  case c: True
  obtain f2 r where p: "placeFile env f tmp out ow = (f2, r)" by fastforce
  then show ?thesis using assms unfolding c temp_finish_complete
    by (cases r) (auto dest: placeFile_InlD split: if_split_asm)
next
  case False
  then show ?thesis using assms temp_finish_stop [of stop sha env f tmp out tot ow st] by fastforce
qed

text \<open>The errors after which a partial must not be resumed.\<close>

fun poisoned :: "rx_err \<Rightarrow> bool" where
  "poisoned (Exceeded n t) = True"
| "poisoned (IncompleteTransfer n t) = True"
| "poisoned (UnexpectedFrame t) = True"
| "poisoned ShaMismatch = True"
| "poisoned _ = False"

lemma resumable_finish_stop:
  "stop \<noteq> StopComplete \<Longrightarrow> \<exists>e. resumable_finish sha env f partial out tot want ow stop st =
     (if poisoned e \<or> (e = CtxDone \<and> discard_set env) then os_remove env f partial else f, Inl e)"
  by (cases stop) (simp_all add: resumable_finish_def Let_def)

lemma resumable_finish_complete:
  "resumable_finish sha env f partial out tot want ow StopComplete st =
     (let dg = hex_encode (sha (rx_hashed st)) in
      if want \<noteq> [] \<and> dg \<noteq> want then (os_remove env f partial, Inl ShaMismatch)
      else if \<not> sync_ok env then (f, Inl Sync)
      else if \<not> close_ok env then (f, Inl CloseFailed)
      else (case snd (placeFile env f partial out ow) of
          Inl e \<Rightarrow> (fst (placeFile env f partial out ow), Inl e)
        | Inr u \<Rightarrow> (fst (placeFile env f partial out ow), Inr (rx_received st, dg))))"
  unfolding resumable_finish_def Let_def split_beta rx_stop.case ..

lemma placeFile_err: "placeFile env f tmp out ow = (f', Inl e) \<Longrightarrow> e = Finalize \<or> (\<exists>b. e = AlreadyExists b)"
  by (auto simp: placeFile_def split: if_splits)

lemma resumable_finish_Inr:
  assumes "resumable_finish sha env f partial out tot want ow stop st = (f', Inr (n, dg))"
  shows "stop = StopComplete \<and> placeFile env f partial out ow = (f', Inr ()) \<and> n = rx_received st \<and>
    dg = hex_encode (sha (rx_hashed st)) \<and> (want \<noteq> [] \<longrightarrow> dg = want)"
proof -
  have c: "stop = StopComplete"
    using assms resumable_finish_stop [of stop sha env f partial out tot want ow st] by fastforce
  obtain f2 r where "placeFile env f partial out ow = (f2, r)" by fastforce
  then show ?thesis using assms unfolding c resumable_finish_complete
    by (cases r) (auto simp: Let_def split: if_split_asm)
qed

lemma resumable_finish_Inl:
  assumes "resumable_finish sha env f partial out tot want ow stop st = (f', Inl e)"
  shows "f' = (if poisoned e \<or> (e = CtxDone \<and> discard_set env) then os_remove env f partial else f)"
proof (cases "stop = StopComplete")
  case c: True
  obtain f2 r where p: "placeFile env f partial out ow = (f2, r)" by fastforce
  show ?thesis
  proof (cases r)
    case (Inl e')
    then show ?thesis using assms p placeFile_InlD [of env f partial out ow f2 e'] placeFile_err [of env f partial out ow f2 e']
      unfolding c resumable_finish_complete by (auto simp: Let_def split: if_split_asm)
  next
    case (Inr u)
    then show ?thesis using assms p
      unfolding c resumable_finish_complete by (auto simp: Let_def split: if_split_asm)
  qed
next
  case False
  then show ?thesis using assms resumable_finish_stop [of stop sha env f partial out tot want ow st] by fastforce
qed

text \<open>A whole run of each receiver, in terms of the loop.\<close>

lemma receiveToFile_InrD:
  assumes "receiveToFile sha env f inp out tot ow = (f', Inr (n, dg), pr)" "0 \<le> tot"
  shows "\<exists>cs p rest. inp = concat (map (frame msgData) cs) @ frame msgEOF p @ rest \<and>
    placeFile env (meddle env (f(temp_path env out \<mapsto> File (concat cs)))) (temp_path env out) out ow = (f', Inr ()) \<and>
    n = tot \<and> int (length (concat cs)) = tot \<and> dg = hex_encode (sha (concat cs))"
proof -
  obtain stop st rest where run: "stream_loop env tot 0 (rx_start []) inp = (stop, st, rest)"
    by (cases "stream_loop env tot 0 (rx_start []) inp") auto
  let ?f1 = "meddle env (f(temp_path env out \<mapsto> File (rx_data st)))"
  have "temp_finish sha env ?f1 (temp_path env out) out tot ow stop st = (f', Inr (n, dg))"
    using assms(1) run by (auto simp: receiveToFile_def Let_def split: if_split_asm prod.split_asm)
  note tf = temp_finish_Inr [OF this]
  have st0: "rx_ok tot (rx_start [])" "rx_data (rx_start []) = []"
    using assms(2) by (simp_all add: rx_ok_def rx_start_def)
  have "stop = StopComplete" using tf by simp
  note src = stream_run_complete [OF stream_loop_run [OF run] st0(1) this]
  have ok: "rx_ok tot st" "rx_received st = tot" using src by simp_all
  obtain cs p where "inp = concat (map (frame msgData) cs) @ frame msgEOF p @ rest" "rx_data st = concat cs"
    using src [THEN conjunct2, THEN conjunct2] unfolding st0(2) append_Nil by blast
  moreover have "n = tot \<and> int (length (rx_data st)) = tot \<and> dg = hex_encode (sha (rx_data st))"
    using tf ok by (simp add: rx_ok_def)
  ultimately show ?thesis using tf by (metis (no_types))
qed

lemma receiveToFile_InlD:
  assumes "receiveToFile sha env f inp out tot ow = (f', Inl e, pr)" "0 \<le> tot"
  shows "(e = TempFile \<and> f' = f) \<or>
    (\<exists>g d. (g = f(temp_path env out \<mapsto> File d) \<or> g = meddle env (f(temp_path env out \<mapsto> File d))) \<and>
       int (length d) \<le> tot \<and> f' = os_remove env g (temp_path env out))"
proof -
  consider "\<not> (create_ok env \<and> f (temp_path env out) = None)"
    | "create_ok env \<and> f (temp_path env out) = None" "\<not> chmod_ok env"
    | "create_ok env \<and> f (temp_path env out) = None" "chmod_ok env" by blast
  then show ?thesis
  proof cases
    case 1
    then show ?thesis using assms by (auto simp: receiveToFile_def)
  next
    case 2
    then have "f' = os_remove env (f(temp_path env out \<mapsto> File [])) (temp_path env out)"
      using assms by (simp add: receiveToFile_def Let_def)
    then show ?thesis using assms(2) by (intro disjI2 exI [of _ "f(temp_path env out \<mapsto> File [])"] exI [of _ "[]"]) simp
  next
    case 3
    obtain stop st rest where run: "stream_loop env tot 0 (rx_start []) inp = (stop, st, rest)"
      by (cases "stream_loop env tot 0 (rx_start []) inp") auto
    let ?f1 = "meddle env (f(temp_path env out \<mapsto> File (rx_data st)))"
    have "temp_finish sha env ?f1 (temp_path env out) out tot ow stop st = (f', Inl e)"
      using assms(1) run 3 by (auto simp: receiveToFile_def Let_def split: prod.split_asm)
    then have "f' = os_remove env ?f1 (temp_path env out)" by (rule temp_finish_Inl)
    moreover have "int (length (rx_data st)) \<le> tot"
      using stream_loop_run [OF run, THEN stream_run_bound] assms(2) by simp
    ultimately show ?thesis by blast
  qed
qed

lemma receiveResumableToFile_cases:
  assumes "receiveResumableToFile sha env f inp partial out off tot want ow = (f', r, pr)"
  shows "(\<exists>f0 e. open_partial env f partial off = (f0, Inl e) \<and> f' = f0 \<and> r = Inl e) \<or>
    (\<exists>held stop st rest. open_partial env f partial off = (f(partial \<mapsto> File held), Inr held) \<and>
       stream_loop env tot 0 (rx_start held) inp = (stop, st, rest) \<and>
       resumable_finish sha env (meddle env (f(partial \<mapsto> File (rx_data st)))) partial out tot want ow stop st = (f', r))"
proof (cases "open_partial env f partial off")
  case (Pair f0 b)
  show ?thesis
  proof (cases b)
    case (Inl e)
    then show ?thesis using assms Pair by (simp add: receiveResumableToFile_def)
  next
    case (Inr held)
    then have op: "open_partial env f partial off = (f0, Inr held)" using Pair by simp
    then have f0: "f0 = f(partial \<mapsto> File held)" using open_partial_InrD by blast
    obtain stop st rest where run: "stream_loop env tot 0 (rx_start held) inp = (stop, st, rest)"
      by (cases "stream_loop env tot 0 (rx_start held) inp") auto
    have "resumable_finish sha env (meddle env (f(partial \<mapsto> File (rx_data st)))) partial out tot want ow stop st = (f', r)"
      using assms op run f0 by (auto simp: receiveResumableToFile_def Let_def split: prod.split_asm)
    then show ?thesis using op f0 run by blast
  qed
qed

section \<open>Resuming\<close>

lemma resume_run:
  assumes "calm env" "open_partial env f partial off = (f(partial \<mapsto> File held), Inr held)"
    and "chunks_ok cs" "held @ concat cs = content" "partial \<noteq> out"
    and "if ow then f out \<noteq> Some Directory else f out = None"
    and "want = [] \<or> want = hex_encode (sha content)"
  shows "\<exists>pr. receiveResumableToFile sha env f (wire_of cs @ r) partial out off (int (length content)) want ow =
    (f(partial := None, out \<mapsto> File content), Inr (int (length content), hex_encode (sha content)), pr)"
proof -
  let ?n = "int (length content)"
  have q: "quiet env" using assms(1) by (simp add: calm_def)
  have n: "rx_ok ?n (rx_start held)" "rx_received (rx_start held) + int (length (concat cs)) = ?n"
    using assms(4) by (auto simp: rx_ok_def)
  obtain st where rx: "stream_loop env ?n 0 (rx_start held) (wire_of cs @ r) = (StopComplete, st, r)"
    "rx_ok ?n st" "rx_received st = ?n" "rx_data st = content"
    using stream_loop_wire [OF q assms(3) n, of 0 r] unfolding rx_start_sel assms(4) by blast
  have "placeFile env (f(partial \<mapsto> File content)) partial out ow = (f(partial := None, out \<mapsto> File content), Inr ())"
    using placeFile_ok [of env "f(partial \<mapsto> File content)" partial "File content" out ow] assms(1,5,6)
    by (auto simp: calm_def split: if_splits)
  then have "resumable_finish sha env (f(partial \<mapsto> File content)) partial out ?n want ow StopComplete st =
      (f(partial := None, out \<mapsto> File content), Inr (?n, hex_encode (sha content)))"
    using rx assms(1,7) by (auto simp: resumable_finish_complete calm_def rx_ok_def Let_def)
  then show ?thesis using assms(1,2) rx by (simp add: receiveResumableToFile_def calm_def)
qed

lemma interrupted_run:
  assumes "calm env" "f partial \<noteq> Some Directory" "chunks_ok cs" "m < length (wire_of cs)"
  shows "\<exists>k pr. receiveResumableToFile sha env f (take m (wire_of cs)) partial out 0 (int (length (concat cs))) want ow =
    (f(partial \<mapsto> File (concat (take k cs))), Inl (ReadStream ReadFailed), pr)"
proof -
  have q: "quiet env" using assms(1) by (simp add: calm_def)
  let ?n = "int (length (concat cs))"
  obtain st r k where "stream_loop env ?n 0 (rx_start []) (take m (wire_of cs)) = (StopRead ReadFailed, st, r)"
    "rx_data st = concat (take k cs)"
    using stream_loop_cut [OF q assms(3) _ _ assms(4), of ?n "rx_start []" 0] by (auto simp: rx_ok_def)
  then have "receiveResumableToFile sha env f (take m (wire_of cs)) partial out 0 ?n want ow =
      (f(partial \<mapsto> File (concat (take k cs))), Inl (ReadStream ReadFailed), rx_progress st)"
    using assms(1,2) by (simp add: receiveResumableToFile_def open_partial_def resumable_finish_def calm_def)
  then show ?thesis by blast
qed

lemma concat_take_prefix: "take (length (concat (take k cs))) (concat cs) = concat (take k cs)"
proof -
  have "concat cs = concat (take k cs) @ concat (drop k cs)" by (metis append_take_drop_id concat_append)
  then show ?thesis by simp
qed

lemma receiveResumableToFile_InrD:
  assumes "receiveResumableToFile sha env f inp partial out off tot want ow = (f', Inr (n, dg), pr)"
    and "off \<le> tot" "0 \<le> tot"
  shows "\<exists>held d. open_partial env f partial off = (f(partial \<mapsto> File held), Inr held) \<and>
    placeFile env (meddle env (f(partial \<mapsto> File (held @ d)))) partial out ow = (f', Inr ()) \<and>
    n = tot \<and> int (length (held @ d)) = tot \<and> dg = hex_encode (sha (held @ d)) \<and> (want \<noteq> [] \<longrightarrow> dg = want)"
proof -
  from receiveResumableToFile_cases [OF assms(1)] obtain held stop st rest where
    op: "open_partial env f partial off = (f(partial \<mapsto> File held), Inr held)" and
    run: "stream_loop env tot 0 (rx_start held) inp = (stop, st, rest)" and
    fin: "resumable_finish sha env (meddle env (f(partial \<mapsto> File (rx_data st)))) partial out tot want ow stop st
      = (f', Inr (n, dg))" by auto
  note c = resumable_finish_Inr [OF fin]
  have st0: "rx_ok tot (rx_start held)" using open_partial_InrD [OF op] assms(2,3) by simp
  note src = stream_run_complete [OF stream_loop_run [OF run] st0 c [THEN conjunct1]]
  then obtain d where d: "rx_data st = held @ d" by auto
  have ok: "rx_hashed st = held @ d" "int (length (held @ d)) = tot" "rx_received st = tot"
    using src d by (simp_all add: rx_ok_def)
  have w: "want \<noteq> [] \<longrightarrow> dg = want" "dg = hex_encode (sha (rx_hashed st))" using c by blast+
  have "placeFile env (meddle env (f(partial \<mapsto> File (held @ d)))) partial out ow = (f', Inr ()) \<and>
      n = tot \<and> int (length (held @ d)) = tot \<and> dg = hex_encode (sha (held @ d)) \<and> (want \<noteq> [] \<longrightarrow> dg = want)"
    using c [THEN conjunct2] ok w unfolding d ok(1) by blast
  then show ?thesis using op by blast
qed

lemma resumeOffset_bounds: "0 \<le> tot \<Longrightarrow> 0 \<le> resumeOffset f partial tot \<and> resumeOffset f partial tot \<le> tot"
  using resumeOffset_cases [of f partial tot] by auto

section \<open>An example run\<close>

text \<open>Five bytes in two frames; the witnesses use it.\<close>

definition hello_wire :: bytes where
  "hello_wire = frame msgData ''hel'' @ frame msgData ''lo'' @ frame msgEOF []"

lemma hello_temp: "temp_path good_env ''/d/a'' = ''/d/.s2u-partial-1''"
  by code_simp

lemma hello_received:
  "\<exists>pr. receiveToFile id good_env Map.empty hello_wire ''/d/a'' 5 False =
    ([''/d/a'' \<mapsto> File ''hello''], Inr (5, hex_encode ''hello''), pr)"
proof -
  have wire: "hello_wire = wire_of [''hel'', ''lo'']" by (simp add: hello_wire_def)
  have q: "quiet good_env" "chunks_ok [''hel'', ''lo'']" by (simp_all add: chunks_ok_def cap_defs)
  obtain st' where "stream_loop good_env 5 0 (rx_start []) hello_wire = (StopComplete, st', [])"
    "rx_ok 5 st'" "rx_received st' = 5" "rx_data st' = ''hello''"
    using stream_loop_wire [OF q, of 5 "rx_start []" 0 "[]"] by (auto simp: rx_ok_def wire)
  then have "receiveToFile id good_env Map.empty hello_wire ''/d/a'' 5 False =
      ([''/d/a'' \<mapsto> File ''hello''], Inr (5, hex_encode ''hello''), rx_progress st')"
    by (simp add: receiveToFile_def temp_finish_complete hello_temp placeFile_def os_remove_def rx_ok_def Let_def
        fun_upd_twist)
  then show ?thesis by blast
qed

end
