(* ===== verification/Transfers.thy ===== *)
theory Transfers
  imports Delivery
begin

text \<open>
  The properties of a file transfer: what a completed one leaves on disk, what a failed or hostile one
  cannot do, and that an interrupted one can be finished. The lemmas are those of Delivery.
\<close>

text \<open>A pushed file arrives whole: whatever sizes the source is read in, the frames \<open>streamBodyFrom\<close>
  writes, received by \<open>receiveToFile\<close> with the declared size, leave exactly the source's bytes at the
  destination and nothing else changed, and both ends report the same SHA-256.\<close>

theorem push_delivers:
  assumes "tx_calm tenv rd" "calm env"
    and "f (temp_path env out) = None" "temp_path env out \<noteq> out"
    and "if overwrite then f out \<noteq> Some Directory else f out = None"
  shows "\<exists>st pr. streamBodyFrom tenv rd 0 content (tx_start []) = (None, st) \<and>
    receiveToFile sha env f (tx_wire st @ later) out (int (length content)) overwrite =
      (f(out \<mapsto> File content), Inr (int (length content), hex_encode (sha content)), pr) \<and>
    hex_encode (sha (tx_hashed st)) = hex_encode (sha content)"
proof -
  obtain cs st where tx: "streamBodyFrom tenv rd 0 content (tx_start []) = (None, st)" "chunks_ok cs"
    "concat cs = content" "tx_wire st = wire_of cs" "tx_hashed st = content"
    using streamBodyFrom_wire [of tenv rd 0 content "tx_start []"] assms(1)
    by (auto simp: tx_calm_def tx_start_def)
  have q: "quiet env" using assms(2) by (simp add: calm_def)
  obtain st' where rx: "stream_loop env (int (length content)) 0 (rx_start []) (wire_of cs @ later) = (StopComplete, st', later)"
    "rx_ok (int (length content)) st'" "rx_received st' = int (length content)" "rx_data st' = content"
    using stream_loop_wire [OF q tx(2), of "int (length content)" "rx_start []" 0 later] tx(3)
    by (auto simp: rx_start_def rx_ok_def)
  let ?tmp = "temp_path env out"
  have "placeFile env (f(?tmp \<mapsto> File content)) ?tmp out overwrite = (f(?tmp := None, out \<mapsto> File content), Inr ())"
    using placeFile_ok [of env "f(?tmp \<mapsto> File content)" ?tmp "File content" out overwrite] assms(2,4,5)
    by (auto simp: calm_def split: if_splits)
  moreover have "f(?tmp := None) = f" using assms(3) by auto
  ultimately have "receiveToFile sha env f (tx_wire st @ later) out (int (length content)) overwrite =
      (f(out \<mapsto> File content), Inr (int (length content), hex_encode (sha content)), rx_progress st')"
    using rx tx(4) assms(2,3) by (simp add: receiveToFile_def temp_finish_complete calm_def rx_ok_def)
  then show ?thesis using tx(1,5) by blast
qed

lemma push_delivers_witness:
  "\<exists>st pr. streamBodyFrom good_tx plain_reader 0 ''hello'' (tx_start []) = (None, st) \<and>
    receiveToFile id good_env Map.empty (tx_wire st @ []) ''/d/a'' (int (length ''hello'')) False =
      ([''/d/a'' \<mapsto> File ''hello''], Inr (int (length ''hello''), hex_encode (id ''hello'')), pr) \<and>
    hex_encode (id (tx_hashed st)) = hex_encode (id ''hello'')"
proof (rule push_delivers)
  show "temp_path good_env ''/d/a'' \<noteq> ''/d/a''" by code_simp
qed simp_all

text \<open>C6 A file \<open>receiveToFile\<close> reports as received is what the peer sent: the input began with data
  frames and an end frame, their payloads together have the declared size, the digest is theirs, they
  are what stands at the destination, and without overwrite nothing stood there the moment before, whatever
  other processes did in between.\<close>

theorem receiveToFile_success:
  assumes "receiveToFile sha env f inp out declared overwrite = (f', Inr (n, dg), pr)" "0 \<le> declared"
    and "temp_path env out \<noteq> out"
    and "\<forall>g. meddle env g (temp_path env out) = g (temp_path env out)"
  shows "\<exists>content cs p rest g. inp = concat (map (frame msgData) cs) @ frame msgEOF p @ rest \<and>
    content = concat cs \<and> n = declared \<and> int (length content) = declared \<and> dg = hex_encode (sha content) \<and>
    f' out = Some (File content) \<and> g = meddle env (f(temp_path env out \<mapsto> File content)) \<and>
    (\<not> overwrite \<longrightarrow> g out = None) \<and> (\<forall>p. p \<noteq> temp_path env out \<longrightarrow> p \<noteq> out \<longrightarrow> f' p = g p)"
proof -
  let ?tmp = "temp_path env out"
  obtain cs p rest where r: "inp = concat (map (frame msgData) cs) @ frame msgEOF p @ rest"
    "placeFile env (meddle env (f(?tmp \<mapsto> File (concat cs)))) ?tmp out overwrite = (f', Inr ())"
    "n = declared" "int (length (concat cs)) = declared" "dg = hex_encode (sha (concat cs))"
    using receiveToFile_InrD [OF assms(1,2)] by blast
  have "meddle env (f(?tmp \<mapsto> File (concat cs))) ?tmp = Some (File (concat cs))" using assms(4) by simp
  with placeFile_InrD [OF r(2)] assms(3) r show ?thesis by auto
qed

lemma receiveToFile_success_witness:
  "\<exists>content cs p rest g. hello_wire = concat (map (frame msgData) cs) @ frame msgEOF p @ rest \<and>
    content = concat cs \<and> (5::int) = 5 \<and> int (length content) = 5 \<and> hex_encode ''hello'' = hex_encode (id content) \<and>
    [''/d/a'' \<mapsto> File ''hello''] ''/d/a'' = Some (File content) \<and>
    g = meddle good_env (Map.empty(temp_path good_env ''/d/a'' \<mapsto> File content)) \<and> g ''/d/a'' = None"
proof -
  obtain pr where run: "receiveToFile id good_env Map.empty hello_wire ''/d/a'' 5 False =
      ([''/d/a'' \<mapsto> File ''hello''], Inr (5, hex_encode ''hello''), pr)"
    using hello_received by blast
  have "temp_path good_env ''/d/a'' \<noteq> ''/d/a''" by (simp add: hello_temp)
  from receiveToFile_success [OF run _ this] show ?thesis by simp
qed



text \<open>A peer that sends the last three bytes of a five byte file.\<close>

lemma resumed_stream:
  "stream_loop good_env 5 0 (rx_start ''he'') (frame msgData ''llo'' @ frame msgEOF [] @ []) =
    (StopComplete, rx_feed ''llo'' (rx_start ''he''), [])"
proof -
  have q: "quiet good_env" by simp
  then show ?thesis
    by (subst stream_loop_data; simp add: stream_loop_eof cap_defs rx_start_def del: append_Nil2)
qed

text \<open>The receiving loop is held to the declared size: whatever the peer sends, the staging file never
  grows past it, its old content stays in front, and the progress reports are increasing and never past
  it.\<close>

theorem stream_bounded:
  assumes "stream_loop env declared i st inp = (stop, st', rest)" "rx_ok declared st"
    and "rx_progress st = []"
  shows "int (length (rx_data st')) \<le> declared \<and> take (length (rx_data st)) (rx_data st') = rx_data st \<and>
    sorted (rx_progress st') \<and> (\<forall>n\<in>set (rx_progress st'). n \<le> declared)"
proof -
  note run = stream_loop_run [OF assms(1)]
  show ?thesis using stream_run_bound [OF run assms(2)] stream_run_progress [OF run] assms(2,3)
    by (auto simp: rx_ok_def)
qed

lemma stream_bounded_witness:
  "int (length (rx_data (rx_feed ''llo'' (rx_start ''he'')))) \<le> 5 \<and>
    take 2 (rx_data (rx_feed ''llo'' (rx_start ''he''))) = ''he'' \<and>
    sorted (rx_progress (rx_feed ''llo'' (rx_start ''he'')))"
  using stream_bounded [OF resumed_stream] by (simp add: rx_start_def rx_ok_def)

text \<open>A resumed file is the declared file: when \<open>receiveResumableToFile\<close> reports success against a
  declared digest, what it placed has the declared size and digest and begins with the bytes the
  partial held, so a partial of some other file is never spliced into it unless the digests collide.\<close>

theorem resumed_content:
  assumes "receiveResumableToFile sha env f inp partial out off declared want overwrite = (f', Inr (n, dg), pr)"
    and "want \<noteq> []" "partial \<noteq> out" "off \<le> declared"
    and "\<forall>g. meddle env g partial = g partial" and "0 \<le> declared"
  shows "\<exists>content. f' out = Some (File content) \<and> int (length content) = declared \<and>
    hex_encode (sha content) = want \<and>
    (0 < off \<longrightarrow> (\<exists>c. f partial = Some (File c) \<and> take (nat off) content = take (nat off) c))"
proof -
  from receiveResumableToFile_InrD [OF assms(1,4,6)] obtain held d where
    op: "open_partial env f partial off = (f(partial \<mapsto> File held), Inr held)" and
    pf: "placeFile env (meddle env (f(partial \<mapsto> File (held @ d)))) partial out overwrite = (f', Inr ())" and
    v: "int (length (held @ d)) = declared" "dg = hex_encode (sha (held @ d))" "want \<noteq> [] \<longrightarrow> dg = want" by blast
  have "f' out = Some (File (held @ d))" using placeFile_InrD [OF pf] assms(3,5) by simp
  moreover have "hex_encode (sha (held @ d)) = want" using v(2,3) assms(2) by metis
  moreover have "\<exists>c. f partial = Some (File c) \<and> take (nat off) (held @ d) = take (nat off) c" if "0 < off"
    using open_partial_InrD [OF op] that by auto
  ultimately show ?thesis using v(1) by blast
qed

lemma resumed_run:
  "receiveResumableToFile id good_env [''/d/p'' \<mapsto> File ''he''] (wire_of [''llo'']) ''/d/p'' ''/d/a'' 2 5
     (hex_encode ''hello'') False = ([''/d/a'' \<mapsto> File ''hello''], Inr (5, hex_encode ''hello''), [5])"
  using resumed_stream
  by (simp add: receiveResumableToFile_def open_partial_def resumable_finish_complete placeFile_def os_remove_def
        rx_start_def rx_feed_def Let_def fun_upd_twist)

lemma resumed_content_witness:
  "\<exists>content. [''/d/a'' \<mapsto> File ''hello''] ''/d/a'' = Some (File content) \<and> int (length content) = 5 \<and>
    hex_encode (id content) = hex_encode ''hello'' \<and>
    (\<exists>c. [''/d/p'' \<mapsto> File ''he''] ''/d/p'' = Some (File c) \<and> take 2 content = take 2 c)"
  using resumed_content [OF resumed_run] by (simp add: hex_encode_def)

text \<open>C5 An interrupted push resumes where it stopped: if the connection is cut at any byte before the end,
  \<open>receiveResumableToFile\<close> keeps a prefix of the file and touches nothing else, and sending the rest from
  the offset \<open>resumeOffset\<close> reads off that partial places the whole file, digest checked, and removes the
  partial.\<close>

theorem interrupted_push_resumes:
  assumes "tx_calm tenv rd" "calm env" "f partial = None" "partial \<noteq> out"
    and "if overwrite then f out \<noteq> Some Directory else f out = None"
    and "streamBodyFrom tenv rd 0 content (tx_start []) = (None, st)" "m < length (tx_wire st)"
    and "receiveResumableToFile sha env f (take m (tx_wire st)) partial out 0 (int (length content)) want overwrite
      = (f1, r1, pra)"
    and "want = hex_encode (sha content)" "off = resumeOffset f1 partial (int (length content))"
  shows "r1 = Inl (ReadStream ReadFailed) \<and>
    (\<exists>p. f1 = f(partial \<mapsto> File p) \<and> take (length p) content = p) \<and>
    (\<exists>st2 pr2. streamBodyFrom tenv rd 0 (drop (nat off) content) (tx_start (take (nat off) content)) = (None, st2) \<and>
      receiveResumableToFile sha env f1 (tx_wire st2) partial out off (int (length content)) want overwrite =
        (f(out \<mapsto> File content), Inr (int (length content), want), pr2) \<and>
      hex_encode (sha (tx_hashed st2)) = want)"
proof -
  obtain cs where tx: "chunks_ok cs" "concat cs = content" "tx_wire st = wire_of cs"
    using streamBodyFrom_wire [of tenv rd 0 content "tx_start []"] assms(1,6)
    by (auto simp: tx_calm_def tx_start_def)
  obtain k pr where "receiveResumableToFile sha env f (take m (tx_wire st)) partial out 0 (int (length content)) want overwrite
      = (f(partial \<mapsto> File (concat (take k cs))), Inl (ReadStream ReadFailed), pr)"
    using interrupted_run [OF assms(2) _ tx(1), of f partial m sha out want overwrite] assms(3,7) tx(2,3) by auto
  then have r1: "r1 = Inl (ReadStream ReadFailed)" and f1: "f1 = f(partial \<mapsto> File (concat (take k cs)))"
    using assms(8) by simp_all
  have pre: "take (length (concat (take k cs))) content = concat (take k cs)"
    using concat_take_prefix tx(2) by blast
  obtain held where op: "open_partial env f1 partial off = (f1(partial \<mapsto> File held), Inr held)"
    "int (length held) = off" "int (length held) \<le> int (length content)"
    "\<forall>c. f1 partial = Some (File c) \<longrightarrow> held = take (length held) c"
    using open_partial_resumeOffset [OF assms(2), of f1 partial "int (length content)"] f1 assms(10) by auto
  have "held = take (length held) (concat (take k cs))" using op(4) f1 by simp
  then have held: "held = take (nat off) content" using pre op(2) by (metis min.absorb_iff1 nat_int take_take length_take min.cobounded1)
  obtain cs2 st2 where tx2: "streamBodyFrom tenv rd 0 (drop (nat off) content) (tx_start held) = (None, st2)"
    "chunks_ok cs2" "concat cs2 = drop (nat off) content" "tx_wire st2 = wire_of cs2" "tx_hashed st2 = content"
    using streamBodyFrom_wire [of tenv rd 0 "drop (nat off) content" "tx_start held"] assms(1) held
    by (auto simp: tx_calm_def tx_start_def)
  have "if overwrite then f1 out \<noteq> Some Directory else f1 out = None" using assms(4,5) f1 by simp
  then obtain pr2 where "receiveResumableToFile sha env f1 (wire_of cs2 @ []) partial out off (int (length content)) want overwrite =
      (f1(partial := None, out \<mapsto> File content), Inr (int (length content), want), pr2)"
    using resume_run [OF assms(2) op(1) tx2(2) _ assms(4), of content overwrite want sha "[]"] tx2(3) held assms(9)
    by auto
  moreover have "f1(partial := None, out \<mapsto> File content) = f(out \<mapsto> File content)" using f1 assms(3) by auto
  ultimately show ?thesis using r1 f1 pre tx2 held assms(9) by auto
qed

lemma hello_send:
  "streamBodyFrom good_tx plain_reader 0 ''hello'' (tx_start []) =
    (None, \<lparr>tx_wire = wire_of [''hel'', ''lo''], tx_hashed = ''hello'', tx_sent = 5, tx_progress = [3, 5]\<rparr>)"
proof -
  have r: "read_once plain_reader i chunkBytes d = (take 3 d, if d = [] then RdEOF else RdMore)" for i d
    by (simp add: read_once_def plain_reader_def chunkBytes_def)
  have g: "\<not> tx_cancelled good_tx i" "tx_write_ok good_tx i" for i by (simp_all add: good_tx_def)
  show ?thesis
    by (subst streamBodyFrom.simps, simp add: r g Let_def, subst streamBodyFrom.simps, simp add: r g Let_def,
        subst streamBodyFrom.simps, simp add: r g Let_def send_eof_def send_chunk_def tx_start_def)
qed

lemma hello_cut:
  "receiveResumableToFile id good_env Map.empty (take 9 (wire_of [''hel'', ''lo''])) ''/d/p'' ''/d/a'' 0 5 want False
    = ([''/d/p'' \<mapsto> File ''hel''], Inl (ReadStream ReadFailed), [3])"
proof -
  have tk: "take 9 (wire_of [''hel'', ''lo'']) = frame msgData ''hel'' @ take 1 (frame msgData ''lo'')" by simp
  have rf: "readFrame maxDataFrame (take 1 (frame msgData ''lo'')) = Inl ReadFailed"
    by (rule readFrame_truncated) (simp_all add: cap_defs)
  have s2: "stream_loop good_env 5 1 st (take 1 (frame msgData ''lo'')) =
      (StopRead ReadFailed, st, take 1 (frame msgData ''lo''))" for st
    by (subst stream_loop.simps) (simp only: rf sum.case, simp)
  have c: "length ''hel'' \<le> chunkBytes" by (simp add: cap_defs)
  have "stream_loop good_env 5 0 (rx_start []) (take 9 (wire_of [''hel'', ''lo''])) =
      (StopRead ReadFailed, rx_feed ''hel'' (rx_start []), take 1 (frame msgData ''lo''))"
    unfolding tk by (subst stream_loop_data [OF _ c]) (use s2 in simp_all)
  then show ?thesis
    by (simp add: receiveResumableToFile_def open_partial_def resumable_finish_def rx_feed_def Let_def)
qed

lemma interrupted_push_resumes_witness:
  "(Inl (ReadStream ReadFailed) :: rx_err + int \<times> string) = Inl (ReadStream ReadFailed) \<and>
    (\<exists>p. [''/d/p'' \<mapsto> File ''hel''] = [''/d/p'' \<mapsto> File p] \<and> take (length p) ''hello'' = p) \<and>
    (\<exists>st2 pr2. streamBodyFrom good_tx plain_reader 0 (drop (nat 3) ''hello'') (tx_start (take (nat 3) ''hello'')) = (None, st2) \<and>
      receiveResumableToFile id good_env [''/d/p'' \<mapsto> File ''hel''] (tx_wire st2) ''/d/p'' ''/d/a'' 3
        (int (length ''hello'')) (hex_encode ''hello'') False =
        ([''/d/a'' \<mapsto> File ''hello''], Inr (int (length ''hello''), hex_encode ''hello''), pr2) \<and>
      hex_encode (id (tx_hashed st2)) = hex_encode ''hello'')"
  by (rule interrupted_push_resumes [OF tx_calm_good calm_good _ _ _ hello_send, where m = 9 and pra = "[3]"])
    (use hello_cut [of "hex_encode ''hello''"] in \<open>simp_all add: resumeOffset_def\<close>)

text \<open>What a partial is after a failed resumable receive: after an error that shows its content cannot be
  right (too long, too short, wrong digest, a frame out of place) or a cancel, it is gone; after any other
  error it holds what it held plus bytes this stream delivered, never more than the declared size; and no
  other path is touched by the receiver.\<close>

theorem partial_after_failure:
  assumes "receiveResumableToFile sha env f inp partial out off declared want overwrite = (f', Inl e, pr)"
    and "open_partial env f partial off = (f(partial \<mapsto> File held), Inr held)"
    and "0 \<le> declared" "off \<le> declared" "remove_ok env"
  shows "\<exists>d. int (length (held @ d)) \<le> declared \<and>
    f' = (let g = meddle env (f(partial \<mapsto> File (held @ d))) in
          if poisoned e \<or> (e = CtxDone \<and> discard_set env) then g(partial := None) else g)"
proof -
  from receiveResumableToFile_cases [OF assms(1)] assms(2) obtain stop st rest where
    run: "stream_loop env declared 0 (rx_start held) inp = (stop, st, rest)" and
    fin: "resumable_finish sha env (meddle env (f(partial \<mapsto> File (rx_data st)))) partial out declared want overwrite stop st
      = (f', Inl e)" by auto
  have "rx_ok declared (rx_start held)"
    using open_partial_InrD [OF assms(2)] assms(3,4) by simp
  from stream_run_bound [OF stream_loop_run [OF run] this] obtain d where
    "rx_data st = held @ d" "int (length (held @ d)) \<le> declared" by auto
  then show ?thesis using resumable_finish_Inl [OF fin] assms(5)
    by (auto simp: Let_def os_remove_def intro: exI [of _ d])
qed

lemma partial_after_failure_witness:
  "\<exists>d. int (length ([] @ d)) \<le> 5 \<and> [''/d/p'' \<mapsto> File ''hel''] =
    (let g = meddle good_env (Map.empty(''/d/p'' \<mapsto> File ([] @ d))) in
     if poisoned (ReadStream ReadFailed) \<or> (ReadStream ReadFailed = CtxDone \<and> discard_set good_env)
     then g(''/d/p'' := None) else g)"
  by (rule partial_after_failure [OF hello_cut [of "[]"]]) (simp_all add: open_partial_def)

text \<open>Placing never clobbers: without overwrite \<open>placeFile\<close> onto an existing path changes nothing, and
  with it a directory is never replaced.\<close>

theorem placeFile_no_clobber:
  assumes "f out \<noteq> None" "\<not> overwrite \<or> f out = Some Directory"
  shows "\<exists>e. placeFile env f tmp out overwrite = (f, Inl e)"
  using assms by (auto simp: placeFile_def)

lemma placeFile_no_clobber_witness:
  "\<exists>e. placeFile good_env [''/d/a'' \<mapsto> File ''x'', ''/d/t'' \<mapsto> File ''y''] ''/d/t'' ''/d/a'' False =
    ([''/d/a'' \<mapsto> File ''x'', ''/d/t'' \<mapsto> File ''y''], Inl e)"
  by (rule placeFile_no_clobber) simp_all

text \<open>Partials are named by content: two transfers share a partial only if digest, name and size are
  equal or the first twelve bytes of a SHA-256 collide on the two key strings.\<close>

theorem partialName_inj:
  assumes "partialName sha sha1 name1 size1 = partialName sha sha2 name2 size2"
    and "CHR 0x00 \<notin> set sha1" "CHR 0x00 \<notin> set sha2"
  shows "(sha1 = sha2 \<and> name1 = name2 \<and> size1 = size2) \<or>
    (\<exists>a b. a \<noteq> b \<and> take 12 (sha a) = take 12 (sha b))"
proof (cases "sha1 @ [CHR 0x00] @ name1 @ [CHR 0x00] @ itoa size1 = sha2 @ [CHR 0x00] @ name2 @ [CHR 0x00] @ itoa size2")
  case True
  then have "sha1 = sha2 \<and> name1 @ [CHR 0x00] @ itoa size1 = name2 @ [CHR 0x00] @ itoa size2"
    using assms(2,3) by (auto dest!: append_eq_sep)
  then show ?thesis using append_eq_sep_last [of name1 "CHR 0x00" "itoa size1" name2 "itoa size2"]
    itoa_no_nul by (auto simp: itoa_inj)
next
  case False
  then show ?thesis using assms(1) by (auto simp: partialName_def hex_encode_inj)
qed

lemma partialName_inj_witness:
  "(''ab'' = ''ab'' \<and> ''f'' = ''f'' \<and> (7::int) = 7) \<or> (\<exists>a b :: bytes. a \<noteq> b \<and> take 12 (id a) = take 12 (id b))"
  by (rule partialName_inj [of id "''ab''" "''f''" 7]) simp_all

text \<open>A downloader keeps the partial of a stream that ends early in an end frame: \<open>receiveResumable\<close>, unlike
  \<open>receiveResumableToFile\<close>, leaves an incomplete file to be resumed, and drops it only on too many bytes or
  a frame out of place; nothing is ever placed by it.\<close>

theorem download_keeps_incomplete:
  assumes "receiveResumable sha env f inp partial off declared = (f', Inl (IncompleteTransfer n t), rest)"
  shows "\<exists>held d. open_partial env f partial off = (f(partial \<mapsto> File held), Inr held) \<and>
    f' = meddle env (f(partial \<mapsto> File d)) \<and> t = declared \<and> n \<noteq> declared"
proof -
  have "open_partial env f partial off \<noteq> (f0, Inl (IncompleteTransfer n t))" for f0
    by (simp add: open_partial_def split: option.splits node.splits)
  then obtain held where op: "open_partial env f partial off = (f(partial \<mapsto> File held), Inr held)"
    using assms open_partial_InrD
    by (cases "open_partial env f partial off"; cases "snd (open_partial env f partial off)")
      (auto simp: receiveResumable_def)
  obtain stop st r where run: "stream_loop env declared 0 (rx_start held) inp = (stop, st, r)"
    by (cases "stream_loop env declared 0 (rx_start held) inp") auto
  have fin: "download_finish sha env (meddle env (f(partial \<mapsto> File (rx_data st)))) partial declared stop st
      = (f', Inl (IncompleteTransfer n t))"
    using assms op run by (auto simp: receiveResumable_def Let_def split: prod.split_asm)
  then have "stop = StopIncomplete n \<and> t = declared \<and> f' = meddle env (f(partial \<mapsto> File (rx_data st)))"
    by (cases stop) (auto simp: download_finish_def split: if_split_asm)
  moreover from this have "n \<noteq> declared"
    using stream_run_incomplete [OF stream_loop_run [OF run]] by simp
  ultimately show ?thesis using op by blast
qed

lemma download_keeps_incomplete_witness:
  "\<exists>held d. open_partial good_env Map.empty ''/d/p'' 0 = (Map.empty(''/d/p'' \<mapsto> File held), Inr held) \<and>
    [''/d/p'' \<mapsto> File []] = meddle good_env (Map.empty(''/d/p'' \<mapsto> File d)) \<and> (5::int) = 5 \<and> (0::int) \<noteq> 5"
proof -
  have "readFrame maxDataFrame (frame msgEOF [] @ []) = Inr (msgEOF, [], [])"
    by (rule readFrame_frame) (simp_all add: msg_defs)
  then have "stream_loop good_env 5 0 (rx_start []) (frame msgEOF []) = (StopIncomplete 0, rx_start [], [])"
    by (subst stream_loop.simps) (simp add: msg_defs)
  then have run: "receiveResumable id good_env Map.empty (frame msgEOF []) ''/d/p'' 0 5 =
      ([''/d/p'' \<mapsto> File []], Inl (IncompleteTransfer 0 5), [])"
    by (simp add: receiveResumable_def open_partial_def download_finish_def Let_def)
  show ?thesis by (rule download_keeps_incomplete [OF run])
qed

end
