(* ===== verification/Auth.thy ===== *)
theory Auth
  imports Wire GoText
begin

text \<open>
  Mutual authentication on a LAN connection: the password handshake of \<open>lanshare/auth.go\<close> and the
  identity proof of \<open>lanshare/identity.go\<close>. The PAKE library (\<open>schollz/pake\<close>), HMAC-SHA-256, SHA-256
  and Ed25519 are parameters. Each side of the handshake is a function from the bytes that will arrive
  to the bytes it sends and its verdict.
\<close>

record 's pake =
  pk_init :: "bytes \<Rightarrow> nat \<Rightarrow> 's option"
  pk_bytes :: "'s \<Rightarrow> bytes"
  pk_update :: "'s \<Rightarrow> bytes \<Rightarrow> 's option"
  pk_key :: "'s \<Rightarrow> bytes option"

datatype auth_err =
  PakeInit | PakeUpdate | PakeKey | AuthFrame frame_err | NotConfirm nat | BadPassword

text \<open>\<open>confirmMAC\<close>.\<close>

definition confirm_domain :: bytes where
  "confirm_domain = ''s2u-lan-confirm-v1'' @ [CHR 0x00]"

definition confirmMAC :: "(bytes \<Rightarrow> bytes \<Rightarrow> bytes) \<Rightarrow> bytes \<Rightarrow> bytes \<Rightarrow> string \<Rightarrow> bytes" where
  "confirmMAC hmac sessionKey ekm tag = hmac sessionKey (confirm_domain @ tag @ ekm)"

definition readAndVerifyConfirm ::
  "(bytes \<Rightarrow> bytes \<Rightarrow> bytes) \<Rightarrow> bytes \<Rightarrow> bytes \<Rightarrow> string \<Rightarrow> bytes \<Rightarrow> auth_err + bytes" where
  "readAndVerifyConfirm hmac key ekm tag inp =
     (case readFrame maxControlFrame inp of
        Inl e \<Rightarrow> Inl (AuthFrame e)
      | Inr (typ, got, rest) \<Rightarrow>
          if typ = msgError then Inl BadPassword
          else if typ \<noteq> msgConfirm then Inl (NotConfirm typ)
          else if got \<noteq> confirmMAC hmac key ekm tag then Inl BadPassword
          else Inr rest)"

text \<open>\<open>pakeSender\<close> and \<open>pakeReceiver\<close>: the bytes sent and the verdict with the rest of the input. Writes
  are numbered in program order.\<close>

definition pakeSender ::
  "'s pake \<Rightarrow> (bytes \<Rightarrow> bytes \<Rightarrow> bytes) \<Rightarrow> (bytes \<Rightarrow> string) \<Rightarrow> (nat \<Rightarrow> bool) \<Rightarrow> bytes \<Rightarrow> bytes \<Rightarrow> bytes \<Rightarrow>
   bytes \<times> (auth_err + bytes)" where
  "pakeSender pk hmac un_err wok ekm password inp =
     (case pk_init pk password 0 of
        None \<Rightarrow> ([], Inl PakeInit)
      | Some p \<Rightarrow> (case send_frame wok 0 msgPake (pk_bytes pk p) of
        Inl e \<Rightarrow> ([], Inl (AuthFrame e))
      | Inr out1 \<Rightarrow> (case readExpect un_err msgPake inp of
        Inl e \<Rightarrow> (out1, Inl (AuthFrame e))
      | Inr (peer, inp1) \<Rightarrow> (case pk_update pk p peer of
        None \<Rightarrow> (out1, Inl PakeUpdate)
      | Some p' \<Rightarrow> (case pk_key pk p' of
        None \<Rightarrow> (out1, Inl PakeKey)
      | Some key \<Rightarrow> (case send_frame wok 1 msgConfirm (confirmMAC hmac key ekm ''S'') of
        Inl e \<Rightarrow> (out1, Inl (AuthFrame e))
      | Inr out2 \<Rightarrow> (out1 @ out2, readAndVerifyConfirm hmac key ekm ''R'' inp1)))))))"

definition pakeReceiver ::
  "'s pake \<Rightarrow> (bytes \<Rightarrow> bytes \<Rightarrow> bytes) \<Rightarrow> (bytes \<Rightarrow> string) \<Rightarrow> (nat \<Rightarrow> bool) \<Rightarrow> bytes \<Rightarrow> bytes \<Rightarrow> bytes \<Rightarrow>
   bytes \<times> (auth_err + bytes)" where
  "pakeReceiver pk hmac un_err wok ekm password inp =
     (case pk_init pk password 1 of
        None \<Rightarrow> ([], Inl PakeInit)
      | Some p \<Rightarrow> (case readExpect un_err msgPake inp of
        Inl e \<Rightarrow> ([], Inl (AuthFrame e))
      | Inr (peer, inp1) \<Rightarrow> (case pk_update pk p peer of
        None \<Rightarrow> ([], Inl PakeUpdate)
      | Some p' \<Rightarrow> (case send_frame wok 0 msgPake (pk_bytes pk p') of
        Inl e \<Rightarrow> ([], Inl (AuthFrame e))
      | Inr out1 \<Rightarrow> (case pk_key pk p' of
        None \<Rightarrow> (out1, Inl PakeKey)
      | Some key \<Rightarrow> (case readAndVerifyConfirm hmac key ekm ''S'' inp1 of
        Inl e \<Rightarrow> (out1, Inl e)
      | Inr inp2 \<Rightarrow> (case send_frame wok 1 msgConfirm (confirmMAC hmac key ekm ''R'') of
        Inl e \<Rightarrow> (out1, Inl (AuthFrame e))
      | Inr out2 \<Rightarrow> (out1 @ out2, Inr inp2))))))))"

section \<open>Identities\<close>

definition identitySigContext :: bytes where
  "identitySigContext = ''s2u-lan-identity-v1'' @ [CHR 0x00]"

definition identityMessage :: "bytes \<Rightarrow> bytes" where
  "identityMessage ekm = identitySigContext @ ekm"

definition IdentityFingerprint :: "(bytes \<Rightarrow> bytes) \<Rightarrow> bytes \<Rightarrow> string" where
  "IdentityFingerprint sha pub = (if pub = [] then [] else hex_encode (sha pub))"

definition ed_public_size :: nat where "ed_public_size = 32"
definition ed_signature_size :: nat where "ed_signature_size = 64"
definition ed_private_size :: nat where "ed_private_size = 64"

text \<open>The check three handlers make of an optional identity proof (receiver, broadcaster, downloader):
  absent is anonymous, present must be well formed and verify over this session's binding. \<open>ekm\<close> is
  \<open>None\<close> when the exporter fails.\<close>

datatype id_err = MalformedIdentity | BindingFailed | IdentityNotVerified

definition check_identity ::
  "(bytes \<Rightarrow> bytes \<Rightarrow> bytes \<Rightarrow> bool) \<Rightarrow> bytes option \<Rightarrow> bytes \<Rightarrow> bytes \<Rightarrow> id_err + bytes option" where
  "check_identity verify ekm pub sg =
     (if pub \<noteq> [] \<or> sg \<noteq> [] then
        (if length pub \<noteq> ed_public_size \<or> length sg \<noteq> ed_signature_size then Inl MalformedIdentity
         else (case ekm of
             None \<Rightarrow> Inl BindingFailed
           | Some k \<Rightarrow> if \<not> verify pub (identityMessage k) sg then Inl IdentityNotVerified
                       else Inr (Some pub)))
      else Inr None)"

section \<open>Lemmas\<close>

lemma readAndVerifyConfirm_InrD:
  "readAndVerifyConfirm hmac key ekm tag inp = Inr rest \<Longrightarrow>
   inp = frame msgConfirm (confirmMAC hmac key ekm tag) @ rest"
  by (auto simp: readAndVerifyConfirm_def split: sum.splits if_splits dest: readFrame_exact)

lemma readExpect_InrD: "readExpect un want inp = Inr (p, rest) \<Longrightarrow> inp = frame want p @ rest"
  by (auto simp: readExpect_def split: sum.splits if_splits dest: readFrame_exact)

lemma readAndVerifyConfirm_frame:
  "length mac \<le> maxControlFrame \<Longrightarrow>
   readAndVerifyConfirm hmac key ekm tag (frame msgConfirm mac @ r) =
     (if mac = confirmMAC hmac key ekm tag then Inr r else Inl BadPassword)"
  by (simp add: readAndVerifyConfirm_def readFrame_frame cap_defs msg_defs)

lemma check_identity_Some:
  "check_identity verify ekm pub sg = Inr (Some k) \<longleftrightarrow>
     k = pub \<and> length pub = ed_public_size \<and> length sg = ed_signature_size \<and>
     (\<exists>e. ekm = Some e \<and> verify pub (identityMessage e) sg)"
  by (auto simp: check_identity_def ed_public_size_def split: if_splits option.splits)

section \<open>Properties\<close>

text \<open>C9 The receiver gives nothing away to a peer that does not know the password: unless the peer sent the
  confirmation MAC of the session key over this TLS session's binding, \<open>pakeReceiver\<close> fails and what it
  wrote is at most its PAKE message, never its own confirmation; and when it succeeds that MAC was there.\<close>

theorem pakeReceiver_guard:
  "case pakeReceiver pk hmac un_err wok ekm password inp of
     (out, Inl e) \<Rightarrow> out = [] \<or> (\<exists>b. out = frame msgPake b)
   | (out, Inr rest) \<Rightarrow>
       \<exists>p peer p' key. pk_init pk password 1 = Some p \<and> pk_update pk p peer = Some p' \<and> pk_key pk p' = Some key \<and>
         inp = frame msgPake peer @ frame msgConfirm (confirmMAC hmac key ekm ''S'') @ rest \<and>
         out = frame msgPake (pk_bytes pk p') @ frame msgConfirm (confirmMAC hmac key ekm ''R'')"
  by (auto simp: pakeReceiver_def send_frame_Inr split: option.splits sum.splits
      dest!: readExpect_InrD readAndVerifyConfirm_InrD)

text \<open>The messages of a run in which both sides get as far as a key.\<close>

definition pake_run :: "'s pake \<Rightarrow> bytes \<Rightarrow> bytes \<Rightarrow> 's \<Rightarrow> 's \<Rightarrow> bytes \<Rightarrow> bytes \<Rightarrow> bool" where
  "pake_run pk pwS pwR s r kS kR \<longleftrightarrow>
     pk_init pk pwS 0 = Some s \<and>
     (\<exists>r0. pk_init pk pwR 1 = Some r0 \<and> pk_update pk r0 (pk_bytes pk s) = Some r) \<and>
     (\<exists>s'. pk_update pk s (pk_bytes pk r) = Some s' \<and> pk_key pk s' = Some kS) \<and> pk_key pk r = Some kR \<and>
     length (pk_bytes pk s) \<le> maxControlFrame \<and> length (pk_bytes pk r) \<le> maxControlFrame"

lemma send_frame_ok: "wok i \<Longrightarrow> length p \<le> maxControlFrame \<Longrightarrow> send_frame wok i typ p = Inr (frame typ p)"
  by (simp add: send_frame_def writeFrame_ok cap_defs)

lemma mac_cap: "\<forall>k m. length (hmac k m) = 32 \<Longrightarrow> length (confirmMAC hmac k e t) \<le> maxControlFrame"
  by (simp add: confirmMAC_def cap_defs)

lemma pake_receiver_run:
  assumes "pake_run pk pwS pwR s r kS kR" "\<forall>k m. length (hmac k m) = 32" "\<forall>i. wok i"
  shows "pakeReceiver pk hmac un_err wok ekmR pwR
      (frame msgPake (pk_bytes pk s) @ frame msgConfirm (confirmMAC hmac kS ekmS ''S'') @ rest) =
    (if confirmMAC hmac kS ekmS ''S'' = confirmMAC hmac kR ekmR ''S''
     then (frame msgPake (pk_bytes pk r) @ frame msgConfirm (confirmMAC hmac kR ekmR ''R''), Inr rest)
     else (frame msgPake (pk_bytes pk r), Inl BadPassword))"
  using assms(1,3) mac_cap [OF assms(2)]
  by (auto simp: pakeReceiver_def pake_run_def readExpect_frame readAndVerifyConfirm_frame send_frame_ok)

lemma pake_sender_run:
  assumes "pake_run pk pwS pwR s r kS kR" "\<forall>k m. length (hmac k m) = 32" "\<forall>i. wok i"
    and "length mac \<le> maxControlFrame"
  shows "pakeSender pk hmac un_err wok ekmS pwS (frame msgPake (pk_bytes pk r) @ frame msgConfirm mac @ rest) =
    (frame msgPake (pk_bytes pk s) @ frame msgConfirm (confirmMAC hmac kS ekmS ''S''),
     if mac = confirmMAC hmac kS ekmS ''R'' then Inr rest else Inl BadPassword)"
proof -
  obtain s' where s: "pk_init pk pwS 0 = Some s" "pk_update pk s (pk_bytes pk r) = Some s'" "pk_key pk s' = Some kS"
    "length (pk_bytes pk s) \<le> maxControlFrame" "length (pk_bytes pk r) \<le> maxControlFrame"
    using assms(1) unfolding pake_run_def by blast
  show ?thesis using assms(3,4) mac_cap [OF assms(2)]
    by (simp add: pakeSender_def s readExpect_frame readAndVerifyConfirm_frame send_frame_ok)
qed

lemma pake_sender_rejected:
  assumes "pake_run pk pwS pwR s r kS kR" "\<forall>k m. length (hmac k m) = 32" "\<forall>i. wok i"
    and "length msg \<le> maxControlFrame"
  shows "pakeSender pk hmac un_err wok ekmS pwS (frame msgPake (pk_bytes pk r) @ frame msgError msg @ rest) =
    (frame msgPake (pk_bytes pk s) @ frame msgConfirm (confirmMAC hmac kS ekmS ''S''), Inl BadPassword)"
proof -
  obtain s' where s: "pk_init pk pwS 0 = Some s" "pk_update pk s (pk_bytes pk r) = Some s'" "pk_key pk s' = Some kS"
    "length (pk_bytes pk s) \<le> maxControlFrame" "length (pk_bytes pk r) \<le> maxControlFrame"
    using assms(1) unfolding pake_run_def by blast
  have "length msg < 2 ^ 32" using assms(4) by (simp add: cap_defs)
  then show ?thesis using assms(3,4) mac_cap [OF assms(2)]
    by (simp add: pakeSender_def s readExpect_frame readAndVerifyConfirm_def readFrame_frame send_frame_ok)
qed

text \<open>The two sides agree on one verdict: in a run where both derive a key, and unless the MAC collides on
  the two inputs it is compared on, the receiver accepts exactly when the keys and the two TLS exporter
  values are the same, and what it then answers makes the sender accept; otherwise (a wrong password, or
  a man in the middle holding two TLS sessions) the receiver reports a bad password, and so does the
  sender on the error frame it gets.\<close>

theorem pake_agreement:
  assumes "pake_run pk pwS pwR s r kS kR" "\<forall>k m. length (hmac k m) = 32" "\<forall>i. wok i"
    and "confirmMAC hmac kS ekmS ''S'' = confirmMAC hmac kR ekmR ''S'' \<longrightarrow> kS = kR \<and> ekmS = ekmR"
    and "length msg \<le> maxControlFrame"
  shows "let toR = frame msgPake (pk_bytes pk s) @ frame msgConfirm (confirmMAC hmac kS ekmS ''S'');
             (outR, vR) = pakeReceiver pk hmac un_err wok ekmR pwR (toR @ rest);
             (outS, vS) = pakeSender pk hmac un_err wok ekmS pwS
               (outR @ (case vR of Inl _ \<Rightarrow> frame msgError msg | Inr _ \<Rightarrow> rest')) in
         outS = toR \<and>
         (if kS = kR \<and> ekmS = ekmR then vR = Inr rest \<and> vS = Inr rest' else vR = Inl BadPassword \<and> vS = Inl BadPassword)"
proof -
  note rr = pake_receiver_run [OF assms(1-3), of un_err ekmR ekmS rest]
  show ?thesis
  proof (cases "kS = kR \<and> ekmS = ekmR")
    case True
    then show ?thesis
      using rr pake_sender_run [OF assms(1-3) mac_cap [OF assms(2)], of un_err ekmS kR ekmR "''R''" rest']
      by (simp add: Let_def)
  next
    case False
    then have "confirmMAC hmac kS ekmS ''S'' \<noteq> confirmMAC hmac kR ekmR ''S''" using assms(4) by blast
    then show ?thesis
      using False rr pake_sender_rejected [OF assms(1-3,5), of un_err ekmS "[]"]
      by (simp add: Let_def)
  qed
qed

text \<open>A toy PAKE and MAC to run the handshake with: the key is the password.\<close>

definition toy_pake :: "(bytes \<times> bytes) pake" where
  "toy_pake = \<lparr>pk_init = (\<lambda>pw role. Some (pw, [])), pk_bytes = (\<lambda>s. ''m''),
     pk_update = (\<lambda>s peer. Some (fst s, peer)), pk_key = (\<lambda>s. Some (fst s))\<rparr>"

definition toy_hmac :: "bytes \<Rightarrow> bytes \<Rightarrow> bytes" where
  "toy_hmac k m = take 32 (k @ m @ replicate 32 CHR ''x'')"

lemma toy_run: "pake_run toy_pake ''a'' ''b'' (''a'', []) (''b'', ''m'') ''a'' ''b''"
  by (simp add: pake_run_def toy_pake_def cap_defs)

lemma toy_hmac_length: "\<forall>k m. length (toy_hmac k m) = 32"
  by (auto simp: toy_hmac_def min_def)

lemma pake_agreement_witness:
  "let toR = frame msgPake (pk_bytes toy_pake (''a'', [])) @ frame msgConfirm (confirmMAC toy_hmac ''a'' ''e'' ''S'');
       (outR, vR) = pakeReceiver toy_pake toy_hmac id (\<lambda>_. True) ''e'' ''b'' (toR @ []);
       (outS, vS) = pakeSender toy_pake toy_hmac id (\<lambda>_. True) ''e'' ''a''
         (outR @ (case vR of Inl _ \<Rightarrow> frame msgError [] | Inr _ \<Rightarrow> [])) in
   outS = toR \<and>
   (if ''a'' = ''b'' \<and> ''e'' = ''e'' then vR = Inr [] \<and> vS = Inr [] else vR = Inl BadPassword \<and> vS = Inl BadPassword)"
  by (rule pake_agreement [OF toy_run toy_hmac_length]) (simp_all add: confirmMAC_def toy_hmac_def confirm_domain_def)

text \<open>A confirmation cannot be reflected: a peer that sends the sender's own confirmation back, without
  knowing the key, is refused, since the two directions are tagged differently (unless the MAC collides
  on the two tagged messages).\<close>

theorem confirm_not_reflected:
  assumes "pake_run pk pwS pwR s r kS kR" "\<forall>k m. length (hmac k m) = 32" "\<forall>i. wok i"
    and "hmac kS (confirm_domain @ ''S'' @ ekmS) \<noteq> hmac kS (confirm_domain @ ''R'' @ ekmS)"
  shows "snd (pakeSender pk hmac un_err wok ekmS pwS
    (frame msgPake (pk_bytes pk r) @ frame msgConfirm (confirmMAC hmac kS ekmS ''S'') @ rest)) = Inl BadPassword"
proof -
  have "confirmMAC hmac kS ekmS ''S'' \<noteq> confirmMAC hmac kS ekmS ''R''" using assms(4) by (simp add: confirmMAC_def)
  then show ?thesis using pake_sender_run [OF assms(1-3) mac_cap [OF assms(2)], of un_err ekmS kS ekmS "''S''" rest]
    by simp
qed

lemma confirm_not_reflected_witness:
  "snd (pakeSender toy_pake toy_hmac id (\<lambda>_. True) ''e'' ''a''
    (frame msgPake (pk_bytes toy_pake (''b'', ''m'')) @ frame msgConfirm (confirmMAC toy_hmac ''a'' ''e'' ''S'') @ [])) =
   Inl BadPassword"
  by (rule confirm_not_reflected [OF toy_run toy_hmac_length]) (simp_all add: toy_hmac_def confirm_domain_def)

text \<open>An identity is accepted only when it is proven on this session: \<open>check_identity\<close> yields a key only if
  the signature verifies under that key over the domain-separated exporter value of this connection, and
  a proof that is present but wrong is refused instead of being read as anonymous.\<close>

theorem identity_bound_to_session:
  "(check_identity verify ekm pub sg = Inr (Some k) \<longleftrightarrow>
     k = pub \<and> length pub = ed_public_size \<and> length sg = ed_signature_size \<and>
     (\<exists>e. ekm = Some e \<and> verify pub (identitySigContext @ e) sg)) \<and>
   (check_identity verify ekm pub sg = Inr None \<longleftrightarrow> pub = [] \<and> sg = [])"
  by (rule conjI, simp add: check_identity_Some identityMessage_def)
    (auto simp: check_identity_def split: if_splits option.splits)

end
