(* ===== verification/Names.thy ===== *)
theory Names
  imports GoText Auth
begin

text \<open>
  What a peer says about itself: the label cleaner \<open>SanitizeName\<close> and the device card
  (\<open>lanshare/devicecard.go\<close>), the certificate pin of a sender (\<open>lanshare/tls.go\<close>), and the codes derived
  from a fingerprint (\<open>lanshare/verify.go\<close>). X.509, base64url, SHA-256 and Ed25519 are parameters; a
  certificate is the record of the fields the code reads.
\<close>

section \<open>Labels\<close>

definition dropped_rune :: "nat \<Rightarrow> bool" where
  "dropped_rune r \<longleftrightarrow> r < 0x20 \<or> r = 0x7F \<or> (0x80 \<le> r \<and> r \<le> 0x9F) \<or>
     (0x202A \<le> r \<and> r \<le> 0x202E) \<or> (0x2066 \<le> r \<and> r \<le> 0x2069)"

text \<open>\<open>stripControls\<close>. The string is valid UTF-8 where the loop runs, so \<open>WriteRune\<close> writes back the bytes
  the rune was decoded from.\<close>

definition stripControls :: "string \<Rightarrow> string" where
  "stripControls s =
     (if \<not> utf8_valid s then []
      else trim_space (concat (map snd (filter (\<lambda>rb. \<not> dropped_rune (fst rb)) (runes s)))))"

definition MaxNameRunes :: nat where "MaxNameRunes = 120"

definition SanitizeName :: "string \<Rightarrow> string" where
  "SanitizeName s =
     (let s = stripControls s; rs = runes s in
      if length rs > MaxNameRunes then trim_space (concat (map snd (take MaxNameRunes rs))) else s)"

section \<open>Complete UTF-8 steps\<close>

text \<open>A step that decoded a valid rune decodes the same in front of anything.\<close>

lemma decode2_stable:
  "decode2 b0 bs = (r, Suc (length bs)) \<Longrightarrow> 1 \<le> length bs \<Longrightarrow> decode2 b0 (bs @ x) = decode2 b0 bs"
  by (cases bs) (auto split: if_splits)

lemma decode3_stable:
  "decode3 b0 bs = (r, Suc (length bs)) \<Longrightarrow> 1 \<le> length bs \<Longrightarrow> decode3 b0 (bs @ x) = decode3 b0 bs"
  by (cases "(b0, bs)" rule: decode3.cases) (simp_all split: if_split_asm)

lemma decode4_stable:
  "decode4 b0 bs = (r, Suc (length bs)) \<Longrightarrow> 1 \<le> length bs \<Longrightarrow> decode4 b0 (bs @ x) = decode4 b0 bs"
  by (cases "(b0, bs)" rule: decode4.cases) (simp_all split: if_split_asm)

lemma decode_vals_stable:
  assumes "decode_vals bs = (r, length bs)" "bs \<noteq> []" "\<not> (r = runeError \<and> length bs = 1)"
  shows "decode_vals (bs @ x) = decode_vals bs"
proof (cases bs)
  case Nil
  then show ?thesis using assms(2) by simp
next
  case (Cons b0 l)
  show ?thesis
  proof (cases "l = []")
    case True
    then have "b0 < 0x80" using assms Cons by (auto simp: runeError_def split: if_splits)
    then show ?thesis using Cons by simp
  next
    case False
    then have "1 \<le> length l" by (cases l) auto
    then show ?thesis using assms(1) Cons decode2_stable [of b0 l r x] decode3_stable [of b0 l r x] decode4_stable [of b0 l r x]
      by (simp split: if_splits)
  qed
qed

definition rune_step :: "nat \<times> string \<Rightarrow> bool" where
  "rune_step rb \<longleftrightarrow> snd rb \<noteq> [] \<and> decode_rune (snd rb) = (fst rb, length (snd rb)) \<and> rune_ok rb"

lemma decode_rune_max: "snd (decode_rune s) \<le> 4"
  by (simp add: decode_rune_def decode_vals_max)

lemma decode_rune_stable:
  assumes "rune_step rb"
  shows "decode_rune (snd rb @ x) = (fst rb, length (snd rb))"
proof -
  let ?bs = "snd rb"
  have l4: "length ?bs \<le> 4" using assms decode_rune_max [of ?bs] by (simp add: rune_step_def)
  have "decode_vals (map of_char ?bs) = (fst rb, length (map of_char ?bs :: nat list))"
    using assms l4 by (simp add: rune_step_def decode_rune_def)
  then have "decode_vals (map of_char ?bs @ map of_char (take (4 - length ?bs) x)) = (fst rb, length ?bs)"
    using assms decode_vals_stable [of "map of_char ?bs" "fst rb" "map of_char (take (4 - length ?bs) x)"]
    by (auto simp: rune_step_def rune_ok_def)
  then show ?thesis using l4 by (simp add: decode_rune_def)
qed

lemma runes_concat:
  "list_all rune_step rbs \<Longrightarrow> runes (concat (map snd rbs)) = rbs"
proof (induction rbs)
  case Nil
  show ?case by simp
next
  case (Cons rb rbs)
  then have "snd rb @ concat (map snd rbs) \<noteq> []" by (auto simp: rune_step_def)
  moreover have "decode_rune (snd rb @ concat (map snd rbs)) = (fst rb, length (snd rb))"
    using Cons.prems by (intro decode_rune_stable) simp
  ultimately show ?case using Cons runes_step [of "snd rb @ concat (map snd rbs)"] by simp
qed

lemma decode2_own: "decode2 b0 (take (snd (decode2 b0 bs) - 1) bs) = decode2 b0 bs"
  by (cases bs) simp_all

lemma decode3_own: "decode3 b0 (take (snd (decode3 b0 bs) - 1) bs) = decode3 b0 bs"
proof (cases "1 < snd (decode3 b0 bs)")
  case True
  then obtain b1 b2 r where "bs = b1 # b2 # r" "snd (decode3 b0 bs) = 3"
    by (cases "(b0, bs)" rule: decode3.cases) (auto split: if_split_asm)
  then show ?thesis by (simp add: numeral_2_eq_2)
next
  case False
  then have "snd (decode3 b0 bs) - 1 = 0" by simp
  moreover have "decode3 b0 bs = (runeError, 1)"
    using False by (cases "(b0, bs)" rule: decode3.cases) (simp_all split: if_split_asm)
  ultimately show ?thesis by simp
qed

lemma decode4_own: "decode4 b0 (take (snd (decode4 b0 bs) - 1) bs) = decode4 b0 bs"
proof (cases "1 < snd (decode4 b0 bs)")
  case True
  then obtain b1 b2 b3 r where "bs = b1 # b2 # b3 # r" "snd (decode4 b0 bs) = 4"
    using decode4_multi [of b0 bs] by blast
  then show ?thesis by (simp add: numeral_3_eq_3)
next
  case False
  then have "snd (decode4 b0 bs) - 1 = 0" by simp
  moreover have "decode4 b0 bs = (runeError, 1)"
    using False by (cases "(b0, bs)" rule: decode4.cases) (simp_all split: if_split_asm)
  ultimately show ?thesis by simp
qed

lemma decode_vals_own:
  "bs \<noteq> [] \<Longrightarrow> decode_vals (take (snd (decode_vals bs)) bs) = decode_vals bs"
proof (cases bs)
  case (Cons b0 l)
  have w: "\<exists>k. snd (decode_vals bs) = Suc k" using decode_vals_width [of bs] Cons by (cases "snd (decode_vals bs)") auto
  then obtain k where k: "snd (decode_vals bs) = Suc k" ..
  have k2: "snd (decode2 b0 l) = Suc k \<Longrightarrow> decode2 b0 (take k l) = decode2 b0 l"
    and k3: "snd (decode3 b0 l) = Suc k \<Longrightarrow> decode3 b0 (take k l) = decode3 b0 l"
    and k4: "snd (decode4 b0 l) = Suc k \<Longrightarrow> decode4 b0 (take k l) = decode4 b0 l"
    using decode2_own [of b0 l] decode3_own [of b0 l] decode4_own [of b0 l] by simp_all
  show ?thesis unfolding k using k Cons k2 k3 k4 by (simp split: if_split_asm)
qed simp

lemma runes_steps: "list_all rune_ok (runes s) \<Longrightarrow> list_all rune_step (runes s)"
proof (induction s rule: runes.induct)
  case (1 s)
  show ?case
  proof (cases "s = []")
    case False
    let ?w = "snd (decode_rune s)"
    have st: "runes s = (fst (decode_rune s), take ?w s) # runes (drop ?w s)" using False by (rule runes_step)
    have w: "1 \<le> ?w" "?w \<le> length s" "?w \<le> 4" using decode_rune_width [OF False] decode_rune_max by auto
    have "take 4 s \<noteq> []" using False by simp
    then have "decode_vals (take ?w (map of_char (take 4 s))) = decode_vals (map of_char (take 4 s))"
      unfolding decode_rune_def by (intro decode_vals_own) simp
    then have "decode_rune (take ?w s) = decode_rune s"
      using w by (simp add: decode_rune_def take_map min_def)
    then have "rune_step (fst (decode_rune s), take ?w s)"
      using w 1(2) st False by (auto simp: rune_step_def)
    then show ?thesis using 1 st False by simp
  qed simp
qed

lemma valid_runes_concat:
  "utf8_valid s \<Longrightarrow> set rbs \<subseteq> set (runes s) \<Longrightarrow> runes (concat (map snd rbs)) = rbs"
  using runes_steps [of s] by (intro runes_concat) (auto simp: utf8_valid_def list_all_iff)

lemma valid_concat:
  "utf8_valid s \<Longrightarrow> set rbs \<subseteq> set (runes s) \<Longrightarrow> utf8_valid (concat (map snd rbs))"
  using valid_runes_concat by (auto simp: utf8_valid_def list_all_iff)

section \<open>What cleaning leaves\<close>

lemma trim_runes_idem [simp]: "trim_runes (trim_runes rbs) = trim_runes rbs"
proof -
  let ?P = "\<lambda>rb :: nat \<times> string. is_space (fst rb)"
  let ?d = "dropWhile ?P rbs"
  have l: "dropWhile ?P (trim_runes rbs) = trim_runes rbs"
  proof (cases "trim_runes rbs")
    case (Cons r rs)
    obtain t where t: "?d = trim_runes rbs @ t"
    proof -
      have "rev ?d = takeWhile ?P (rev ?d) @ dropWhile ?P (rev ?d)" by simp
      then have "?d = rev (dropWhile ?P (rev ?d)) @ rev (takeWhile ?P (rev ?d))"
        by (metis rev_append rev_rev_ident)
      then show ?thesis using that by (simp add: trim_runes_def)
    qed
    have d: "?d = r # (rs @ t)" using t Cons by (simp only: append_Cons)
    then have "?d \<noteq> []" by (simp only: list.distinct simp_thms)
    then have "\<not> ?P (hd ?d)" by (rule hd_dropWhile)
    then have "\<not> ?P r" unfolding d by (simp only: list.sel simp_thms)
    then show ?thesis using Cons by simp
  qed simp
  have r: "dropWhile ?P (rev (trim_runes rbs)) = rev (trim_runes rbs)"
    by (simp add: trim_runes_def dropWhile_idem)
  show ?thesis unfolding trim_runes_def [of "trim_runes rbs"] l r by simp
qed

lemma trim_space_runes:
  "utf8_valid s \<Longrightarrow> runes (trim_space s) = trim_runes (runes s)"
  using trim_runes_sublist [of "runes s"] by (auto simp: trim_space_def intro: valid_runes_concat)

lemma length_trim_runes: "length (trim_runes rbs) \<le> length rbs"
  by (simp add: trim_runes_def) (metis length_dropWhile_le length_rev order_trans)

text \<open>The runes of a cleaned label.\<close>

lemma stripControls_runes:
  assumes "utf8_valid s"
  shows "runes (stripControls s) = trim_runes (filter (\<lambda>rb. \<not> dropped_rune (fst rb)) (runes s))"
proof -
  let ?k = "filter (\<lambda>rb. \<not> dropped_rune (fst rb)) (runes s)"
  have "utf8_valid (concat (map snd ?k))" "runes (concat (map snd ?k)) = ?k"
    using assms by (auto intro!: valid_concat valid_runes_concat)
  then show ?thesis using assms trim_space_runes by (simp add: stripControls_def)
qed

lemma stripControls_valid: "utf8_valid (stripControls s)"
proof (cases "utf8_valid s")
  case True
  have "set (runes (stripControls s)) \<subseteq> set (runes s)"
    using stripControls_runes [OF True] trim_runes_sublist by fastforce
  then show ?thesis using True by (auto simp: utf8_valid_def list_all_iff)
next
  case False
  then show ?thesis by (simp add: stripControls_def utf8_valid_def)
qed

lemma stripControls_clean:
  "rb \<in> set (runes (stripControls s)) \<Longrightarrow> \<not> dropped_rune (fst rb)"
  using stripControls_runes trim_runes_sublist by (cases "utf8_valid s") (fastforce simp: stripControls_def)+

lemma trim_runes_fix_trim_space:
  "utf8_valid s \<Longrightarrow> trim_runes (runes s) = runes s \<Longrightarrow> trim_space s = s"
  by (simp add: trim_space_def)

lemma stripControls_trimmed: "trim_runes (runes (stripControls s)) = runes (stripControls s)"
  by (cases "utf8_valid s") (simp_all add: stripControls_runes, simp add: stripControls_def trim_runes_def)

text \<open>A clean trimmed string is left as it is.\<close>

lemma stripControls_fix:
  assumes "utf8_valid s" "\<forall>rb\<in>set (runes s). \<not> dropped_rune (fst rb)" "trim_runes (runes s) = runes s"
  shows "stripControls s = s"
proof -
  have "filter (\<lambda>rb. \<not> dropped_rune (fst rb)) (runes s) = runes s" using assms(2) by simp
  then show ?thesis using assms(1,3) by (simp add: stripControls_def trim_space_def)
qed

lemma SanitizeName_facts:
  "utf8_valid (SanitizeName s) \<and> length (runes (SanitizeName s)) \<le> MaxNameRunes \<and>
   (\<forall>rb\<in>set (runes (SanitizeName s)). \<not> dropped_rune (fst rb)) \<and>
   trim_runes (runes (SanitizeName s)) = runes (SanitizeName s)"
proof (cases "length (runes (stripControls s)) > MaxNameRunes")
  case True
  let ?t = "take MaxNameRunes (runes (stripControls s))"
  have sub: "set ?t \<subseteq> set (runes (stripControls s))" by (rule set_take_subset)
  have v: "utf8_valid (concat (map snd ?t))" "runes (concat (map snd ?t)) = ?t"
    using stripControls_valid sub by (auto intro: valid_concat valid_runes_concat)
  have r: "runes (SanitizeName s) = trim_runes ?t"
    using True trim_space_runes [OF v(1)] v(2) by (simp add: SanitizeName_def)
  have s: "set (trim_runes ?t) \<subseteq> set (runes (stripControls s))" using trim_runes_sublist sub by blast
  have "length (trim_runes ?t) \<le> MaxNameRunes" using length_trim_runes [of ?t] by simp
  moreover have "utf8_valid (SanitizeName s)"
    using r s stripControls_valid [of s] by (auto simp: utf8_valid_def list_all_iff)
  ultimately show ?thesis using r s stripControls_clean by auto
next
  case False
  then show ?thesis
    using stripControls_valid stripControls_clean stripControls_trimmed by (simp add: SanitizeName_def)
qed

text \<open>A label shown to the user is harmless: whatever bytes a peer sends, \<open>SanitizeName\<close> returns valid
  UTF-8 of at most 120 runes with no control character and no bidirectional override, without white
  space at the ends, and cleaning it again changes nothing.\<close>

theorem SanitizeName_clean:
  "utf8_valid (SanitizeName s) \<and> length (runes (SanitizeName s)) \<le> 120 \<and>
   list_all (\<lambda>rb. \<not> dropped_rune (fst rb)) (runes (SanitizeName s)) \<and>
   trim_space (SanitizeName s) = SanitizeName s \<and> SanitizeName (SanitizeName s) = SanitizeName s"
proof -
  note f = SanitizeName_facts [of s]
  have "stripControls (SanitizeName s) = SanitizeName s" using f by (intro stripControls_fix) auto
  then have "SanitizeName (SanitizeName s) = SanitizeName s" using f by (simp add: SanitizeName_def [of "SanitizeName s"])
  moreover have "trim_space (SanitizeName s) = SanitizeName s" using f by (simp add: trim_space_def)
  ultimately show ?thesis using f by (simp add: MaxNameRunes_def list_all_iff)
qed

section \<open>Fingerprints\<close>

text \<open>\<open>normalizeFingerprint\<close>: byte by byte.\<close>

fun normalizeFingerprint :: "string \<Rightarrow> string" where
  "normalizeFingerprint [] = []"
| "normalizeFingerprint (c # cs) = (let n = (of_char c :: nat) in
     if 65 \<le> n \<and> n \<le> 70 then char_of (n + 32) # normalizeFingerprint cs
     else if (97 \<le> n \<and> n \<le> 102) \<or> (48 \<le> n \<and> n \<le> 57) then c # normalizeFingerprint cs
     else normalizeFingerprint cs)"

lemma normalizeFingerprint_hex [simp]: "normalizeFingerprint (hex_encode bs) = hex_encode bs"
proof (induction bs)
  case Nil
  show ?case by simp
next
  case (Cons b bs)
  have d: "n < 16 \<Longrightarrow> normalizeFingerprint (hex_digit n # cs) = hex_digit n # normalizeFingerprint cs" for n cs
    by (simp add: hex_digit_def Let_def)
  have "of_char b div 16 < (16::nat)" using of_char_less [of b] by linarith
  then show ?case using Cons by (simp add: hex_encode_Cons d del: normalizeFingerprint.simps)
qed

definition pad_digits :: "nat \<Rightarrow> nat \<Rightarrow> string" where
  "pad_digits k n = replicate (k - length (digits n)) CHR ''0'' @ digits n"

definition VerifyCode :: "(bytes \<Rightarrow> bytes) \<Rightarrow> string \<Rightarrow> string" where
  "VerifyCode sha fingerprint =
     (if fingerprint = [] then []
      else (let n = be_get (take 8 (sha (normalizeFingerprint fingerprint))) mod 1000000 in
            pad_digits 3 (n div 1000) @ '' '' @ pad_digits 3 (n mod 1000)))"

definition SafetyNumber :: "(bytes \<Rightarrow> bytes) \<Rightarrow> string \<Rightarrow> string" where
  "SafetyNumber sha fingerprint =
     (if fingerprint = [] then []
      else (let h = sha (''s2u-safety-number:'' @ normalizeFingerprint fingerprint);
                g = (\<lambda>i. pad_digits 4 (be_get (take 4 (drop (i * 4) h)) mod 10000)) in
            g 0 @ '' '' @ g 1 @ '' '' @ g 2 @ '' '' @ g 3 @ '' '' @ g 4))"

section \<open>Device cards\<close>

text \<open>A URI name of a certificate: scheme, opaque part and its query parameters; and the certificate
  fields the code reads: the DER bytes, the SubjectPublicKeyInfo of its key (\<open>None\<close> when it cannot be
  marshalled) and its URI names.\<close>

record card_uri =
  u_scheme :: string
  u_opaque :: string
  u_query :: "string \<Rightarrow> string"

record cert =
  c_der :: bytes
  c_spki :: "bytes option"
  c_uris :: "card_uri list"

record DeviceCard =
  card_name :: string
  card_key :: bytes

record card_crypto =
  cc_sha :: "bytes \<Rightarrow> bytes"
  cc_verify :: "bytes \<Rightarrow> bytes \<Rightarrow> bytes \<Rightarrow> bool"
  cc_sign :: "bytes \<Rightarrow> bytes \<Rightarrow> bytes"
  cc_public :: "bytes \<Rightarrow> bytes"
  cc_b64 :: "bytes \<Rightarrow> string"
  cc_unb64 :: "string \<Rightarrow> bytes option"

definition cardContext :: bytes where "cardContext = ''s2u-lan-card-v1'' @ [CHR 0x00]"

definition maxCardNameLen :: nat where "maxCardNameLen = 64"

definition cardMessage :: "bytes \<Rightarrow> string \<Rightarrow> bytes" where
  "cardMessage spkiHash name = cardContext @ spkiHash @ be_put 2 (length name) @ name"

text \<open>\<open>strings.ToValidUTF8(s, "")\<close>.\<close>

definition drop_invalid :: "string \<Rightarrow> string" where
  "drop_invalid s = concat (map snd (filter rune_ok (runes s)))"

definition card_label :: "string \<Rightarrow> string" where
  "card_label name = (let n = trim_space name in
     if length n > maxCardNameLen then drop_invalid (take maxCardNameLen n) else n)"

definition card_query :: "string \<Rightarrow> string \<Rightarrow> string \<Rightarrow> string \<Rightarrow> string \<Rightarrow> string" where
  "card_query v k n s = (\<lambda>_. [])(''v'' := v, ''k'' := k, ''n'' := n, ''s'' := s)"

text \<open>\<open>buildCardURI\<close>: \<open>Inr None\<close> when the device has no identity, \<open>Inl\<close> when the key cannot be hashed.\<close>

definition buildCardURI :: "card_crypto \<Rightarrow> bytes \<Rightarrow> string \<Rightarrow> bytes option \<Rightarrow> unit + card_uri option" where
  "buildCardURI cc ident name spki =
     (if length ident \<noteq> ed_private_size then Inr None
      else (case spki of
          None \<Rightarrow> Inl ()
        | Some der \<Rightarrow>
            let n = card_label name; sg = cc_sign cc ident (cardMessage (cc_sha cc der) n) in
            Inr (Some \<lparr>u_scheme = ''s2u'', u_opaque = ''card'',
              u_query = card_query ''1'' (cc_b64 cc (cc_public cc ident)) (cc_b64 cc n) (cc_b64 cc sg)\<rparr>)))"

text \<open>One turn of \<open>cardFromCert\<close>'s loop: the card this URI proves, if any.\<close>

definition card_of_uri :: "card_crypto \<Rightarrow> bytes \<Rightarrow> card_uri \<Rightarrow> DeviceCard option" where
  "card_of_uri cc spkiHash u =
     (if u_scheme u \<noteq> ''s2u'' \<or> u_opaque u \<noteq> ''card'' then None
      else if u_query u ''v'' \<noteq> ''1'' then None
      else (case cc_unb64 cc (u_query u ''k'') of
          None \<Rightarrow> None
        | Some key \<Rightarrow>
            if length key \<noteq> ed_public_size then None
            else (case cc_unb64 cc (u_query u ''s'') of
                None \<Rightarrow> None
              | Some sg \<Rightarrow>
                  if length sg \<noteq> ed_signature_size then None
                  else (case cc_unb64 cc (u_query u ''n'') of
                      None \<Rightarrow> None
                    | Some raw \<Rightarrow>
                        if length raw > maxCardNameLen then None
                        else if \<not> cc_verify cc key (cardMessage spkiHash raw) sg then None
                        else Some \<lparr>card_name = stripControls raw, card_key = key\<rparr>))))"

fun first_card :: "card_crypto \<Rightarrow> bytes \<Rightarrow> card_uri list \<Rightarrow> DeviceCard option" where
  "first_card cc h [] = None"
| "first_card cc h (u # us) = (case card_of_uri cc h u of Some c \<Rightarrow> Some c | None \<Rightarrow> first_card cc h us)"

definition cardFromCert :: "card_crypto \<Rightarrow> cert option \<Rightarrow> DeviceCard option" where
  "cardFromCert cc leaf =
     (case leaf of
        None \<Rightarrow> None
      | Some c \<Rightarrow> (case c_spki c of None \<Rightarrow> None | Some der \<Rightarrow> first_card cc (cc_sha cc der) (c_uris c)))"

section \<open>The certificate pin\<close>

definition certFingerprint :: "(bytes \<Rightarrow> bytes) \<Rightarrow> bytes \<Rightarrow> string" where
  "certFingerprint sha der = hex_encode (sha der)"

datatype pin_err = NoCertificate | IdentityMismatch | CertMismatch

text \<open>The check \<open>clientTLSConfig\<close> installs for a pin; \<open>parse\<close> is \<open>x509.ParseCertificate\<close>.\<close>

definition verify_pin ::
  "card_crypto \<Rightarrow> (bytes \<Rightarrow> cert option) \<Rightarrow> string \<Rightarrow> bytes list \<Rightarrow> pin_err + unit" where
  "verify_pin cc parse pin rawCerts =
     (if pin = [] then Inr ()
      else
        let want = normalizeFingerprint pin in
        (case rawCerts of
           [] \<Rightarrow> Inl NoCertificate
         | der # _ \<Rightarrow>
             if certFingerprint (cc_sha cc) der = want then Inr ()
             else (case parse der of
                 None \<Rightarrow> Inl CertMismatch
               | Some leaf \<Rightarrow> (case cardFromCert cc (Some leaf) of
                     None \<Rightarrow> Inl CertMismatch
                   | Some dc \<Rightarrow>
                       if normalizeFingerprint (IdentityFingerprint (cc_sha cc) (card_key dc)) = want then Inr ()
                       else Inl IdentityMismatch))))"

section \<open>What a card proves\<close>

lemma card_of_uri_SomeD:
  "card_of_uri cc h u = Some c \<Longrightarrow> \<exists>raw sg. cc_verify cc (card_key c) (cardMessage h raw) sg \<and>
     card_name c = stripControls raw \<and> length raw \<le> maxCardNameLen \<and> length (card_key c) = ed_public_size"
  by (auto simp: card_of_uri_def not_less split: if_split_asm option.split_asm) blast+

lemma first_card_SomeD:
  "first_card cc h us = Some c \<Longrightarrow> \<exists>raw sg. cc_verify cc (card_key c) (cardMessage h raw) sg \<and>
     card_name c = stripControls raw \<and> length raw \<le> maxCardNameLen \<and> length (card_key c) = ed_public_size"
proof (induction us)
  case Nil
  then show ?case by simp
next
  case (Cons u us)
  then show ?case using card_of_uri_SomeD [of cc h u c] by (cases "card_of_uri cc h u") simp_all
qed

lemma cardFromCert_SomeD:
  "cardFromCert cc (Some leaf) = Some c \<Longrightarrow> \<exists>der raw sg. c_spki leaf = Some der \<and>
     cc_verify cc (card_key c) (cardMessage (cc_sha cc der) raw) sg \<and>
     card_name c = stripControls raw \<and> length (card_key c) = ed_public_size"
  by (auto simp: cardFromCert_def split: option.split_asm dest!: first_card_SomeD)

text \<open>Two different claims have different signed messages: \<open>cardMessage\<close> is injective in the hash of the
  certificate key and the name together, for hashes of one length and names that fit the length field;
  and it never equals the message of an identity proof.\<close>

theorem cardMessage_injective:
  assumes "length h = length h'" "length n < 2 ^ 16" "length n' < 2 ^ 16"
  shows "(cardMessage h n = cardMessage h' n' \<longleftrightarrow> h = h' \<and> n = n') \<and> cardMessage h n \<noteq> identityMessage ekm"
proof -
  have "cardMessage h n \<noteq> identityMessage ekm"
    by (simp add: cardMessage_def cardContext_def identityMessage_def identitySigContext_def)
  then show ?thesis using assms by (auto simp: cardMessage_def)
qed

lemma cardMessage_injective_witness:
  "(cardMessage ''h1'' ''pc'' = cardMessage ''h2'' ''pc'' \<longleftrightarrow> ''h1'' = ''h2'' \<and> ''pc'' = ''pc'') \<and>
   cardMessage ''h1'' ''pc'' \<noteq> identityMessage ''e''"
  by (rule cardMessage_injective) simp_all

lemma length_concat_filter: "length (concat (map snd (filter P rbs))) \<le> length (concat (map snd rbs))"
  by (induction rbs) auto

lemma drop_invalid_length: "length (drop_invalid s) \<le> length s"
  unfolding drop_invalid_def using length_concat_filter [of rune_ok "runes s"] by simp

lemma card_label_length: "length (card_label name) \<le> maxCardNameLen"
  using drop_invalid_length [of "take maxCardNameLen (trim_space name)"] by (simp add: card_label_def Let_def)

text \<open>A device's card reads back as itself: the card \<open>buildCardURI\<close> mints for a certificate key is the one
  \<open>cardFromCert\<close> finds in a certificate that carries it, with the device's public key and its name
  cleaned, provided base64 decodes what it encoded and Ed25519 verifies its own signatures.\<close>

theorem card_roundtrip:
  assumes "\<forall>x. cc_unb64 cc (cc_b64 cc x) = Some x"
    and "\<forall>m. cc_verify cc (cc_public cc ident) m (cc_sign cc ident m) \<and> length (cc_sign cc ident m) = ed_signature_size"
    and "length (cc_public cc ident) = ed_public_size" "length ident = ed_private_size"
    and "c_spki leaf = Some der" "buildCardURI cc ident name (c_spki leaf) = Inr (Some u)" "c_uris leaf = u # us"
  shows "cardFromCert cc (Some leaf) = Some \<lparr>card_name = stripControls (card_label name), card_key = cc_public cc ident\<rparr>"
proof -
  have q: "card_query v k n s ''v'' = v" "card_query v k n s ''k'' = k" "card_query v k n s ''n'' = n"
    "card_query v k n s ''s'' = s" for v k n s by (simp_all add: card_query_def)
  have u: "u = \<lparr>u_scheme = ''s2u'', u_opaque = ''card'',
      u_query = card_query ''1'' (cc_b64 cc (cc_public cc ident)) (cc_b64 cc (card_label name))
        (cc_b64 cc (cc_sign cc ident (cardMessage (cc_sha cc der) (card_label name))))\<rparr>"
    using assms(4-6) by (simp add: buildCardURI_def Let_def)
  have "length (card_label name) \<le> maxCardNameLen" by (rule card_label_length)
  then have "card_of_uri cc (cc_sha cc der) u =
      Some \<lparr>card_name = stripControls (card_label name), card_key = cc_public cc ident\<rparr>"
    using assms(1-3) by (simp add: card_of_uri_def u q)
  then show ?thesis using assms(5,7) by (simp add: cardFromCert_def)
qed

text \<open>C11 A pinned sender talks only to the pinned device: the check passes only if the certificate itself has
  the pinned fingerprint, or carries a card signed over this certificate's own key by an identity whose
  fingerprint is the pin; an empty list and a card of another identity never pass.\<close>

theorem pin_sound:
  assumes "verify_pin cc parse pin rawCerts = Inr ()" "pin \<noteq> []"
  shows "\<exists>der rest. rawCerts = der # rest \<and>
    (hex_encode (cc_sha cc der) = normalizeFingerprint pin \<or>
     (\<exists>leaf spki key raw sg. parse der = Some leaf \<and> c_spki leaf = Some spki \<and>
        cc_verify cc key (cardMessage (cc_sha cc spki) raw) sg \<and>
        hex_encode (cc_sha cc key) = normalizeFingerprint pin))"
proof -
  obtain der rest where r: "rawCerts = der # rest"
    using assms by (cases rawCerts) (auto simp: verify_pin_def Let_def)
  show ?thesis
  proof (cases "certFingerprint (cc_sha cc) der = normalizeFingerprint pin")
    case True
    then show ?thesis using r by (simp add: certFingerprint_def)
  next
    case False
    then obtain leaf dc where c: "parse der = Some leaf" "cardFromCert cc (Some leaf) = Some dc"
      "normalizeFingerprint (IdentityFingerprint (cc_sha cc) (card_key dc)) = normalizeFingerprint pin"
      using assms r by (auto simp: verify_pin_def Let_def split: option.split_asm if_split_asm)
    obtain spki raw sg where s: "c_spki leaf = Some spki"
      "cc_verify cc (card_key dc) (cardMessage (cc_sha cc spki) raw) sg" "length (card_key dc) = ed_public_size"
      using cardFromCert_SomeD [OF c(2)] by blast
    have "card_key dc \<noteq> []" using s(3) by (auto simp: ed_public_size_def)
    then have "hex_encode (cc_sha cc (card_key dc)) = normalizeFingerprint pin"
      using c(3) by (simp add: IdentityFingerprint_def)
    then show ?thesis using r c(1) s by blast
  qed
qed

text \<open>A toy device: signing is the identity of the message, encoded and hashed by itself.\<close>

definition toy_cc :: card_crypto where
  "toy_cc = \<lparr>cc_sha = take 4, cc_verify = (\<lambda>k m s. s = take 64 (m @ replicate 64 CHR ''0'')),
     cc_sign = (\<lambda>i m. take 64 (m @ replicate 64 CHR ''0'')), cc_public = take 32, cc_b64 = id, cc_unb64 = Some\<rparr>"

definition toy_ident :: bytes where "toy_ident = replicate 64 CHR ''k''"

definition toy_uri :: card_uri where
  "toy_uri = \<lparr>u_scheme = ''s2u'', u_opaque = ''card'',
     u_query = card_query ''1'' (take 32 toy_ident) (card_label ''pc'')
       (cc_sign toy_cc toy_ident (cardMessage ''der'' (card_label ''pc'')))\<rparr>"

definition toy_cert :: cert where
  "toy_cert = \<lparr>c_der = ''cert'', c_spki = Some ''der'', c_uris = [toy_uri]\<rparr>"

lemma toy_card:
  "cardFromCert toy_cc (Some toy_cert) = Some \<lparr>card_name = stripControls (card_label ''pc''), card_key = cc_public toy_cc toy_ident\<rparr>"
proof -
  have "length (card_label ''pc'') \<le> maxCardNameLen" by (rule card_label_length)
  then show ?thesis
    by (simp add: cardFromCert_def toy_cert_def card_of_uri_def toy_uri_def card_query_def toy_cc_def
        ed_public_size_def ed_signature_size_def toy_ident_def)
qed

lemma card_roundtrip_witness:
  "cardFromCert toy_cc (Some toy_cert) = Some \<lparr>card_name = stripControls (card_label ''pc''), card_key = cc_public toy_cc toy_ident\<rparr>"
proof (rule card_roundtrip [where der = "''der''" and u = toy_uri and us = "[]"])
  show "buildCardURI toy_cc toy_ident ''pc'' (c_spki toy_cert) = Inr (Some toy_uri)"
    by (simp add: buildCardURI_def toy_cert_def toy_uri_def ed_private_size_def toy_ident_def toy_cc_def Let_def)
  show "\<forall>m. cc_verify toy_cc (cc_public toy_cc toy_ident) m (cc_sign toy_cc toy_ident m) \<and>
      length (cc_sign toy_cc toy_ident m) = ed_signature_size"
    by (auto simp: toy_cc_def ed_signature_size_def min_def)
qed (simp_all add: toy_cc_def toy_ident_def toy_cert_def ed_public_size_def ed_private_size_def)

lemma pin_sound_witness:
  "\<exists>der rest. [''cert''] = der # rest \<and>
    (hex_encode (cc_sha toy_cc der) = normalizeFingerprint ''6B:6B:6B:6B'' \<or>
     (\<exists>leaf spki key raw sg. Some toy_cert = Some leaf \<and> c_spki leaf = Some spki \<and>
        cc_verify toy_cc key (cardMessage (cc_sha toy_cc spki) raw) sg \<and>
        hex_encode (cc_sha toy_cc key) = normalizeFingerprint ''6B:6B:6B:6B''))"
proof (rule pin_sound [where parse = "\<lambda>_. Some toy_cert"])
  have n: "normalizeFingerprint ''6B:6B:6B:6B'' = ''6b6b6b6b''" by code_simp
  have h: "hex_encode (take 4 ''cert'') = ''63657274''" "hex_encode (replicate 4 CHR ''k'') = ''6b6b6b6b''" by code_simp+
  show "verify_pin toy_cc (\<lambda>_. Some toy_cert) ''6B:6B:6B:6B'' [''cert''] = Inr ()"
    unfolding verify_pin_def Let_def n certFingerprint_def list.case option.case toy_card
    using h by (simp add: toy_cc_def toy_ident_def IdentityFingerprint_def)
qed simp

end
