(* ===== verification/Receive.thy ===== *)
theory Receive
  imports Names Delivery
begin

text \<open>
  One inbound connection of a LAN receiver: \<open>handleConn\<close> of \<open>lanshare/receive.go\<close>, in the four stages its
  code has: admission (source address, TLS, hello, version, size, identity), authorization (password or
  trusted sender), the offer (destination path, approval, existing file, resume point, the accept frame)
  and the transfer. A stage returns the bytes it wrote and either the outcome that ends the connection
  or what the next stage needs. Also the choice of the authentication mode in \<open>Receive\<close>.
\<close>

section \<open>Options and services\<close>

record RequestInfo =
  ri_peer_ip :: string
  ri_name :: string
  ri_size :: int
  ri_is_dir :: bool
  ri_sender_key :: "bytes option"
  ri_sender_name :: string

record ReceiveOptions =
  ro_password :: string
  ro_no_password :: bool
  ro_allow_ips :: "string list"
  ro_is_trusted :: "(bytes \<Rightarrow> bool) option"
  ro_dest_dir :: string
  ro_overwrite :: bool
  ro_on_request :: "(RequestInfo \<Rightarrow> bool) option"

record ReceiveResult =
  rr_name :: string
  rr_path :: string
  rr_bytes :: int
  rr_sha256 :: string
  rr_peer_ip :: string
  rr_sender_key :: "bytes option"

text \<open>The code outside the repository a handler calls: hashing, signatures, the PAKE library and
  \<open>encoding/json\<close> on each message type.\<close>

record 's services =
  sv_sha :: "bytes \<Rightarrow> bytes"
  sv_hmac :: "bytes \<Rightarrow> bytes \<Rightarrow> bytes"
  sv_verify :: "bytes \<Rightarrow> bytes \<Rightarrow> bytes \<Rightarrow> bool"
  sv_pake :: "'s pake"
  sv_un_hello :: "bytes \<Rightarrow> hello option"
  sv_un_error :: "bytes \<Rightarrow> string"
  sv_mar_accept :: "accept \<Rightarrow> bytes option"
  sv_mar_done :: "done_msg \<Rightarrow> bytes option"
  sv_mar_error :: "string \<Rightarrow> bytes option"

text \<open>A connection: the remote address, whether it is TLS and its handshake succeeds, the exporter value,
  the bytes that will arrive, and which writes go out (0 and 1 in the PAKE, 2 the accept frame).\<close>

record conn =
  cn_remote :: string
  cn_tls :: bool
  cn_handshake :: bool
  cn_ekm :: "bytes option"
  cn_in :: bytes
  cn_wok :: "nat \<Rightarrow> bool"

datatype hard_err = ExistsAlready string | TransferError rx_err

datatype outcome = Rejected | HardError hard_err | Completed ReceiveResult

definition maxTransferBytes :: int where "maxTransferBytes = 2 ^ 40"

text \<open>\<open>sendError\<close>, and the other control frames whose write error is ignored.\<close>

definition json_bytes :: "('v \<Rightarrow> bytes option) \<Rightarrow> nat \<Rightarrow> 'v \<Rightarrow> bytes" where
  "json_bytes mar typ v = (case writeJSON mar typ v of Inl _ \<Rightarrow> [] | Inr b \<Rightarrow> b)"

definition sendError :: "('s, 'm) services_scheme \<Rightarrow> string \<Rightarrow> bytes" where
  "sendError sv msg = json_bytes (sv_mar_error sv) msgError msg"

definition refuse :: "('s, 'm) services_scheme \<Rightarrow> string \<Rightarrow> bytes" where
  "refuse sv reason = json_bytes (sv_mar_accept sv) msgAccept (zero_accept\<lparr>a_reason := reason\<rparr>)"

section \<open>The authentication mode\<close>

datatype mode = ModePassword | ModeAllowIP | ModeOpen

text \<open>The effective password (\<open>gen\<close> is what \<open>GeneratePassphrase\<close> returned) and the mode reported.\<close>

definition effective_password :: "ReceiveOptions \<Rightarrow> string option \<Rightarrow> string option" where
  "effective_password opts gen =
     (if ro_password opts = [] \<and> \<not> ro_no_password opts \<and> ro_allow_ips opts = [] then gen
      else Some (ro_password opts))"

definition receive_mode :: "string \<Rightarrow> string list \<Rightarrow> mode" where
  "receive_mode password allow_ips =
     (if password \<noteq> [] then ModePassword else if allow_ips \<noteq> [] then ModeAllowIP else ModeOpen)"

section \<open>The stages\<close>

fun id_message :: "id_err \<Rightarrow> string" where
  "id_message MalformedIdentity = ''malformed sender identity''"
| "id_message BindingFailed = ''channel binding failed''"
| "id_message IdentityNotVerified = ''sender identity verification failed''"

text \<open>Admission: up to the verified sender key.\<close>

definition admit ::
  "('s, 'm) services_scheme \<Rightarrow> ip list \<Rightarrow> conn \<Rightarrow> bytes \<times> (unit + hello \<times> bytes option \<times> bytes)" where
  "admit sv allow c =
     (if allow \<noteq> [] \<and> \<not> ipAllowed (remoteIP (cn_remote c)) allow then ([], Inl ())
      else if \<not> cn_tls c then ([], Inl ())
      else if \<not> cn_handshake c then ([], Inl ())
      else (case readControl (sv_un_hello sv) (sv_un_error sv) msgHello (cn_in c) of
          Inl _ \<Rightarrow> ([], Inl ())
        | Inr (h, rest) \<Rightarrow>
            if h_version h \<noteq> protocolVersion then (sendError sv ''unsupported protocol version'', Inl ())
            else if h_size h < 0 \<or> h_size h > maxTransferBytes
            then (sendError sv ''declared transfer size is out of range'', Inl ())
            else (case check_identity (sv_verify sv) (cn_ekm c) (h_identity_pub h) (h_identity_sig h) of
                Inl e \<Rightarrow> (sendError sv (id_message e), Inl ())
              | Inr key \<Rightarrow> ([], Inr (h, key, rest)))))"

definition trusted_sender :: "ReceiveOptions \<Rightarrow> bytes option \<Rightarrow> bool" where
  "trusted_sender opts key =
     (case key of None \<Rightarrow> False
      | Some k \<Rightarrow> (case ro_is_trusted opts of None \<Rightarrow> False | Some f \<Rightarrow> f k))"

text \<open>Authorization: the PAKE runs iff the sender offered a password.\<close>

definition authorize ::
  "('s, 'm) services_scheme \<Rightarrow> ReceiveOptions \<Rightarrow> string \<Rightarrow> conn \<Rightarrow> hello \<Rightarrow> bytes option \<Rightarrow> bytes \<Rightarrow>
   bytes \<times> (unit + bytes)" where
  "authorize sv opts password c h key rest =
     (if h_has_password h then
        (if password = [] then (sendError sv ''this receiver is not expecting a password'', Inl ())
         else (case cn_ekm c of
             None \<Rightarrow> (sendError sv ''channel binding failed'', Inl ())
           | Some ekm \<Rightarrow>
               (case pakeReceiver (sv_pake sv) (sv_hmac sv) (sv_un_error sv) (cn_wok c) ekm password rest of
                  (out, Inl _) \<Rightarrow> (out @ sendError sv ''authentication failed'', Inl ())
                | (out, Inr rest') \<Rightarrow> (out, Inr rest'))))
      else if password \<noteq> [] \<and> \<not> trusted_sender opts key
      then (sendError sv ''this receiver requires a password (--password)'', Inl ())
      else ([], Inr rest))"

definition request_info :: "conn \<Rightarrow> hello \<Rightarrow> bytes option \<Rightarrow> string \<Rightarrow> RequestInfo" where
  "request_info c h key outPath =
     \<lparr>ri_peer_ip = remoteIP (cn_remote c), ri_name = Base outPath, ri_size = h_size h, ri_is_dir = h_is_dir h,
      ri_sender_key = key, ri_sender_name = SanitizeName (h_sender_name h)\<rparr>"

fun dest_message :: "dest_err \<Rightarrow> string" where
  "dest_message InvalidName = ''received an invalid file name''"
| "dest_message IllegalCharacter = ''received file name has an illegal character''"
| "dest_message ControlCharacter = ''received file name has a control character''"
| "dest_message DirectionOverride = ''received file name has a text-direction override''"
| "dest_message ReservedName = ''received a reserved file name''"
| "dest_message EscapesDir = ''received file name escapes the destination directory''"

text \<open>The staging file of a resumable push, if the sender declared it can resume and the digest.\<close>

definition push_partial :: "(bytes \<Rightarrow> bytes) \<Rightarrow> hello \<Rightarrow> string \<Rightarrow> string option" where
  "push_partial sha h outPath =
     (if h_supports_resume h \<and> h_sha256 h \<noteq> [] \<and> \<not> h_is_dir h
      then Some (Join (Dir outPath) (partialName sha (h_sha256 h) (h_name h) (h_size h))) else None)"

definition push_offset :: "fs \<Rightarrow> string option \<Rightarrow> int \<Rightarrow> int" where
  "push_offset f partial sz = (case partial of None \<Rightarrow> 0 | Some p \<Rightarrow> resumeOffset f p sz)"

definition exists_reason :: "string \<Rightarrow> string" where
  "exists_reason outPath =
     CHR 0x22 # Base outPath @ [CHR 0x22] @ '' already exists; re-run the receiver with --overwrite''"

text \<open>The offer: an outcome, or the destination, the partial and the offset that was accepted.\<close>

definition offer ::
  "('s, 'm) services_scheme \<Rightarrow> ReceiveOptions \<Rightarrow> fs \<Rightarrow> conn \<Rightarrow> hello \<Rightarrow> bytes option \<Rightarrow>
   bytes \<times> (outcome + string \<times> string option \<times> int)" where
  "offer sv opts f c h key =
     (case destPath (ro_dest_dir opts) (h_name h) of
        Inl e \<Rightarrow> (sendError sv (dest_message e), Inl Rejected)
      | Inr outPath \<Rightarrow>
          if (case ro_on_request opts of None \<Rightarrow> False | Some ask \<Rightarrow> \<not> ask (request_info c h key outPath))
          then (refuse sv ''declined by the receiver'', Inl Rejected)
          else if f outPath \<noteq> None \<and> \<not> ro_overwrite opts
          then (refuse sv (exists_reason outPath), Inl (HardError (ExistsAlready (Base outPath))))
          else
            let partial = push_partial (sv_sha sv) h outPath; resumeAt = push_offset f partial (h_size h) in
            (case writeJSON (sv_mar_accept sv) msgAccept (zero_accept\<lparr>a_ok := True, a_resume_offset := resumeAt\<rparr>) of
               Inl _ \<Rightarrow> ([], Inl Rejected)
             | Inr b \<Rightarrow> if \<not> cn_wok c 2 then ([], Inl Rejected) else (b, Inr (outPath, partial, resumeAt))))"

text \<open>The transfer and its completion report.\<close>

definition transfer ::
  "('s, 'm) services_scheme \<Rightarrow> ReceiveOptions \<Rightarrow> io_env \<Rightarrow> fs \<Rightarrow> conn \<Rightarrow> hello \<Rightarrow> string \<Rightarrow> string option \<Rightarrow> int \<Rightarrow>
   bytes \<Rightarrow> fs \<times> bytes \<times> outcome" where
  "transfer sv opts env f c h outPath partial resumeAt inp =
     (let (f', r, pr) = (case partial of
            Some p \<Rightarrow> receiveResumableToFile (sv_sha sv) env f inp p outPath resumeAt (h_size h) (h_sha256 h) (ro_overwrite opts)
          | None \<Rightarrow> receiveToFile (sv_sha sv) env f inp outPath (h_size h) (ro_overwrite opts)) in
      (case r of
         Inl e \<Rightarrow> (f', sendError sv ''write failed'', HardError (TransferError e))
       | Inr (written, dg) \<Rightarrow>
           (f', json_bytes (sv_mar_done sv) msgDone \<lparr>d_ok = True, d_bytes = written, d_sha256 = dg, d_reason = []\<rparr>,
            Completed \<lparr>rr_name = Base outPath, rr_path = outPath, rr_bytes = written, rr_sha256 = dg,
              rr_peer_ip = remoteIP (cn_remote c), rr_sender_key = None\<rparr>)))"

definition handleConn ::
  "('s, 'm) services_scheme \<Rightarrow> ReceiveOptions \<Rightarrow> string \<Rightarrow> ip list \<Rightarrow> io_env \<Rightarrow> fs \<Rightarrow> conn \<Rightarrow> fs \<times> bytes \<times> outcome" where
  "handleConn sv opts password allow env f c =
     (case admit sv allow c of
        (out1, Inl _) \<Rightarrow> (f, out1, Rejected)
      | (out1, Inr (h, key, rest)) \<Rightarrow> (case authorize sv opts password c h key rest of
        (out2, Inl _) \<Rightarrow> (f, out1 @ out2, Rejected)
      | (out2, Inr rest') \<Rightarrow> (case offer sv opts f c h key of
        (out3, Inl oc) \<Rightarrow> (f, out1 @ out2 @ out3, oc)
      | (out3, Inr (outPath, partial, resumeAt)) \<Rightarrow>
          let (f', out4, oc) = transfer sv opts env f c h outPath partial resumeAt rest' in
          (f', out1 @ out2 @ out3 @ out4, oc))))"

section \<open>What each stage checks\<close>

lemma admit_InrD:
  assumes "admit sv allow c = (out, Inr (h, key, rest))"
  shows "out = [] \<and> (allow = [] \<or> ipAllowed (remoteIP (cn_remote c)) allow) \<and> cn_tls c \<and> cn_handshake c \<and>
    readControl (sv_un_hello sv) (sv_un_error sv) msgHello (cn_in c) = Inr (h, rest) \<and>
    h_version h = protocolVersion \<and> 0 \<le> h_size h \<and> h_size h \<le> maxTransferBytes \<and>
    check_identity (sv_verify sv) (cn_ekm c) (h_identity_pub h) (h_identity_sig h) = Inr key"
  using assms by (auto simp: admit_def split: if_split_asm sum.split_asm)

lemma admit_InlD: "admit sv allow c = (out, Inl u) \<Longrightarrow> out = [] \<or> (\<exists>m. out = sendError sv m)"
  by (auto simp: admit_def split: if_split_asm sum.split_asm)

lemma authorize_InrD:
  assumes "authorize sv opts password c h key rest = (out, Inr rest')"
  shows "if h_has_password h
    then password \<noteq> [] \<and> (\<exists>ekm. cn_ekm c = Some ekm \<and>
      pakeReceiver (sv_pake sv) (sv_hmac sv) (sv_un_error sv) (cn_wok c) ekm password rest = (out, Inr rest'))
    else (password = [] \<or> trusted_sender opts key) \<and> rest' = rest \<and> out = []"
  using assms by (auto simp: authorize_def split: if_split_asm option.split_asm prod.split_asm sum.split_asm)

lemma offer_InrD:
  assumes "offer sv opts f c h key = (out, Inr (outPath, partial, resumeAt))"
  shows "destPath (ro_dest_dir opts) (h_name h) = Inr outPath \<and>
    (\<forall>ask. ro_on_request opts = Some ask \<longrightarrow> ask (request_info c h key outPath)) \<and>
    (f outPath = None \<or> ro_overwrite opts) \<and> partial = push_partial (sv_sha sv) h outPath \<and>
    resumeAt = push_offset f partial (h_size h)"
  using assms
  by (auto simp: offer_def Let_def split: if_split_asm option.split_asm sum.split_asm)

lemma offer_InlD:
  "offer sv opts f c h key = (out, Inl oc) \<Longrightarrow> oc = Rejected \<or> (\<exists>b. oc = HardError (ExistsAlready b))"
  by (auto simp: offer_def Let_def split: if_split_asm option.split_asm sum.split_asm)

text \<open>Everything a peer had to pass for a transfer to begin.\<close>

definition entitled ::
  "('s, 'm) services_scheme \<Rightarrow> ReceiveOptions \<Rightarrow> string \<Rightarrow> ip list \<Rightarrow> fs \<Rightarrow> conn \<Rightarrow> hello \<Rightarrow> bytes option \<Rightarrow> string \<Rightarrow> bool" where
  "entitled sv opts password allow f c h key outPath \<longleftrightarrow>
     (allow = [] \<or> ipAllowed (remoteIP (cn_remote c)) allow) \<and> cn_tls c \<and> cn_handshake c \<and>
     h_version h = protocolVersion \<and> 0 \<le> h_size h \<and> h_size h \<le> 2 ^ 40 \<and>
     (case key of
        None \<Rightarrow> h_identity_pub h = [] \<and> h_identity_sig h = []
      | Some k \<Rightarrow> k = h_identity_pub h \<and>
          (\<exists>e. cn_ekm c = Some e \<and> sv_verify sv k (identityMessage e) (h_identity_sig h))) \<and>
     (if h_has_password h
      then password \<noteq> [] \<and> (\<exists>ekm rest r. cn_ekm c = Some ekm \<and>
        snd (pakeReceiver (sv_pake sv) (sv_hmac sv) (sv_un_error sv) (cn_wok c) ekm password rest) = Inr r)
      else password = [] \<or> trusted_sender opts key) \<and>
     (\<exists>b. safe_base b \<and> outPath = Join (ro_dest_dir opts) b) \<and>
     (\<forall>ask. ro_on_request opts = Some ask \<longrightarrow> ask (request_info c h key outPath)) \<and>
     (f outPath = None \<or> ro_overwrite opts)"

text \<open>A connection either ends before the transfer, with the disk as it was, or is entitled to it.\<close>

lemma handleConn_cases:
  assumes "handleConn sv opts password allow env f c = (f', out, oc)"
  shows "(f' = f \<and> (oc = Rejected \<or> (\<exists>b. oc = HardError (ExistsAlready b)))) \<or>
    (\<exists>h key outPath inp out4. entitled sv opts password allow f c h key outPath \<and>
      transfer sv opts env f c h outPath (push_partial (sv_sha sv) h outPath)
        (push_offset f (push_partial (sv_sha sv) h outPath) (h_size h)) inp = (f', out4, oc))"
proof -
  obtain out1 r1 where a: "admit sv allow c = (out1, r1)" by fastforce
  show ?thesis
  proof (cases r1)
    case (Inl u)
    then show ?thesis using a assms by (simp add: handleConn_def)
  next
    case (Inr hk)
    then obtain h key rest where adm: "admit sv allow c = (out1, Inr (h, key, rest))" using a by (cases hk) auto
    note A = admit_InrD [OF adm]
    obtain out2 r2 where b: "authorize sv opts password c h key rest = (out2, r2)" by fastforce
    show ?thesis
    proof (cases r2)
      case (Inl u)
      then show ?thesis using adm b assms by (simp add: handleConn_def)
    next
      case (Inr rest')
      then have aut: "authorize sv opts password c h key rest = (out2, Inr rest')" using b by simp
      note B = authorize_InrD [OF aut]
      obtain out3 r3 where o: "offer sv opts f c h key = (out3, r3)" by fastforce
      show ?thesis
      proof (cases r3)
        case (Inl oc')
        then show ?thesis using adm aut o assms offer_InlD [of sv opts f c h key out3 oc'] by (auto simp: handleConn_def)
      next
        case (Inr t)
        then obtain outPath partial at where off: "offer sv opts f c h key = (out3, Inr (outPath, partial, at))"
          using o by (cases t) auto
        note C = offer_InrD [OF off]
        obtain out4 where tr: "transfer sv opts env f c h outPath partial at rest' = (f', out4, oc)"
          using adm aut off assms by (auto simp: handleConn_def split: prod.split_asm)
        have k: "case key of
            None \<Rightarrow> h_identity_pub h = [] \<and> h_identity_sig h = []
          | Some k \<Rightarrow> k = h_identity_pub h \<and>
              (\<exists>e. cn_ekm c = Some e \<and> sv_verify sv k (identityMessage e) (h_identity_sig h))"
          using A by (cases key) (auto simp: check_identity_def check_identity_Some split: if_split_asm option.split_asm)
        have p: "if h_has_password h
          then password \<noteq> [] \<and> (\<exists>ekm rest r. cn_ekm c = Some ekm \<and>
            snd (pakeReceiver (sv_pake sv) (sv_hmac sv) (sv_un_error sv) (cn_wok c) ekm password rest) = Inr r)
          else password = [] \<or> trusted_sender opts key"
          using B by (auto split: if_split_asm) (metis snd_conv)
        have d: "\<exists>b. safe_base b \<and> outPath = Join (ro_dest_dir opts) b" using destPath_cases C by blast
        have "entitled sv opts password allow f c h key outPath"
          using A C k p d unfolding entitled_def maxTransferBytes_def by (elim conjE, intro conjI) assumption+
        then show ?thesis using tr C by blast
      qed
    qed
  qed
qed

text \<open>What a transfer changes on disk, when no other process does.\<close>

lemma open_partial_frame: "open_partial env f partial off = (f0, r) \<Longrightarrow> p \<noteq> partial \<Longrightarrow> f0 p = f p"
  by (auto simp: open_partial_def split: if_split_asm option.split_asm node.split_asm)

lemma os_remove_frame: "p \<noteq> q \<Longrightarrow> os_remove env f q p = f p"
  by (simp add: os_remove_def)

lemma receiveToFile_frame:
  assumes "receiveToFile sha env f inp out tot ow = (f', r, pr)" "0 \<le> tot" "meddle env = (\<lambda>f. f)"
    and "p \<noteq> temp_path env out" "f' p \<noteq> f p"
  shows "p = out \<and> (\<exists>v. r = Inr v) \<and> (f p = None \<or> ow)"
proof (cases r)
  case (Inl e)
  then have "f' p = f p"
    using receiveToFile_InlD [of sha env f inp out tot ow f' e pr] assms by (auto simp: os_remove_frame)
  then show ?thesis using assms(5) by simp
next
  case (Inr v)
  then obtain cs where "placeFile env (f(temp_path env out \<mapsto> File (concat cs))) (temp_path env out) out ow = (f', Inr ())"
    using receiveToFile_InrD [of sha env f inp out tot ow f' "fst v" "snd v" pr] assms by auto
  from placeFile_InrD [OF this] show ?thesis using assms(4,5) Inr by (auto split: if_split_asm)
qed

lemma receiveResumableToFile_frame:
  assumes "receiveResumableToFile sha env f inp partial out off tot want ow = (f', r, pr)"
    and "meddle env = (\<lambda>f. f)" "p \<noteq> partial" "f' p \<noteq> f p"
  shows "p = out \<and> (\<exists>v. r = Inr v) \<and> (f p = None \<or> ow)"
  using receiveResumableToFile_cases [OF assms(1)]
proof (elim disjE exE conjE)
  fix f0 e assume "open_partial env f partial off = (f0, Inl e)" "f' = f0"
  then show ?thesis using open_partial_frame assms(3,4) by metis
next
  fix held stop st rest
  assume fin: "resumable_finish sha env (meddle env (f(partial \<mapsto> File (rx_data st)))) partial out tot want ow stop st = (f', r)"
  show ?thesis
  proof (cases r)
    case (Inl e)
    then have "resumable_finish sha env (f(partial \<mapsto> File (rx_data st))) partial out tot want ow stop st = (f', Inl e)"
      using fin assms(2) by simp
    from resumable_finish_Inl [OF this] have "f' p = f p"
      using assms(3) by (simp add: os_remove_frame split: if_split_asm)
    then show ?thesis using assms(4) by simp
  next
    case (Inr v)
    then have "placeFile env (f(partial \<mapsto> File (rx_data st))) partial out ow = (f', Inr ())"
      using resumable_finish_Inr [of sha env _ partial out tot want ow stop st f' "fst v" "snd v"] fin assms(2) by simp
    from placeFile_InrD [OF this] show ?thesis using assms(3,4) Inr by (auto split: if_split_asm)
  qed
qed

lemma transfer_frame:
  assumes "transfer sv opts env f c h outPath partial at inp = (f', out, oc)"
    and "0 \<le> h_size h" "meddle env = (\<lambda>f. f)" "f' p \<noteq> f p"
  shows "(p = outPath \<and> (\<exists>r. oc = Completed r) \<and> (f p = None \<or> ro_overwrite opts)) \<or>
    (partial = None \<and> p = temp_path env outPath) \<or> partial = Some p"
proof (cases partial)
  case None
  obtain f2 r pr where run: "receiveToFile (sv_sha sv) env f inp outPath (h_size h) (ro_overwrite opts) = (f2, r, pr)"
    by (metis prod_cases3)
  then have "f2 = f'" "\<forall>v. r = Inr v \<longrightarrow> (\<exists>x. oc = Completed x)"
    using assms(1) None by (auto simp: transfer_def split: sum.split_asm prod.split_asm)
  then show ?thesis using receiveToFile_frame [OF run assms(2,3), of p] assms(4) None by auto
next
  case (Some q)
  obtain f2 r pr where run: "receiveResumableToFile (sv_sha sv) env f inp q outPath at (h_size h) (h_sha256 h) (ro_overwrite opts) = (f2, r, pr)"
    by (metis prod_cases3)
  then have "f2 = f'" "\<forall>v. r = Inr v \<longrightarrow> (\<exists>x. oc = Completed x)"
    using assms(1) Some by (auto simp: transfer_def split: sum.split_asm prod.split_asm)
  then show ?thesis using receiveResumableToFile_frame [OF run assms(3), of p] assms(4) Some by auto
qed

section \<open>Properties\<close>

text \<open>C2 No transfer without every gate: if a connection changed the disk or got as far as receiving, then its
  address was allowed, it spoke TLS and this protocol version, its size was within a tebibyte, a claimed
  identity was proven on this session, it passed the password handshake or needed none (an open receiver
  or a trusted proven identity), its name became a safe component of the destination directory, the user
  approved the request shown with that very name, and nothing stood there unless overwriting is on.\<close>

theorem transfer_needs_entitlement:
  assumes "handleConn sv opts password allow env f c = (f', out, oc)"
    and "f' \<noteq> f \<or> (\<exists>r. oc = Completed r) \<or> (\<exists>e. oc = HardError (TransferError e))"
  shows "\<exists>h key outPath. entitled sv opts password allow f c h key outPath"
  using handleConn_cases [OF assms(1)] assms(2) by auto

definition toy_hello :: hello where
  "toy_hello = \<lparr>h_version = 1, h_name = '' a '', h_size = 5, h_is_dir = False, h_has_password = False,
     h_identity_pub = [], h_identity_sig = [], h_sender_name = ''pc'', h_supports_resume = False, h_sha256 = []\<rparr>"

definition toy_services :: "(bytes \<times> bytes) services" where
  "toy_services = \<lparr>sv_sha = id, sv_hmac = toy_hmac, sv_verify = (\<lambda>_ _ _. False), sv_pake = toy_pake,
     sv_un_hello = (\<lambda>_. Some toy_hello), sv_un_error = id, sv_mar_accept = (\<lambda>_. Some ''a''),
     sv_mar_done = (\<lambda>_. Some ''d''), sv_mar_error = Some\<rparr>"

definition toy_opts :: ReceiveOptions where
  "toy_opts = \<lparr>ro_password = [], ro_no_password = True, ro_allow_ips = [], ro_is_trusted = None,
     ro_dest_dir = ''/d'', ro_overwrite = False, ro_on_request = Some (\<lambda>ri. ri_name ri = ''a'')\<rparr>"

definition toy_conn :: conn where
  "toy_conn = \<lparr>cn_remote = ''10.0.0.7:5000'', cn_tls = True, cn_handshake = True, cn_ekm = Some ''e'',
     cn_in = frame msgHello ''h'' @ hello_wire, cn_wok = (\<lambda>_. True)\<rparr>"

lemma toy_handled:
  "\<exists>out. handleConn toy_services toy_opts [] [] good_env Map.empty toy_conn =
    ([''/d/a'' \<mapsto> File ''hello''], out,
     Completed \<lparr>rr_name = ''a'', rr_path = ''/d/a'', rr_bytes = 5, rr_sha256 = hex_encode ''hello'',
       rr_peer_ip = ''10.0.0.7'', rr_sender_key = None\<rparr>)"
proof -
  have rc: "readControl (\<lambda>_. Some toy_hello) id msgHello (frame msgHello ''h'' @ hello_wire) = Inr (toy_hello, hello_wire)"
    by (rule readControl_frame) (simp_all add: cap_defs)
  have ip: "remoteIP ''10.0.0.7:5000'' = ''10.0.0.7''" by code_simp
  have b: "Base ''/d/a'' = ''a''" by code_simp
  obtain pr where run: "receiveToFile id good_env Map.empty hello_wire ''/d/a'' 5 False =
      ([''/d/a'' \<mapsto> File ''hello''], Inr (5, hex_encode ''hello''), pr)"
    using hello_received by blast
  have adm: "admit toy_services [] toy_conn = ([], Inr (toy_hello, None, hello_wire))"
    by (simp add: admit_def toy_services_def toy_conn_def rc) (simp add: toy_hello_def protocolVersion_def maxTransferBytes_def check_identity_def)
  have aut: "authorize toy_services toy_opts [] toy_conn toy_hello None hello_wire = ([], Inr hello_wire)"
    by (simp add: authorize_def toy_hello_def)
  obtain b3 where off: "offer toy_services toy_opts Map.empty toy_conn toy_hello None = (b3, Inr (''/d/a'', None, 0))"
    by (simp add: offer_def toy_opts_def toy_hello_def example_destPath request_info_def b toy_services_def writeJSON_def
        writeFrame_ok cap_defs toy_conn_def push_partial_def push_offset_def Let_def)
  have "transfer toy_services toy_opts good_env Map.empty toy_conn toy_hello ''/d/a'' None 0 hello_wire =
      ([''/d/a'' \<mapsto> File ''hello''], json_bytes (sv_mar_done toy_services) msgDone
         \<lparr>d_ok = True, d_bytes = 5, d_sha256 = hex_encode ''hello'', d_reason = []\<rparr>,
       Completed \<lparr>rr_name = ''a'', rr_path = ''/d/a'', rr_bytes = 5, rr_sha256 = hex_encode ''hello'',
         rr_peer_ip = ''10.0.0.7'', rr_sender_key = None\<rparr>)"
    using run by (simp add: transfer_def toy_services_def toy_opts_def toy_conn_def toy_hello_def ip b)
  then show ?thesis using adm aut off by (simp add: handleConn_def)
qed

lemma transfer_needs_entitlement_witness:
  "\<exists>h key outPath. entitled toy_services toy_opts [] [] Map.empty toy_conn h key outPath"
  using toy_handled transfer_needs_entitlement by blast

text \<open>C4 What a connection may touch: with nobody else writing, every path a connection changes lies directly
  in the destination directory, and unless it is one of the receiver's own staging names it was absent
  before or overwriting is on, and the connection ended as a completed transfer of that path.\<close>

theorem disk_confined:
  assumes "handleConn sv opts password allow env f c = (f', out, oc)" "meddle env = (\<lambda>f. f)"
    and "sep \<notin> set (temp_suffix env)" "f' p \<noteq> f p"
  shows "Dir p = Clean (ro_dest_dir opts) \<and>
    (has_prefix (Base p) ''.s2u-partial-'' \<or>
     ((f p = None \<or> ro_overwrite opts) \<and> (\<exists>r. oc = Completed r \<and> rr_path r = p)))"
proof -
  from handleConn_cases [OF assms(1)] assms(4) obtain h key outPath inp out4 where
    e: "entitled sv opts password allow f c h key outPath" and
    t: "transfer sv opts env f c h outPath (push_partial (sv_sha sv) h outPath)
        (push_offset f (push_partial (sv_sha sv) h outPath) (h_size h)) inp = (f', out4, oc)" by auto
  obtain b where b: "plain_name b" "outPath = Join (ro_dest_dir opts) b" and sz: "0 \<le> h_size h"
    using e by (auto simp: entitled_def safe_base_def)
  have dir: "Dir outPath = Clean (ro_dest_dir opts)" using b Dir_Join_any by simp
  have pp: "plain_name (partial_prefix @ s)" if "sep \<notin> set s" for s
    using that by (simp add: plain_name_def partial_prefix_def sep_def)
  have stage: "Dir (Join (Dir outPath) (partial_prefix @ s)) = Clean (ro_dest_dir opts) \<and>
      has_prefix (Base (Join (Dir outPath) (partial_prefix @ s))) partial_prefix" if "sep \<notin> set s" for s
    using Dir_Join_any [OF pp [OF that], of "Dir outPath"] Base_Join_any [OF pp [OF that], of "Dir outPath"] dir by simp
  consider (dest) "p = outPath" "\<exists>r. oc = Completed r" "f p = None \<or> ro_overwrite opts"
    | (temp) "p = temp_path env outPath" | (part) "push_partial (sv_sha sv) h outPath = Some p"
    using transfer_frame [OF t sz assms(2,4)] by blast
  then show ?thesis
  proof cases
    case dest
    then obtain r where r: "oc = Completed r" by blast
    then have "rr_path r = outPath" using t
      by (auto simp: transfer_def split: sum.split_asm prod.split_asm)
    then show ?thesis using dest dir r by blast
  next
    case temp
    then show ?thesis using stage [OF assms(3)] by (simp add: temp_path_def partial_prefix_def)
  next
    case part
    then obtain k where "p = Join (Dir outPath) (partial_prefix @ hex_encode k)"
      by (auto simp: push_partial_def partialName_def split: if_split_asm)
    then show ?thesis using stage [OF hex_encode_no_sep] by (simp add: partial_prefix_def)
  qed
qed

lemma disk_confined_witness:
  "Dir ''/d/a'' = Clean (ro_dest_dir toy_opts) \<and>
    (has_prefix (Base ''/d/a'') ''.s2u-partial-'' \<or>
     ((Map.empty ''/d/a'' = (None :: node option) \<or> ro_overwrite toy_opts) \<and>
      (\<exists>r. Completed \<lparr>rr_name = ''a'', rr_path = ''/d/a'', rr_bytes = 5, rr_sha256 = hex_encode ''hello'',
         rr_peer_ip = ''10.0.0.7'', rr_sender_key = None\<rparr> = Completed r \<and> rr_path r = ''/d/a'')))"
proof -
  obtain out where "handleConn toy_services toy_opts [] [] good_env Map.empty toy_conn =
    ([''/d/a'' \<mapsto> File ''hello''], out,
     Completed \<lparr>rr_name = ''a'', rr_path = ''/d/a'', rr_bytes = 5, rr_sha256 = hex_encode ''hello'',
       rr_peer_ip = ''10.0.0.7'', rr_sender_key = None\<rparr>)" using toy_handled by blast
  then show ?thesis by (rule disk_confined) (simp_all add: good_env_def sep_def)
qed

lemma staging_not_dest:
  assumes "\<not> has_prefix (Base outPath) ''.s2u-partial-''" "sep \<notin> set s"
  shows "Join (Dir outPath) (partial_prefix @ s) \<noteq> outPath"
proof -
  have "plain_name (partial_prefix @ s)" using assms(2) by (simp add: plain_name_def partial_prefix_def sep_def)
  then have "Base (Join (Dir outPath) (partial_prefix @ s)) = partial_prefix @ s" by (rule Base_Join_any)
  then show ?thesis using assms(1) has_prefix_append [of partial_prefix s] by (metis partial_prefix_def)
qed

lemma transfer_content:
  assumes t: "transfer sv opts env f c h outPath (push_partial (sv_sha sv) h outPath)
      (push_offset f (push_partial (sv_sha sv) h outPath) (h_size h)) inp = (f', out4, Completed r)"
    and m: "meddle env = (\<lambda>f. f)" and sz: "0 \<le> h_size h"
    and n: "\<not> has_prefix (Base outPath) ''.s2u-partial-''" "sep \<notin> set (temp_suffix env)"
  shows "\<exists>content. f' outPath = Some (File content) \<and> int (length content) = rr_bytes r \<and>
      rr_bytes r = h_size h \<and> rr_sha256 r = hex_encode (sv_sha sv content)"
proof (cases "push_partial (sv_sha sv) h outPath")
  case None
  obtain dg pr where run: "receiveToFile (sv_sha sv) env f inp outPath (h_size h) (ro_overwrite opts) =
      (f', Inr (rr_bytes r, dg), pr)" "rr_sha256 r = dg"
    using t None by (auto simp: transfer_def split: sum.split_asm prod.split_asm)
  obtain cs where "placeFile env (f(temp_path env outPath \<mapsto> File (concat cs))) (temp_path env outPath) outPath (ro_overwrite opts) = (f', Inr ())"
    "rr_bytes r = h_size h" "int (length (concat cs)) = h_size h" "dg = hex_encode (sv_sha sv (concat cs))"
    using receiveToFile_InrD [OF run(1) sz] m by auto
  with placeFile_InrD [OF this(1)] show ?thesis using staging_not_dest [OF n] run(2) by (auto simp: temp_path_def)
next
  case (Some p)
  obtain dg pr where run: "receiveResumableToFile (sv_sha sv) env f inp p outPath (resumeOffset f p (h_size h)) (h_size h)
      (h_sha256 h) (ro_overwrite opts) = (f', Inr (rr_bytes r, dg), pr)" "rr_sha256 r = dg"
    using t Some by (auto simp: transfer_def push_offset_def split: sum.split_asm prod.split_asm)
  have p: "p \<noteq> outPath" using Some staging_not_dest [OF n(1) hex_encode_no_sep]
    by (auto simp: push_partial_def partialName_def split: if_split_asm)
  from receiveResumableToFile_InrD [OF run(1) _ sz] resumeOffset_bounds [OF sz] obtain held d where
    "placeFile env (f(p \<mapsto> File (held @ d))) p outPath (ro_overwrite opts) = (f', Inr ())"
    "rr_bytes r = h_size h" "int (length (held @ d)) = h_size h" "dg = hex_encode (sv_sha sv (held @ d))"
    using m by auto
  with placeFile_InrD [OF this(1)] show ?thesis using p run(2) by auto
qed

text \<open>C3 What a completed receive reports is on disk: the path is the destination's, the byte count is the
  declared size and the length of the file there, and the digest is that file's (for a name that is not
  one of the receiver's own staging names).\<close>

theorem completed_is_on_disk:
  assumes "handleConn sv opts password allow env f c = (f', out, Completed r)" "meddle env = (\<lambda>f. f)"
    and "\<not> has_prefix (Base (rr_path r)) ''.s2u-partial-''" "sep \<notin> set (temp_suffix env)"
  shows "rr_name r = Base (rr_path r) \<and> Dir (rr_path r) = Clean (ro_dest_dir opts) \<and>
    (\<exists>content. f' (rr_path r) = Some (File content) \<and> int (length content) = rr_bytes r \<and>
      rr_bytes r \<le> 2 ^ 40 \<and> rr_sha256 r = hex_encode (sv_sha sv content))"
proof -
  from handleConn_cases [OF assms(1)] obtain h key outPath inp out4 where
    e: "entitled sv opts password allow f c h key outPath" and
    t: "transfer sv opts env f c h outPath (push_partial (sv_sha sv) h outPath)
        (push_offset f (push_partial (sv_sha sv) h outPath) (h_size h)) inp = (f', out4, Completed r)" by auto
  obtain b where b: "plain_name b" "outPath = Join (ro_dest_dir opts) b" and sz: "0 \<le> h_size h" "h_size h \<le> 2 ^ 40"
    using e by (auto simp: entitled_def safe_base_def)
  have r: "rr_name r = Base outPath" "rr_path r = outPath"
    using t by (auto simp: transfer_def split: sum.split_asm prod.split_asm)
  from transfer_content [OF t assms(2) sz(1) _ assms(4)] assms(3) r(2)
  have "\<exists>content. f' outPath = Some (File content) \<and> int (length content) = rr_bytes r \<and>
      rr_bytes r = h_size h \<and> rr_sha256 r = hex_encode (sv_sha sv content)" by simp
  then show ?thesis using r b(1,2) sz(2) Dir_Join_any by auto
qed

lemma completed_is_on_disk_witness:
  "\<exists>r :: ReceiveResult. rr_name r = Base (rr_path r) \<and> Dir (rr_path r) = Clean (ro_dest_dir toy_opts) \<and>
    (\<exists>content. [''/d/a'' \<mapsto> File ''hello''] (rr_path r) = Some (File content) \<and> int (length content) = rr_bytes r \<and>
      rr_bytes r \<le> 2 ^ 40 \<and> rr_sha256 r = hex_encode (sv_sha toy_services content))"
proof -
  have p: "\<not> has_prefix (Base ''/d/a'') ''.s2u-partial-''" by code_simp
  obtain out r where run: "handleConn toy_services toy_opts [] [] good_env Map.empty toy_conn =
      ([''/d/a'' \<mapsto> File ''hello''], out, Completed r)" "rr_path r = ''/d/a''"
    using toy_handled by fastforce
  have "\<not> has_prefix (Base (rr_path r)) ''.s2u-partial-''" using p run(2) by simp
  show ?thesis
    by (rule exI, rule completed_is_on_disk [OF run(1) _ \<open>\<not> has_prefix (Base (rr_path r)) ''.s2u-partial-''\<close>])
      (simp_all add: good_env_def sep_def)
qed

end
