(* ===== verification/Session.thy ===== *)
theory Session
  imports Receive
begin

text \<open>
  The sending side of a connection, \<open>Send\<close> of \<open>lanshare/send.go\<close>, and the two sides together: the bytes
  each end writes are what the other reads.
\<close>

record SendOptions =
  so_dest :: string
  so_password :: string
  so_identity :: bytes
  so_sender_name :: string
  so_resume :: bool

record 's client_services = "'s services" +
  sv_mar_hello :: "hello \<Rightarrow> bytes option"
  sv_un_accept :: "bytes \<Rightarrow> accept option"
  sv_un_done :: "bytes \<Rightarrow> done_msg option"
  sv_sign :: "bytes \<Rightarrow> bytes \<Rightarrow> bytes"
  sv_public :: "bytes \<Rightarrow> bytes"

datatype send_err =
    BadDestination | ConnectFailed | HashSource copy_err | NoBinding | SendFrame frame_err
  | SendAuth auth_err | Declined string | ResumePastEnd | RehashFailed copy_err
  | StreamFailed tx_err | PeerFailed string | IntegrityFailed

text \<open>The opening frame, up to the identity proof.\<close>

definition hello_of ::
  "('s, 'm) client_services_scheme \<Rightarrow> SendOptions \<Rightarrow> bytes option \<Rightarrow> string \<Rightarrow> int \<Rightarrow> bool \<Rightarrow> string option \<Rightarrow>
   send_err + hello" where
  "hello_of sv opts ekm name sz isDir dg =
     (let h = \<lparr>h_version = protocolVersion, h_name = name, h_size = sz, h_is_dir = isDir,
            h_has_password = so_password opts \<noteq> [], h_identity_pub = [], h_identity_sig = [],
            h_sender_name = so_sender_name opts, h_supports_resume = dg \<noteq> None,
            h_sha256 = (case dg of None \<Rightarrow> [] | Some d \<Rightarrow> d)\<rparr> in
      if so_identity opts \<noteq> [] then
        (case ekm of
           None \<Rightarrow> Inl NoBinding
         | Some e \<Rightarrow> Inr (h\<lparr>h_identity_pub := sv_public sv (so_identity opts),
                          h_identity_sig := sv_sign sv (so_identity opts) (identityMessage e)\<rparr>))
      else Inr h)"

text \<open>The password handshake, when there is one.\<close>

definition send_auth ::
  "('s, 'm) client_services_scheme \<Rightarrow> SendOptions \<Rightarrow> conn \<Rightarrow> bytes \<Rightarrow> bytes \<times> (send_err + bytes)" where
  "send_auth sv opts c inp =
     (if so_password opts = [] then ([], Inr inp)
      else (case cn_ekm c of
          None \<Rightarrow> ([], Inl NoBinding)
        | Some e \<Rightarrow>
            (case pakeSender (sv_pake sv) (sv_hmac sv) (sv_un_error sv) (cn_wok c) e (so_password opts) inp of
               (out, Inl er) \<Rightarrow> (out, Inl (SendAuth er))
             | (out, Inr rest) \<Rightarrow> (out, Inr rest))))"

text \<open>Where streaming starts: the bytes the receiver holds (already fed to the digest) and the rest.\<close>

definition resume_point ::
  "(nat \<Rightarrow> bool) \<Rightarrow> reader \<Rightarrow> bytes \<Rightarrow> int \<Rightarrow> bool \<Rightarrow> int \<Rightarrow> send_err + bytes \<times> bytes" where
  "resume_point cancel rd content sz resumable off =
     (if resumable \<and> off > 0 then
        (if off > sz then Inl ResumePastEnd
         else (case ctxCopyN cancel rd 0 (Some (nat off)) content of
             (_, Some e, _) \<Rightarrow> Inl (RehashFailed e)
           | (held, None, rest) \<Rightarrow> Inr (held, rest)))
      else Inr ([], content))"

text \<open>After the transfer: the receiver's report.\<close>

definition send_finish ::
  "('s, 'm) client_services_scheme \<Rightarrow> bytes \<Rightarrow> bytes \<Rightarrow> send_err + string" where
  "send_finish sv hashed inp =
     (case readControl (sv_un_done sv) (sv_un_error sv) msgDone inp of
        Inl e \<Rightarrow> Inl (SendFrame e)
      | Inr (res, _) \<Rightarrow>
          if \<not> d_ok res then Inl (PeerFailed (if d_reason res = [] then ''receiver reported failure'' else d_reason res))
          else let localSum = hex_encode (sv_sha sv hashed) in
            if d_sha256 res \<noteq> [] \<and> d_sha256 res \<noteq> localSum then Inl IntegrityFailed else Inr localSum)"

text \<open>\<open>Send\<close>: the bytes written and the result. Write 3 of the connection is the opening frame.\<close>

definition Send ::
  "('s, 'm) client_services_scheme \<Rightarrow> SendOptions \<Rightarrow> tx_env \<Rightarrow> reader \<Rightarrow> string \<Rightarrow> int \<Rightarrow> bool \<Rightarrow> bool \<Rightarrow> bytes \<Rightarrow> conn \<Rightarrow>
   bytes \<times> (send_err + string)" where
  "Send sv opts tenv rd name sz isDir seekable content c =
     (if normalizeDest (so_dest opts) = None then ([], Inl BadDestination)
      else if \<not> cn_handshake c then ([], Inl ConnectFailed)
      else
        let resumable = so_resume opts \<and> seekable \<and> \<not> isDir;
            dg = (if resumable then map_sum id Some (hashSeekable (sv_sha sv) (tx_cancelled tenv) rd content)
                  else Inr None) in
        (case dg of
           Inl e \<Rightarrow> ([], Inl (HashSource e))
         | Inr d \<Rightarrow> (case hello_of sv opts (cn_ekm c) name sz isDir d of
           Inl e \<Rightarrow> ([], Inl e)
         | Inr h \<Rightarrow> (case writeJSON (sv_mar_hello sv) msgHello h of
           Inl e \<Rightarrow> ([], Inl (SendFrame e))
         | Inr out1 \<Rightarrow> if \<not> cn_wok c 3 then ([], Inl (SendFrame ConnWrite)) else (case send_auth sv opts c (cn_in c) of
           (out2, Inl e) \<Rightarrow> (out1 @ out2, Inl e)
         | (out2, Inr inp) \<Rightarrow> (case readControl (sv_un_accept sv) (sv_un_error sv) msgAccept inp of
           Inl e \<Rightarrow> (out1 @ out2, Inl (SendFrame e))
         | Inr (acc, inp') \<Rightarrow>
             if \<not> a_ok acc
             then (out1 @ out2, Inl (Declined (if a_reason acc = [] then ''receiver declined'' else a_reason acc)))
             else (case resume_point (tx_cancelled tenv) rd content sz resumable (a_resume_offset acc) of
               Inl e \<Rightarrow> (out1 @ out2, Inl e)
             | Inr (held, rest) \<Rightarrow> (case streamBodyFrom tenv rd 0 rest (tx_start held) of
               (Some e, st) \<Rightarrow> (out1 @ out2 @ tx_wire st, Inl (StreamFailed e))
             | (None, st) \<Rightarrow> (out1 @ out2 @ tx_wire st, send_finish sv (tx_hashed st) inp')))))))))"

section \<open>Both ends\<close>

text \<open>The codecs give back what they wrote, within the control frame cap.\<close>

definition codecs_ok :: "('s, 'm) client_services_scheme \<Rightarrow> hello \<Rightarrow> accept \<Rightarrow> done_msg \<Rightarrow> bool" where
  "codecs_ok sv h a d \<longleftrightarrow>
     (\<exists>b. sv_mar_hello sv h = Some b \<and> sv_un_hello sv b = Some h \<and> length b \<le> maxControlFrame) \<and>
     (\<exists>b. sv_mar_accept sv a = Some b \<and> sv_un_accept sv b = Some a \<and> length b \<le> maxControlFrame) \<and>
     (\<exists>b. sv_mar_done sv d = Some b \<and> sv_un_done sv b = Some d \<and> length b \<le> maxControlFrame)"

lemma writeJSON_Some:
  "mar v = Some b \<Longrightarrow> length b \<le> maxControlFrame \<Longrightarrow> writeJSON mar typ v = Inr (frame typ b)"
  by (simp add: writeJSON_def writeFrame_ok cap_defs)

definition same_password :: "('s, 'm) services_scheme \<Rightarrow> bytes option \<Rightarrow> string \<Rightarrow> bool" where
  "same_password sv ekm pw \<longleftrightarrow> pw = [] \<or>
     ((\<exists>s r k. pake_run (sv_pake sv) pw pw s r k k) \<and> ekm \<noteq> None \<and> (\<forall>k m. length (sv_hmac sv k m) = 32))"

text \<open>The handshake of two ends with one password, as bytes.\<close>

lemma auth_lockstep:
  assumes "same_password sv (cn_ekm cs) pw" "cn_ekm cr = cn_ekm cs" "so_password so = pw"
    and "\<forall>i. cn_wok cs i" "\<forall>i. cn_wok cr i" "h_has_password h = (pw \<noteq> [])"
  shows "\<exists>toR fromR. (\<forall>rest. authorize (sv :: ('s, 'm) client_services_scheme) ro pw cr h key (toR @ rest) = (fromR, Inr rest)) \<and>
    (\<forall>rest. send_auth sv so cs (fromR @ rest) = (toR, Inr rest))"
proof (cases "pw = []")
  case True
  then show ?thesis using assms by (intro exI [of _ "[]"]) (simp add: authorize_def send_auth_def)
next
  case False
  then obtain s r k e where run: "pake_run (sv_pake sv) pw pw s r k k" and e: "cn_ekm cs = Some e"
    and mac: "\<forall>k m. length (sv_hmac sv k m) = 32"
    using assms(1) by (auto simp: same_password_def)
  let ?toR = "frame msgPake (pk_bytes (sv_pake sv) s) @ frame msgConfirm (confirmMAC (sv_hmac sv) k e ''S'')"
  let ?fromR = "frame msgPake (pk_bytes (sv_pake sv) r) @ frame msgConfirm (confirmMAC (sv_hmac sv) k e ''R'')"
  have "pakeReceiver (sv_pake sv) (sv_hmac sv) (sv_un_error sv) (cn_wok cr) e pw (?toR @ rest) = (?fromR, Inr rest)" for rest
    using pake_receiver_run [OF run mac assms(5), of "sv_un_error sv" e e rest] by simp
  moreover have "pakeSender (sv_pake sv) (sv_hmac sv) (sv_un_error sv) (cn_wok cs) e pw (?fromR @ rest) = (?toR, Inr rest)" for rest
    using pake_sender_run [OF run mac assms(4) mac_cap [OF mac], of "sv_un_error sv" e k e "''R''" rest] by simp
  ultimately have "(\<forall>rest. authorize sv ro pw cr h key (?toR @ rest) = (?fromR, Inr rest)) \<and>
      (\<forall>rest. send_auth sv so cs (?fromR @ rest) = (?toR, Inr rest))"
    using False assms(2,3,6) e by (simp add: authorize_def send_auth_def)
  then show ?thesis by blast
qed

lemma cn_in_irrelevant [simp]:
  "authorize sv opts pw (c\<lparr>cn_in := x\<rparr>) h key = authorize sv opts pw c h key"
  "send_auth sv' so (c\<lparr>cn_in := x\<rparr>) = send_auth sv' so c"
  "offer sv opts f (c\<lparr>cn_in := x\<rparr>) h key = offer sv opts f c h key"
  "transfer sv opts env f (c\<lparr>cn_in := x\<rparr>) = transfer sv opts env f c"
  by (simp_all add: fun_eq_iff authorize_def send_auth_def offer_def transfer_def request_info_def Let_def split: option.split sum.split prod.split)

text \<open>The messages of a push without resume and without an identity.\<close>

definition push_hello :: "SendOptions \<Rightarrow> string \<Rightarrow> int \<Rightarrow> bool \<Rightarrow> hello" where
  "push_hello so name sz isDir =
     \<lparr>h_version = protocolVersion, h_name = name, h_size = sz, h_is_dir = isDir,
      h_has_password = so_password so \<noteq> [], h_identity_pub = [], h_identity_sig = [],
      h_sender_name = so_sender_name so, h_supports_resume = False, h_sha256 = []\<rparr>"

definition push_accept :: accept where "push_accept = zero_accept\<lparr>a_ok := True, a_resume_offset := 0\<rparr>"

definition push_done :: "int \<Rightarrow> string \<Rightarrow> done_msg" where
  "push_done n dg = \<lparr>d_ok = True, d_bytes = n, d_sha256 = dg, d_reason = []\<rparr>"

definition push_result :: "conn \<Rightarrow> string \<Rightarrow> int \<Rightarrow> string \<Rightarrow> ReceiveResult" where
  "push_result c out n dg = \<lparr>rr_name = Base out, rr_path = out, rr_bytes = n, rr_sha256 = dg,
     rr_peer_ip = remoteIP (cn_remote c), rr_sender_key = None\<rparr>"

text \<open>A receiver ready for the push and a sender able to make it.\<close>

definition ready ::
  "('s, 'm) client_services_scheme \<Rightarrow> SendOptions \<Rightarrow> ReceiveOptions \<Rightarrow> io_env \<Rightarrow> fs \<Rightarrow> conn \<Rightarrow> conn \<Rightarrow> string \<Rightarrow> string \<Rightarrow> bool" where
  "ready sv so ro env f cs cr name out \<longleftrightarrow>
     normalizeDest (so_dest so) \<noteq> None \<and> so_identity so = [] \<and> \<not> so_resume so \<and>
     cn_handshake cs \<and> cn_handshake cr \<and> cn_tls cr \<and> cn_ekm cr = cn_ekm cs \<and>
     (\<forall>i. cn_wok cs i) \<and> (\<forall>i. cn_wok cr i) \<and> same_password sv (cn_ekm cs) (so_password so) \<and>
     destPath (ro_dest_dir ro) name = Inr out \<and> ro_on_request ro = None \<and>
     calm env \<and> f (temp_path env out) = None \<and> temp_path env out \<noteq> out \<and> f out = None"

lemma receiver_side:
  assumes "ready sv so ro env f cs cr name out" "int (length content) \<le> 2 ^ 40"
    and "codecs_ok sv (push_hello so name (int (length content)) isDir) push_accept
      (push_done (int (length content)) (hex_encode (sv_sha sv content)))"
    and "sv_mar_hello sv (push_hello so name (int (length content)) isDir) = Some bh"
    and "\<forall>rest. authorize sv ro (so_password so) cr (push_hello so name (int (length content)) isDir) None (aR @ rest) = (aF, Inr rest)"
    and "chunks_ok cs'" "concat cs' = content"
  shows "\<exists>ba bd. sv_mar_accept sv push_accept = Some ba \<and>
    sv_mar_done sv (push_done (int (length content)) (hex_encode (sv_sha sv content))) = Some bd \<and>
    handleConn sv ro (so_password so) [] env f (cr\<lparr>cn_in := frame msgHello bh @ aR @ wire_of cs'\<rparr>) =
      (f(out \<mapsto> File content), aF @ frame msgAccept ba @ frame msgDone bd,
       Completed (push_result cr out (int (length content)) (hex_encode (sv_sha sv content))))"
proof -
  let ?n = "int (length content)" and ?dg = "hex_encode (sv_sha sv content)"
  let ?h = "push_hello so name ?n isDir"
  let ?c = "cr\<lparr>cn_in := frame msgHello bh @ aR @ wire_of cs'\<rparr>"
  obtain ba bd where cod: "sv_un_hello sv bh = Some ?h" "length bh \<le> maxControlFrame"
    "sv_mar_accept sv push_accept = Some ba" "length ba \<le> maxControlFrame"
    "sv_mar_done sv (push_done ?n ?dg) = Some bd" "length bd \<le> maxControlFrame"
    using assms(3,4) by (auto simp: codecs_ok_def)
  note r = assms(1) [unfolded ready_def]
  have "readControl (sv_un_hello sv) (sv_un_error sv) msgHello (frame msgHello bh @ aR @ wire_of cs') = Inr (?h, aR @ wire_of cs')"
    using cod(1,2) by (intro readControl_frame) simp_all
  then have adm: "admit sv [] ?c = ([], Inr (?h, None, aR @ wire_of cs'))"
    using r assms(2) by (simp add: admit_def push_hello_def check_identity_def maxTransferBytes_def)
  have aut: "authorize sv ro (so_password so) ?c ?h None (aR @ wire_of cs') = (aF, Inr (wire_of cs'))"
    using assms(5) by simp
  have np: "push_partial (sv_sha sv) ?h out = None" by (simp add: push_partial_def push_hello_def)
  have nm: "h_name ?h = name" "h_size ?h = ?n" by (simp_all add: push_hello_def)
  have "writeJSON (sv_mar_accept sv) msgAccept (zero_accept\<lparr>a_ok := True, a_resume_offset := 0\<rparr>) = Inr (frame msgAccept ba)"
    using writeJSON_Some [of "sv_mar_accept sv" push_accept ba, OF cod(3,4)] by (simp add: push_accept_def)
  then have off: "offer sv ro f ?c ?h None = (frame msgAccept ba, Inr (out, None, 0))"
    using r nm by (simp add: offer_def np push_offset_def Let_def)
  have q: "quiet env" using r by (simp add: calm_def)
  have "rx_ok ?n (rx_start [])" "rx_received (rx_start []) + int (length (concat cs')) = ?n" using assms(7) by simp_all
  then obtain st where rx: "stream_loop env ?n 0 (rx_start []) (wire_of cs' @ []) = (StopComplete, st, [])"
    "rx_ok ?n st" "rx_received st = ?n" "rx_data st = content"
    using stream_loop_wire [OF q assms(6), of ?n "rx_start []" 0 "[]"] assms(7) by auto
  let ?tmp = "temp_path env out"
  have "placeFile env (f(?tmp \<mapsto> File content)) ?tmp out ow = (f(?tmp := None, out \<mapsto> File content), Inr ())" for ow
    using placeFile_ok [of env "f(?tmp \<mapsto> File content)" ?tmp "File content" out ow] r
    by (auto simp: calm_def)
  moreover have "f(?tmp := None) = f" using r by auto
  ultimately have run: "receiveToFile (sv_sha sv) env f (wire_of cs') out ?n (ro_overwrite ro) =
      (f(out \<mapsto> File content), Inr (?n, ?dg), rx_progress st)"
    using rx r by (simp add: receiveToFile_def temp_finish_complete calm_def rx_ok_def)
  have "json_bytes (sv_mar_done sv) msgDone (push_done ?n ?dg) = frame msgDone bd"
    using writeJSON_Some [of "sv_mar_done sv" "push_done ?n ?dg" bd, OF cod(5,6)] by (simp add: json_bytes_def)
  then have "transfer sv ro env f ?c ?h out None 0 (wire_of cs') =
      (f(out \<mapsto> File content), frame msgDone bd, Completed (push_result cr out ?n ?dg))"
    using run nm by (simp add: transfer_def push_result_def push_done_def)
  then show ?thesis using adm aut off cod by (simp add: handleConn_def)
qed

lemma sender_side:
  assumes "ready sv so ro env f cs cr name out" "tx_calm tenv rd"
    and "codecs_ok sv (push_hello so name (int (length content)) isDir) push_accept
      (push_done (int (length content)) (hex_encode (sv_sha sv content)))"
    and "sv_mar_hello sv (push_hello so name (int (length content)) isDir) = Some bh"
    and "sv_mar_accept sv push_accept = Some ba"
    and "sv_mar_done sv (push_done (int (length content)) (hex_encode (sv_sha sv content))) = Some bd"
    and "\<forall>rest. send_auth sv so cs (aF @ rest) = (aR, Inr rest)"
    and "streamBodyFrom tenv rd 0 content (tx_start []) = (None, st)" "tx_hashed st = content"
  shows "Send sv so tenv rd name (int (length content)) isDir seekable content
      (cs\<lparr>cn_in := aF @ frame msgAccept ba @ frame msgDone bd\<rparr>) =
    (frame msgHello bh @ aR @ tx_wire st, Inr (hex_encode (sv_sha sv content)))"
proof -
  let ?n = "int (length content)" and ?dg = "hex_encode (sv_sha sv content)"
  have cod: "length bh \<le> maxControlFrame" "sv_un_accept sv ba = Some push_accept" "length ba \<le> maxControlFrame"
    "sv_un_done sv bd = Some (push_done ?n ?dg)" "length bd \<le> maxControlFrame"
    using assms(3-6) by (auto simp: codecs_ok_def)
  note r = assms(1) [unfolded ready_def]
  have h: "hello_of sv so (cn_ekm cs) name ?n isDir None = Inr (push_hello so name ?n isDir)"
    using r by (simp add: hello_of_def push_hello_def)
  have acc: "readControl (sv_un_accept sv) (sv_un_error sv) msgAccept (frame msgAccept ba @ frame msgDone bd) =
      Inr (push_accept, frame msgDone bd)"
    using cod(2,3) by (intro readControl_frame) simp_all
  have dn: "readControl (sv_un_done sv) (sv_un_error sv) msgDone (frame msgDone bd @ []) = Inr (push_done ?n ?dg, [])"
    using cod(4,5) by (intro readControl_frame) simp_all
  have fin: "send_finish sv content (frame msgDone bd) = Inr ?dg"
    using dn by (simp add: send_finish_def push_done_def)
  have "\<not> so_resume so" "so_identity so = []" using r by simp_all
  then show ?thesis
    using r h writeJSON_Some [of "sv_mar_hello sv" _ bh, OF assms(4) cod(1)] assms(7,8,9) acc fin
    by (simp add: Send_def resume_point_def push_accept_def Let_def)
qed

text \<open>An honest push completes at both ends: a sender and a receiver with the same password, or an open
  receiver and a sender without one, over one TLS session, run in lockstep (each reads exactly what the other writes); the
  receiver ends with the sent file at its destination and nothing else changed, and the sender with its digest.\<close>

theorem honest_push:
  assumes "ready sv so ro env f cs cr name out" "tx_calm tenv rd" "int (length content) \<le> 2 ^ 40"
    and "codecs_ok sv (push_hello so name (int (length content)) isDir) push_accept
      (push_done (int (length content)) (hex_encode (sv_sha sv content)))"
  shows "\<exists>toR fromR.
    Send sv so tenv rd name (int (length content)) isDir seekable content (cs\<lparr>cn_in := fromR\<rparr>) =
      (toR, Inr (hex_encode (sv_sha sv content))) \<and>
    handleConn sv ro (so_password so) [] env f (cr\<lparr>cn_in := toR\<rparr>) =
      (f(out \<mapsto> File content), fromR,
       Completed (push_result cr out (int (length content)) (hex_encode (sv_sha sv content))))"
proof -
  let ?h = "push_hello so name (int (length content)) isDir"
  note r = assms(1) [unfolded ready_def]
  obtain bh where bh: "sv_mar_hello sv ?h = Some bh" using assms(4) by (auto simp: codecs_ok_def)
  obtain chunks st where tx: "streamBodyFrom tenv rd 0 content (tx_start []) = (None, st)" "chunks_ok chunks"
    "concat chunks = content" "tx_wire st = wire_of chunks" "tx_hashed st = content"
    using streamBodyFrom_wire [of tenv rd 0 content "tx_start []"] assms(2)
    by (auto simp: tx_calm_def tx_start_def)
  have "h_has_password ?h = (so_password so \<noteq> [])" by (simp add: push_hello_def)
  then obtain aR aF where
    a: "\<forall>rest. authorize sv ro (so_password so) cr ?h None (aR @ rest) = (aF, Inr rest)"
      "\<forall>rest. send_auth sv so cs (aF @ rest) = (aR, Inr rest)"
    using auth_lockstep [of sv cs "so_password so" cr so ?h ro None] r by blast
  from receiver_side [OF assms(1,3,4) bh a(1) tx(2,3)] obtain ba bd where
    b: "sv_mar_accept sv push_accept = Some ba"
      "sv_mar_done sv (push_done (int (length content)) (hex_encode (sv_sha sv content))) = Some bd"
      "handleConn sv ro (so_password so) [] env f (cr\<lparr>cn_in := frame msgHello bh @ aR @ wire_of chunks\<rparr>) =
        (f(out \<mapsto> File content), aF @ frame msgAccept ba @ frame msgDone bd,
         Completed (push_result cr out (int (length content)) (hex_encode (sv_sha sv content))))" by blast
  have "Send sv so tenv rd name (int (length content)) isDir seekable content
      (cs\<lparr>cn_in := aF @ frame msgAccept ba @ frame msgDone bd\<rparr>) =
    (frame msgHello bh @ aR @ wire_of chunks, Inr (hex_encode (sv_sha sv content)))"
    using sender_side [OF assms(1,2,4) bh b(1,2) a(2) tx(1,5)] tx(4) by simp
  then show ?thesis using b(3) by blast
qed

text \<open>An instance: JSON that tells the two hellos, the accept and the report apart by their first byte.\<close>

definition demo_services :: "(bytes \<times> bytes) client_services" where
  "demo_services = \<lparr>sv_sha = id, sv_hmac = toy_hmac, sv_verify = (\<lambda>_ _ _. False), sv_pake = toy_pake,
     sv_un_hello = (\<lambda>_. Some (push_hello \<lparr>so_dest = ''h'', so_password = ''pw'', so_identity = [], so_sender_name = ''pc'',
       so_resume = False\<rparr> '' a '' 5 False)),
     sv_un_error = id, sv_mar_accept = (\<lambda>_. Some ''a''), sv_mar_done = (\<lambda>_. Some ''d''), sv_mar_error = Some,
     sv_mar_hello = (\<lambda>_. Some ''h''), sv_un_accept = (\<lambda>_. Some push_accept),
     sv_un_done = (\<lambda>_. Some (push_done 5 (hex_encode ''hello''))), sv_sign = (\<lambda>_ m. m), sv_public = id\<rparr>"

definition demo_send :: SendOptions where
  "demo_send = \<lparr>so_dest = ''h'', so_password = ''pw'', so_identity = [], so_sender_name = ''pc'', so_resume = False\<rparr>"

definition demo_recv :: ReceiveOptions where
  "demo_recv = toy_opts\<lparr>ro_password := ''pw'', ro_on_request := None\<rparr>"

lemma demo_ready: "ready demo_services demo_send demo_recv good_env Map.empty toy_conn toy_conn '' a '' ''/d/a''"
proof -
  have nd: "normalizeDest ''h'' \<noteq> None" by (simp add: normalizeDest_def split: option.split)
  have pr: "pake_run toy_pake ''pw'' ''pw'' (''pw'', []) (''pw'', ''m'') ''pw'' ''pw''"
    by (simp add: pake_run_def toy_pake_def cap_defs)
  then have "same_password demo_services (Some ''e'') ''pw''"
    using toy_hmac_length by (simp add: same_password_def demo_services_def) blast
  then show ?thesis
    using nd hello_temp example_destPath
    by (simp add: ready_def demo_send_def demo_recv_def toy_opts_def toy_conn_def)
qed

lemma honest_push_witness:
  "\<exists>toR fromR.
    Send demo_services demo_send good_tx plain_reader '' a '' (int (length ''hello'')) False False ''hello'' (toy_conn\<lparr>cn_in := fromR\<rparr>) =
      (toR, Inr (hex_encode (sv_sha demo_services ''hello''))) \<and>
    handleConn demo_services demo_recv (so_password demo_send) [] good_env Map.empty (toy_conn\<lparr>cn_in := toR\<rparr>) =
      (Map.empty(''/d/a'' \<mapsto> File ''hello''), fromR,
       Completed (push_result toy_conn ''/d/a'' (int (length ''hello'')) (hex_encode (sv_sha demo_services ''hello''))))"
  by (rule honest_push [OF demo_ready tx_calm_good])
    (simp_all add: codecs_ok_def demo_services_def demo_send_def cap_defs)

end
