(* ===== verification/Throttle.thy ===== *)
theory Throttle
  imports Prelude "HOL-Library.AList" "HOL-Library.Multiset"
begin

text \<open>
  The abuse guards of a listening receiver (\<open>inflightCap\<close>, \<open>ipThrottle\<close> of \<open>lanshare/receive.go\<close>) and the
  accept loop around them, which \<open>Receive\<close> and \<open>Broadcast\<close> share. The two guards are functions on their
  state; the loop, with its handler goroutines, is a step relation. Go's zero value for a missing map
  key is written out in \<open>held\<close> and \<open>seen_of\<close>. Times are integers in one unit, read from one clock.
\<close>

section \<open>In-flight connections per address\<close>

type_synonym ip_text = string

record inflightCap =
  ic_n :: "ip_text \<rightharpoonup> int"
  ic_max :: int

definition newInflightCap :: "int \<Rightarrow> inflightCap" where
  "newInflightCap m = \<lparr>ic_n = Map.empty, ic_max = m\<rparr>"

definition held :: "inflightCap \<Rightarrow> ip_text \<Rightarrow> int" where
  "held c ip = (case ic_n c ip of None \<Rightarrow> 0 | Some k \<Rightarrow> k)"

definition acquire :: "inflightCap \<Rightarrow> ip_text \<Rightarrow> bool \<times> inflightCap" where
  "acquire c ip =
     (if ip = [] then (True, c)
      else if held c ip \<ge> ic_max c then (False, c)
      else (True, c\<lparr>ic_n := (ic_n c)(ip \<mapsto> held c ip + 1)\<rparr>))"

definition release :: "inflightCap \<Rightarrow> ip_text \<Rightarrow> inflightCap" where
  "release c ip =
     (if ip = [] then c
      else if held c ip > 0 then
        (if held c ip - 1 = 0 then c\<lparr>ic_n := (ic_n c)(ip := None)\<rparr>
         else c\<lparr>ic_n := (ic_n c)(ip \<mapsto> held c ip - 1)\<rparr>)
      else c)"

section \<open>Attempts per address over a sliding window\<close>

record ipThrottle =
  it_seen :: "(ip_text \<times> int list) list"
  it_max :: nat
  it_window :: int

definition newIPThrottle :: "nat \<Rightarrow> int \<Rightarrow> ipThrottle" where
  "newIPThrottle m w = \<lparr>it_seen = [], it_max = m, it_window = w\<rparr>"

definition seen_of :: "ipThrottle \<Rightarrow> ip_text \<Rightarrow> int list" where
  "seen_of t ip = (case map_of (it_seen t) ip of None \<Rightarrow> [] | Some ts \<Rightarrow> ts)"

definition prune :: "int \<Rightarrow> ipThrottle \<Rightarrow> ipThrottle" where
  "prune now t =
     (if length (it_seen t) > 1024
      then t\<lparr>it_seen := filter (\<lambda>(k, ts). \<not> (ts = [] \<or> now - last ts > it_window t)) (it_seen t)\<rparr>
      else t)"

definition allow :: "int \<Rightarrow> ipThrottle \<Rightarrow> ip_text \<Rightarrow> bool \<times> ipThrottle" where
  "allow now t ip =
     (if ip = [] then (True, t)
      else
        let t = prune now t; kept = filter (\<lambda>ts. now - ts < it_window t) (seen_of t ip) in
        if length kept \<ge> it_max t then (False, t\<lparr>it_seen := AList.update ip kept (it_seen t)\<rparr>)
        else (True, t\<lparr>it_seen := AList.update ip (kept @ [now]) (it_seen t)\<rparr>))"

section \<open>What the throttle admits\<close>

text \<open>A sequence of attempts; the admitted ones of an address, oldest first.\<close>

fun attempts :: "ipThrottle \<Rightarrow> (int \<times> ip_text) list \<Rightarrow> ipThrottle \<times> (int \<times> ip_text) list" where
  "attempts t [] = (t, [])"
| "attempts t ((now, ip) # rest) =
     (let (ok, t1) = allow now t ip; (t2, admitted) = attempts t1 rest in
      (t2, if ok then (now, ip) # admitted else admitted))"

definition times_of :: "ip_text \<Rightarrow> (int \<times> ip_text) list \<Rightarrow> int list" where
  "times_of ip evs = map fst (filter (\<lambda>e. snd e = ip) evs)"

definition recent :: "int \<Rightarrow> int \<Rightarrow> int list \<Rightarrow> int list" where
  "recent w now ts = filter (\<lambda>t. now - t < w) ts"

lemma recent_mono: "now \<le> now' \<Longrightarrow> recent w now' (recent w now ts) = recent w now' ts"
  by (induction ts) (auto simp: recent_def)

lemma recent_append [simp]: "recent w now (a @ b) = recent w now a @ recent w now b"
  by (simp add: recent_def)

lemma recent_old:
  "sorted ts \<Longrightarrow> ts = [] \<or> now - last ts > w \<Longrightarrow> now \<le> now' \<Longrightarrow> recent w now' ts = []"
proof -
  assume s: "sorted ts" and o: "ts = [] \<or> now - last ts > w" and n: "now \<le> now'"
  have "t \<le> last ts" if "t \<in> set ts" for t
    using s that by (induction ts) auto
  then show ?thesis using o n by (fastforce simp: recent_def filter_empty_conv)
qed

text \<open>The throttle's state knows every admitted attempt that can still count.\<close>

definition knows :: "ipThrottle \<Rightarrow> int \<Rightarrow> (ip_text \<Rightarrow> int list) \<Rightarrow> bool" where
  "knows t now adm \<longleftrightarrow>
     (\<forall>ip now'. ip \<noteq> [] \<longrightarrow> now \<le> now' \<longrightarrow> recent (it_window t) now' (seen_of t ip) = recent (it_window t) now' (adm ip)) \<and>
     (\<forall>(ip, ts)\<in>set (it_seen t). sorted ts) \<and> distinct (map fst (it_seen t)) \<and>
     (\<forall>(ip, ts)\<in>set (it_seen t). \<forall>x\<in>set ts. x \<le> now)"

lemma prune_sel [simp]: "it_window (prune now t) = it_window t" "it_max (prune now t) = it_max t"
  by (simp_all add: prune_def)

lemma map_of_filter_distinct:
  "distinct (map fst xs) \<Longrightarrow>
   map_of (filter P xs) k = Option.bind (map_of xs k) (\<lambda>v. if P (k, v) then Some v else None)"
proof (induction xs)
  case (Cons x xs)
  have "fst x \<notin> set (map fst (filter P xs))" using Cons.prems by auto
  then have "map_of (filter P xs) (fst x) = None" by (simp add: map_of_eq_None_iff)
  moreover have "map_of xs (fst x) = None" using Cons.prems by (simp add: map_of_eq_None_iff)
  ultimately show ?case using Cons by (cases x) auto
qed simp

lemma knows_prune:
  assumes "knows t now adm"
  shows "knows (prune now t) now adm"
proof (cases "length (it_seen t) > 1024")
  case True
  let ?P = "\<lambda>(k, ts). \<not> (ts = [] \<or> now - last ts > it_window t)"
  have d: "distinct (map fst (it_seen t))" using assms by (simp add: knows_def)
  have "recent (it_window t) now' (seen_of (prune now t) ip) = recent (it_window t) now' (seen_of t ip)"
    if "now \<le> now'" for ip now'
  proof (cases "map_of (it_seen t) ip")
    case None
    then show ?thesis using True map_of_filter_distinct [OF d, of ?P ip] by (simp add: seen_of_def prune_def)
  next
    case (Some ts)
    have "sorted ts" using assms map_of_SomeD [OF Some] by (auto simp: knows_def)
    then show ?thesis
      using True Some map_of_filter_distinct [OF d, of ?P ip] recent_old [where ts = ts and now = now and w = "it_window t" and now' = now'] that
      by (auto simp: seen_of_def prune_def recent_def)
  qed
  moreover have "distinct (map fst (filter ?P (it_seen t)))" using d by (rule distinct_map_filter)
  ultimately show ?thesis using assms True by (auto simp: knows_def prune_def)
next
  case False
  then show ?thesis using assms by (simp add: prune_def)
qed

lemma seen_of_update:
  "seen_of (t\<lparr>it_seen := AList.update ip ts (it_seen t)\<rparr>) ip' = (if ip' = ip then ts else seen_of t ip')"
  by (simp add: seen_of_def update_conv')

lemma set_update_pair: "(k, v) \<in> set (AList.update ip ts xs) \<Longrightarrow> (k, v) = (ip, ts) \<or> (k, v) \<in> set xs"
  by (induction xs) (auto split: if_splits)

lemma seen_of_mem: "seen_of t ip \<noteq> [] \<Longrightarrow> (ip, seen_of t ip) \<in> set (it_seen t)"
  by (auto simp: seen_of_def split: option.splits dest: map_of_SomeD)

lemma knows_update:
  assumes "knows t now adm" "ip \<noteq> []" "kept = recent (it_window t) now (seen_of t ip)" "new = [] \<or> new = [now]"
  shows "knows (t\<lparr>it_seen := AList.update ip (kept @ new) (it_seen t)\<rparr>) now (adm(ip := adm ip @ new))"
proof -
  have k: "sorted (seen_of t ip) \<and> (\<forall>x\<in>set (seen_of t ip). x \<le> now)"
    using assms(1) seen_of_mem [of t ip] by (cases "seen_of t ip = []") (auto simp: knows_def)
  then have s: "sorted (kept @ new) \<and> (\<forall>x\<in>set (kept @ new). x \<le> now)"
    using assms(3,4) by (auto simp: recent_def sorted_append sorted_wrt_filter)
  have r: "recent (it_window t) now' (kept @ new) = recent (it_window t) now' (adm ip @ new)" if "now \<le> now'" for now'
    using assms(1,2,3) that recent_mono [OF that, of "it_window t" "seen_of t ip"] by (simp add: knows_def)
  show ?thesis
    using assms(1) s r unfolding knows_def
    by (auto simp: seen_of_update distinct_update dest!: set_update_pair)
qed

lemma allow_knows:
  assumes "knows t now adm" "allow now t ip = (ok, t')"
  shows "knows t' now (if ok \<and> ip \<noteq> [] then adm(ip := adm ip @ [now]) else adm) \<and>
    it_window t' = it_window t \<and> it_max t' = it_max t \<and>
    (ok \<and> ip \<noteq> [] \<longrightarrow> length (recent (it_window t) now (adm ip)) < it_max t)"
proof (cases "ip = []")
  case True
  then show ?thesis using assms by (auto simp: allow_def)
next
  case ne: False
  let ?p = "prune now t"
  let ?kept = "filter (\<lambda>ts. now - ts < it_window t) (seen_of ?p ip)"
  have kp: "knows ?p now adm" using assms(1) by (rule knows_prune)
  have kept: "?kept = recent (it_window ?p) now (seen_of ?p ip)" by (simp add: recent_def)
  have cnt: "recent (it_window t) now (adm ip) = ?kept" using kp ne unfolding knows_def by (simp add: recent_def)
  show ?thesis
  proof (cases "length ?kept \<ge> it_max t")
    case True
    then have "ok = False" "t' = ?p\<lparr>it_seen := AList.update ip (?kept @ []) (it_seen ?p)\<rparr>"
      using assms(2) ne by (simp_all add: allow_def Let_def)
    then show ?thesis using knows_update [OF kp ne kept, of "[]"] by simp
  next
    case False
    then have "ok = True" "t' = ?p\<lparr>it_seen := AList.update ip (?kept @ [now]) (it_seen ?p)\<rparr>"
      using assms(2) ne by (simp_all add: allow_def Let_def)
    then show ?thesis using knows_update [OF kp ne kept, of "[now]"] False cnt ne by simp
  qed
qed

lemma knows_later: "knows t now adm \<Longrightarrow> now \<le> now' \<Longrightarrow> knows t now' adm"
  unfolding knows_def by fastforce

lemma attempts_window:
  "knows t now0 adm \<Longrightarrow> sorted (now0 # map fst evs) \<Longrightarrow>
   attempts t evs = (t', pre @ (now, ip) # post) \<Longrightarrow> ip \<noteq> [] \<Longrightarrow>
   length (recent (it_window t) now (adm ip @ times_of ip pre)) < it_max t"
proof (induction evs arbitrary: t now0 adm pre t')
  case Nil
  then show ?case by simp
next
  case (Cons ev rest)
  obtain n0 ip0 where ev: "ev = (n0, ip0)" by (cases ev)
  obtain ok t1 where al: "allow n0 t ip0 = (ok, t1)" by fastforce
  obtain t2 admitted where at: "attempts t1 rest = (t2, admitted)" by fastforce
  have k0: "knows t n0 adm" using Cons.prems(1,2) ev by (auto intro: knows_later)
  let ?adm = "if ok \<and> ip0 \<noteq> [] then adm(ip0 := adm ip0 @ [n0]) else adm"
  note al_facts = allow_knows [OF k0 al]
  have k1: "knows t1 n0 ?adm" and w: "it_window t1 = it_window t" "it_max t1 = it_max t"
    using al_facts by auto
  have srt: "sorted (n0 # map fst rest)" using Cons.prems(2) ev by simp
  have adm: "pre @ (now, ip) # post = (if ok then (n0, ip0) # admitted else admitted)"
    using Cons.prems(3) ev al at by simp
  show ?case
  proof (cases ok)
    case False
    then show ?thesis using Cons.IH [OF k1 srt, of t2 pre] at adm Cons.prems(4) w by simp
  next
    case True
    show ?thesis
    proof (cases pre)
      case Nil
      then show ?thesis using adm True al_facts Cons.prems(4) by (simp add: times_of_def)
    next
      case (Cons x pre')
      then have x: "x = (n0, ip0)" and adm': "admitted = pre' @ (now, ip) # post" using adm True by auto
      have "length (recent (it_window t1) now (?adm ip @ times_of ip pre')) < it_max t1"
        using Cons.IH [OF k1 srt] at adm' Cons.prems(4) by blast
      moreover have "?adm ip @ times_of ip pre' = adm ip @ times_of ip pre"
        using True Cons x \<open>ip \<noteq> []\<close> by (simp add: times_of_def)
      ultimately show ?thesis using w by simp
    qed
  qed
qed

lemma knows_new [simp]: "knows (newIPThrottle m w) now (\<lambda>_. [])"
  by (simp add: knows_def newIPThrottle_def seen_of_def)

text \<open>C12 The throttle is a sliding window: in any sequence of connection attempts at non-decreasing times,
  whenever an attempt of an address is admitted, at most the configured number of that address's
  attempts, this one included, were admitted within the window that ends now; also across the pruning of the table.\<close>

theorem throttle_window:
  assumes "attempts (newIPThrottle m w) evs = (t', pre @ (now, ip) # post)" "sorted (map fst evs)" "ip \<noteq> []"
  shows "length (recent w now (times_of ip (pre @ [(now, ip)]))) \<le> m"
proof (cases evs)
  case Nil
  then show ?thesis using assms(1) by simp
next
  case (Cons e es)
  have "sorted (fst e # map fst evs)" using assms(2) Cons by simp
  from attempts_window [OF knows_new this assms(1,3)]
  have "length (recent w now (times_of ip pre)) < m" by (simp add: newIPThrottle_def)
  then show ?thesis by (simp add: times_of_def recent_def)
qed

lemma throttle_window_witness:
  "length (recent 5 3 (times_of ''a'' ([(1, ''a'')] @ [(3, ''a'')]))) \<le> 2"
proof (rule throttle_window)
  show "attempts (newIPThrottle 2 5) [(1, ''a''), (3, ''a''), (4, ''a'')] =
      (fst (attempts (newIPThrottle 2 5) [(1, ''a''), (3, ''a''), (4, ''a'')]), [(1, ''a'')] @ (3, ''a'') # [])"
    by (simp add: newIPThrottle_def allow_def prune_def seen_of_def Let_def)
qed simp_all

section \<open>The accept loop\<close>

text \<open>The loop and its handlers: the guards, the connection that waits for a slot of the semaphore
  (the loop is blocked on it), the addresses of the running handlers, and the handlers that have released
  their address but not yet their slot.\<close>

record accept_loop =
  al_throttle :: ipThrottle
  al_inflight :: inflightCap
  al_waiting :: "ip_text option"
  al_running :: "ip_text multiset"
  al_leaving :: nat

definition sem_slots :: nat where "sem_slots = 8"

text \<open>The window of the attempts that are counted, in nanoseconds.\<close>

definition connWindow :: int where "connWindow = 5 * 1000000000"

definition accept_start :: accept_loop where
  "accept_start = \<lparr>al_throttle = newIPThrottle 10 connWindow, al_inflight = newInflightCap 2,
     al_waiting = None, al_running = {#}, al_leaving = 0\<rparr>"

text \<open>The guard in front of a handler: \<open>!throttle.allow(ip) || !inflight.acquire(ip)\<close>.\<close>

definition guard :: "int \<Rightarrow> ip_text \<Rightarrow> accept_loop \<Rightarrow> bool \<times> accept_loop" where
  "guard now ip s =
     (let (ok, t) = allow now (al_throttle s) ip in
      if \<not> ok then (False, s\<lparr>al_throttle := t\<rparr>)
      else (let (ok2, c) = acquire (al_inflight s) ip in (ok2, s\<lparr>al_throttle := t, al_inflight := c\<rparr>)))"

inductive loop_step :: "accept_loop \<Rightarrow> accept_loop \<Rightarrow> bool" where
  refused: "al_waiting s = None \<Longrightarrow> guard now ip s = (False, s') \<Longrightarrow> loop_step s s'"
| admitted: "al_waiting s = None \<Longrightarrow> guard now ip s = (True, s') \<Longrightarrow> loop_step s (s'\<lparr>al_waiting := Some ip\<rparr>)"
| started: "al_waiting s = Some ip \<Longrightarrow> size (al_running s) + al_leaving s < sem_slots \<Longrightarrow>
    loop_step s (s\<lparr>al_waiting := None, al_running := add_mset ip (al_running s)\<rparr>)"
| released: "ip \<in># al_running s \<Longrightarrow>
    loop_step s (s\<lparr>al_inflight := release (al_inflight s) ip, al_running := al_running s - {#ip#},
      al_leaving := Suc (al_leaving s)\<rparr>)"
| freed: "al_leaving s = Suc n \<Longrightarrow> loop_step s (s\<lparr>al_leaving := n\<rparr>)"

inductive loop_reachable :: "accept_loop \<Rightarrow> bool" where
  reach_start: "loop_reachable accept_start"
| reach_step: "loop_reachable s \<Longrightarrow> loop_step s s' \<Longrightarrow> loop_reachable s'"

text \<open>The count kept for an address is the number of its connections that hold it.\<close>

definition holders :: "accept_loop \<Rightarrow> ip_text \<Rightarrow> nat" where
  "holders s ip = count (al_running s) ip + (if al_waiting s = Some ip then 1 else 0)"

definition positive :: "(ip_text \<rightharpoonup> int) \<Rightarrow> bool" where
  "positive m \<longleftrightarrow> m [] = None \<and> (\<forall>ip k. m ip = Some k \<longrightarrow> 0 < k)"

definition loop_inv :: "accept_loop \<Rightarrow> bool" where
  "loop_inv s \<longleftrightarrow> ic_max (al_inflight s) = 2 \<and>
     (\<forall>ip. ip \<noteq> [] \<longrightarrow> held (al_inflight s) ip = int (holders s ip) \<and> holders s ip \<le> 2) \<and>
     positive (ic_n (al_inflight s)) \<and> size (al_running s) + al_leaving s \<le> sem_slots"

lemma acquire_effect:
  "acquire c ip = (ok, c') \<Longrightarrow> ic_max c' = ic_max c \<and>
     (\<forall>q. held c' q = held c q + (if ok \<and> q = ip \<and> ip \<noteq> [] then 1 else 0)) \<and>
     (ok \<and> ip \<noteq> [] \<longrightarrow> held c ip < ic_max c) \<and> (\<not> ok \<longrightarrow> c' = c)"
  by (auto simp: acquire_def held_def split: if_splits)

lemma acquire_positive: "acquire c ip = (ok, c') \<Longrightarrow> positive (ic_n c) \<Longrightarrow> positive (ic_n c')"
  by (fastforce simp: acquire_def held_def positive_def split: if_splits option.splits)

lemma release_effect:
  "held (release c ip) q = held c q - (if q = ip \<and> ip \<noteq> [] \<and> held c ip > 0 then 1 else 0)"
  "ic_max (release c ip) = ic_max c"
  by (auto simp: release_def held_def split: option.splits)

lemma release_positive: "positive (ic_n c) \<Longrightarrow> positive (ic_n (release c ip))"
  by (auto simp: release_def held_def positive_def split: option.splits)

lemma guard_refused:
  assumes "guard now ip s = (False, s')"
  shows "\<exists>t. s' = s\<lparr>al_throttle := t, al_inflight := al_inflight s\<rparr>"
proof -
  obtain ok1 t where al: "allow now (al_throttle s) ip = (ok1, t)" by fastforce
  obtain ok2 c where ac: "acquire (al_inflight s) ip = (ok2, c)" by fastforce
  have e: "s\<lparr>al_throttle := t\<rparr> = s\<lparr>al_throttle := t, al_inflight := al_inflight s\<rparr>" by simp
  have "\<not> ok2 \<Longrightarrow> c = al_inflight s" using acquire_effect [OF ac] by simp
  then have "s' = s\<lparr>al_throttle := t\<rparr> \<or> s' = s\<lparr>al_throttle := t, al_inflight := al_inflight s\<rparr>"
    using assms al ac by (cases ok1) (auto simp: guard_def)
  then show ?thesis using e by metis
qed

lemma guard_admitted:
  assumes "guard now ip s = (True, s')"
  shows "\<exists>t c. s' = s\<lparr>al_throttle := t, al_inflight := c\<rparr> \<and> acquire (al_inflight s) ip = (True, c)"
proof -
  obtain ok1 t where al: "allow now (al_throttle s) ip = (ok1, t)" by fastforce
  obtain ok2 c where ac: "acquire (al_inflight s) ip = (ok2, c)" by fastforce
  have "s' = s\<lparr>al_throttle := t, al_inflight := c\<rparr>" "ok2" using assms al ac by (cases ok1, simp_all add: guard_def)+
  moreover from this have "acquire (al_inflight s) ip = (True, c)" using ac by simp
  ultimately show ?thesis by blast
qed

lemma loop_inv_step:
  assumes "loop_step s s'" "loop_inv s"
  shows "loop_inv s'"
  using assms(1)
proof (cases rule: loop_step.cases)
  case (refused now ip)
  then obtain t where "s' = s\<lparr>al_throttle := t, al_inflight := al_inflight s\<rparr>" using guard_refused by blast
  then show ?thesis using assms(2) by (simp add: loop_inv_def holders_def)
next
  case (admitted now ip s2)
  then obtain t c where s2: "s2 = s\<lparr>al_throttle := t, al_inflight := c\<rparr>" and ac: "acquire (al_inflight s) ip = (True, c)"
    using guard_admitted by blast
  show ?thesis using assms(2) acquire_effect [OF ac] acquire_positive [OF ac] admitted(1,2) s2
    by (auto simp: loop_inv_def holders_def)
next
  case (started ip)
  then show ?thesis using assms(2) by (auto simp: loop_inv_def holders_def)
next
  case (released ip)
  obtain k where c: "count (al_running s) ip = Suc k" using released(2) by (metis count_eq_zero_iff not0_implies_Suc)
  obtain n where n: "size (al_running s) = Suc n" using released(2) by (metis size_Suc_Diff1)
  have h: "held (release (al_inflight s) ip) q = int (holders s' q) \<and> holders s' q \<le> 2" if "q \<noteq> []" for q
    using assms(2) that released(1) c unfolding loop_inv_def
    by (cases "q = ip") (auto simp: holders_def release_effect)
  show ?thesis using assms(2) release_positive h released n
    by (simp add: loop_inv_def release_effect size_Diff_singleton)
next
  case (freed n)
  then show ?thesis using assms(2) by (auto simp: loop_inv_def holders_def)
qed

lemma loop_inv_reachable: "loop_reachable s \<Longrightarrow> loop_inv s"
proof (induction rule: loop_reachable.induct)
  case reach_start
  show ?case by (simp add: loop_inv_def accept_start_def holders_def held_def newInflightCap_def sem_slots_def positive_def)
next
  case (reach_step s s')
  then show ?case by (auto intro: loop_inv_step)
qed

text \<open>However connections arrive and end, no address has more than two connections in progress and the
  receiver no more than eight handlers; the counters agree with what is running, and when nothing is in
  progress the table is empty again, so a finished connection never uses up an address's allowance.\<close>

theorem accept_loop_bounds:
  assumes "loop_reachable s"
  shows "size (al_running s) \<le> 8 \<and> (\<forall>ip. ip \<noteq> [] \<longrightarrow> count (al_running s) ip \<le> 2) \<and>
    (al_running s = {#} \<and> al_waiting s = None \<longrightarrow> ic_n (al_inflight s) = Map.empty)"
proof -
  note inv = loop_inv_reachable [OF assms, unfolded loop_inv_def]
  have "ic_n (al_inflight s) = Map.empty" if "al_running s = {#}" "al_waiting s = None"
  proof
    fix ip
    show "ic_n (al_inflight s) ip = None"
    proof (cases "ic_n (al_inflight s) ip")
      case (Some k)
      then have "0 < k" "ip \<noteq> []" using inv by (auto simp: positive_def)
      moreover have "held (al_inflight s) ip = 0" using inv that \<open>ip \<noteq> []\<close> by (simp add: holders_def)
      ultimately show ?thesis using Some by (simp add: held_def)
    qed simp
  qed
  moreover have "count (al_running s) ip \<le> 2" if "ip \<noteq> []" for ip
    using inv that by (auto simp: holders_def dest!: spec [of _ ip])
  moreover have "size (al_running s) \<le> 8" using inv by (simp add: sem_slots_def)
  ultimately show ?thesis by blast
qed

lemma accept_loop_bounds_witness:
  "size (al_running accept_start) \<le> 8 \<and> count (al_running accept_start) ''10.0.0.1'' \<le> 2 \<and>
    ic_n (al_inflight accept_start) = Map.empty"
  using accept_loop_bounds [OF reach_start] by (simp add: accept_start_def)

end
