(* ===== verification/GoBase64.thy ===== *)
theory GoBase64
  imports GoText
begin

text \<open>
  \<open>encoding/base64\<close> as the program uses it: the standard and the URL alphabet, each with and without
  padding, in the non-strict mode (stray bits of the last symbol are ignored, line breaks are skipped).
  The decoder rejects everything else: a symbol outside the alphabet, missing or early padding, padding
  where the encoding has none.
\<close>

datatype alphabet = StdAlphabet | URLAlphabet

record b64_enc =
  be_alphabet :: alphabet
  be_padded :: bool

definition StdEncoding :: b64_enc where "StdEncoding = \<lparr>be_alphabet = StdAlphabet, be_padded = True\<rparr>"
definition RawStdEncoding :: b64_enc where "RawStdEncoding = \<lparr>be_alphabet = StdAlphabet, be_padded = False\<rparr>"
definition URLEncoding :: b64_enc where "URLEncoding = \<lparr>be_alphabet = URLAlphabet, be_padded = True\<rparr>"
definition RawURLEncoding :: b64_enc where "RawURLEncoding = \<lparr>be_alphabet = URLAlphabet, be_padded = False\<rparr>"

lemmas encodings = StdEncoding_def RawStdEncoding_def URLEncoding_def RawURLEncoding_def

section \<open>Symbols\<close>

definition sym_of :: "alphabet \<Rightarrow> nat \<Rightarrow> char" where
  "sym_of al n =
     (if n < 26 then char_of (65 + n)
      else if n < 52 then char_of (71 + n)
      else if n < 62 then char_of (n - 4)
      else if n = 62 then (case al of StdAlphabet \<Rightarrow> CHR ''+'' | URLAlphabet \<Rightarrow> CHR ''-'')
      else (case al of StdAlphabet \<Rightarrow> CHR ''/'' | URLAlphabet \<Rightarrow> CHR ''_''))"

definition sym_val :: "alphabet \<Rightarrow> char \<Rightarrow> nat option" where
  "sym_val al c = (let n = (of_char c :: nat) in
     if 65 \<le> n \<and> n \<le> 90 then Some (n - 65)
     else if 97 \<le> n \<and> n \<le> 122 then Some (n - 71)
     else if 48 \<le> n \<and> n \<le> 57 then Some (n + 4)
     else if c = (case al of StdAlphabet \<Rightarrow> CHR ''+'' | URLAlphabet \<Rightarrow> CHR ''-'') then Some 62
     else if c = (case al of StdAlphabet \<Rightarrow> CHR ''/'' | URLAlphabet \<Rightarrow> CHR ''_'') then Some 63 else None)"

abbreviation pad_char :: char where "pad_char \<equiv> CHR ''=''"

lemma sym_val_of [simp]:
  assumes "n < 64"
  shows "sym_val al (sym_of al n) = Some n"
proof -
  consider "n < 26" | "26 \<le> n" "n < 52" | "52 \<le> n" "n < 62" | "n = 62" | "n = 63" using assms by linarith
  then show ?thesis
    by cases (auto simp: sym_of_def sym_val_def Let_def split: alphabet.splits)
qed

lemma sym_val_less: "sym_val al c = Some n \<Longrightarrow> n < 64"
  by (auto simp: sym_val_def Let_def split: if_splits)

text \<open>The two alphabets never give one symbol two values.\<close>

lemma sym_val_agree: "sym_val al c = Some m \<Longrightarrow> sym_val al' c = Some n \<Longrightarrow> m = n"
  by (cases al; cases al') (auto simp: sym_val_def Let_def split: if_splits)

lemma sym_val_pad [simp]: "sym_val al pad_char = None"
  by (cases al) (simp_all add: sym_val_def)

lemma of_char_sym_of:
  assumes "n < 64"
  shows "(of_char (sym_of al n) :: nat) \<in> {65..90} \<union> {97..122} \<union> {48..57} \<union> {43, 45, 47, 95}"
proof -
  consider "n < 26" | "26 \<le> n" "n < 52" | "52 \<le> n" "n < 62" | "n = 62" | "n = 63" using assms by linarith
  then show ?thesis
    by cases (auto simp: sym_of_def split: alphabet.splits)
qed

lemma sym_of_ascii:
  assumes "n < 64"
  shows "of_char (sym_of al n) < (0x80::nat)" "\<not> is_space (of_char (sym_of al n))"
    "sym_of al n \<noteq> CHR 0x0A" "sym_of al n \<noteq> CHR 0x0D"
proof -
  note v = of_char_sym_of [OF assms, of al]
  show "of_char (sym_of al n) < (0x80::nat)" "\<not> is_space (of_char (sym_of al n))"
    using v by (auto simp: is_space_def)
  show "sym_of al n \<noteq> CHR 0x0A" "sym_of al n \<noteq> CHR 0x0D"
    using v by (auto dest: arg_cong [where f = "of_char :: char \<Rightarrow> nat"])
qed

lemma sym_of_not_pad: "n < 64 \<Longrightarrow> sym_of al n \<noteq> pad_char"
  using sym_val_of [of n al] sym_val_pad [of al] by (metis option.distinct(1))

section \<open>Encoding\<close>

fun b64_encode :: "b64_enc \<Rightarrow> bytes \<Rightarrow> string" where
  "b64_encode e [] = []"
| "b64_encode e [a] =
     (let x = of_char a in
      [sym_of (be_alphabet e) (x div 4), sym_of (be_alphabet e) (x mod 4 * 16)] @
        (if be_padded e then [pad_char, pad_char] else []))"
| "b64_encode e [a, b] =
     (let x = of_char a; y = of_char b in
      [sym_of (be_alphabet e) (x div 4), sym_of (be_alphabet e) (x mod 4 * 16 + y div 16),
       sym_of (be_alphabet e) (y mod 16 * 4)] @ (if be_padded e then [pad_char] else []))"
| "b64_encode e (a # b # c # rest) =
     (let x = of_char a; y = of_char b; z = of_char c in
      [sym_of (be_alphabet e) (x div 4), sym_of (be_alphabet e) (x mod 4 * 16 + y div 16),
       sym_of (be_alphabet e) (y mod 16 * 4 + z div 64), sym_of (be_alphabet e) (z mod 64)] @ b64_encode e rest)"

section \<open>Decoding\<close>

definition byte1 :: "nat \<Rightarrow> nat \<Rightarrow> char" where "byte1 p q = char_of (p * 4 + q div 16)"
definition byte2 :: "nat \<Rightarrow> nat \<Rightarrow> char" where "byte2 q r = char_of (q * 16 + r div 4)"
definition byte3 :: "nat \<Rightarrow> nat \<Rightarrow> char" where "byte3 r s = char_of (r * 64 + s)"

definition last1 :: "alphabet \<Rightarrow> char \<Rightarrow> char \<Rightarrow> bytes option" where
  "last1 al a b = (case (sym_val al a, sym_val al b) of (Some p, Some q) \<Rightarrow> Some [byte1 p q] | _ \<Rightarrow> None)"

definition last2 :: "alphabet \<Rightarrow> char \<Rightarrow> char \<Rightarrow> char \<Rightarrow> bytes option" where
  "last2 al a b c = (case (sym_val al a, sym_val al b, sym_val al c) of
     (Some p, Some q, Some r) \<Rightarrow> Some [byte1 p q, byte2 q r] | _ \<Rightarrow> None)"

fun b64_quanta :: "b64_enc \<Rightarrow> string \<Rightarrow> bytes option" where
  "b64_quanta e [] = Some []"
| "b64_quanta e [a] = None"
| "b64_quanta e [a, b] = (if be_padded e then None else last1 (be_alphabet e) a b)"
| "b64_quanta e [a, b, c] = (if be_padded e then None else last2 (be_alphabet e) a b c)"
| "b64_quanta e (a # b # c # d # rest) =
     (if be_padded e \<and> c = pad_char then (if d = pad_char \<and> rest = [] then last1 (be_alphabet e) a b else None)
      else if be_padded e \<and> d = pad_char then (if rest = [] then last2 (be_alphabet e) a b c else None)
      else (case (sym_val (be_alphabet e) a, sym_val (be_alphabet e) b, sym_val (be_alphabet e) c,
              sym_val (be_alphabet e) d, b64_quanta e rest) of
          (Some p, Some q, Some r, Some s, Some bs) \<Rightarrow> Some (byte1 p q # byte2 q r # byte3 r s # bs)
        | _ \<Rightarrow> None))"

definition b64_decode :: "b64_enc \<Rightarrow> string \<Rightarrow> bytes option" where
  "b64_decode e s = b64_quanta e (filter (\<lambda>c. c \<noteq> CHR 0x0A \<and> c \<noteq> CHR 0x0D) s)"

section \<open>Round trip\<close>

lemma byte1_join: "x < 256 \<Longrightarrow> byte1 (x div 4) (x mod 4 * 16 + y div 16) = char_of (x :: nat)" if "y < 256" for x y
proof -
  assume "x < 256"
  have "(x mod 4 * 16 + y div 16) div 16 = x mod 4" using that by simp
  then show ?thesis by (simp add: byte1_def)
qed

lemma byte1_end: "byte1 (x div 4) (x mod 4 * 16) = char_of (x :: nat)"
  by (simp add: byte1_def)

lemma byte_mod: "char_of (m :: nat) = char_of (n :: nat) \<longleftrightarrow> m mod 256 = n mod 256"
  by (metis char_of_eq_iff of_char_of)

lemma byte2_join:
  assumes "y < 256" "z < 256"
  shows "byte2 (x mod 4 * 16 + y div 16) (y mod 16 * 4 + z div 64) = char_of (y :: nat)"
proof -
  have "(y mod 16 * 4 + z div 64) div 4 = y mod 16" using assms by simp
  moreover have "((x mod 4 * 16 + y div 16) * 16 + y mod 16) mod 256 = y mod 256"
  proof -
    have "(x mod 4 * 16 + y div 16) * 16 + y mod 16 = (x mod 4) * 256 + y" by simp
    then show ?thesis by simp
  qed
  ultimately show ?thesis by (simp only: byte2_def byte_mod)
qed

lemma byte2_end: "y < 256 \<Longrightarrow> byte2 (x mod 4 * 16 + y div 16) (y mod 16 * 4) = char_of (y :: nat)"
  using byte2_join [of y 0 x] by simp

lemma byte3_join: "z < 256 \<Longrightarrow> byte3 (y mod 16 * 4 + z div 64) (z mod 64) = char_of (z :: nat)"
proof -
  assume "z < 256"
  have "(y mod 16 * 4 + z div 64) * 64 + z mod 64 = (y mod 16) * 256 + z" by simp
  then show ?thesis by (simp add: byte3_def byte_mod)
qed

lemma sym_ranges [simp]:
  "(of_char (a :: char) :: nat) div 4 < 64" "(x :: nat) mod 4 * 16 < 64" "x mod 4 * 16 + of_char b div 16 < 64"
  "x mod 16 * 4 < 64" "x mod 16 * 4 + of_char b div 64 < 64"
  using of_char_less [of a] of_char_less [of b] by linarith+

lemma b64_quanta_encode: "b64_quanta e (b64_encode e bs) = Some bs"
proof (induction e bs rule: b64_encode.induct)
  case (2 e a)
  show ?case
    by (simp add: Let_def last1_def byte1_end)
next
  case (3 e a b)
  show ?case
    by (simp add: Let_def last2_def sym_of_not_pad byte1_join byte2_end)
next
  case (4 e a b c rest)
  then show ?case
    by (simp add: Let_def sym_of_not_pad byte1_join byte2_join byte3_join)
qed simp

lemma b64_encode_set:
  "c \<in> set (b64_encode e bs) \<Longrightarrow> c = pad_char \<or> (\<exists>n<64. c = sym_of (be_alphabet e) n)"
proof (induction e bs rule: b64_encode.induct)
  case (2 e a)
  then have "c \<in> {sym_of (be_alphabet e) (of_char a div 4), sym_of (be_alphabet e) (of_char a mod 4 * 16), pad_char}"
    by (auto simp: Let_def split: if_splits)
  then show ?case using sym_ranges(1) [of a] sym_ranges(2) [of "of_char a"] by blast
next
  case (3 e a b)
  then have "c \<in> {sym_of (be_alphabet e) (of_char a div 4), sym_of (be_alphabet e) (of_char a mod 4 * 16 + of_char b div 16),
      sym_of (be_alphabet e) (of_char b mod 16 * 4), pad_char}"
    by (auto simp: Let_def split: if_splits)
  then show ?case using sym_ranges(1) [of a] sym_ranges(3) [of "of_char a" b] sym_ranges(4) [of "of_char b"] by blast
next
  case (4 e a b c' rest)
  then have "c \<in> {sym_of (be_alphabet e) (of_char a div 4), sym_of (be_alphabet e) (of_char a mod 4 * 16 + of_char b div 16),
      sym_of (be_alphabet e) (of_char b mod 16 * 4 + of_char c' div 64), sym_of (be_alphabet e) (of_char c' mod 64)} \<or>
      c \<in> set (b64_encode e rest)"
    by (auto simp: Let_def)
  moreover have "(of_char c' :: nat) mod 64 < 64" by simp
  ultimately show ?case
    using 4 sym_ranges(1) [of a] sym_ranges(3) [of "of_char a" b] sym_ranges(5) [of "of_char b" c'] by blast
qed simp

lemma b64_encode_plain:
  assumes "c \<in> set (b64_encode e bs)"
  shows "of_char c < (0x80::nat)" "\<not> is_space (of_char c)" "c \<noteq> CHR 0x0A" "c \<noteq> CHR 0x0D"
proof -
  consider "c = pad_char" | n where "n < 64" "c = sym_of (be_alphabet e) n" using b64_encode_set [OF assms] by blast
  then have "of_char c < (0x80::nat) \<and> \<not> is_space (of_char c) \<and> c \<noteq> CHR 0x0A \<and> c \<noteq> CHR 0x0D"
    by cases (simp add: is_space_def, simp add: sym_of_ascii)
  then show "of_char c < (0x80::nat)" "\<not> is_space (of_char c)" "c \<noteq> CHR 0x0A" "c \<noteq> CHR 0x0D" by simp_all
qed

theorem b64_decode_encode [simp, codec_simps]: "b64_decode e (b64_encode e bs) = Some bs"
proof -
  have "filter (\<lambda>c. c \<noteq> CHR 0x0A \<and> c \<noteq> CHR 0x0D) (b64_encode e bs) = b64_encode e bs"
    using b64_encode_plain(3,4) by (auto intro: filter_True)
  then show ?thesis by (simp add: b64_decode_def b64_quanta_encode)
qed

lemma trim_space_b64 [simp]: "trim_space (b64_encode e bs) = b64_encode e bs"
proof (cases "b64_encode e bs = []")
  case False
  then show ?thesis
    using b64_encode_plain [OF hd_in_set] b64_encode_plain [OF last_in_set]
    by (intro trim_space_ascii_id) (auto simp: list_all_iff intro: b64_encode_plain(1))
qed simp

lemma b64_encode_inj: "b64_encode e a = b64_encode e b \<longleftrightarrow> a = b"
  by (metis b64_decode_encode option.inject)

section \<open>Decoders agree\<close>

lemma last1_agree: "last1 al a b = Some x \<Longrightarrow> last1 al' a b = Some y \<Longrightarrow> x = y"
  by (auto simp: last1_def split: option.splits dest: sym_val_agree)

lemma last2_agree: "last2 al a b c = Some x \<Longrightarrow> last2 al' a b c = Some y \<Longrightarrow> x = y"
  by (auto simp: last2_def split: option.splits dest: sym_val_agree)

text \<open>Whichever of the four encodings a text is read in, the bytes are the same when it can be read.\<close>

lemma b64_quanta_agree:
  "b64_quanta e s = Some x \<Longrightarrow> b64_quanta e' s = Some y \<Longrightarrow> x = y"
proof (induction e s arbitrary: x y rule: b64_quanta.induct)
  case (3 e a b)
  then show ?case by (auto split: if_splits dest: last1_agree)
next
  case (4 e a b c)
  then show ?case by (auto split: if_splits dest: last2_agree)
next
  case (5 e a b c d rest)
  then show ?case
    by (auto split: if_splits option.splits dest: last1_agree last2_agree sym_val_agree
        simp: last1_def last2_def)
qed simp_all

lemma b64_decode_agree: "b64_decode e s = Some x \<Longrightarrow> b64_decode e' s = Some y \<Longrightarrow> x = y"
  unfolding b64_decode_def by (rule b64_quanta_agree)

end
