(* ===== verification/CryptoStream.thy ===== *)
theory CryptoStream
  imports GoBase64
begin

text \<open>
  The encrypted share format of \<open>crypto.go\<close>: the stream written (version 1.3) and the three versions
  read, chunk by chunk, over a source that ends or fails and a sink whose writes may fail. AES-256-GCM
  and HKDF are the parameter record \<open>aead\<close> (a handle is its key); the random salt is an argument.
\<close>

section \<open>Sources and sinks\<close>

text \<open>A reader: the bytes it will deliver, and whether it then fails or is at its end.\<close>

record source =
  src_data :: bytes
  src_fails :: bool

datatype fill_status = Filled | AtEnd | EndedEarly | ReadError

text \<open>\<open>io.ReadFull\<close> with its four results: nil, \<open>io.EOF\<close>, \<open>io.ErrUnexpectedEOF\<close>, another error.\<close>

definition fill :: "nat \<Rightarrow> source \<Rightarrow> fill_status \<times> bytes \<times> source" where
  "fill n s =
     (if n \<le> length (src_data s) then (Filled, take n (src_data s), s\<lparr>src_data := drop n (src_data s)\<rparr>)
      else if src_fails s then (ReadError, src_data s, s\<lparr>src_data := []\<rparr>)
      else if src_data s = [] then (AtEnd, [], s)
      else (EndedEarly, src_data s, s\<lparr>src_data := []\<rparr>))"

text \<open>A writer: what was written and how often; \<open>wok\<close> says which writes succeed.\<close>

record sink =
  sk_out :: bytes
  sk_writes :: nat

definition put :: "(nat \<Rightarrow> bool) \<Rightarrow> bytes \<Rightarrow> sink \<Rightarrow> sink option" where
  "put wok b k =
     (if wok (sk_writes k) then Some (k\<lparr>sk_out := sk_out k @ b, sk_writes := Suc (sk_writes k)\<rparr>) else None)"

record aead =
  ae_seal :: "bytes \<Rightarrow> bytes \<Rightarrow> bytes \<Rightarrow> bytes \<Rightarrow> bytes"
  ae_open :: "bytes \<Rightarrow> bytes \<Rightarrow> bytes \<Rightarrow> bytes \<Rightarrow> bytes option"
  ae_hkdf :: "bytes \<Rightarrow> bytes \<Rightarrow> string \<Rightarrow> bytes"

datatype crypt_err =
    InvalidKey | RandomFailed | SourceError | SinkError | ChunkTooLarge | HeaderShort | UnsupportedFormat
  | StreamEnded | BadChunkLength | FlagShort | ChunkShort | OpenFailed

section \<open>The format\<close>

definition chunkSize :: nat where "chunkSize = 64 * 1024"
definition headerPrefixSize :: nat where "headerPrefixSize = 6"
definition nonceBaseSize :: nat where "nonceBaseSize = 12"
definition saltSize :: nat where "saltSize = 16"
definition hkdfInfo :: string where "hkdfInfo = ''share2us/stream/v3''"
definition maxChunkCiphertext :: nat where "maxChunkCiphertext = chunkSize + 64"
definition encVersionMajor :: nat where "encVersionMajor = 1"
definition encVersionLegacy :: nat where "encVersionLegacy = 1"
definition encVersionAEAD :: nat where "encVersionAEAD = 2"
definition encVersionHKDF :: nat where "encVersionHKDF = 3"
definition encryptionMagic :: bytes where "encryptionMagic = ''S2E1''"

lemmas format_defs = chunkSize_def headerPrefixSize_def nonceBaseSize_def saltSize_def maxChunkCiphertext_def
  encVersionMajor_def encVersionLegacy_def encVersionAEAD_def encVersionHKDF_def encryptionMagic_def

definition chunkAAD :: "bytes \<Rightarrow> char \<Rightarrow> bytes" where
  "chunkAAD header finalByte = header @ [finalByte]"

definition nonceFor :: "bytes \<Rightarrow> nat \<Rightarrow> bytes" where
  "nonceFor base counter = take (length base - 8) base @ be_put 8 counter"

definition streamNonce :: "nat \<Rightarrow> bytes" where
  "streamNonce counter = replicate (nonceBaseSize - 8) CHR 0x00 @ be_put 8 counter"

definition deriveStreamKey :: "aead \<Rightarrow> bytes \<Rightarrow> bytes \<Rightarrow> crypt_err + bytes" where
  "deriveStreamKey ae dataKey salt =
     (if length dataKey \<noteq> 32 then Inl InvalidKey else Inr (ae_hkdf ae dataKey salt hkdfInfo))"

definition newAEAD :: "bytes \<Rightarrow> crypt_err + bytes" where
  "newAEAD key = (if length key \<noteq> 32 then Inl InvalidKey else Inr key)"

section \<open>Writing\<close>

definition readChunk :: "source \<Rightarrow> unit + bytes \<times> bool \<times> source" where
  "readChunk s = (case fill chunkSize s of
     (Filled, b, s') \<Rightarrow> Inr (b, False, s')
   | (AtEnd, b, s') \<Rightarrow> Inr ([], True, s')
   | (EndedEarly, b, s') \<Rightarrow> Inr (b, True, s')
   | (ReadError, b, s') \<Rightarrow> Inl ())"

definition final_byte :: "bool \<Rightarrow> char" where
  "final_byte fin = (if fin then CHR 0x01 else CHR 0x00)"

definition writeSealedChunk ::
  "(nat \<Rightarrow> bool) \<Rightarrow> aead \<Rightarrow> bytes \<Rightarrow> bytes \<Rightarrow> nat \<Rightarrow> bytes \<Rightarrow> bool \<Rightarrow> sink \<Rightarrow> crypt_err option \<times> sink" where
  "writeSealedChunk wok ae k header counter pt fin sk =
     (let ct = ae_seal ae k (streamNonce counter) pt (chunkAAD header (final_byte fin)) in
      if length ct > 2 ^ 32 - 1 then (Some ChunkTooLarge, sk)
      else (case put wok (be_put 4 (length ct)) sk of
          None \<Rightarrow> (Some SinkError, sk)
        | Some sk1 \<Rightarrow> (case put wok [final_byte fin] sk1 of
          None \<Rightarrow> (Some SinkError, sk1)
        | Some sk2 \<Rightarrow> (case put wok ct sk2 of
          None \<Rightarrow> (Some SinkError, sk2)
        | Some sk3 \<Rightarrow> (None, sk3)))))"

lemma fill_Filled: "fill n s = (Filled, b, s') \<Longrightarrow> src_data s = b @ src_data s' \<and> length b = n \<and> src_fails s' = src_fails s"
  by (auto simp: fill_def split: if_splits)

lemma readChunk_more: "readChunk s = Inr (b, False, s') \<Longrightarrow>
  src_data s = b @ src_data s' \<and> length b = chunkSize \<and> src_fails s' = src_fails s"
  by (auto simp: readChunk_def dest: fill_Filled split: prod.splits fill_status.splits)

lemma readChunk_end: "readChunk s = Inr (b, True, s') \<Longrightarrow>
  b = src_data s \<and> length b < chunkSize \<and> src_data s' = [] \<and> \<not> src_fails s"
  by (auto simp: readChunk_def fill_def split: if_splits)

lemma fill_length: "(Filled, b, s') = fill n s \<Longrightarrow> length (src_data s) = n + length (src_data s')"
  using fill_Filled [of n s b s'] by simp

lemma readChunk_shrinks:
  assumes "readChunk s = Inr (b, e, s')" "e \<longrightarrow> b \<noteq> []"
  shows "length (src_data s') < length (src_data s)"
proof (cases e)
  case True
  then show ?thesis using assms readChunk_end [of s b s'] by auto
next
  case False
  then show ?thesis using assms readChunk_more [of s b s'] by (simp add: chunkSize_def)
qed

text \<open>The chunk loop of \<open>EncryptStream\<close>: \<open>cur\<close> is the chunk read last, \<open>eof\<close> whether it was at the end.\<close>

function enc_loop ::
  "(nat \<Rightarrow> bool) \<Rightarrow> aead \<Rightarrow> bytes \<Rightarrow> bytes \<Rightarrow> nat \<Rightarrow> bytes \<Rightarrow> bool \<Rightarrow> source \<Rightarrow> sink \<Rightarrow> crypt_err option \<times> sink" where
  "enc_loop wok ae k header counter cur eof s sk =
     (if eof then writeSealedChunk wok ae k header counter cur True sk
      else (case readChunk s of
          Inl _ \<Rightarrow> (Some SourceError, sk)
        | Inr (b, eof2, s') \<Rightarrow>
            if eof2 \<and> b = [] then writeSealedChunk wok ae k header counter cur True sk
            else (case writeSealedChunk wok ae k header counter cur False sk of
                (Some e, sk') \<Rightarrow> (Some e, sk')
              | (None, sk') \<Rightarrow> enc_loop wok ae k header (Suc counter) b eof2 s' sk')))"
  by pat_completeness auto

termination
  by (relation "measure (\<lambda>(_, _, _, _, _, _, _, s, _). length (src_data s))") (auto dest: readChunk_shrinks)

declare enc_loop.simps [simp del]

definition EncryptStream ::
  "(nat \<Rightarrow> bool) \<Rightarrow> aead \<Rightarrow> bytes option \<Rightarrow> bytes \<Rightarrow> source \<Rightarrow> sink \<Rightarrow> crypt_err option \<times> sink" where
  "EncryptStream wok ae rnd key s sk =
     (if length key \<noteq> 32 then (Some InvalidKey, sk)
      else (case rnd of
          None \<Rightarrow> (Some RandomFailed, sk)
        | Some salt \<Rightarrow> (case deriveStreamKey ae key salt of
          Inl e \<Rightarrow> (Some e, sk)
        | Inr streamKey \<Rightarrow> (case newAEAD streamKey of
          Inl e \<Rightarrow> (Some e, sk)
        | Inr k \<Rightarrow>
            let header = encryptionMagic @ [char_of encVersionMajor, char_of encVersionHKDF] @ salt in
            (case put wok header sk of
               None \<Rightarrow> (Some SinkError, sk)
             | Some sk' \<Rightarrow> (case readChunk s of
                 Inl _ \<Rightarrow> (Some SourceError, sk')
               | Inr (b, eof, s') \<Rightarrow> enc_loop wok ae k header 0 b eof s' sk'))))))"

section \<open>Reading\<close>

function readSealedChunks ::
  "(nat \<Rightarrow> bool) \<Rightarrow> aead \<Rightarrow> bytes \<Rightarrow> bytes \<Rightarrow> (nat \<Rightarrow> bytes) \<Rightarrow> nat \<Rightarrow> source \<Rightarrow> sink \<Rightarrow> crypt_err option \<times> sink" where
  "readSealedChunks wok ae k header nonce counter s sk =
     (case fill 4 s of
        (Filled, lb, s1) \<Rightarrow>
          (let len = be_get lb in
           if len = 0 \<or> len > maxChunkCiphertext then (Some BadChunkLength, sk)
           else (case fill 1 s1 of
               (Filled, fb, s2) \<Rightarrow> (case fill len s2 of
                   (Filled, ct, s3) \<Rightarrow> (case ae_open ae k (nonce counter) ct (chunkAAD header (hd fb)) of
                       None \<Rightarrow> (Some OpenFailed, sk)
                     | Some pt \<Rightarrow> (case put wok pt sk of
                         None \<Rightarrow> (Some SinkError, sk)
                       | Some sk' \<Rightarrow>
                           if hd fb = CHR 0x01 then (None, sk')
                           else readSealedChunks wok ae k header nonce (Suc counter) s3 sk'))
                 | _ \<Rightarrow> (Some ChunkShort, sk))
             | _ \<Rightarrow> (Some FlagShort, sk)))
      | _ \<Rightarrow> (Some StreamEnded, sk))"
  by pat_completeness auto

termination
  by (relation "measure (\<lambda>(_, _, _, _, _, _, s, _). length (src_data s))") (auto dest!: fill_length)

declare readSealedChunks.simps [simp del]

function decryptStreamLegacy ::
  "(nat \<Rightarrow> bool) \<Rightarrow> aead \<Rightarrow> bytes \<Rightarrow> bytes \<Rightarrow> nat \<Rightarrow> source \<Rightarrow> sink \<Rightarrow> crypt_err option \<times> sink" where
  "decryptStreamLegacy wok ae k nonceBase counter s sk =
     (case fill 4 s of
        (Filled, lb, s1) \<Rightarrow>
          (let len = be_get lb in
           if len = 0 then (None, sk)
           else if len > maxChunkCiphertext then (Some BadChunkLength, sk)
           else (case fill len s1 of
               (Filled, ct, s2) \<Rightarrow> (case ae_open ae k (nonceFor nonceBase counter) ct [] of
                   None \<Rightarrow> (Some OpenFailed, sk)
                 | Some pt \<Rightarrow> (case put wok pt sk of
                     None \<Rightarrow> (Some SinkError, sk)
                   | Some sk' \<Rightarrow> decryptStreamLegacy wok ae k nonceBase (Suc counter) s2 sk'))
             | _ \<Rightarrow> (Some ChunkShort, sk)))
      | _ \<Rightarrow> (Some StreamEnded, sk))"
  by pat_completeness auto

termination
  by (relation "measure (\<lambda>(_, _, _, _, _, s, _). length (src_data s))") (auto dest!: fill_length)

declare decryptStreamLegacy.simps [simp del]

definition decryptStreamHKDF ::
  "(nat \<Rightarrow> bool) \<Rightarrow> aead \<Rightarrow> bytes \<Rightarrow> bytes \<Rightarrow> source \<Rightarrow> sink \<Rightarrow> crypt_err option \<times> sink" where
  "decryptStreamHKDF wok ae k header s sk = readSealedChunks wok ae k header streamNonce 0 s sk"

definition decryptStreamAEAD ::
  "(nat \<Rightarrow> bool) \<Rightarrow> aead \<Rightarrow> bytes \<Rightarrow> bytes \<Rightarrow> bytes \<Rightarrow> source \<Rightarrow> sink \<Rightarrow> crypt_err option \<times> sink" where
  "decryptStreamAEAD wok ae k header nonceBase s sk = readSealedChunks wok ae k header (nonceFor nonceBase) 0 s sk"

definition DecryptStream ::
  "(nat \<Rightarrow> bool) \<Rightarrow> aead \<Rightarrow> bytes \<Rightarrow> source \<Rightarrow> sink \<Rightarrow> crypt_err option \<times> sink" where
  "DecryptStream wok ae key s sk =
     (if length key \<noteq> 32 then (Some InvalidKey, sk)
      else (case fill headerPrefixSize s of
          (Filled, prefix, s1) \<Rightarrow>
            (if take 4 prefix \<noteq> encryptionMagic \<or> prefix ! 4 \<noteq> char_of encVersionMajor
             then (Some UnsupportedFormat, sk)
             else if prefix ! 5 = char_of encVersionHKDF then
               (case fill saltSize s1 of
                  (Filled, salt, s2) \<Rightarrow> (case deriveStreamKey ae key salt of
                      Inl e \<Rightarrow> (Some e, sk)
                    | Inr streamKey \<Rightarrow> (case newAEAD streamKey of
                      Inl e \<Rightarrow> (Some e, sk)
                    | Inr k \<Rightarrow> decryptStreamHKDF wok ae k (prefix @ salt) s2 sk))
                | _ \<Rightarrow> (Some HeaderShort, sk))
             else if prefix ! 5 = char_of encVersionAEAD \<or> prefix ! 5 = char_of encVersionLegacy then
               (case fill nonceBaseSize s1 of
                  (Filled, nonceBase, s2) \<Rightarrow> (case newAEAD key of
                      Inl e \<Rightarrow> (Some e, sk)
                    | Inr k \<Rightarrow>
                        if prefix ! 5 = char_of encVersionAEAD
                        then decryptStreamAEAD wok ae k (prefix @ nonceBase) nonceBase s2 sk
                        else decryptStreamLegacy wok ae k nonceBase 0 s2 sk)
                | _ \<Rightarrow> (Some HeaderShort, sk))
             else (Some UnsupportedFormat, sk))
        | _ \<Rightarrow> (Some HeaderShort, sk)))"

end
