(* ===== verification/CryptoKeys.thy ===== *)
theory CryptoKeys
  imports CryptoStream
begin

text \<open>
  The keys of \<open>crypto.go\<close>: how a content key is written into a share link and read back, and how it (or any
  payload) is sealed to a device. NaCl anonymous boxes (\<open>golang.org/x/crypto/nacl/box\<close>) are the parameter
  record \<open>nacl\<close>; the random bytes a key is made of are an argument.
\<close>

record nacl =
  bx_seal :: "bytes \<Rightarrow> bytes \<Rightarrow> bytes option"
  bx_open :: "bytes \<Rightarrow> bytes \<Rightarrow> bytes \<Rightarrow> bytes option"

datatype key_err = BadEncoding | BadKey | RandomError | SealError | BadEnvelope | NotAuthentic

section \<open>Content keys\<close>

definition NewDataKey :: "bytes option \<Rightarrow> key_err + bytes" where
  "NewDataKey rnd = (case rnd of None \<Rightarrow> Inl RandomError | Some key \<Rightarrow> Inr key)"

definition NewContentKey :: "bytes option \<Rightarrow> key_err + bytes" where
  "NewContentKey rnd = (case rnd of None \<Rightarrow> Inl RandomError | Some key \<Rightarrow> Inr key)"

definition EncodeKey :: "bytes \<Rightarrow> string" where
  "EncodeKey key = b64_encode RawURLEncoding key"

definition DecodeKey :: "string \<Rightarrow> key_err + bytes" where
  "DecodeKey encoded = (case b64_decode RawURLEncoding (trim_space encoded) of
     None \<Rightarrow> Inl BadEncoding
   | Some key \<Rightarrow> if length key \<noteq> 32 then Inl BadKey else Inr key)"

definition ShareURLWithKey :: "string \<Rightarrow> string \<Rightarrow> bytes \<Rightarrow> string" where
  "ShareURLWithKey base publicID key = trim_right base ''/'' @ ''/'' @ publicID @ ''#k='' @ EncodeKey key"

section \<open>Device keys\<close>

definition encodeDeviceKey :: "bytes \<Rightarrow> string" where
  "encodeDeviceKey key = b64_encode StdEncoding key"

fun first_decoder :: "b64_enc list \<Rightarrow> string \<Rightarrow> bytes option" where
  "first_decoder [] v = None"
| "first_decoder (d # ds) v = (case b64_decode d v of Some raw \<Rightarrow> Some raw | None \<Rightarrow> first_decoder ds v)"

definition decodeFlexibleBase64 :: "string \<Rightarrow> bytes option" where
  "decodeFlexibleBase64 encoded =
     first_decoder [StdEncoding, RawStdEncoding, URLEncoding, RawURLEncoding] (trim_space encoded)"

definition decodeDeviceKey :: "string \<Rightarrow> key_err + bytes" where
  "decodeDeviceKey encoded = (case decodeFlexibleBase64 encoded of
     None \<Rightarrow> Inl BadEncoding | Some raw \<Rightarrow> if length raw \<noteq> 32 then Inl BadKey else Inr raw)"

definition decodeDeviceEnvelope :: "string \<Rightarrow> key_err + bytes" where
  "decodeDeviceEnvelope encoded = (case decodeFlexibleBase64 encoded of
     None \<Rightarrow> Inl BadEncoding | Some raw \<Rightarrow> if length raw \<noteq> 80 then Inl BadEnvelope else Inr raw)"

text \<open>A key pair as strings, from what \<open>box.GenerateKey\<close> returned.\<close>

definition NewDeviceKeyPair :: "(bytes \<times> bytes) option \<Rightarrow> key_err + string \<times> string" where
  "NewDeviceKeyPair gen = (case gen of
     None \<Rightarrow> Inl RandomError | Some (pub, priv) \<Rightarrow> Inr (encodeDeviceKey pub, encodeDeviceKey priv))"

section \<open>Sealing to a device\<close>

definition SealForDevice :: "nacl \<Rightarrow> bytes \<Rightarrow> string \<Rightarrow> key_err + string" where
  "SealForDevice nb plaintext targetPublicKey = (case decodeDeviceKey targetPublicKey of
     Inl e \<Rightarrow> Inl e
   | Inr pub \<Rightarrow> (case bx_seal nb plaintext pub of
       None \<Rightarrow> Inl SealError | Some sealed \<Rightarrow> Inr (encodeDeviceKey sealed)))"

definition OpenSealedForDevice :: "nacl \<Rightarrow> string \<Rightarrow> string \<Rightarrow> string \<Rightarrow> key_err + bytes" where
  "OpenSealedForDevice nb sealed publicKey privateKey = (case decodeFlexibleBase64 sealed of
     None \<Rightarrow> Inl BadEncoding
   | Some env \<Rightarrow> (case decodeDeviceKey publicKey of
       Inl e \<Rightarrow> Inl e
     | Inr pub \<Rightarrow> (case decodeDeviceKey privateKey of
         Inl e \<Rightarrow> Inl e
       | Inr priv \<Rightarrow> (case bx_open nb env pub priv of
           None \<Rightarrow> Inl NotAuthentic | Some opened \<Rightarrow> Inr opened))))"

definition SealContentKeyForDevice :: "nacl \<Rightarrow> bytes \<Rightarrow> string \<Rightarrow> key_err + string" where
  "SealContentKeyForDevice nb contentKey targetPublicKey =
     (if length contentKey \<noteq> 32 then Inl BadKey
      else (case decodeDeviceKey targetPublicKey of
          Inl e \<Rightarrow> Inl e
        | Inr pub \<Rightarrow> (case bx_seal nb contentKey pub of
            None \<Rightarrow> Inl SealError | Some sealed \<Rightarrow> Inr (encodeDeviceKey sealed))))"

definition OpenSealedContentKey :: "nacl \<Rightarrow> string \<Rightarrow> string \<Rightarrow> string \<Rightarrow> key_err + bytes" where
  "OpenSealedContentKey nb sealedKey publicKey privateKey = (case decodeDeviceEnvelope sealedKey of
     Inl e \<Rightarrow> Inl e
   | Inr sealed \<Rightarrow> (case decodeDeviceKey publicKey of
       Inl e \<Rightarrow> Inl e
     | Inr pub \<Rightarrow> (case decodeDeviceKey privateKey of
         Inl e \<Rightarrow> Inl e
       | Inr priv \<Rightarrow> (case bx_open nb sealed pub priv of
           None \<Rightarrow> Inl NotAuthentic
         | Some opened \<Rightarrow> if length opened \<noteq> 32 then Inl BadKey else Inr opened))))"

section \<open>Lemmas\<close>

lemma DecodeKey_EncodeKey [codec_simps]: "length key = 32 \<Longrightarrow> DecodeKey (EncodeKey key) = Inr key"
  by (simp add: DecodeKey_def EncodeKey_def)

lemma EncodeKey_inj: "EncodeKey a = EncodeKey b \<longleftrightarrow> a = b"
  by (simp add: EncodeKey_def b64_encode_inj)

lemma first_decoder_agree: "first_decoder ds v = Some x \<Longrightarrow> b64_decode e v = Some y \<Longrightarrow> x = y"
  by (induction ds) (auto split: option.splits dest: b64_decode_agree)

lemma first_decoder_some: "d \<in> set ds \<Longrightarrow> b64_decode d v = Some x \<Longrightarrow> \<exists>y. first_decoder ds v = Some y"
  by (induction ds) (auto split: option.splits)

text \<open>The flexible decoder reads any of the four encodings, whichever decoder happens to accept it first.\<close>

lemma enc_cases: "e \<in> {StdEncoding, RawStdEncoding, URLEncoding, RawURLEncoding}"
proof -
  obtain al p where "e = \<lparr>be_alphabet = al, be_padded = p\<rparr>" by (cases e) auto
  then show ?thesis by (cases al; cases p) (simp_all add: encodings)
qed

lemma decodeFlexible_encode [simp, codec_simps]: "decodeFlexibleBase64 (b64_encode e bs) = Some bs"
proof -
  let ?ds = "[StdEncoding, RawStdEncoding, URLEncoding, RawURLEncoding]"
  have m: "e \<in> set ?ds" using enc_cases [of e] by auto
  then obtain y where y: "first_decoder ?ds (b64_encode e bs) = Some y"
    using first_decoder_some [OF m, of "b64_encode e bs" bs] by auto
  then have "y = bs" using first_decoder_agree [OF y, of e bs] by simp
  then show ?thesis using y by (simp add: decodeFlexibleBase64_def)
qed

lemma decodeDeviceKey_encode [simp]: "length k = 32 \<Longrightarrow> decodeDeviceKey (encodeDeviceKey k) = Inr k"
  by (simp add: decodeDeviceKey_def encodeDeviceKey_def)

text \<open>Documented behaviour of an anonymous box for one key pair: it opens what was sealed to its public
  key, and a sealed message is 48 bytes longer.\<close>

definition box_pair :: "nacl \<Rightarrow> bytes \<Rightarrow> bytes \<Rightarrow> bool" where
  "box_pair nb pub priv \<longleftrightarrow> length pub = 32 \<and> length priv = 32 \<and>
     (\<forall>m c. bx_seal nb m pub = Some c \<longrightarrow> bx_open nb c pub priv = Some m \<and> length c = length m + 48)"

lemma open_sealed_payload:
  assumes "box_pair nb pub priv" "SealForDevice nb m (encodeDeviceKey pub) = Inr sealed"
  shows "OpenSealedForDevice nb sealed (encodeDeviceKey pub) (encodeDeviceKey priv) = Inr m"
proof -
  from assms obtain c where "bx_seal nb m pub = Some c" "sealed = encodeDeviceKey c"
    by (auto simp: SealForDevice_def box_pair_def split: option.splits)
  then show ?thesis using assms(1) by (auto simp: OpenSealedForDevice_def box_pair_def encodeDeviceKey_def [of c])
qed

lemma open_sealed_key:
  assumes "box_pair nb pub priv" "SealContentKeyForDevice nb k (encodeDeviceKey pub) = Inr sealed"
  shows "OpenSealedContentKey nb sealed (encodeDeviceKey pub) (encodeDeviceKey priv) = Inr k \<and> length k = 32"
proof -
  from assms obtain c where c: "bx_seal nb k pub = Some c" "sealed = encodeDeviceKey c" "length k = 32"
    by (auto simp: SealContentKeyForDevice_def box_pair_def split: option.splits if_splits)
  then have "bx_open nb c pub priv = Some k" "length c = 80" using assms(1) by (auto simp: box_pair_def)
  then show ?thesis using assms(1) c
    by (auto simp: OpenSealedContentKey_def decodeDeviceEnvelope_def box_pair_def encodeDeviceKey_def [of c])
qed

end
