(* ===== verification/SealedStream.thy ===== *)
theory SealedStream
  imports CryptoStream
begin

text \<open>
  What the encrypted stream format promises: the bytes \<open>EncryptStream\<close> writes are the header and one
  sealed frame per chunk of the content (the functional specification \<open>seal_frames\<close> of
  \<open>split_chunks\<close>); reading them back gives the content; a cut stream is an error; and under an AEAD
  that opens only what was sealed, nothing but the content is ever returned.
\<close>

section \<open>The written stream\<close>

function split_chunks :: "bytes \<Rightarrow> bytes list" where
  "split_chunks m =
     (if length m \<le> chunkSize then [m] else take chunkSize m # split_chunks (drop chunkSize m))"
  by pat_completeness auto

termination
  by (relation "measure length") (auto simp: chunkSize_def)

declare split_chunks.simps [simp del]

lemma split_chunks_small: "length m \<le> chunkSize \<Longrightarrow> split_chunks m = [m]"
  by (subst split_chunks.simps) simp

lemma split_chunks_step: "length c = chunkSize \<Longrightarrow> m \<noteq> [] \<Longrightarrow> split_chunks (c @ m) = c # split_chunks m"
  by (subst split_chunks.simps) simp

lemma concat_split_chunks [simp]: "concat (split_chunks m) = m"
  by (induction m rule: split_chunks.induct) (subst split_chunks.simps, simp)

lemma split_chunks_ne [simp]: "split_chunks m \<noteq> []"
  by (subst split_chunks.simps) simp

lemma split_chunks_length: "c \<in> set (split_chunks m) \<Longrightarrow> length c \<le> chunkSize"
proof (induction m rule: split_chunks.induct)
  case (1 m)
  then show ?case using split_chunks.simps [of m] by (auto split: if_splits)
qed

definition sealed_frame :: "aead \<Rightarrow> bytes \<Rightarrow> bytes \<Rightarrow> nat \<Rightarrow> bytes \<Rightarrow> bool \<Rightarrow> bytes" where
  "sealed_frame ae k header c pt fin =
     (let ct = ae_seal ae k (streamNonce c) pt (chunkAAD header (final_byte fin)) in
      be_put 4 (length ct) @ [final_byte fin] @ ct)"

fun seal_frames :: "aead \<Rightarrow> bytes \<Rightarrow> bytes \<Rightarrow> nat \<Rightarrow> bytes list \<Rightarrow> bytes" where
  "seal_frames ae k header c [] = []"
| "seal_frames ae k header c [x] = sealed_frame ae k header c x True"
| "seal_frames ae k header c (x # y # ys) =
     sealed_frame ae k header c x False @ seal_frames ae k header (Suc c) (y # ys)"

lemma put_Some: "put wok b sk = Some sk' \<Longrightarrow> sk_out sk' = sk_out sk @ b"
  by (auto simp: put_def split: if_splits)

lemma writeSealedChunk_None:
  "writeSealedChunk wok ae k header c pt fin sk = (None, sk') \<Longrightarrow>
   sk_out sk' = sk_out sk @ sealed_frame ae k header c pt fin"
  by (auto simp: writeSealedChunk_def sealed_frame_def Let_def dest!: put_Some split: if_splits option.splits)

lemma enc_loop_out:
  assumes "enc_loop wok ae k header c cur eof s sk = (None, sk')" "length cur \<le> chunkSize"
    and "eof \<longrightarrow> src_data s = []" "\<not> eof \<longrightarrow> length cur = chunkSize"
  shows "sk_out sk' = sk_out sk @ seal_frames ae k header c (split_chunks (cur @ src_data s))"
  using assms
proof (induction wok ae k header c cur eof s sk rule: enc_loop.induct)
  case (1 wok ae k header c cur eof s sk)
  show ?case
  proof (cases eof)
    case True
    then show ?thesis using 1(2,3,4)
      by (simp add: enc_loop.simps [of _ _ _ _ _ _ True] split_chunks_small writeSealedChunk_None)
  next
    case False
    note run = 1(2) [unfolded enc_loop.simps [of wok ae k header c cur eof s sk]]
    from run False obtain b e2 s' where rc: "readChunk s = Inr (b, e2, s')"
      by (cases "readChunk s") auto
    show ?thesis
    proof (cases "e2 \<and> b = []")
      case True
      then have "src_data s = []" using rc readChunk_end [of s b s'] by simp
      then show ?thesis using run rc True False 1(3)
        by (simp add: split_chunks_small writeSealedChunk_None)
    next
      case more: False
      then obtain sk1 where w: "writeSealedChunk wok ae k header c cur False sk = (None, sk1)"
        and rec: "enc_loop wok ae k header (Suc c) b e2 s' sk1 = (None, sk')"
        using run rc False by (auto split: prod.splits option.splits if_splits)
      have d: "src_data s = b @ src_data s'" "length b \<le> chunkSize" "e2 \<longrightarrow> src_data s' = []"
        "\<not> e2 \<longrightarrow> length b = chunkSize"
        using rc readChunk_more [of s b s'] readChunk_end [of s b s'] by (cases e2; auto)+
      have IH: "sk_out sk' = sk_out sk1 @ seal_frames ae k header (Suc c) (split_chunks (b @ src_data s'))"
        using 1(1) [OF False rc refl refl more w [symmetric] refl rec] d by simp
      have ne: "b @ src_data s' \<noteq> []" using more d(4) by (cases e2) (auto simp: chunkSize_def)
      have "split_chunks (cur @ src_data s) = cur # split_chunks (b @ src_data s')"
        using split_chunks_step [OF _ ne, of cur] False 1(5) d(1) by simp
      then show ?thesis using IH writeSealedChunk_None [OF w]
        by (cases "split_chunks (b @ src_data s')") simp_all
    qed
  qed
qed

definition stream_header :: "bytes \<Rightarrow> bytes" where
  "stream_header salt = encryptionMagic @ [char_of encVersionMajor, char_of encVersionHKDF] @ salt"

theorem EncryptStream_out:
  assumes "EncryptStream wok ae rnd key s sk = (None, sk')"
  shows "\<exists>salt. rnd = Some salt \<and> length key = 32 \<and> length (ae_hkdf ae key salt hkdfInfo) = 32 \<and>
    sk_out sk' = sk_out sk @ stream_header salt @
      seal_frames ae (ae_hkdf ae key salt hkdfInfo) (stream_header salt) 0 (split_chunks (src_data s))"
proof -
  from assms obtain salt where r: "rnd = Some salt" "length key = 32"
    by (auto simp: EncryptStream_def split: if_splits option.splits)
  let ?k = "ae_hkdf ae key salt hkdfInfo" and ?h = "stream_header salt"
  from assms r have k: "length ?k = 32"
    by (auto simp: EncryptStream_def deriveStreamKey_def newAEAD_def split: if_splits)
  from assms r k obtain sk1 b e s' where p: "put wok ?h sk = Some sk1" "readChunk s = Inr (b, e, s')"
    and run: "enc_loop wok ae ?k ?h 0 b e s' sk1 = (None, sk')"
    by (auto simp: EncryptStream_def deriveStreamKey_def newAEAD_def stream_header_def Let_def
        split: if_splits option.splits sum.splits)
  have d: "src_data s = b @ src_data s'" "length b \<le> chunkSize" "e \<longrightarrow> src_data s' = []"
    "\<not> e \<longrightarrow> length b = chunkSize"
    using p(2) readChunk_more [of s b s'] readChunk_end [of s b s'] by (cases e; auto)+
  from enc_loop_out [OF run d(2-4)] d(1) put_Some [OF p(1)] r k show ?thesis by simp
qed

section \<open>Encrypting returns\<close>

text \<open>Documented behaviour of AES-GCM under a key: it opens what it sealed, and adds a 16 byte tag.\<close>

definition gcm :: "aead \<Rightarrow> bytes \<Rightarrow> bool" where
  "gcm ae k \<longleftrightarrow> (\<forall>n p a. ae_open ae k n (ae_seal ae k n p a) a = Some p) \<and>
     (\<forall>n p a. length (ae_seal ae k n p a) = length p + 16)"

abbreviation all_ok :: "nat \<Rightarrow> bool" where "all_ok \<equiv> \<lambda>_. True"

lemma put_all_ok: "put all_ok b sk = Some (sk\<lparr>sk_out := sk_out sk @ b, sk_writes := Suc (sk_writes sk)\<rparr>)"
  by (simp add: put_def)

lemma writeSealedChunk_all_ok:
  assumes "gcm ae k" "length pt \<le> chunkSize"
  shows "\<exists>sk'. writeSealedChunk all_ok ae k header c pt fin sk = (None, sk')"
proof -
  have "length (ae_seal ae k n pt a) \<le> 2 ^ 32 - 1" for n a using assms by (simp add: gcm_def chunkSize_def)
  then have "\<not> 2 ^ 32 - 1 < length (ae_seal ae k (streamNonce c) pt (chunkAAD header (final_byte fin)))"
    by (simp only: not_less)
  then show ?thesis by (simp add: writeSealedChunk_def put_all_ok Let_def)
qed

lemma readChunk_total: "\<not> src_fails s \<Longrightarrow> \<exists>b e s'. readChunk s = Inr (b, e, s') \<and> length b \<le> chunkSize \<and> \<not> src_fails s'"
  by (auto simp: readChunk_def fill_def)

lemma enc_loop_total:
  assumes "gcm ae k" "\<not> src_fails s" "length cur \<le> chunkSize"
  shows "\<exists>sk'. enc_loop all_ok ae k header c cur eof s sk = (None, sk')"
  using assms
proof (induction all_ok ae k header c cur eof s sk rule: enc_loop.induct)
  case (1 ae k header c cur eof s sk)
  note W = writeSealedChunk_all_ok [OF 1(2,4)]
  obtain b e s' where rc: "readChunk s = Inr (b, e, s')" "length b \<le> chunkSize" "\<not> src_fails s'"
    using readChunk_total [OF 1(3)] by blast
  show ?case
  proof (cases "eof \<or> e \<and> b = []")
    case True
    then show ?thesis using rc W by (subst enc_loop.simps) auto
  next
    case False
    obtain sk1 where w: "writeSealedChunk all_ok ae k header c cur False sk = (None, sk1)" using W by blast
    have "\<exists>sk'. enc_loop all_ok ae k header (Suc c) b e s' sk1 = (None, sk')"
      using False 1(1) [OF _ rc(1) refl refl _ w [symmetric] refl] 1(2) rc by blast
    then show ?thesis using rc w False by (subst enc_loop.simps) auto
  qed
qed

lemma EncryptStream_total:
  assumes "gcm ae (ae_hkdf ae key salt hkdfInfo)" "length (ae_hkdf ae key salt hkdfInfo) = 32" "length key = 32"
    and "\<not> src_fails s"
  shows "\<exists>sk'. EncryptStream all_ok ae (Some salt) key s sk = (None, sk')"
proof -
  obtain b e s' where rc: "readChunk s = Inr (b, e, s')" "length b \<le> chunkSize" "\<not> src_fails s'"
    using readChunk_total [OF assms(4)] by blast
  show ?thesis
    using enc_loop_total [OF assms(1) rc(3,2)] assms rc(1)
    by (simp add: EncryptStream_def deriveStreamKey_def newAEAD_def put_all_ok Let_def)
qed

section \<open>Reading the frames\<close>

lemma fill_append: "src_data s = a @ r \<Longrightarrow> length a = n \<Longrightarrow> fill n s = (Filled, a, s\<lparr>src_data := r\<rparr>)"
  by (simp add: fill_def)

lemma fill_short: "length (src_data s) < n \<Longrightarrow> fst (fill n s) \<noteq> Filled"
  by (auto simp: fill_def)

text \<open>One frame in front of the input, sealed by the writer.\<close>

lemma read_frame:
  assumes "gcm ae k" "length pt \<le> chunkSize" "src_data s = sealed_frame ae k header c pt fin @ r"
  shows "readSealedChunks all_ok ae k header streamNonce c s sk =
    (let sk' = sk\<lparr>sk_out := sk_out sk @ pt, sk_writes := Suc (sk_writes sk)\<rparr> in
     if fin then (None, sk') else readSealedChunks all_ok ae k header streamNonce (Suc c) (s\<lparr>src_data := r\<rparr>) sk')"
proof -
  let ?a = "chunkAAD header (final_byte fin)"
  let ?ct = "ae_seal ae k (streamNonce c) pt ?a"
  have l: "length ?ct = length pt + 16" "ae_open ae k (streamNonce c) ?ct ?a = Some pt"
    using assms(1) by (simp_all add: gcm_def)
  have n: "be_get (be_put 4 (length ?ct)) = length ?ct" using l assms(2) by (simp add: chunkSize_def)
  have f1: "fill 4 s = (Filled, be_put 4 (length ?ct), s\<lparr>src_data := final_byte fin # ?ct @ r\<rparr>)"
    using assms(3) by (intro fill_append) (simp_all add: sealed_frame_def Let_def)
  have f2: "fill 1 (s\<lparr>src_data := final_byte fin # ?ct @ r\<rparr>) = (Filled, [final_byte fin], s\<lparr>src_data := ?ct @ r\<rparr>)"
    by (simp add: fill_def)
  have f3: "fill (length ?ct) (s\<lparr>src_data := ?ct @ r\<rparr>) = (Filled, ?ct, s\<lparr>src_data := r\<rparr>)"
    by (simp add: fill_def)
  have b: "0 < length ?ct" "length ?ct \<le> maxChunkCiphertext" using l assms(2) by (simp_all add: maxChunkCiphertext_def)
  show ?thesis
    by (subst readSealedChunks.simps) (use f1 f2 f3 n b l(2) in \<open>simp add: put_all_ok final_byte_def Let_def\<close>)
qed

lemma read_frames:
  assumes "gcm ae k" "\<forall>x\<in>set cs. length x \<le> chunkSize" "cs \<noteq> []"
    and "src_data s = seal_frames ae k header c cs @ r"
  shows "readSealedChunks all_ok ae k header streamNonce c s sk =
    (None, sk\<lparr>sk_out := sk_out sk @ concat cs, sk_writes := sk_writes sk + length cs\<rparr>)"
  using assms
proof (induction ae k header c cs arbitrary: s sk rule: seal_frames.induct)
  case (2 ae k header c x)
  then show ?case using read_frame [of ae k x s header c True r sk] by (simp add: Let_def)
next
  case (3 ae k header c x y ys)
  have f: "src_data s = sealed_frame ae k header c x False @ seal_frames ae k header (Suc c) (y # ys) @ r"
    using "3.prems"(4) by simp
  have IH: "readSealedChunks all_ok ae k header streamNonce (Suc c) s' sk' =
      (None, sk'\<lparr>sk_out := sk_out sk' @ concat (y # ys), sk_writes := sk_writes sk' + length (y # ys)\<rparr>)"
    if "src_data s' = seal_frames ae k header (Suc c) (y # ys) @ r" for s' sk'
    using "3.IH" [OF "3.prems"(1) _ _ that, of sk'] "3.prems"(2) by auto
  show ?case
    using read_frame [OF "3.prems"(1) _ f, of sk] IH "3.prems"(2) by (simp add: Let_def)
qed simp

section \<open>Cut streams\<close>

text \<open>A frame that is not all there ends the reading in an error, with nothing written.\<close>

lemma read_cut_frame:
  assumes "gcm ae k" "length pt \<le> chunkSize" "src_data s = take j (sealed_frame ae k header c pt fin)"
    and "j < length (sealed_frame ae k header c pt fin)"
  shows "\<exists>e. readSealedChunks wok ae k header streamNonce c s sk = (Some e, sk)"
proof -
  let ?ct = "ae_seal ae k (streamNonce c) pt (chunkAAD header (final_byte fin))"
  have l: "length ?ct = length pt + 16" using assms(1) by (simp add: gcm_def)
  have n: "be_get (be_put 4 (length ?ct)) = length ?ct" "0 < length ?ct" "length ?ct \<le> maxChunkCiphertext"
    using l assms(2) by (simp_all add: chunkSize_def maxChunkCiphertext_def)
  have d: "src_data s = take j (be_put 4 (length ?ct) @ [final_byte fin] @ ?ct)" "j < 5 + length ?ct"
    using assms(3,4) by (simp_all add: sealed_frame_def Let_def)
  consider "j < 4" | "j = 4" | "5 \<le> j" by linarith
  then show ?thesis
  proof cases
    case 1
    then have "length (src_data s) < 4" using d by simp
    then have "fst (fill 4 s) \<noteq> Filled" by (rule fill_short)
    then show ?thesis by (subst readSealedChunks.simps) (auto split: prod.splits fill_status.splits)
  next
    case 2
    then have f: "fill 4 s = (Filled, be_put 4 (length ?ct), s\<lparr>src_data := []\<rparr>)" using d by (intro fill_append) simp_all
    have "fst (fill 1 (s\<lparr>src_data := []\<rparr>)) \<noteq> Filled" by (rule fill_short) simp
    then show ?thesis using f n
      by (subst readSealedChunks.simps) (auto simp: Let_def split: prod.splits fill_status.splits)
  next
    case 3
    then obtain i where i: "j = 5 + i" using le_Suc_ex by blast
    have f: "fill 4 s = (Filled, be_put 4 (length ?ct), s\<lparr>src_data := final_byte fin # take i ?ct\<rparr>)"
      using d i by (intro fill_append) simp_all
    have f1: "fill 1 (s\<lparr>src_data := final_byte fin # take i ?ct\<rparr>) = (Filled, [final_byte fin], s\<lparr>src_data := take i ?ct\<rparr>)"
      by (simp add: fill_def)
    have "fst (fill (length ?ct) (s\<lparr>src_data := take i ?ct\<rparr>)) \<noteq> Filled"
      by (rule fill_short) (use d(2) i in simp)
    then show ?thesis using f f1 n
      by (subst readSealedChunks.simps) (auto simp: Let_def split: prod.splits fill_status.splits)
  qed
qed

lemma read_cut:
  assumes "gcm ae k" "\<forall>x\<in>set cs. length x \<le> chunkSize"
    and "src_data s = take j (seal_frames ae k header c cs)" "j < length (seal_frames ae k header c cs)"
  shows "\<exists>e sk' i. readSealedChunks all_ok ae k header streamNonce c s sk = (Some e, sk') \<and>
    sk_out sk' = sk_out sk @ concat (take i cs)"
  using assms
proof (induction ae k header c cs arbitrary: s sk j rule: seal_frames.induct)
  case (2 ae k header c x)
  then obtain e where "readSealedChunks all_ok ae k header streamNonce c s sk = (Some e, sk)"
    using read_cut_frame [of ae k x s j header c True] by auto
  then show ?case by (intro exI [of _ e] exI [of _ sk] exI [of _ 0]) simp
next
  case (3 ae k header c x y ys)
  let ?f = "sealed_frame ae k header c x False" and ?r = "seal_frames ae k header (Suc c) (y # ys)"
  show ?case
  proof (cases "j < length ?f")
    case True
    then obtain e where "readSealedChunks all_ok ae k header streamNonce c s sk = (Some e, sk)"
      using read_cut_frame [of ae k x s j header c False all_ok sk] 3 by auto
    then show ?thesis by (intro exI [of _ e] exI [of _ sk] exI [of _ 0]) simp
  next
    case False
    then have d: "src_data s = ?f @ take (j - length ?f) ?r" using "3.prems"(3) by simp
    let ?sk = "sk\<lparr>sk_out := sk_out sk @ x, sk_writes := Suc (sk_writes sk)\<rparr>"
    have st: "readSealedChunks all_ok ae k header streamNonce c s sk =
        readSealedChunks all_ok ae k header streamNonce (Suc c) (s\<lparr>src_data := take (j - length ?f) ?r\<rparr>) ?sk"
      using read_frame [OF "3.prems"(1) _ d] "3.prems"(2) by (simp add: Let_def)
    obtain e sk' i where "readSealedChunks all_ok ae k header streamNonce (Suc c)
        (s\<lparr>src_data := take (j - length ?f) ?r\<rparr>) ?sk = (Some e, sk')"
      "sk_out sk' = sk_out ?sk @ concat (take i (y # ys))"
      using "3.IH" [of "s\<lparr>src_data := take (j - length ?f) ?r\<rparr>" "j - length ?f" ?sk] "3.prems" False by fastforce
    then show ?thesis using st
      by (intro exI [of _ e] exI [of _ sk'] exI [of _ "Suc i"]) simp
  qed
qed simp

section \<open>Opening a whole stream\<close>

lemma decrypt_header:
  assumes "src_data s = stream_header salt @ r" "length salt = 16" "length key = 32"
    and "length (ae_hkdf ae key salt hkdfInfo) = 32"
  shows "DecryptStream wok ae key s sk =
    readSealedChunks wok ae (ae_hkdf ae key salt hkdfInfo) (stream_header salt) streamNonce 0 (s\<lparr>src_data := r\<rparr>) sk"
proof -
  let ?p = "encryptionMagic @ [char_of encVersionMajor, char_of encVersionHKDF]"
  have f1: "fill headerPrefixSize s = (Filled, ?p, s\<lparr>src_data := salt @ r\<rparr>)"
    using assms(1) by (intro fill_append) (simp_all add: stream_header_def format_defs)
  have f2: "fill saltSize (s\<lparr>src_data := salt @ r\<rparr>) = (Filled, salt, s\<lparr>src_data := r\<rparr>)"
    using assms(2) by (simp add: fill_def saltSize_def)
  have v: "take 4 ?p = encryptionMagic" "?p ! 4 = char_of encVersionMajor" "?p ! 5 = char_of encVersionHKDF"
    by (simp_all add: format_defs)
  show ?thesis using assms(3,4) f1 f2 v
    by (simp add: DecryptStream_def deriveStreamKey_def newAEAD_def decryptStreamHKDF_def stream_header_def)
qed

lemma EncryptStream_wire:
  assumes "EncryptStream wok ae (Some salt) key s sk = (None, sk')" "sk_out sk = []"
  shows "sk_out sk' = stream_header salt @
    seal_frames ae (ae_hkdf ae key salt hkdfInfo) (stream_header salt) 0 (split_chunks (src_data s))"
    "length key = 32" "length (ae_hkdf ae key salt hkdfInfo) = 32"
  using EncryptStream_out [OF assms(1)] assms(2) by auto

lemma cut_header:
  assumes "src_data s = take j (stream_header salt)" "j < length (stream_header salt)" "length salt = 16"
  shows "\<exists>e. DecryptStream wok ae key s sk = (Some e, sk)"
proof (cases "length key = 32")
  case True
  show ?thesis
  proof (cases "j < 6")
    case short: True
    then have "fst (fill headerPrefixSize s) \<noteq> Filled"
      using assms(1) by (intro fill_short) (simp add: headerPrefixSize_def)
    then show ?thesis using True by (auto simp: DecryptStream_def split: prod.splits fill_status.splits)
  next
    case False
    let ?p = "encryptionMagic @ [char_of encVersionMajor, char_of encVersionHKDF]"
    have d: "src_data s = ?p @ take (j - 6) salt" using assms(1) False
      by (simp add: stream_header_def encryptionMagic_def take_Cons split: nat.splits)
    have f1: "fill headerPrefixSize s = (Filled, ?p, s\<lparr>src_data := take (j - 6) salt\<rparr>)"
      using d by (intro fill_append) (simp_all add: format_defs)
    have "fst (fill saltSize (s\<lparr>src_data := take (j - 6) salt\<rparr>)) \<noteq> Filled"
      using assms(2,3) by (intro fill_short) (simp add: format_defs stream_header_def)
    moreover have v: "take 4 ?p = encryptionMagic" "?p ! 4 = char_of encVersionMajor" "?p ! 5 = char_of encVersionHKDF"
      by (simp_all add: format_defs)
    ultimately show ?thesis using True f1
      by (auto simp: DecryptStream_def split: prod.splits fill_status.splits)
  qed
qed (simp add: DecryptStream_def)

section \<open>An AEAD that opens only what was sealed\<close>

text \<open>The ideal AEAD of one encryption: nothing opens but the chunks \<open>cs\<close> sealed under \<open>k\<close>, each at its
  counter and with its end flag.\<close>

definition opens_only :: "aead \<Rightarrow> bytes \<Rightarrow> bytes \<Rightarrow> bytes list \<Rightarrow> bool" where
  "opens_only ae k header cs \<longleftrightarrow> (\<forall>k' n ct a p. ae_open ae k' n ct a = Some p \<longrightarrow> k' = k \<and>
     (\<exists>i<length cs. n = streamNonce i \<and> a = chunkAAD header (final_byte (Suc i = length cs)) \<and> p = cs ! i))"

lemma streamNonce_inj: "streamNonce i = streamNonce j \<Longrightarrow> i < 2 ^ 64 \<Longrightarrow> j < 2 ^ 64 \<Longrightarrow> i = j"
proof -
  assume "streamNonce i = streamNonce j" and b: "i < 2 ^ 64" "j < 2 ^ 64"
  then have "be_put 8 i = be_put 8 j" by (simp add: streamNonce_def)
  then have "i mod 256 ^ 8 = j mod 256 ^ 8" by (rule be_put_inj)
  then show "i = j" using b by simp
qed

lemma final_byte_one [simp]: "final_byte b = CHR 0x01 \<longleftrightarrow> b" "CHR 0x01 = final_byte b \<longleftrightarrow> b"
  by (auto simp: final_byte_def)

lemma read_step:
  assumes "readSealedChunks wok ae k header nonce c s sk = (r, sk')"
  shows "(\<exists>e. r = Some e \<and> sk' = sk) \<or>
    (\<exists>ct fb pt sk1 s'. ae_open ae k (nonce c) ct (chunkAAD header fb) = Some pt \<and> sk_out sk1 = sk_out sk @ pt \<and>
       length (src_data s') < length (src_data s) \<and>
       (if fb = CHR 0x01 then (r, sk') = (None, sk1)
        else readSealedChunks wok ae k header nonce (Suc c) s' sk1 = (r, sk')))"
proof -
  obtain x1 lb s1 where a: "fill 4 s = (x1, lb, s1)" by (cases "fill 4 s")
  show ?thesis
  proof (cases "x1 = Filled \<and> 0 < be_get lb \<and> be_get lb \<le> maxChunkCiphertext")
    case False
    then show ?thesis using assms a by (subst (asm) readSealedChunks.simps) (auto simp: Let_def split: fill_status.splits)
  next
    case t1: True
    obtain x2 fb s2 where b: "fill 1 s1 = (x2, fb, s2)" by (cases "fill 1 s1")
    obtain x3 ct s3 where c: "fill (be_get lb) s2 = (x3, ct, s3)" by (cases "fill (be_get lb) s2")
    show ?thesis
    proof (cases "x2 = Filled \<and> x3 = Filled")
      case False
      then show ?thesis using assms a b c t1
        by (subst (asm) readSealedChunks.simps) (auto simp: Let_def split: fill_status.splits)
    next
      case t2: True
      have len: "length (src_data s3) < length (src_data s)"
        using fill_Filled [of 4 s lb s1] fill_Filled [of 1 s1 fb s2] fill_Filled [of "be_get lb" s2 ct s3] a b c t1 t2 by simp
      show ?thesis
      proof (cases "ae_open ae k (nonce c) ct (chunkAAD header (hd fb))")
        case None
        then show ?thesis using assms a b c t1 t2 by (subst (asm) readSealedChunks.simps) (auto simp: Let_def)
      next
        case (Some pt)
        show ?thesis
        proof (cases "put wok pt sk")
          case None
          then show ?thesis using assms a b c t1 t2 Some by (subst (asm) readSealedChunks.simps) (auto simp: Let_def)
        next
          case p: (Some sk1)
          have "if hd fb = CHR 0x01 then (r, sk') = (None, sk1)
            else readSealedChunks wok ae k header nonce (Suc c) s3 sk1 = (r, sk')"
            using assms a b c t1 t2 Some p by (subst (asm) readSealedChunks.simps) (auto simp: Let_def)
          then show ?thesis using Some put_Some [OF p] len by blast
        qed
      qed
    qed
  qed
qed

lemma read_nothing_opens:
  assumes "\<And>n ct fb. ae_open ae k n ct (chunkAAD header fb) = None"
  shows "\<exists>e. readSealedChunks wok ae k header nonce c s sk = (Some e, sk)"
proof -
  obtain r sk' where run: "readSealedChunks wok ae k header nonce c s sk = (r, sk')" by fastforce
  from read_step [OF this] assms show ?thesis using run by auto
qed

lemma read_authentic:
  assumes "opens_only ae k header cs" "length cs \<le> 2 ^ 64" "c < length cs"
    and "readSealedChunks wok ae k' header' streamNonce c s sk = (r, sk')"
  shows "(\<exists>i. sk_out sk' = sk_out sk @ concat (take i (drop c cs))) \<and>
    (r = None \<longrightarrow> sk_out sk' = sk_out sk @ concat (drop c cs))"
  using assms(3,4)
proof (induction "length (src_data s)" arbitrary: s sk c rule: less_induct)
  case less
  note dc = Cons_nth_drop_Suc [OF less.prems(1)]
  from read_step [OF less.prems(2)] show ?case
  proof (elim disjE exE conjE)
    fix e assume "r = Some e" "sk' = sk"
    then show ?thesis by (auto intro: exI [of _ 0])
  next
    fix ct fb pt sk1 s'
    assume op: "ae_open ae k' (streamNonce c) ct (chunkAAD header' fb) = Some pt" and out: "sk_out sk1 = sk_out sk @ pt"
      and sm: "length (src_data s') < length (src_data s)"
      and k: "if fb = CHR 0x01 then (r, sk') = (None, sk1)
        else readSealedChunks wok ae k' header' streamNonce (Suc c) s' sk1 = (r, sk')"
    from assms(1) op obtain i where i: "i < length cs" "streamNonce c = streamNonce i"
      "chunkAAD header' fb = chunkAAD header (final_byte (Suc i = length cs))" "pt = cs ! i"
      unfolding opens_only_def by blast
    then have ic: "i = c" using streamNonce_inj [of i c] assms(2) less.prems(1) by simp
    then have fb: "fb = final_byte (Suc c = length cs)" using i(3) by (simp add: chunkAAD_def)
    show ?thesis
    proof (cases "Suc c = length cs")
      case True
      then have d: "drop c cs = [cs ! c]" using dc by simp
      moreover have "sk_out sk' = sk_out sk @ cs ! c" "r = None" using True fb k out i(4) ic by auto
      ultimately show ?thesis by (auto intro: exI [of _ 1])
    next
      case False
      then have "Suc c < length cs" using less.prems(1) by simp
      moreover have "readSealedChunks wok ae k' header' streamNonce (Suc c) s' sk1 = (r, sk')"
        using False fb k by (simp split: if_splits)
      ultimately have IH: "(\<exists>j. sk_out sk' = sk_out sk1 @ concat (take j (drop (Suc c) cs))) \<and>
        (r = None \<longrightarrow> sk_out sk' = sk_out sk1 @ concat (drop (Suc c) cs))"
        by (rule less.hyps [OF sm])
      then obtain j where "sk_out sk' = sk_out sk1 @ concat (take j (drop (Suc c) cs))" by blast
      then have "sk_out sk' = sk_out sk @ concat (take (Suc j) (drop c cs))"
        using out i(4) ic by (simp add: dc [symmetric])
      moreover have "r = None \<longrightarrow> sk_out sk' = sk_out sk @ concat (drop c cs)"
        using IH out i(4) ic by (simp add: dc [symmetric])
      ultimately show ?thesis by blast
    qed
  qed
qed

lemma legacy_nothing_opens:
  assumes "\<And>n ct. ae_open ae k n ct [] = None"
  shows "\<exists>r. decryptStreamLegacy wok ae k base c s sk = (r, sk)"
  by (subst decryptStreamLegacy.simps) (auto simp: assms Let_def split: prod.splits fill_status.splits)

lemma length_split_chunks: "length (split_chunks m) \<le> Suc (length m)"
proof (induction m rule: split_chunks.induct)
  case (1 m)
  then show ?case by (subst split_chunks.simps) (auto simp: chunkSize_def)
qed

section \<open>Properties\<close>

lemma decrypt_encrypt:
  assumes "EncryptStream wok ae (Some salt) key s sk = (None, sk')" "sk_out sk = []" "length salt = 16"
    and "gcm ae (ae_hkdf ae key salt hkdfInfo)"
  shows "\<exists>out'. DecryptStream all_ok ae key \<lparr>src_data = sk_out sk' @ trailing, src_fails = f\<rparr> out = (None, out') \<and>
    sk_out out' = sk_out out @ src_data s"
proof -
  note w = EncryptStream_wire [OF assms(1,2)]
  let ?k = "ae_hkdf ae key salt hkdfInfo" and ?h = "stream_header salt" and ?cs = "split_chunks (src_data s)"
  have "DecryptStream all_ok ae key \<lparr>src_data = sk_out sk' @ trailing, src_fails = f\<rparr> out =
      readSealedChunks all_ok ae ?k ?h streamNonce 0
        \<lparr>src_data = seal_frames ae ?k ?h 0 ?cs @ trailing, src_fails = f\<rparr> out"
    using w(2,3) assms(3)
    by (subst decrypt_header [where salt = salt and r = "seal_frames ae ?k ?h 0 ?cs @ trailing"]) (simp_all add: w(1))
  also have "\<dots> = (None, out\<lparr>sk_out := sk_out out @ concat ?cs, sk_writes := sk_writes out + length ?cs\<rparr>)"
    by (rule read_frames [OF assms(4)]) (auto dest: split_chunks_length)
  finally show ?thesis by simp
qed

text \<open>C14 An encrypted stream decrypts to its content: whatever \<open>EncryptStream\<close> wrote without an error, for
  content of any length (empty, short, an exact multiple of the chunk size), \<open>DecryptStream\<close> under the
  same key reads as exactly that content, and ignores what follows the final chunk.\<close>

theorem stream_roundtrip:
  assumes "EncryptStream wok ae (Some salt) key s sk = (None, sk')" "sk_out sk = []" "length salt = 16"
    and "gcm ae (ae_hkdf ae key salt hkdfInfo)"
  shows "\<exists>out'. DecryptStream all_ok ae key \<lparr>src_data = sk_out sk' @ trailing, src_fails = f\<rparr> out = (None, out') \<and>
    sk_out out' = sk_out out @ src_data s"
  using assms by (rule decrypt_encrypt)

definition toy_aead :: aead where
  "toy_aead = \<lparr>ae_seal = (\<lambda>k n p a. p @ replicate 16 CHR 0x00),
     ae_open = (\<lambda>k n c a. Some (take (length c - 16) c)), ae_hkdf = (\<lambda>k s i. k)\<rparr>"

definition toy_key :: bytes where "toy_key = replicate 32 CHR ''k''"
definition toy_salt :: bytes where "toy_salt = replicate 16 CHR ''s''"

lemma toy_gcm: "gcm toy_aead k" by (simp add: gcm_def toy_aead_def)

lemma toy_encrypts:
  "\<exists>sk'. EncryptStream all_ok toy_aead (Some toy_salt) toy_key \<lparr>src_data = ''hello'', src_fails = False\<rparr>
    \<lparr>sk_out = [], sk_writes = 0\<rparr> = (None, sk')"
  by (rule EncryptStream_total [OF toy_gcm]) (simp_all add: toy_aead_def toy_key_def)

lemma stream_roundtrip_witness:
  "\<exists>sk' out'. EncryptStream all_ok toy_aead (Some toy_salt) toy_key \<lparr>src_data = ''hello'', src_fails = False\<rparr>
      \<lparr>sk_out = [], sk_writes = 0\<rparr> = (None, sk') \<and>
    DecryptStream all_ok toy_aead toy_key \<lparr>src_data = sk_out sk' @ ''!!'', src_fails = False\<rparr>
      \<lparr>sk_out = [], sk_writes = 0\<rparr> = (None, out') \<and> sk_out out' = ''hello''"
proof -
  obtain sk' where e: "EncryptStream all_ok toy_aead (Some toy_salt) toy_key
      \<lparr>src_data = ''hello'', src_fails = False\<rparr> \<lparr>sk_out = [], sk_writes = 0\<rparr> = (None, sk')"
    using toy_encrypts by blast
  show ?thesis using e stream_roundtrip [OF e _ _ toy_gcm, of "''!!''" False "\<lparr>sk_out = [], sk_writes = 0\<rparr>"]
    by (auto simp: toy_salt_def)
qed

text \<open>C15 A truncated stream is never taken for a whole one: of what \<open>EncryptStream\<close> wrote, cut at any byte
  before its end, \<open>DecryptStream\<close> reports an error, and what it has written by then is a prefix of the
  content, whole chunks at a time.\<close>

theorem stream_truncation_detected:
  assumes "EncryptStream wok ae (Some salt) key s sk = (None, sk')" "sk_out sk = []" "length salt = 16"
    and "gcm ae (ae_hkdf ae key salt hkdfInfo)" and "j < length (sk_out sk')"
  shows "\<exists>e out' i. DecryptStream all_ok ae key \<lparr>src_data = take j (sk_out sk'), src_fails = f\<rparr> out = (Some e, out') \<and>
    sk_out out' = sk_out out @ concat (take i (split_chunks (src_data s)))"
proof -
  note w = EncryptStream_wire [OF assms(1,2)]
  let ?k = "ae_hkdf ae key salt hkdfInfo" and ?h = "stream_header salt" and ?cs = "split_chunks (src_data s)"
  let ?src = "\<lparr>src_data = take j (sk_out sk'), src_fails = f\<rparr>"
  show ?thesis
  proof (cases "j < length ?h")
    case True
    then obtain e where "DecryptStream all_ok ae key ?src out = (Some e, out)"
      using cut_header [of ?src j salt all_ok ae key out] assms(3) w(1) by auto
    then show ?thesis by (intro exI [of _ e] exI [of _ out] exI [of _ 0]) simp
  next
    case False
    let ?r = "take (j - length ?h) (seal_frames ae ?k ?h 0 ?cs)"
    have d: "src_data ?src = ?h @ ?r" using False w(1) by simp
    have "DecryptStream all_ok ae key ?src out =
        readSealedChunks all_ok ae ?k ?h streamNonce 0 (?src\<lparr>src_data := ?r\<rparr>) out"
      by (rule decrypt_header [OF d assms(3) w(2,3)])
    moreover have "\<exists>e out' i. readSealedChunks all_ok ae ?k ?h streamNonce 0 (?src\<lparr>src_data := ?r\<rparr>) out = (Some e, out') \<and>
        sk_out out' = sk_out out @ concat (take i ?cs)"
      by (rule read_cut [OF assms(4), where j = "j - length ?h"])
        (use assms(5) w(1) False in \<open>auto dest: split_chunks_length\<close>)
    ultimately show ?thesis by simp
  qed
qed

lemma stream_truncation_detected_witness:
  "\<exists>sk' e out' i. EncryptStream all_ok toy_aead (Some toy_salt) toy_key \<lparr>src_data = ''hello'', src_fails = False\<rparr>
      \<lparr>sk_out = [], sk_writes = 0\<rparr> = (None, sk') \<and>
    DecryptStream all_ok toy_aead toy_key \<lparr>src_data = take 7 (sk_out sk'), src_fails = False\<rparr>
      \<lparr>sk_out = [], sk_writes = 0\<rparr> = (Some e, out') \<and> sk_out out' = concat (take i (split_chunks ''hello''))"
proof -
  obtain sk' where e: "EncryptStream all_ok toy_aead (Some toy_salt) toy_key
      \<lparr>src_data = ''hello'', src_fails = False\<rparr> \<lparr>sk_out = [], sk_writes = 0\<rparr> = (None, sk')"
    using toy_encrypts by blast
  have l: "7 < length (sk_out sk')"
    using EncryptStream_wire(1) [OF e] by (simp add: stream_header_def toy_salt_def format_defs)
  show ?thesis
    using e stream_truncation_detected [OF e _ _ toy_gcm l, of False "\<lparr>sk_out = [], sk_writes = 0\<rparr>"]
    by (auto simp: toy_salt_def)
qed

lemma DecryptStream_reads:
  assumes "DecryptStream wok ae key' s sk = (r, sk')"
  obtains (refused) e where "r = Some e" "sk' = sk"
    | (stream) k h s' where "readSealedChunks wok ae k h streamNonce 0 s' sk = (r, sk')"
    | (short_header) k h b s' where "length h = 18" "readSealedChunks wok ae k h (nonceFor b) 0 s' sk = (r, sk')"
    | (legacy) k b s' where "src_data s ! 5 = char_of encVersionLegacy" "decryptStreamLegacy wok ae k b 0 s' sk = (r, sk')"
proof -
  obtain x1 p s1 where a: "fill headerPrefixSize s = (x1, p, s1)" by (cases "fill headerPrefixSize s")
  show ?thesis
  proof (cases "x1 = Filled")
    case False
    then show ?thesis using refused assms a
      by (auto simp: DecryptStream_def split: if_splits fill_status.splits)
  next
    case True
    then have p5: "p ! 5 = src_data s ! 5" "length p = 6"
      using fill_Filled [of headerPrefixSize s p s1] a by (auto simp: nth_append headerPrefixSize_def)
    obtain x2 b s2 where b: "fill nonceBaseSize s1 = (x2, b, s2)" by (cases "fill nonceBaseSize s1")
    have lb: "x2 = Filled \<Longrightarrow> length (p @ b) = 18"
      using fill_Filled [of nonceBaseSize s1 b s2] b p5 by (simp add: nonceBaseSize_def)
    have th: thesis if "readSealedChunks wok ae k (p @ b) (nonceFor b) 0 s2 sk = (r, sk')" "x2 = Filled" for k
      using short_header
        lb that by blast
    show ?thesis using assms a True b p5(1) refused stream legacy th
      by (auto simp: DecryptStream_def decryptStreamHKDF_def decryptStreamAEAD_def
          split: if_splits fill_status.splits prod.splits sum.splits)
  qed
qed


text \<open>An AEAD that opens one sealed chunk.\<close>

definition one_chunk_aead :: aead where
  "one_chunk_aead = \<lparr>ae_seal = (\<lambda>k n p a. p),
     ae_open = (\<lambda>k n c a. if k = toy_key \<and> n = streamNonce 0 \<and> a = chunkAAD (stream_header toy_salt) CHR 0x01
       then Some ''hello'' else None),
     ae_hkdf = (\<lambda>k s i. k)\<rparr>"


text \<open>The exception is real: for every key, a stream whose header names version 1.1 and whose first chunk
  length is zero decrypts successfully to the empty content, so whoever can replace a ciphertext can turn
  any share into an empty file that still opens, although the format version is said to be authenticated.\<close>

theorem legacy_downgrade_accepted:
  assumes "length key = 32" "length base = 12"
  shows "DecryptStream wok ae key
    \<lparr>src_data = encryptionMagic @ [char_of encVersionMajor, char_of encVersionLegacy] @ base @ be_put 4 0 @ rest,
     src_fails = f\<rparr> sk = (None, sk)"
proof -
  let ?p = "encryptionMagic @ [char_of encVersionMajor, char_of encVersionLegacy]"
  let ?s = "\<lambda>d. \<lparr>src_data = d, src_fails = f\<rparr>"
  have f1: "fill headerPrefixSize (?s (?p @ base @ be_put 4 0 @ rest)) = (Filled, ?p, ?s (base @ be_put 4 0 @ rest))"
    by (subst fill_append [where a = ?p and r = "base @ be_put 4 0 @ rest"]) (simp_all add: format_defs)
  have f2: "fill nonceBaseSize (?s (base @ be_put 4 0 @ rest)) = (Filled, base, ?s (be_put 4 0 @ rest))"
    using assms(2) by (simp add: fill_def nonceBaseSize_def)
  have f3: "fill 4 (?s (be_put 4 0 @ rest)) = (Filled, be_put 4 0, ?s rest)"
    by (subst fill_append [where a = "be_put 4 0" and r = rest]) simp_all
  have v: "take 4 ?p = encryptionMagic" "?p ! 4 = char_of encVersionMajor" "?p ! 5 = char_of encVersionLegacy"
    "char_of encVersionLegacy \<noteq> (char_of encVersionHKDF :: char)"
    "char_of encVersionLegacy \<noteq> (char_of encVersionAEAD :: char)"
    by (simp_all add: format_defs byte_mod)
  have "decryptStreamLegacy wok ae key base 0 (?s (be_put 4 0 @ rest)) sk = (None, sk)"
    using f3 by (subst decryptStreamLegacy.simps) (simp add: Let_def)
  then show ?thesis using f1 f2 v assms(1) by (simp add: DecryptStream_def newAEAD_def)
qed

lemma legacy_downgrade_accepted_witness:
  "DecryptStream all_ok toy_aead toy_key
    \<lparr>src_data = encryptionMagic @ [char_of encVersionMajor, char_of encVersionLegacy] @ replicate 12 CHR 0x07 @ be_put 4 0 @ [],
     src_fails = False\<rparr> \<lparr>sk_out = [], sk_writes = 0\<rparr> = (None, \<lparr>sk_out = [], sk_writes = 0\<rparr>)"
  by (rule legacy_downgrade_accepted) (simp_all add: toy_key_def)

end
