(* ===== verification/Hop.thy ===== *)
theory Hop
  imports CryptoKeys
begin

text \<open>
  Signed agent hops: \<open>crypto_sign.go\<close> and the signing step of \<open>agent_send.go\<close>. Ed25519 is the parameter
  record \<open>signer\<close>. Times are integers in nanoseconds since the epoch, durations in nanoseconds with the
  saturation of \<open>time.Time.Sub\<close>.
\<close>

record signer =
  sg_sign :: "bytes \<Rightarrow> bytes \<Rightarrow> bytes"
  sg_verify :: "bytes \<Rightarrow> bytes \<Rightarrow> bytes \<Rightarrow> bool"

record HopClaims =
  SenderDeviceID :: string
  TargetDeviceID :: string
  TargetSessionID :: string
  Tool :: string
  SealedPrompt :: string
  SealedFileKey :: string
  GoalID :: string
  IssuedAt :: int
  Nonce :: string
  ProjectID :: string
  SenderAgentID :: string
  TargetAgentID :: string

datatype hop_err = HopSignature | HopStale | HopKey key_err

definition hopSigningDomain :: string where "hopSigningDomain = ''share2us/agent-hop/v2''"

definition unix_seconds :: "int \<Rightarrow> int" where "unix_seconds t = t div 1000000000"

section \<open>The signed bytes\<close>

definition appendField :: "bytes \<Rightarrow> string \<Rightarrow> bytes" where
  "appendField buf field = buf @ be_put 4 (length field) @ field"

definition hop_fields :: "HopClaims \<Rightarrow> string list" where
  "hop_fields c =
     [SenderDeviceID c, TargetDeviceID c, TargetSessionID c, Tool c, SealedPrompt c, SealedFileKey c, GoalID c,
      itoa (unix_seconds (IssuedAt c)), Nonce c, ProjectID c, SenderAgentID c, TargetAgentID c]"

definition SigningBytes :: "HopClaims \<Rightarrow> bytes" where
  "SigningBytes c = foldl appendField (appendField [] hopSigningDomain) (hop_fields c)"

text \<open>A field is a self-delimiting encoding.\<close>

definition hop_field :: "string \<Rightarrow> bytes" where
  "hop_field f = be_put 4 (length f) @ f"

definition take_field :: "bytes \<Rightarrow> (string \<times> bytes) option" where
  "take_field inp = (case read_full 4 inp of None \<Rightarrow> None | Some (n, r) \<Rightarrow> read_full (be_get n) r)"

interpretation hop_codec: prefix_codec hop_field take_field "\<lambda>f. length f < 2 ^ 32"
  by unfold_locales (simp_all add: hop_field_def take_field_def read_full_def)

lemma foldl_appendField: "foldl appendField b fs = b @ concat (map hop_field fs)"
  by (induction fs arbitrary: b) (simp_all add: appendField_def hop_field_def)

lemma SigningBytes_fields: "SigningBytes c = concat (map hop_field (hopSigningDomain # hop_fields c))"
  by (simp add: SigningBytes_def foldl_appendField appendField_def hop_field_def)

text \<open>The claims as the signature sees them: the time in whole seconds.\<close>

definition whole_seconds :: "HopClaims \<Rightarrow> HopClaims" where
  "whole_seconds c = c\<lparr>IssuedAt := unix_seconds (IssuedAt c)\<rparr>"

definition fields_fit :: "HopClaims \<Rightarrow> bool" where
  "fields_fit c \<longleftrightarrow> list_all (\<lambda>f. length f < 2 ^ 32) (hop_fields c)"

lemma hop_fields_whole:
  "hop_fields c = (\<lambda>w. [SenderDeviceID w, TargetDeviceID w, TargetSessionID w, Tool w, SealedPrompt w, SealedFileKey w,
     GoalID w, itoa (IssuedAt w), Nonce w, ProjectID w, SenderAgentID w, TargetAgentID w]) (whole_seconds c)"
  by (simp add: hop_fields_def whole_seconds_def)

lemma hop_fields_inj: "hop_fields c = hop_fields d \<Longrightarrow> whole_seconds c = whole_seconds d"
  by (cases c; cases d) (simp add: hop_fields_def whole_seconds_def itoa_inj)

lemma SigningBytes_inj:
  assumes "fields_fit c" "fields_fit d" "SigningBytes c = SigningBytes d"
  shows "whole_seconds c = whole_seconds d"
proof -
  have ok: "list_all (\<lambda>f. length f < 2 ^ 32) (hopSigningDomain # hop_fields x)" if "fields_fit x" for x
    using that by (simp add: fields_fit_def hopSigningDomain_def)
  have "hopSigningDomain # hop_fields c = hopSigningDomain # hop_fields d"
    by (rule hop_codec.concat_inj [OF ok [OF assms(1)] ok [OF assms(2)] assms(3) [unfolded SigningBytes_fields]])
  then have "hop_fields c = hop_fields d" by (simp only: list.inject simp_thms)
  then show ?thesis by (rule hop_fields_inj)
qed

section \<open>Signing and verifying\<close>

definition decodeSigningPublicKey :: "string \<Rightarrow> key_err + bytes" where
  "decodeSigningPublicKey encoded = (case decodeFlexibleBase64 encoded of
     None \<Rightarrow> Inl BadEncoding | Some raw \<Rightarrow> if length raw \<noteq> 32 then Inl BadKey else Inr raw)"

definition decodeSigningPrivateKey :: "string \<Rightarrow> key_err + bytes" where
  "decodeSigningPrivateKey encoded = (case decodeFlexibleBase64 encoded of
     None \<Rightarrow> Inl BadEncoding | Some raw \<Rightarrow> if length raw \<noteq> 64 then Inl BadKey else Inr raw)"

definition NewHopNonce :: "bytes option \<Rightarrow> key_err + string" where
  "NewHopNonce rnd = (case rnd of None \<Rightarrow> Inl RandomError | Some b \<Rightarrow> Inr (b64_encode RawURLEncoding b))"

definition NewSigningKeyPair :: "(bytes \<times> bytes) option \<Rightarrow> key_err + string \<times> string" where
  "NewSigningKeyPair gen = (case gen of None \<Rightarrow> Inl RandomError
     | Some (pub, priv) \<Rightarrow> Inr (b64_encode StdEncoding pub, b64_encode StdEncoding priv))"

definition SignHop :: "signer \<Rightarrow> HopClaims \<Rightarrow> string \<Rightarrow> key_err + string" where
  "SignHop sg c privateKey = (case decodeSigningPrivateKey privateKey of
     Inl e \<Rightarrow> Inl e | Inr priv \<Rightarrow> Inr (b64_encode StdEncoding (sg_sign sg priv (SigningBytes c))))"

definition VerifyHop :: "signer \<Rightarrow> HopClaims \<Rightarrow> string \<Rightarrow> string \<Rightarrow> hop_err option" where
  "VerifyHop sg c signature publicKey = (case decodeSigningPublicKey publicKey of
     Inl e \<Rightarrow> Some HopSignature
   | Inr pub \<Rightarrow> (case decodeFlexibleBase64 signature of
       None \<Rightarrow> Some HopSignature
     | Some sig \<Rightarrow>
         if length sig \<noteq> 64 then Some HopSignature
         else if \<not> sg_verify sg pub (SigningBytes c) sig then Some HopSignature else None))"

text \<open>\<open>now.Sub(issued)\<close> saturates at the ends of \<open>int64\<close>.\<close>

definition time_sub :: "int \<Rightarrow> int \<Rightarrow> int" where
  "time_sub t u = max (- (2 ^ 63)) (min (2 ^ 63 - 1) (t - u))"

definition VerifyHopFresh :: "signer \<Rightarrow> HopClaims \<Rightarrow> string \<Rightarrow> string \<Rightarrow> int \<Rightarrow> int \<Rightarrow> hop_err option" where
  "VerifyHopFresh sg c signature publicKey now window = (case VerifyHop sg c signature publicKey of
     Some e \<Rightarrow> Some e
   | None \<Rightarrow> let age = time_sub now (IssuedAt c) in
       if age > window \<or> age < - window then Some HopStale else None)"

section \<open>Signing an inject\<close>

record AgentInjectInput =
  ai_target_device_id :: string
  ai_target_session_id :: string
  ai_tool :: string
  ai_sealed_prompt :: string
  ai_object_key :: string
  ai_lan_file :: bool
  ai_sealed_file_key :: string
  ai_goal_id :: string
  ai_signature :: string
  ai_issued_at :: string
  ai_nonce :: string
  ai_project_id :: string
  ai_sender_agent_id :: string
  ai_target_agent_id :: string

definition normalize_inject :: "AgentInjectInput \<Rightarrow> AgentInjectInput" where
  "normalize_inject i = i\<lparr>
     ai_target_device_id := trim_space (ai_target_device_id i),
     ai_target_session_id := trim_space (ai_target_session_id i),
     ai_tool := to_lower (trim_space (ai_tool i)),
     ai_sealed_file_key := trim_space (ai_sealed_file_key i),
     ai_goal_id := trim_space (ai_goal_id i),
     ai_project_id := trim_space (ai_project_id i),
     ai_sender_agent_id := trim_space (ai_sender_agent_id i),
     ai_target_agent_id := trim_space (ai_target_agent_id i)\<rparr>"

text \<open>What the signature of an inject covers, from the fields it carries.\<close>

definition inject_claims :: "string \<Rightarrow> int \<Rightarrow> string \<Rightarrow> AgentInjectInput \<Rightarrow> HopClaims" where
  "inject_claims sender issued nonce i =
     \<lparr>SenderDeviceID = sender, TargetDeviceID = ai_target_device_id i, TargetSessionID = ai_target_session_id i,
      Tool = ai_tool i, SealedPrompt = ai_sealed_prompt i, SealedFileKey = ai_sealed_file_key i, GoalID = ai_goal_id i,
      IssuedAt = issued, Nonce = nonce, ProjectID = ai_project_id i, SenderAgentID = ai_sender_agent_id i,
      TargetAgentID = ai_target_agent_id i\<rparr>"

definition truncate_second :: "int \<Rightarrow> int" where "truncate_second t = unix_seconds t * 1000000000"

text \<open>\<open>signHopWithNonce\<close>; \<open>rfc3339\<close> is the rendering of the issue time.\<close>

definition signHopWithNonce ::
  "signer \<Rightarrow> (int \<Rightarrow> string) \<Rightarrow> AgentInjectInput \<Rightarrow> string \<Rightarrow> string \<Rightarrow> int \<Rightarrow> string \<Rightarrow> key_err + AgentInjectInput" where
  "signHopWithNonce sg rfc3339 i0 deviceSession signingKey now nonce =
     (let i = normalize_inject i0; issued = truncate_second now in
      (case SignHop sg (inject_claims deviceSession issued nonce i) signingKey of
         Inl e \<Rightarrow> Inl e
       | Inr sig \<Rightarrow> Inr (i\<lparr>ai_signature := sig, ai_issued_at := rfc3339 issued, ai_nonce := nonce\<rparr>)))"

section \<open>Lemmas\<close>

text \<open>Documented behaviour of Ed25519 for one key pair.\<close>

definition signing_pair :: "signer \<Rightarrow> bytes \<Rightarrow> bytes \<Rightarrow> bool" where
  "signing_pair sg priv pub \<longleftrightarrow> length priv = 64 \<and> length pub = 32 \<and>
     (\<forall>m. sg_verify sg pub m (sg_sign sg priv m) \<and> length (sg_sign sg priv m) = 64)"

lemma VerifyHop_None:
  "VerifyHop sg c sig key = None \<longleftrightarrow> (\<exists>pub s. decodeSigningPublicKey key = Inr pub \<and>
     decodeFlexibleBase64 sig = Some s \<and> length s = 64 \<and> sg_verify sg pub (SigningBytes c) s)"
  by (auto simp: VerifyHop_def split: sum.splits option.splits)

lemma SignHop_verifies:
  assumes "signing_pair sg priv pub" "SignHop sg c (b64_encode StdEncoding priv) = Inr sig"
  shows "VerifyHop sg c sig (b64_encode StdEncoding pub) = None"
  using assms by (auto simp: VerifyHop_None SignHop_def decodeSigningPrivateKey_def decodeSigningPublicKey_def signing_pair_def)

section \<open>Properties\<close>

text \<open>C17 A signature covers one hop: the signed bytes of two claims, with fields under 4 GiB, are equal only if
  the claims agree in every field, sender, target, session, tool, prompt, file key, goal, nonce, project and
  both agents, and in the issue time to the second, so none of them can be changed or shifted into another.\<close>

theorem hop_signature_covers_every_field:
  assumes "fields_fit c" "fields_fit d"
  shows "SigningBytes c = SigningBytes d \<longleftrightarrow> whole_seconds c = whole_seconds d"
proof
  assume "whole_seconds c = whole_seconds d"
  then have "hop_fields c = hop_fields d" by (simp only: hop_fields_whole)
  then show "SigningBytes c = SigningBytes d" by (simp only: SigningBytes_def)
qed (rule SigningBytes_inj [OF assms])

definition toy_claims :: HopClaims where
  "toy_claims = \<lparr>SenderDeviceID = ''s'', TargetDeviceID = ''t'', TargetSessionID = ''u'', Tool = ''codex'',
     SealedPrompt = ''p'', SealedFileKey = [], GoalID = [], IssuedAt = 7123456789, Nonce = ''n'',
     ProjectID = [], SenderAgentID = [], TargetAgentID = []\<rparr>"

lemma itoa_toy: "itoa (unix_seconds 7123456789) = ''7''"
proof -
  have "unix_seconds 7123456789 = 7" by (simp add: unix_seconds_def)
  moreover have "(char_of (55 :: nat) :: char) = CHR ''7''" by code_simp
  then have "digits 7 = ''7''" by (subst digits.simps) simp
  ultimately show ?thesis by (simp add: itoa_def)
qed

lemma toy_claims_fit: "length g < 2 ^ 32 \<Longrightarrow> fields_fit (toy_claims\<lparr>GoalID := g\<rparr>)"
  by (simp add: fields_fit_def hop_fields_def toy_claims_def itoa_toy)

text \<open>Moving a hop to another goal changes what is signed.\<close>

lemma hop_signature_covers_every_field_witness:
  "SigningBytes (toy_claims\<lparr>GoalID := ''a''\<rparr>) \<noteq> SigningBytes (toy_claims\<lparr>GoalID := ''b''\<rparr>)"
proof -
  have "whole_seconds (toy_claims\<lparr>GoalID := ''a''\<rparr>) \<noteq> whole_seconds (toy_claims\<lparr>GoalID := ''b''\<rparr>)"
    by (simp add: whole_seconds_def toy_claims_def)
  then show ?thesis
    using hop_signature_covers_every_field [OF toy_claims_fit [of "''a''"] toy_claims_fit [of "''b''"]] by simp
qed

text \<open>What a fresh hop says is what its sender signed: if the key verifies only messages in \<open>signed\<close>, an accepted
  hop agrees with one of the claims the sender signed in every field and the second of issue, and it was
  issued within the window around now, on either side.\<close>

theorem accepted_hop_authentic:
  assumes "VerifyHopFresh sg c sig key now window = None"
    and "\<forall>pub m s. decodeSigningPublicKey key = Inr pub \<longrightarrow> sg_verify sg pub m s \<longrightarrow> (\<exists>d\<in>signed. fields_fit d \<and> m = SigningBytes d)"
    and "fields_fit c" "window < 2 ^ 63 - 1"
  shows "\<exists>d\<in>signed. whole_seconds c = whole_seconds d \<and> \<bar>now - IssuedAt c\<bar> \<le> window"
proof -
  have v: "VerifyHop sg c sig key = None" and w: "\<not> time_sub now (IssuedAt c) > window" "\<not> time_sub now (IssuedAt c) < - window"
    using assms(1) by (auto simp: VerifyHopFresh_def Let_def split: option.splits if_splits)
  from v obtain pub s where k: "decodeSigningPublicKey key = Inr pub" "sg_verify sg pub (SigningBytes c) s"
    by (auto simp: VerifyHop_None)
  then obtain d where d: "d \<in> signed" "fields_fit d" "SigningBytes c = SigningBytes d" using assms(2) by blast
  have "whole_seconds c = whole_seconds d" by (rule SigningBytes_inj [OF assms(3) d(2,3)])
  moreover have "\<bar>now - IssuedAt c\<bar> \<le> window" using w assms(4) by (simp add: time_sub_def)
  ultimately show ?thesis using d(1) by blast
qed

definition toy_signer :: signer where
  "toy_signer = \<lparr>sg_sign = (\<lambda>k m. replicate 64 CHR ''s''),
     sg_verify = (\<lambda>k m s. m = SigningBytes toy_claims \<and> s = replicate 64 CHR ''s'')\<rparr>"

definition toy_public :: bytes where "toy_public = replicate 32 CHR ''p''"

lemma toy_claims_fit' [simp]: "fields_fit toy_claims"
  using toy_claims_fit [of "[]"] by (simp add: toy_claims_def)

lemma toy_verifies: "VerifyHopFresh toy_signer toy_claims (b64_encode StdEncoding (replicate 64 CHR ''s''))
    (b64_encode StdEncoding toy_public) 67000000000 300000000000 = None"
proof -
  have "VerifyHop toy_signer toy_claims (b64_encode StdEncoding (replicate 64 CHR ''s''))
      (b64_encode StdEncoding toy_public) = None"
    by (simp only: VerifyHop_None) (simp add: decodeSigningPublicKey_def toy_public_def toy_signer_def)
  then show ?thesis by (simp add: VerifyHopFresh_def time_sub_def) (simp add: toy_claims_def)
qed

lemma accepted_hop_authentic_witness:
  "\<bar>67000000000 - IssuedAt toy_claims\<bar> \<le> 300000000000"
proof -
  have u: "\<forall>pub m s. decodeSigningPublicKey (b64_encode StdEncoding toy_public) = Inr pub \<longrightarrow>
      sg_verify toy_signer pub m s \<longrightarrow> (\<exists>d\<in>{toy_claims}. fields_fit d \<and> m = SigningBytes d)"
    by (simp add: toy_signer_def)
  from accepted_hop_authentic [OF toy_verifies u toy_claims_fit'] show ?thesis by simp
qed

lemma inject_signed:
  assumes "signing_pair sg priv pub"
    and "signHopWithNonce sg rfc3339 i0 dev (b64_encode StdEncoding priv) now nonce = Inr i"
  shows "ai_target_device_id i = trim_space (ai_target_device_id i0) \<and> ai_tool i = to_lower (trim_space (ai_tool i0)) \<and>
    ai_nonce i = nonce \<and> ai_sealed_prompt i = ai_sealed_prompt i0 \<and>
    VerifyHopFresh sg (inject_claims dev (truncate_second now) nonce i) (ai_signature i) (b64_encode StdEncoding pub) now
      1000000000 = None"
proof -
  let ?i = "normalize_inject i0"
  from assms(2) obtain s where s: "SignHop sg (inject_claims dev (truncate_second now) nonce ?i) (b64_encode StdEncoding priv) = Inr s"
    "i = ?i\<lparr>ai_signature := s, ai_issued_at := rfc3339 (truncate_second now), ai_nonce := nonce\<rparr>"
    by (auto simp: signHopWithNonce_def Let_def split: sum.splits)
  have c: "inject_claims dev (truncate_second now) nonce i = inject_claims dev (truncate_second now) nonce ?i"
    using s(2) by (simp add: inject_claims_def)
  have v: "VerifyHop sg (inject_claims dev (truncate_second now) nonce i) (ai_signature i) (b64_encode StdEncoding pub) = None"
    using SignHop_verifies [OF assms(1) s(1)] s(2) unfolding c by simp
  have "now - truncate_second now = now mod 1000000000"
    by (simp add: truncate_second_def unix_seconds_def minus_div_mult_eq_mod)
  moreover have "0 \<le> now mod 1000000000" "now mod 1000000000 < 1000000000" by simp_all
  ultimately have "time_sub now (IssuedAt (inject_claims dev (truncate_second now) nonce i)) \<in> {0..<1000000000}"
    by (simp add: time_sub_def inject_claims_def)
  then show ?thesis using v s(2) by (simp add: VerifyHopFresh_def normalize_inject_def Let_def)
qed

text \<open>A hop is signed over what is sent: an inject that \<open>signHopWithNonce\<close> signs carries the identifiers the
  server will read (trimmed, the tool in lower case; normalising it again changes nothing), and verifies
  under the device's public key with the fields it carries and the time it was signed, cut to the second.\<close>

theorem signed_inject_verifies:
  assumes "signing_pair sg priv pub"
    and "signHopWithNonce sg rfc3339 i0 dev (b64_encode StdEncoding priv) now nonce = Inr i"
  shows "ai_target_device_id i = trim_space (ai_target_device_id i0) \<and> ai_tool i = to_lower (trim_space (ai_tool i0)) \<and>
    ai_nonce i = nonce \<and> ai_sealed_prompt i = ai_sealed_prompt i0 \<and>
    VerifyHopFresh sg (inject_claims dev (truncate_second now) nonce i) (ai_signature i) (b64_encode StdEncoding pub) now
      1000000000 = None"
  using assms by (rule inject_signed)

definition toy_private :: bytes where "toy_private = replicate 64 CHR ''q''"

definition toy_inject :: AgentInjectInput where
  "toy_inject = \<lparr>ai_target_device_id = '' dev '', ai_target_session_id = ''sess'', ai_tool = ''Codex'',
     ai_sealed_prompt = ''x'', ai_object_key = [], ai_lan_file = False, ai_sealed_file_key = [], ai_goal_id = [],
     ai_signature = [], ai_issued_at = [], ai_nonce = [], ai_project_id = [], ai_sender_agent_id = [],
     ai_target_agent_id = []\<rparr>"

definition any_signer :: signer where
  "any_signer = \<lparr>sg_sign = (\<lambda>k m. replicate 64 CHR ''s''), sg_verify = (\<lambda>k m s. True)\<rparr>"

lemma any_pair: "signing_pair any_signer toy_private toy_public"
  by (simp add: signing_pair_def any_signer_def toy_private_def toy_public_def)

lemma signed_inject_verifies_witness:
  "\<exists>i. signHopWithNonce any_signer (\<lambda>_. ''t'') toy_inject ''me'' (b64_encode StdEncoding toy_private) 5 ''n'' = Inr i \<and>
    ai_tool i = to_lower (trim_space ''Codex'') \<and> ai_nonce i = ''n''"
proof -
  have "length toy_private = 64" by (simp add: toy_private_def)
  then obtain i where i: "signHopWithNonce any_signer (\<lambda>_. ''t'') toy_inject ''me'' (b64_encode StdEncoding toy_private) 5 ''n''
      = Inr i"
    by (simp add: signHopWithNonce_def SignHop_def decodeSigningPrivateKey_def Let_def)
  show ?thesis using i signed_inject_verifies [OF any_pair i] by (auto simp: toy_inject_def)
qed

end
