(* ===== verification/Policy.thy ===== *)
theory Policy
  imports GoPath "HOL-Library.Word"
begin

text \<open>
  The small policies a transfer consults: how long it may take (\<open>lanshare/transfer_deadline.go\<close>), whether
  the disk has room (\<open>lanshare/freespace.go\<close>), whether two builds may talk (\<open>lanshare/compat.go\<close>), where a
  name the user did not choose may land (\<open>uniquepath.go\<close>), and what an expiry means (\<open>duration.go\<close>).
  Durations are \<open>int64\<close> nanoseconds and are kept as 64-bit words: products wrap.
\<close>

section \<open>Transfer deadlines\<close>

definition second_ns :: "64 word" where "second_ns = 1000000000"
definition transferGrace :: "64 word" where "transferGrace = 10 * 60 * second_ns"
definition transferMinBytesPerSecond :: int where "transferMinBytesPerSecond = 16 * 1024"
definition transferMaxDuration :: "64 word" where "transferMaxDuration = 12 * 60 * 60 * second_ns"

text \<open>The time \<open>transferDeadline\<close> adds to now, for the declared size (an \<open>int64\<close>).\<close>

definition transfer_allowance :: "64 word \<Rightarrow> 64 word" where
  "transfer_allowance sz =
     (let seconds = sint sz div transferMinBytesPerSecond;
          most = sint transferMaxDuration div sint second_ns;
          capped = (if seconds > most then most else seconds);
          d = (if 0 < sint sz then transferGrace + word_of_int capped * second_ns else transferGrace) in
      if sint d > sint transferMaxDuration then transferMaxDuration else d)"

definition transferDeadline :: "int \<Rightarrow> 64 word \<Rightarrow> int" where
  "transferDeadline now sz = now + sint (transfer_allowance sz)"

section \<open>Free space\<close>

definition space_margin :: int where "space_margin = 64 * 2 ^ 20"

text \<open>\<open>freeSpace\<close> on Unix: the blocks and their size that the file system reports, if it does; the product is at 64 bits.\<close>

definition freeSpace :: "(64 word \<times> 64 word) option \<Rightarrow> 64 word option" where
  "freeSpace st = (case st of None \<Rightarrow> None | Some (bavail, bsize) \<Rightarrow> Some (bavail * bsize))"

text \<open>\<open>free\<close> is what \<open>freeSpace\<close> reported, if it could; the sum is at 64 bits.\<close>

definition ensureFreeSpace :: "64 word option \<Rightarrow> 64 word \<Rightarrow> bool" where
  "ensureFreeSpace free need =
     (if sint need \<le> 0 then True
      else (case free of None \<Rightarrow> True | Some fr \<Rightarrow> \<not> fr < need + word_of_int space_margin))"

section \<open>Build compatibility\<close>

datatype Compat = CompatOK | CompatOlder | CompatIncompatible | CompatUnknown

definition MinCompatibleVersion :: string where "MinCompatibleVersion = ''20260901000000''"

definition isStamp :: "string \<Rightarrow> bool" where
  "isStamp v = (let t = trim_space v in length t = 14 \<and> (\<forall>rb\<in>set (runes t). 0x30 \<le> fst rb \<and> fst rb \<le> 0x39))"

text \<open>\<open>strings.Compare\<close>: less.\<close>

fun cmp_less :: "string \<Rightarrow> string \<Rightarrow> bool" where
  "cmp_less [] [] = False"
| "cmp_less [] (b # bs) = True"
| "cmp_less (a # as) [] = False"
| "cmp_less (a # as) (b # bs) =
     ((of_char a :: nat) < of_char b \<or> a = b \<and> cmp_less as bs)"

definition CompatWith :: "string \<Rightarrow> string \<Rightarrow> string \<Rightarrow> Compat" where
  "CompatWith myVersion peerVersion peerMin =
     (if \<not> isStamp peerVersion then CompatUnknown
      else if isStamp peerVersion \<and> cmp_less peerVersion MinCompatibleVersion then CompatIncompatible
      else if isStamp myVersion \<and> isStamp peerMin \<and> cmp_less myVersion peerMin then CompatIncompatible
      else if isStamp myVersion \<and> cmp_less peerVersion myVersion then CompatOlder
      else CompatOK)"

definition advertisedMin :: "string \<Rightarrow> string \<Rightarrow> string" where
  "advertisedMin minPeer appVersion =
     (if minPeer = ''-'' then []
      else if trim_space minPeer \<noteq> [] then minPeer
      else if appVersion \<noteq> [] then MinCompatibleVersion else [])"

section \<open>A path that does not exist yet\<close>

definition unique_candidate :: "string \<Rightarrow> nat \<Rightarrow> string" where
  "unique_candidate p i = (let (dir, name) = split_last p; ext = Ext name; stem = trim_suffix name ext in
     Join dir (stem @ '' ('' @ itoa (int i) @ '')'' @ ext))"

definition UniquePath :: "(string \<Rightarrow> bool) \<Rightarrow> string \<Rightarrow> string" where
  "UniquePath ex p =
     (if \<not> ex p then p
      else (case find (\<lambda>i. \<not> ex (unique_candidate p i)) [1..<10000] of
          Some i \<Rightarrow> unique_candidate p i | None \<Rightarrow> p))"

section \<open>Expiries\<close>

datatype duration_err = DurationRequired | DurationMalformed | DurationNotPositive

text \<open>\<open>strconv.ParseInt(s, 10, 64)\<close>.\<close>

definition parse_int64 :: "string \<Rightarrow> int option" where
  "parse_int64 s =
     (case s of
        CHR ''-'' # r \<Rightarrow> (case digits_value r of None \<Rightarrow> None | Some n \<Rightarrow> if n \<le> 2 ^ 63 then Some (- int n) else None)
      | CHR ''+'' # r \<Rightarrow> (case digits_value r of None \<Rightarrow> None | Some n \<Rightarrow> if n < 2 ^ 63 then Some (int n) else None)
      | _ \<Rightarrow> (case digits_value s of None \<Rightarrow> None | Some n \<Rightarrow> if n < 2 ^ 63 then Some (int n) else None))"

definition hour_ns :: "64 word" where "hour_ns = 3600 * second_ns"

text \<open>\<open>std\<close> is \<open>time.ParseDuration\<close>.\<close>

definition ParseDuration :: "(string \<Rightarrow> 64 word option) \<Rightarrow> string \<Rightarrow> duration_err + 64 word" where
  "ParseDuration std v =
     (let t = trim_space v in
      if t = [] then Inl DurationRequired
      else (case parse_int64 t of
          Some hours \<Rightarrow> Inr (word_of_int hours * hour_ns)
        | None \<Rightarrow>
            if has_suffix t ''d'' then (case parse_int64 (trim_suffix t ''d'') of
                None \<Rightarrow> Inl DurationMalformed
              | Some days \<Rightarrow> Inr (word_of_int days * 24 * hour_ns))
            else (case std t of None \<Rightarrow> Inl DurationMalformed | Some d \<Rightarrow> Inr d)))"

text \<open>\<open>show\<close> is \<open>time.Duration.String\<close>.\<close>

definition DurationForAPI ::
  "(string \<Rightarrow> 64 word option) \<Rightarrow> (64 word \<Rightarrow> string) \<Rightarrow> string \<Rightarrow> duration_err + string" where
  "DurationForAPI std str v = (case ParseDuration std v of
     Inl e \<Rightarrow> Inl e
   | Inr d \<Rightarrow> if sint d \<le> 0 then Inl DurationNotPositive else Inr (str d))"

definition ExpiryForAPI ::
  "(string \<Rightarrow> 64 word option) \<Rightarrow> (64 word \<Rightarrow> string) \<Rightarrow> string \<Rightarrow> duration_err + string \<times> bool" where
  "ExpiryForAPI std str v =
     (if to_lower (trim_space v) \<in> {''0'', ''none'', ''never'', ''keep'', ''forever''} then Inr ([], True)
      else (case DurationForAPI std str v of Inl e \<Rightarrow> Inl e | Inr s \<Rightarrow> Inr (s, False)))"

section \<open>Lemmas\<close>

lemma sint_small: "0 \<le> n \<Longrightarrow> n < 2 ^ 63 \<Longrightarrow> sint (word_of_int n :: 64 word) = n"
  by (simp add: sint_sbintrunc' signed_take_bit_int_eq_self)

lemma ns_values:
  "sint transferGrace = 600000000000" "sint transferMaxDuration = 43200000000000" "sint second_ns = 1000000000"
  by (simp_all add: transferGrace_def transferMaxDuration_def second_ns_def)

lemma allowance_int:
  "sint (transfer_allowance sz) =
    (if 0 < sint sz then min 43200000000000 (600000000000 + min 43200 (sint sz div 16384) * 1000000000) else 600000000000)"
proof (cases "0 < sint sz")
  case False
  then show ?thesis by (simp add: transfer_allowance_def ns_values Let_def)
next
  case True
  define c where "c = min 43200 (sint sz div 16384)"
  have c: "0 \<le> c" "c \<le> 43200" using True by (simp_all add: c_def pos_imp_zdiv_nonneg_iff)
  have "transferGrace + word_of_int c * second_ns = (word_of_int (600000000000 + c * 1000000000) :: 64 word)"
    by (simp add: transferGrace_def second_ns_def)
  then have d: "sint (transferGrace + word_of_int c * second_ns) = 600000000000 + c * 1000000000"
    using c sint_small [of "600000000000 + c * 1000000000"] by simp
  let ?most = "sint transferMaxDuration div sint second_ns" and ?s = "sint sz div transferMinBytesPerSecond"
  have f: "(if ?s > ?most then ?most else ?s) = c"
    by (simp add: ns_values transferMinBytesPerSecond_def c_def min_def)
  have "transfer_allowance sz = (if sint (transferGrace + word_of_int c * second_ns) > sint transferMaxDuration
      then transferMaxDuration else transferGrace + word_of_int c * second_ns)"
    using True by (simp only: transfer_allowance_def Let_def f if_True)
  then have "sint (transfer_allowance sz) = min 43200000000000 (600000000000 + c * 1000000000)"
    using d by (simp add: ns_values)
  then show ?thesis using True unfolding c_def by simp
qed

definition digits_sum :: "string \<Rightarrow> nat" where
  "digits_sum a = foldl (\<lambda>x c. x * 10 + (of_char c - 48)) 0 a"

lemma foldl_digits: "foldl (\<lambda>x c. x * 10 + (of_char c - 48)) n a = n * 10 ^ length a + digits_sum a"
proof (induction a arbitrary: n)
  case (Cons c a)
  show ?case using Cons [of "n * 10 + (of_char c - 48)"] Cons [of "of_char c - 48"]
    by (simp add: digits_sum_def algebra_simps)
qed (simp add: digits_sum_def)

lemma digits_sum_Cons: "digits_sum (c # a) = (of_char c - 48) * 10 ^ length a + digits_sum a"
  using foldl_digits [of "of_char c - 48" a] by (simp add: digits_sum_def)

lemma digits_sum_bound: "list_all is_digit a \<Longrightarrow> digits_sum a < 10 ^ length a"
proof (induction a)
  case (Cons c a)
  then have "(of_char c - 48 :: nat) \<le> 9" "digits_sum a < 10 ^ length a"
    by (simp_all add: is_digit_def le_diff_conv)
  then have "(of_char c - 48) * 10 ^ length a + digits_sum a < 9 * 10 ^ length a + 10 ^ length a"
    by (intro add_le_less_mono mult_right_mono) simp_all
  then show ?case by (simp add: digits_sum_Cons)
qed (simp add: digits_sum_def)

text \<open>Between digits of one length the byte order is the order of the numbers.\<close>

lemma cmp_less_digits:
  "list_all is_digit a \<Longrightarrow> list_all is_digit b \<Longrightarrow> length a = length b \<Longrightarrow> cmp_less a b \<longleftrightarrow> digits_sum a < digits_sum b"
proof (induction a b rule: cmp_less.induct)
  case (4 c a d b)
  let ?x = "of_char c - 48 :: nat" and ?y = "of_char d - 48 :: nat"
  have dg: "48 \<le> (of_char c :: nat)" "48 \<le> (of_char d :: nat)" using 4(2,3) by (simp_all add: is_digit_def)
  have bd: "digits_sum a < 10 ^ length b" "digits_sum b < 10 ^ length b"
    using digits_sum_bound [of a] digits_sum_bound [of b] 4(2-4) by simp_all
  have s: "digits_sum (c # a) = ?x * 10 ^ length b + digits_sum a" "digits_sum (d # b) = ?y * 10 ^ length b + digits_sum b"
    using 4(4) by (simp_all add: digits_sum_Cons)
  have up: "u * 10 ^ length b + p < v * 10 ^ length b + q" if "u < v" "p < 10 ^ length b" for u v p q :: nat
  proof -
    have "Suc u * 10 ^ length b \<le> v * 10 ^ length b" using that(1) by (intro mult_right_mono) simp_all
    then show ?thesis using that(2) by simp
  qed
  consider "(of_char c :: nat) < of_char d" | "c = d" | "(of_char d :: nat) < of_char c"
    by (metis linorder_neqE_nat of_char_eq_iff)
  then show ?case
  proof cases
    case 1
    then show ?thesis using up [of ?x ?y "digits_sum a" "digits_sum b"] dg bd s by simp
  next
    case 2
    then show ?thesis using 4 s by simp
  next
    case 3
    then have "\<not> cmp_less (c # a) (d # b)" by auto
    moreover have "?y < ?x" using 3 dg by (intro diff_less_mono)
    ultimately show ?thesis using up [of ?y ?x "digits_sum b" "digits_sum a"] bd s by simp
  qed
qed (simp_all add: digits_sum_def)

section \<open>Properties\<close>

text \<open>A transfer always has a sane deadline: for every declared size an \<open>int64\<close> can hold, negative and absurd
  ones included, \<open>transferDeadline\<close> lies between 10 minutes and 12 hours from now (no product wraps), and
  it gives at least the time the transfer needs at 16 KiB a second, up to the 678 MB a cap of 12 hours allows.\<close>

theorem transferDeadline_bounds:
  "now + 600000000000 \<le> transferDeadline now sz \<and> transferDeadline now sz \<le> now + 43200000000000 \<and>
   now + min (sint sz) (42600 * 16384) * 1000000000 div 16384 \<le> transferDeadline now sz"
proof -
  have need: "n * 1000000000 div 16384 \<le> 600000000000 + n div 16384 * 1000000000" for n :: int
  proof -
    have "n = 16384 * (n div 16384) + n mod 16384" "n mod 16384 < 16384" by simp_all
    then have "n < (n div 16384 + 1) * 16384" by (simp only: algebra_simps)
    then have "n * 1000000000 < ((n div 16384 + 1) * 1000000000) * 16384" by linarith
    then have "n * 1000000000 div 16384 < (n div 16384 + 1) * 1000000000"
      by (simp add: div_less_iff_less_mult)
    then show ?thesis by linarith
  qed
  show ?thesis
  proof (cases "sint sz \<le> 0")
    case True
    then have "sint sz * 1000000000 div 16384 \<le> 0" by (simp add: div_nonpos_pos_le0)
    with True show ?thesis by (simp add: transferDeadline_def allowance_int min_def)
  next
    case False
    then have pos: "0 < sint sz" by simp
    obtain q where q: "q = sint sz div 16384" by blast
    have q0: "0 \<le> q" using pos by (simp add: q pos_imp_zdiv_nonneg_iff)
    have dl: "transferDeadline now sz = now + min 43200000000000 (600000000000 + min 43200 q * 1000000000)"
      using pos by (simp add: transferDeadline_def allowance_int q)
    show ?thesis
    proof (cases "sint sz \<le> 42600 * 16384")
      case True
      then have "q \<le> 42600" unfolding q by presburger
      then have t: "transferDeadline now sz = now + (600000000000 + q * 1000000000)"
        by (simp only: dl min_def split: if_split) linarith
      have m: "min (sint sz) (42600 * 16384) = sint sz" using True by (simp only: min_def if_True)
      obtain x where x: "x = sint sz * 1000000000 div 16384" by blast
      have "x \<le> 600000000000 + q * 1000000000" using need [of "sint sz"] by (simp only: x q)
      then show ?thesis unfolding t m x [symmetric] using \<open>q \<le> 42600\<close> q0 by (intro conjI) linarith+
    next
      case False
      then have "42600 \<le> q" using zdiv_mono1 [of "42600 * 16384" "sint sz" 16384] by (simp add: q)
      then have "transferDeadline now sz = now + 43200000000000"
        by (simp only: dl min_def split: if_split) linarith
      moreover have "min (sint sz) (42600 * 16384) = 42600 * 16384" using False by (simp only: min_def if_False)
      ultimately show ?thesis by simp
    qed
  qed
qed

text \<open>C19 Stamps compare as the times they are: for two builds whose stamps are 14 digits, \<open>CompatWith\<close> blocks a
  transfer exactly when the peer is older than the floor this build supports, or this build is older than the
  floor the peer names, read as numbers; otherwise it says whether the peer is older, and never blocks.\<close>

theorem CompatWith_numeric:
  assumes "list_all is_digit mine" "length mine = 14" "list_all is_digit peer" "length peer = 14"
    and "list_all is_digit floor" "length floor = 14"
  shows "CompatWith mine peer floor =
    (if digits_sum peer < 20260901000000 \<or> digits_sum mine < digits_sum floor then CompatIncompatible
     else if digits_sum peer < digits_sum mine then CompatOlder else CompatOK)"
proof -
  have st: "isStamp v" if "list_all is_digit v" "length v = 14" for v
  proof -
    have asc: "list_all (\<lambda>c. of_char c < (0x80::nat)) v" using that(1) by (auto simp: list_all_iff is_digit_def)
    have sp: "\<not> is_space (of_char c)" if "c \<in> set v" for c
      using \<open>list_all is_digit v\<close> that by (auto simp: list_all_iff is_digit_def is_space_def)
    have ne: "v \<noteq> []" using that(2) by auto
    have "trim_space v = v" using ne sp [OF hd_in_set] sp [OF last_in_set]
      by (intro trim_space_ascii_id [OF asc]) blast+
    then show ?thesis using that asc by (auto simp: isStamp_def runes_ascii list_all_iff is_digit_def)
  qed
  have m: "list_all is_digit MinCompatibleVersion" "length MinCompatibleVersion = 14"
    "digits_sum MinCompatibleVersion = 20260901000000"
    by (simp_all add: MinCompatibleVersion_def is_digit_def digits_sum_def of_char_Char horner_sum_simps)
  show ?thesis using assms st m by (simp add: CompatWith_def cmp_less_digits)
qed

lemma CompatWith_numeric_witness:
  "CompatWith ''20261001000000'' ''20260915000000'' ''20260901000000'' = CompatOlder"
  by (subst CompatWith_numeric) (simp_all add: is_digit_def digits_sum_def of_char_Char horner_sum_simps)

text \<open>A name someone else chose never lands on an existing file: \<open>UniquePath\<close> returns the path itself when it is
  free, else the first free numbered variant; only when 9,999 variants exist too does it return a path that
  is taken.\<close>

theorem UniquePath_fresh:
  "ex (UniquePath ex p) \<longleftrightarrow> ex p \<and> (\<forall>i\<in>{1..<10000}. ex (unique_candidate p i))"
proof (cases "find (\<lambda>i. \<not> ex (unique_candidate p i)) [1..<10000]")
  case None
  then have "\<forall>i\<in>{1..<10000}. ex (unique_candidate p i)"
    using find_None_iff [of "\<lambda>i. \<not> ex (unique_candidate p i)" "[1..<10000]"] by (simp only: set_upt) blast
  then show ?thesis using None by (simp add: UniquePath_def)
next
  case (Some i)
  then have i: "i \<in> {1..<10000}" "\<not> ex (unique_candidate p i)"
    using find_Some_iff [of "\<lambda>i. \<not> ex (unique_candidate p i)" "[1..<10000]" i]
    by (auto simp del: upt.simps simp: nth_upt)
  then show ?thesis using Some by (auto simp: UniquePath_def)
qed

lemma UniquePath_fresh_witness:
  "UniquePath (\<lambda>q. q = ''/d/a.txt'') ''/d/a.txt'' \<noteq> ''/d/a.txt''"
proof -
  have free: "unique_candidate ''/d/a.txt'' 1 = ''/d/a (1).txt''" by code_simp
  have "\<not> (\<forall>i\<in>{1..<10000}. unique_candidate ''/d/a.txt'' i = ''/d/a.txt'')"
  proof
    assume "\<forall>i\<in>{1..<10000}. unique_candidate ''/d/a.txt'' i = ''/d/a.txt''"
    then have "unique_candidate ''/d/a.txt'' 1 = ''/d/a.txt''" by (rule bspec) simp
    then show False using free by simp
  qed
  then show ?thesis using UniquePath_fresh [of "\<lambda>q. q = ''/d/a.txt''" "''/d/a.txt''"] by blast
qed

text \<open>An hour count of any length is accepted and may mean something else: \<open>ParseDuration\<close> of a whole number of
  hours is that number of hours only up to 2,562,047; beyond, the product wraps, and 5,124,096 hours (584
  years) are read as 25 minutes and 26 seconds, a positive duration \<open>DurationForAPI\<close> passes on.\<close>

theorem ParseDuration_hours:
  assumes "trim_space v \<noteq> []" "parse_int64 (trim_space v) = Some n" "0 \<le> n"
  shows "\<exists>d. ParseDuration std v = Inr d \<and> (n \<le> 2562047 \<longrightarrow> sint d = n * 3600000000000) \<and>
    (n = 5124096 \<longrightarrow> sint d = 1526290448384)"
proof -
  have h: "word_of_int n * hour_ns = (word_of_int (n * 3600000000000) :: 64 word)"
    by (simp add: hour_ns_def second_ns_def)
  have "sint (word_of_int n * hour_ns) = n * 3600000000000" if "n \<le> 2562047"
    unfolding h using that assms(3) by (intro sint_small) simp_all
  moreover have "sint (word_of_int n * hour_ns) = 1526290448384" if "n = 5124096"
    unfolding that by (simp add: hour_ns_def second_ns_def)
  ultimately show ?thesis using assms(1,2) by (simp add: ParseDuration_def Let_def)
qed

lemma ParseDuration_hours_witness:
  "\<exists>d. ParseDuration (\<lambda>_. None) ''5124096'' = Inr d \<and> sint d = 1526290448384"
proof -
  have t: "trim_space ''5124096'' = ''5124096''"
    by (rule trim_space_ascii_id) (simp_all add: is_space_def of_char_Char horner_sum_simps)
  have p: "parse_int64 (trim_space ''5124096'') = Some 5124096"
    by (simp add: t parse_int64_def digits_value_def is_digit_def of_char_Char horner_sum_simps)
  show ?thesis using ParseDuration_hours [OF _ p, of "\<lambda>_. None"] t by auto
qed

end
