(* ===== verification/Broadcast.thy ===== *)
theory Broadcast
  imports Session Policy
begin

text \<open>
  Pull mode, \<open>lanshare/broadcast.go\<close>: \<open>handleDownload\<close> of the device that offers a file and \<open>Download\<close> of the
  one that fetches it. The broadcaster's accept loop is the one of theory Throttle; the streaming loops and
  the resume staging are those of RecvLoop and SendLoop.
\<close>

definition AccessAll :: string where "AccessAll = ''all''"
definition AccessTrusted :: string where "AccessTrusted = ''trusted''"
definition AccessApprove :: string where "AccessApprove = ''approve''"

record BroadcastOptions =
  bo_path :: string
  bo_name :: string
  bo_identity :: bytes
  bo_access :: string
  bo_is_trusted :: "(string \<Rightarrow> bool) option"
  bo_on_request :: "(RequestInfo \<Rightarrow> bool) option"

record ConnEvent =
  ce_peer_ip :: string
  ce_peer_key :: "bytes option"
  ce_peer_name :: string
  ce_sent :: int
  ce_total :: int
  ce_done :: bool
  ce_err :: "tx_err option"

record DownloadOptions =
  do_dest :: string
  do_pin :: string
  do_name :: string
  do_size :: int
  do_identity :: bytes
  do_downloader_name :: string
  do_overwrite :: bool

record 's pull_services = "'s client_services" +
  sv_mar_req :: "downloadReq \<Rightarrow> bytes option"
  sv_un_req :: "bytes \<Rightarrow> downloadReq option"

section \<open>The defaults of \<open>Broadcast\<close>\<close>

definition broadcast_options :: "BroadcastOptions \<Rightarrow> BroadcastOptions" where
  "broadcast_options op = (let op1 = (if bo_name op = [] then op\<lparr>bo_name := Base (bo_path op)\<rparr> else op) in
     if bo_access op1 = [] then op1\<lparr>bo_access := AccessApprove\<rparr> else op1)"

text \<open>What is offered: the size and the whole-file digest, taken once.\<close>

definition broadcast_source :: "(bytes \<Rightarrow> bytes) \<Rightarrow> fs \<Rightarrow> BroadcastOptions \<Rightarrow> (int \<times> string) option" where
  "broadcast_source sha f op = (case f (bo_path op) of
     Some (File c) \<Rightarrow> (case fileSHA sha f (bo_path op) of None \<Rightarrow> None | Some d \<Rightarrow> Some (int (length c), d))
   | _ \<Rightarrow> None)"

section \<open>Serving one downloader\<close>

fun dl_id_message :: "id_err \<Rightarrow> string" where
  "dl_id_message MalformedIdentity = ''malformed downloader identity''"
| "dl_id_message BindingFailed = ''channel binding failed''"
| "dl_id_message IdentityNotVerified = ''downloader identity verification failed''"

text \<open>Access control: the reason of a refusal.\<close>

definition access_denied ::
  "('s, 'm) services_scheme \<Rightarrow> BroadcastOptions \<Rightarrow> conn \<Rightarrow> int \<Rightarrow> bytes option \<Rightarrow> string \<Rightarrow> string option" where
  "access_denied sv op c sz key name =
     (let fp = IdentityFingerprint (sv_sha sv) (case key of None \<Rightarrow> [] | Some k \<Rightarrow> k) in
      if bo_access op = AccessTrusted then
        (if fp = [] \<or> (case bo_is_trusted op of None \<Rightarrow> True | Some t \<Rightarrow> \<not> t fp)
         then Some ''this broadcast is limited to trusted devices'' else None)
      else if bo_access op = AccessApprove then
        (if (case bo_on_request op of None \<Rightarrow> True
             | Some ask \<Rightarrow> \<not> ask \<lparr>ri_peer_ip = remoteIP (cn_remote c), ri_name = bo_name op, ri_size = sz, ri_is_dir = False,
                 ri_sender_key = key, ri_sender_name = name\<rparr>)
         then Some ''declined by the broadcaster'' else None)
      else None)"

definition broadcast_accept ::
  "('s, 'm) client_services_scheme \<Rightarrow> BroadcastOptions \<Rightarrow> bytes \<Rightarrow> int \<Rightarrow> accept" where
  "broadcast_accept sv op ekm sz =
     (let acc = zero_accept\<lparr>a_ok := True, a_size := sz\<rparr> in
      if length (bo_identity op) = ed_private_size
      then acc\<lparr>a_identity_pub := sv_public sv (bo_identity op),
               a_identity_sig := sv_sign sv (bo_identity op) (identityMessage ekm)\<rparr>
      else acc)"

text \<open>The source as opened for this downloader: a directory opens and then fails to be read.\<close>

definition open_source :: "reader \<Rightarrow> node \<Rightarrow> reader \<times> bytes" where
  "open_source rd nd = (case nd of File c \<Rightarrow> (rd, c) | Directory \<Rightarrow> (rd\<lparr>rd_fail := (\<lambda>_. True)\<rparr>, []))"

definition serve_stream ::
  "('s, 'm) pull_services_scheme \<Rightarrow> tx_env \<Rightarrow> reader \<Rightarrow> node \<Rightarrow> int \<Rightarrow> string \<Rightarrow> conn \<Rightarrow> bytes option \<Rightarrow> string \<Rightarrow> int \<Rightarrow>
   bytes \<times> ConnEvent list" where
  "serve_stream sv tenv rd nd sz fullSHA c key name off =
     (let ev = (\<lambda>n d e. \<lparr>ce_peer_ip = remoteIP (cn_remote c), ce_peer_key = key, ce_peer_name = name, ce_sent = n,
            ce_total = sz, ce_done = d, ce_err = e\<rparr>);
          (rd', content) = open_source rd nd;
          (r, st) = streamBodyFrom tenv rd' 0 (drop (nat off) content) (tx_start []);
          evs = ev off False None # map (\<lambda>n. ev (off + n) False None) (tx_progress st) in
      (case r of
         Some e \<Rightarrow> (tx_wire st, evs @ [ev 0 False (Some e)])
       | None \<Rightarrow> (tx_wire st @ json_bytes (sv_mar_done sv) msgDone \<lparr>d_ok = True, d_bytes = sz, d_sha256 = fullSHA, d_reason = []\<rparr>,
           evs @ [ev sz True None])))"

definition handleDownload ::
  "('s, 'm) pull_services_scheme \<Rightarrow> BroadcastOptions \<Rightarrow> tx_env \<Rightarrow> reader \<Rightarrow> fs \<Rightarrow> int \<Rightarrow> string \<Rightarrow> conn \<Rightarrow>
   bytes \<times> ConnEvent list" where
  "handleDownload sv op tenv rd f sz fullSHA c =
     (if \<not> cn_tls c then ([], [])
      else if \<not> cn_handshake c then ([], [])
      else (case cn_ekm c of
          None \<Rightarrow> (sendError sv ''channel binding failed'', [])
        | Some ekm \<Rightarrow> (case readControl (sv_un_req sv) (sv_un_error sv) msgDownloadReq (cn_in c) of
          Inl _ \<Rightarrow> ([], [])
        | Inr (req, _) \<Rightarrow>
            let name = SanitizeName (q_downloader_name req) in
            (case check_identity (sv_verify sv) (Some ekm) (q_identity_pub req) (q_identity_sig req) of
               Inl e \<Rightarrow> (sendError sv (dl_id_message e), [])
             | Inr key \<Rightarrow> (case access_denied sv op c sz key name of
               Some reason \<Rightarrow> (refuse sv reason, [])
             | None \<Rightarrow>
                 if q_offset req < 0 \<or> q_offset req > sz then (sendError sv ''invalid resume offset'', [])
                 else (case f (bo_path op) of
                     None \<Rightarrow> (sendError sv ''source unavailable'', [])
                   | Some nd \<Rightarrow> (case writeJSON (sv_mar_accept sv) msgAccept (broadcast_accept sv op ekm sz) of
                     Inl _ \<Rightarrow> ([], [])
                   | Inr b \<Rightarrow>
                       if \<not> cn_wok c 2 then ([], [])
                       else let (out, evs) = serve_stream sv tenv rd nd sz fullSHA c key name (q_offset req) in
                         (b @ out, evs))))))))"

section \<open>Fetching the file\<close>

datatype pull_err =
    NoName | NoDestDir | BadName dest_err | TargetExists string | BadDest | NoConnection | NoChannelBinding
  | PullFrame frame_err | BroadcasterDeclined string | BroadcasterIdentity id_err | ImplausibleSize int
  | RaisedSize int int | NoSpace | PullStream rx_err | PullIntegrity | PullPlace rx_err

definition download_request ::
  "('s, 'm) client_services_scheme \<Rightarrow> DownloadOptions \<Rightarrow> bytes option \<Rightarrow> int \<Rightarrow> pull_err + downloadReq" where
  "download_request sv op ekm off =
     (let q = \<lparr>q_version = protocolVersion, q_offset = off, q_identity_pub = [], q_identity_sig = [],
            q_downloader_name = do_downloader_name op\<rparr> in
      if do_identity op \<noteq> [] then (case ekm of
          None \<Rightarrow> Inl NoChannelBinding
        | Some e \<Rightarrow> Inr (q\<lparr>q_identity_pub := sv_public sv (do_identity op),
                         q_identity_sig := sv_sign sv (do_identity op) (identityMessage e)\<rparr>))
      else Inr q)"

text \<open>The size to receive: the broadcaster's, if it names one, within the ceiling, the agreed size and the
  free space.\<close>

definition download_total ::
  "DownloadOptions \<Rightarrow> accept \<Rightarrow> 64 word option \<Rightarrow> int \<Rightarrow> pull_err + int" where
  "download_total op acc free off =
     (let tot = (if a_size acc > 0 then a_size acc else do_size op) in
      if tot < 0 \<or> tot > maxTransferBytes then Inl (ImplausibleSize tot)
      else if do_size op > 0 \<and> tot > do_size op then Inl (RaisedSize tot (do_size op))
      else if \<not> ensureFreeSpace free (word_of_int (tot - off)) then Inl NoSpace
      else Inr tot)"

text \<open>From the accept frame to the placed file.\<close>

definition download_body ::
  "('s, 'm) pull_services_scheme \<Rightarrow> DownloadOptions \<Rightarrow> io_env \<Rightarrow> fs \<Rightarrow> 64 word option \<Rightarrow> conn \<Rightarrow> string \<Rightarrow> string \<Rightarrow> int \<Rightarrow>
   fs \<times> (pull_err + ReceiveResult)" where
  "download_body sv op env f free c outPath partialPath off =
     (case readControl (sv_un_accept sv) (sv_un_error sv) msgAccept (cn_in c) of
        Inl e \<Rightarrow> (f, Inl (PullFrame e))
      | Inr (acc, inp) \<Rightarrow>
          if \<not> a_ok acc
          then (f, Inl (BroadcasterDeclined (if a_reason acc = [] then ''broadcaster declined'' else a_reason acc)))
          else (case check_identity (sv_verify sv) (cn_ekm c) (a_identity_pub acc) (a_identity_sig acc) of
              Inl e \<Rightarrow> (f, Inl (BroadcasterIdentity e))
            | Inr key \<Rightarrow> (case download_total op acc free off of
              Inl e \<Rightarrow> (f, Inl e)
            | Inr tot \<Rightarrow> (case receiveResumable (sv_sha sv) env f inp partialPath off tot of
              (f1, Inl e, _) \<Rightarrow> (f1, Inl (PullStream e))
            | (f1, Inr (got, localSHA), inp') \<Rightarrow>
                (case readControl (sv_un_done sv) (sv_un_error sv) msgDone inp' of
                   Inl e \<Rightarrow> (f1, Inl (PullFrame e))
                 | Inr (res, _) \<Rightarrow>
                     if d_sha256 res \<noteq> [] \<and> d_sha256 res \<noteq> localSHA
                     then (os_remove env f1 partialPath, Inl PullIntegrity)
                     else (case placeFile env f1 partialPath outPath (do_overwrite op) of
                         (f2, Inl e) \<Rightarrow> (f2, Inl (PullPlace e))
                       | (f2, Inr _) \<Rightarrow> (f2, Inr \<lparr>rr_name = Base outPath, rr_path = outPath, rr_bytes = got,
                           rr_sha256 = localSHA, rr_peer_ip = remoteIP (cn_remote c), rr_sender_key = key\<rparr>)))))))"

text \<open>\<open>destDir\<close> is what \<open>resolveDestDir\<close> returned. Write 3 of the connection is the request.\<close>

definition Download ::
  "('s, 'm) pull_services_scheme \<Rightarrow> DownloadOptions \<Rightarrow> io_env \<Rightarrow> fs \<Rightarrow> string option \<Rightarrow> 64 word option \<Rightarrow> conn \<Rightarrow>
   fs \<times> bytes \<times> (pull_err + ReceiveResult)" where
  "Download sv op env f destDir free c =
     (if do_name op = [] then (f, [], Inl NoName)
      else (case destDir of
          None \<Rightarrow> (f, [], Inl NoDestDir)
        | Some dir \<Rightarrow> (case destPath dir (do_name op) of
          Inl e \<Rightarrow> (f, [], Inl (BadName e))
        | Inr outPath \<Rightarrow>
            if f outPath \<noteq> None \<and> \<not> do_overwrite op then (f, [], Inl (TargetExists (Base outPath)))
            else
              let partialPath = Join dir (partialName (sv_sha sv) (do_pin op) (do_name op) (do_size op));
                  off = resumeOffset f partialPath (do_size op) in
              if normalizeDest (do_dest op) = None then (f, [], Inl BadDest)
              else if \<not> cn_handshake c then (f, [], Inl NoConnection)
              else (case download_request sv op (cn_ekm c) off of
                  Inl e \<Rightarrow> (f, [], Inl e)
                | Inr req \<Rightarrow> (case writeJSON (sv_mar_req sv) msgDownloadReq req of
                  Inl e \<Rightarrow> (f, [], Inl (PullFrame e))
                | Inr out \<Rightarrow>
                    if \<not> cn_wok c 3 then (f, [], Inl (PullFrame ConnWrite))
                    else (case download_body sv op env f free c outPath partialPath off of
                      (f', r) \<Rightarrow> (f', out, r)))))))"

section \<open>Receiving into the partial\<close>

lemma stream_run_over:
  "stream_run env tot i st inp stop st' rest \<Longrightarrow> tot < rx_received st \<Longrightarrow> stop \<noteq> StopComplete"
  by (induction rule: stream_run.induct) auto

lemma download_finish_Inr:
  "download_finish sha env f partial tot stop st = (f', Inr (n, dg)) \<Longrightarrow>
   stop = StopComplete \<and> f' = f \<and> n = rx_received st \<and> dg = hex_encode (sha (rx_hashed st))"
  by (auto simp: download_finish_def Let_def split: rx_stop.splits if_splits)

lemma receiveResumable_InrD:
  assumes "receiveResumable sha env f inp partial off tot = (f', Inr (n, dg), rest)"
  shows "\<exists>held d. open_partial env f partial off = (f(partial \<mapsto> File held), Inr held) \<and>
    f' = meddle env (f(partial \<mapsto> File (held @ d))) \<and> n = tot \<and> int (length (held @ d)) = tot \<and>
    dg = hex_encode (sha (held @ d))"
proof -
  obtain f0 b where op0: "open_partial env f partial off = (f0, b)" by fastforce
  with assms obtain held where op: "open_partial env f partial off = (f0, Inr held)"
    by (cases b) (auto simp: receiveResumable_def)
  then have f0: "f0 = f(partial \<mapsto> File held)" using open_partial_InrD by blast
  obtain stop st r where run: "stream_loop env tot 0 (rx_start held) inp = (stop, st, r)"
    by (cases "stream_loop env tot 0 (rx_start held) inp") auto
  have fin: "download_finish sha env (meddle env (f(partial \<mapsto> File (rx_data st)))) partial tot stop st = (f', Inr (n, dg))"
    using assms op run f0 by (auto simp: receiveResumable_def Let_def split: prod.split_asm)
  note c = download_finish_Inr [OF fin]
  have "rx_ok tot (rx_start held)"
    using stream_run_over [OF stream_loop_run [OF run]] c by (auto simp: not_less [symmetric])
  from stream_run_complete [OF stream_loop_run [OF run] this] c obtain d where
    "rx_ok tot st" "rx_received st = tot" "rx_data st = held @ d" by auto
  then show ?thesis using op f0 c by (auto simp: rx_ok_def)
qed

lemma receiveResumable_run:
  assumes "calm env" "open_partial env f partial off = (f(partial \<mapsto> File held), Inr held)"
    and "chunks_ok cs" "held @ concat cs = content"
  shows "receiveResumable sha env f (wire_of cs @ r) partial off (int (length content)) =
    (f(partial \<mapsto> File content), Inr (int (length content), hex_encode (sha content)), r)"
proof -
  let ?n = "int (length content)"
  have q: "quiet env" using assms(1) by (simp add: calm_def)
  have n: "rx_ok ?n (rx_start held)" "rx_received (rx_start held) + int (length (concat cs)) = ?n"
    using assms(4) by (auto simp: rx_ok_def)
  obtain st where rx: "stream_loop env ?n 0 (rx_start held) (wire_of cs @ r) = (StopComplete, st, r)"
    "rx_ok ?n st" "rx_received st = ?n" "rx_data st = content"
    using stream_loop_wire [OF q assms(3) n, of 0 r] unfolding rx_start_sel assms(4) by blast
  then have "download_finish sha env (f(partial \<mapsto> File content)) partial ?n StopComplete st =
      (f(partial \<mapsto> File content), Inr (?n, hex_encode (sha content)))"
    using assms(1) by (simp add: download_finish_def calm_def rx_ok_def Let_def)
  then show ?thesis using assms(1,2) rx by (simp add: receiveResumable_def calm_def)
qed

section \<open>What a completed download went through\<close>

lemma download_total_Inr:
  "download_total op acc free off = Inr tot \<Longrightarrow>
   0 \<le> tot \<and> tot \<le> 2 ^ 40 \<and> (do_size op > 0 \<longrightarrow> tot \<le> do_size op) \<and>
   tot = (if a_size acc > 0 then a_size acc else do_size op) \<and> ensureFreeSpace free (word_of_int (tot - off))"
  by (auto simp: download_total_def maxTransferBytes_def Let_def split: if_splits)

lemma download_body_Inr:
  assumes "download_body sv op env f free c outPath partial off = (f', Inr res)"
  shows "\<exists>acc inp key tot f1 localSHA inp' dn rest.
    readControl (sv_un_accept sv) (sv_un_error sv) msgAccept (cn_in c) = Inr (acc, inp) \<and> a_ok acc \<and>
    check_identity (sv_verify sv) (cn_ekm c) (a_identity_pub acc) (a_identity_sig acc) = Inr key \<and>
    download_total op acc free off = Inr tot \<and>
    receiveResumable (sv_sha sv) env f inp partial off tot = (f1, Inr (rr_bytes res, localSHA), inp') \<and>
    readControl (sv_un_done sv) (sv_un_error sv) msgDone inp' = Inr (dn, rest) \<and>
    (d_sha256 dn = [] \<or> d_sha256 dn = localSHA) \<and>
    placeFile env f1 partial outPath (do_overwrite op) = (f', Inr ()) \<and>
    rr_path res = outPath \<and> rr_sha256 res = localSHA \<and> rr_sender_key res = key"
  using assms unfolding download_body_def
  by (auto split: sum.split_asm prod.split_asm if_split_asm)

lemma Download_Inr:
  assumes "Download sv op env f destDir free c = (f', out, Inr res)"
  shows "\<exists>dir outPath partial. destDir = Some dir \<and> do_name op \<noteq> [] \<and> destPath dir (do_name op) = Inr outPath \<and>
    (f outPath = None \<or> do_overwrite op) \<and> cn_handshake c \<and>
    partial = Join dir (partialName (sv_sha sv) (do_pin op) (do_name op) (do_size op)) \<and>
    download_body sv op env f free c outPath partial (resumeOffset f partial (do_size op)) = (f', Inr res)"
  using assms unfolding Download_def Let_def
  by (auto split: sum.split_asm prod.split_asm if_split_asm option.split_asm)

section \<open>Properties\<close>

text \<open>C20 A download that reports success is the file that was agreed on: what stands at the destination (a plain name
  directly in the download directory) has the size the broadcaster declared, no more than was approved and
  no more than 1 TiB, its digest is the reported one and the broadcaster's own, if it named one; it continues
  the partial that was held, the free space was enough, and a broadcaster's identity is reported only when it
  was proven on this session.\<close>

theorem download_sound:
  assumes "Download sv op env f destDir free c = (f', out, Inr res)"
    and "partial = Join (the destDir) (partialName (sv_sha sv) (do_pin op) (do_name op) (do_size op))"
    and "rr_path res \<noteq> partial" "\<forall>g. meddle env g partial = g partial"
  shows "\<exists>content. f' (rr_path res) = Some (File content) \<and> destPath (the destDir) (do_name op) = Inr (rr_path res) \<and>
    rr_bytes res = int (length content) \<and> rr_sha256 res = hex_encode (sv_sha sv content) \<and>
    int (length content) \<le> 2 ^ 40 \<and> (0 < do_size op \<longrightarrow> int (length content) \<le> do_size op) \<and>
    (0 < resumeOffset f partial (do_size op) \<longrightarrow> (\<exists>c0 d. f partial = Some (File c0) \<and> content = c0 @ d)) \<and>
    (\<forall>k. rr_sender_key res = Some k \<longrightarrow> (\<exists>e sg. cn_ekm c = Some e \<and> sv_verify sv k (identityMessage e) sg))"
proof -
  from Download_Inr [OF assms(1)] assms(2) obtain dir outPath where
    d: "destDir = Some dir" "destPath dir (do_name op) = Inr outPath"
    and b: "download_body sv op env f free c outPath partial (resumeOffset f partial (do_size op)) = (f', Inr res)"
    by auto
  let ?off = "resumeOffset f partial (do_size op)"
  from download_body_Inr [OF b] obtain acc inp key tot f1 localSHA inp' where
    id: "check_identity (sv_verify sv) (cn_ekm c) (a_identity_pub acc) (a_identity_sig acc) = Inr key" and
    tot: "download_total op acc free ?off = Inr tot" and
    rx: "receiveResumable (sv_sha sv) env f inp partial ?off tot = (f1, Inr (rr_bytes res, localSHA), inp')" and
    pl: "placeFile env f1 partial outPath (do_overwrite op) = (f', Inr ())" and
    r: "rr_path res = outPath" "rr_sha256 res = localSHA" "rr_sender_key res = key" by blast
  from receiveResumable_InrD [OF rx] obtain held dd where
    o: "open_partial env f partial ?off = (f(partial \<mapsto> File held), Inr held)" and
    f1: "f1 = meddle env (f(partial \<mapsto> File (held @ dd)))" and
    n: "rr_bytes res = tot" "int (length (held @ dd)) = tot" "localSHA = hex_encode (sv_sha sv (held @ dd))" by blast
  have p: "f1 partial = Some (File (held @ dd))" using f1 assms(4) by simp
  have at: "f' outPath = Some (File (held @ dd))" using placeFile_InrD [OF pl] p assms(3) r(1) by auto
  have held: "\<exists>c0. f partial = Some (File c0) \<and> held @ dd = c0 @ dd" if "0 < ?off"
  proof -
    from that have "?off \<noteq> 0" by simp
    then obtain c0 where "f partial = Some (File c0)" "?off = int (length c0)"
      using resumeOffset_cases [of f partial "do_size op"] by blast
    then show ?thesis using open_partial_InrD [OF o] that by auto
  qed
  have k: "\<exists>e sg. cn_ekm c = Some e \<and> sv_verify sv k (identityMessage e) sg" if "key = Some k" for k
    using id that by (auto simp: check_identity_def split: if_splits option.splits)
  show ?thesis
    by (rule exI [of _ "held @ dd"]) (use d r at n download_total_Inr [OF tot] held k in auto)
qed

text \<open>Nobody streams past the access rule: if a broadcast connection got as far as streaming (its first event),
  the downloader proved the identity it claims on this session, asked for an offset inside the file, and
  passed the rule of the broadcast: a trusted fingerprint, or an approval given for that very request.\<close>

theorem broadcast_gate:
  assumes "handleDownload sv op tenv rd f sz fullSHA c = (out, evs)" "evs \<noteq> []"
  shows "\<exists>ekm req rest key. cn_tls c \<and> cn_handshake c \<and> cn_ekm c = Some ekm \<and>
    readControl (sv_un_req sv) (sv_un_error sv) msgDownloadReq (cn_in c) = Inr (req, rest) \<and>
    check_identity (sv_verify sv) (Some ekm) (q_identity_pub req) (q_identity_sig req) = Inr key \<and>
    0 \<le> q_offset req \<and> q_offset req \<le> sz \<and>
    (bo_access op = AccessTrusted \<longrightarrow> (\<exists>k t. key = Some k \<and> bo_is_trusted op = Some t \<and> t (IdentityFingerprint (sv_sha sv) k))) \<and>
    (bo_access op = AccessApprove \<longrightarrow> (\<exists>ask. bo_on_request op = Some ask \<and>
       ask \<lparr>ri_peer_ip = remoteIP (cn_remote c), ri_name = bo_name op, ri_size = sz, ri_is_dir = False,
         ri_sender_key = key, ri_sender_name = SanitizeName (q_downloader_name req)\<rparr>))"
proof -
  from assms obtain ekm req rest key where
    a: "cn_tls c" "cn_handshake c" "cn_ekm c = Some ekm"
    "readControl (sv_un_req sv) (sv_un_error sv) msgDownloadReq (cn_in c) = Inr (req, rest)"
    "check_identity (sv_verify sv) (Some ekm) (q_identity_pub req) (q_identity_sig req) = Inr key"
    "0 \<le> q_offset req" "q_offset req \<le> sz"
    and acc: "access_denied sv op c sz key (SanitizeName (q_downloader_name req)) = None"
    unfolding handleDownload_def Let_def
    by (auto split: if_split_asm option.split_asm sum.split_asm prod.split_asm)
  have t: "\<exists>k t. key = Some k \<and> bo_is_trusted op = Some t \<and> t (IdentityFingerprint (sv_sha sv) k)"
    if "bo_access op = AccessTrusted"
    using acc that
    by (auto simp: access_denied_def IdentityFingerprint_def Let_def split: option.split_asm if_split_asm)
  have r: "\<exists>ask. bo_on_request op = Some ask \<and>
       ask \<lparr>ri_peer_ip = remoteIP (cn_remote c), ri_name = bo_name op, ri_size = sz, ri_is_dir = False,
         ri_sender_key = key, ri_sender_name = SanitizeName (q_downloader_name req)\<rparr>"
    if "bo_access op = AccessApprove"
    using acc that by (auto simp: access_denied_def AccessTrusted_def AccessApprove_def Let_def split: option.split_asm if_split_asm)
  show ?thesis using a t r by blast
qed

section \<open>Both ends of a pull\<close>

definition pull_accept :: "int \<Rightarrow> accept" where "pull_accept sz = zero_accept\<lparr>a_ok := True, a_size := sz\<rparr>"

definition pull_request :: "DownloadOptions \<Rightarrow> int \<Rightarrow> downloadReq" where
  "pull_request op off = \<lparr>q_version = protocolVersion, q_offset = off, q_identity_pub = [], q_identity_sig = [],
     q_downloader_name = do_downloader_name op\<rparr>"

text \<open>The codecs give back what they wrote, within the control frame cap.\<close>

definition pull_codecs :: "('s, 'm) pull_services_scheme \<Rightarrow> downloadReq \<Rightarrow> accept \<Rightarrow> done_msg \<Rightarrow> bool" where
  "pull_codecs sv q a d \<longleftrightarrow>
     (\<exists>b. sv_mar_req sv q = Some b \<and> sv_un_req sv b = Some q \<and> length b \<le> maxControlFrame) \<and>
     (\<exists>b. sv_mar_accept sv a = Some b \<and> sv_un_accept sv b = Some a \<and> length b \<le> maxControlFrame) \<and>
     (\<exists>b. sv_mar_done sv d = Some b \<and> sv_un_done sv b = Some d \<and> length b \<le> maxControlFrame)"

text \<open>An open broadcast of \<open>content\<close>, and a downloader that may hold a first part of it.\<close>

definition pull_ready ::
  "('s, 'm) pull_services_scheme \<Rightarrow> BroadcastOptions \<Rightarrow> DownloadOptions \<Rightarrow> io_env \<Rightarrow> fs \<Rightarrow> fs \<Rightarrow> conn \<Rightarrow> conn \<Rightarrow> string \<Rightarrow>
   string \<Rightarrow> string \<Rightarrow> bytes \<Rightarrow> bool" where
  "pull_ready sv bo op env fb f cb cd dir out partial content \<longleftrightarrow>
     bo_access bo = AccessAll \<and> bo_identity bo = [] \<and> fb (bo_path bo) = Some (File content) \<and>
     do_name op \<noteq> [] \<and> do_identity op = [] \<and> do_size op = int (length content) \<and> normalizeDest (do_dest op) \<noteq> None \<and>
     destPath dir (do_name op) = Inr out \<and> f out = None \<and> partial \<noteq> out \<and>
     partial = Join dir (partialName (sv_sha sv) (do_pin op) (do_name op) (do_size op)) \<and>
     f partial \<noteq> Some Directory \<and> (\<forall>c. f partial = Some (File c) \<longrightarrow> c = take (length c) content) \<and>
     cn_tls cb \<and> cn_handshake cb \<and> cn_ekm cb \<noteq> None \<and> cn_handshake cd \<and>
     (\<forall>i. cn_wok cb i) \<and> (\<forall>i. cn_wok cd i) \<and> calm env"

lemma broadcaster_side:
  assumes "pull_ready sv bo op env fb f cb cd dir out partial content" "0 \<le> off" "off \<le> int (length content)"
    and "pull_codecs sv (pull_request op off) (pull_accept (int (length content)))
      (push_done (int (length content)) sha)"
    and "sv_mar_req sv (pull_request op off) = Some bq"
    and "streamBodyFrom tenv rd 0 (drop (nat off) content) (tx_start []) = (None, st)"
  shows "\<exists>ba bd evs. sv_mar_accept sv (pull_accept (int (length content))) = Some ba \<and>
    sv_mar_done sv (push_done (int (length content)) sha) = Some bd \<and>
    handleDownload sv bo tenv rd fb (int (length content)) sha (cb\<lparr>cn_in := frame msgDownloadReq bq\<rparr>) =
      (frame msgAccept ba @ tx_wire st @ frame msgDone bd, evs)"
proof -
  let ?n = "int (length content)"
  note r = assms(1) [unfolded pull_ready_def]
  obtain ba bd where cod: "sv_un_req sv bq = Some (pull_request op off)" "length bq \<le> maxControlFrame"
    "sv_mar_accept sv (pull_accept ?n) = Some ba" "length ba \<le> maxControlFrame"
    "sv_mar_done sv (push_done ?n sha) = Some bd" "length bd \<le> maxControlFrame"
    using assms(4,5) by (auto simp: pull_codecs_def)
  obtain ekm where e: "cn_ekm cb = Some ekm" using r by auto
  have "readControl (sv_un_req sv) (sv_un_error sv) msgDownloadReq (frame msgDownloadReq bq @ []) =
      Inr (pull_request op off, [])"
    using cod(1,2) by (intro readControl_frame) simp_all
  then have rq: "readControl (sv_un_req sv) (sv_un_error sv) msgDownloadReq (frame msgDownloadReq bq) = Inr (pull_request op off, [])"
    by simp
  have q: "q_identity_pub (pull_request op off) = []" "q_identity_sig (pull_request op off) = []" "q_offset (pull_request op off) = off"
    by (simp_all add: pull_request_def)
  have ac: "access_denied sv bo (cb\<lparr>cn_in := x\<rparr>) ?n None nm = None" for x nm
    using r by (simp add: access_denied_def AccessAll_def AccessTrusted_def AccessApprove_def Let_def)
  have ba: "broadcast_accept sv bo ekm ?n = pull_accept ?n"
    using r by (simp add: broadcast_accept_def pull_accept_def ed_private_size_def)
  have wa: "writeJSON (sv_mar_accept sv) msgAccept (pull_accept ?n) = Inr (frame msgAccept ba)"
    by (rule writeJSON_Some [of "sv_mar_accept sv", OF cod(3,4)])
  have jd: "json_bytes (sv_mar_done sv) msgDone \<lparr>d_ok = True, d_bytes = ?n, d_sha256 = sha, d_reason = []\<rparr> = frame msgDone bd"
    using writeJSON_Some [of "sv_mar_done sv", OF cod(5,6)] by (simp add: json_bytes_def push_done_def)
  obtain evs where sv: "serve_stream sv tenv rd (File content) ?n sha (cb\<lparr>cn_in := frame msgDownloadReq bq\<rparr>) None
      (SanitizeName (q_downloader_name (pull_request op off))) off = (tx_wire st @ frame msgDone bd, evs)"
    using assms(6) jd by (simp add: serve_stream_def open_source_def Let_def)
  have "handleDownload sv bo tenv rd fb ?n sha (cb\<lparr>cn_in := frame msgDownloadReq bq\<rparr>) =
      (frame msgAccept ba @ tx_wire st @ frame msgDone bd, evs)"
    using r e rq q ac ba wa sv assms(2,3) by (simp add: handleDownload_def check_identity_def Let_def)
  then show ?thesis using cod by blast
qed

lemma downloader_side:
  assumes "pull_ready sv bo op env fb f cb cd dir out partial content" "int (length content) \<le> 2 ^ 40" "0 < length content"
    and "off = resumeOffset f partial (do_size op)" "ensureFreeSpace free (word_of_int (int (length content) - off))"
    and "pull_codecs sv (pull_request op off) (pull_accept (int (length content)))
      (push_done (int (length content)) (hex_encode (sv_sha sv content)))"
    and "sv_mar_req sv (pull_request op off) = Some bq"
    and "sv_mar_accept sv (pull_accept (int (length content))) = Some ba"
    and "sv_mar_done sv (push_done (int (length content)) (hex_encode (sv_sha sv content))) = Some bd"
    and "chunks_ok cs" "concat cs = drop (nat off) content"
  shows "Download sv op env f (Some dir) free (cd\<lparr>cn_in := frame msgAccept ba @ wire_of cs @ frame msgDone bd\<rparr>) =
    (f(partial := None, out \<mapsto> File content), frame msgDownloadReq bq,
     Inr (push_result cd out (int (length content)) (hex_encode (sv_sha sv content))))"
proof -
  let ?n = "int (length content)" and ?dg = "hex_encode (sv_sha sv content)"
  let ?c = "cd\<lparr>cn_in := frame msgAccept ba @ wire_of cs @ frame msgDone bd\<rparr>"
  note r = assms(1) [unfolded pull_ready_def]
  have cod: "length bq \<le> maxControlFrame" "sv_un_accept sv ba = Some (pull_accept ?n)" "length ba \<le> maxControlFrame"
    "sv_un_done sv bd = Some (push_done ?n ?dg)" "length bd \<le> maxControlFrame"
    using assms(6-9) by (auto simp: pull_codecs_def)
  have "f partial \<noteq> Some Directory" "calm env" using r by blast+
  moreover from this have "0 \<le> do_size op" using r by simp
  ultimately obtain held where
    o: "open_partial env f partial off = (f(partial \<mapsto> File held), Inr held)" "int (length held) = off" "off \<le> ?n"
    "\<forall>c. f partial = Some (File c) \<longrightarrow> held = take (length held) c"
    using open_partial_resumeOffset [of env f partial "do_size op"] r assms(4) by auto
  have cenv: "calm env" using r by blast
  have "held = take (nat off) content"
  proof (cases "off = 0")
    case True
    then show ?thesis using o(2) by simp
  next
    case False
    then obtain c where c: "f partial = Some (File c)" using resumeOffset_cases [of f partial "do_size op"] assms(4) by auto
    then have "c = take (length c) content" "held = take (length held) c" using r o(4) by blast+
    moreover have "length held \<le> length c" using calculation(2) by (metis length_take min.cobounded1)
    ultimately show ?thesis using o(2) by (metis min.absorb1 nat_int take_take)
  qed
  then have joined: "held @ concat cs = content" using assms(11) by simp
  have ac: "readControl (sv_un_accept sv) (sv_un_error sv) msgAccept (frame msgAccept ba @ wire_of cs @ frame msgDone bd) =
      Inr (pull_accept ?n, wire_of cs @ frame msgDone bd)"
    using cod(2,3) by (intro readControl_frame) simp_all
  have dn: "readControl (sv_un_done sv) (sv_un_error sv) msgDone (frame msgDone bd) = Inr (push_done ?n ?dg, [])"
  proof -
    have "readControl (sv_un_done sv) (sv_un_error sv) msgDone (frame msgDone bd @ []) = Inr (push_done ?n ?dg, [])"
      using cod(4,5) by (intro readControl_frame) simp_all
    then show ?thesis by simp
  qed
  have tot: "download_total op (pull_accept ?n) free off = Inr ?n"
    using r assms(2,3,5) by (simp add: download_total_def pull_accept_def maxTransferBytes_def Let_def)
  have rx: "receiveResumable (sv_sha sv) env f (wire_of cs @ frame msgDone bd) partial off ?n =
      (f(partial \<mapsto> File content), Inr (?n, ?dg), frame msgDone bd)"
    by (rule receiveResumable_run [OF cenv o(1) assms(10) joined])
  have pl: "placeFile env (f(partial \<mapsto> File content)) partial out ow = (f(partial := None, out \<mapsto> File content), Inr ())" for ow
    using placeFile_ok [of env "f(partial \<mapsto> File content)" partial "File content" out ow] r
    by (auto simp: calm_def)
  have "download_body sv op env f free ?c out partial off =
      (f(partial := None, out \<mapsto> File content), Inr (push_result cd out ?n ?dg))"
    using ac tot rx dn pl
    by (simp add: download_body_def pull_accept_def zero_accept_def check_identity_def push_done_def push_result_def)
  moreover have "download_request sv op (cn_ekm ?c) off = Inr (pull_request op off)"
    using r by (simp add: download_request_def pull_request_def)
  moreover have "writeJSON (sv_mar_req sv) msgDownloadReq (pull_request op off) = Inr (frame msgDownloadReq bq)"
    by (rule writeJSON_Some [of "sv_mar_req sv", OF assms(7) cod(1)])
  ultimately show ?thesis using r assms(4) by (simp add: Download_def Let_def)
qed

text \<open>C22 An honest pull completes, resuming what was held: an open broadcast and a downloader that holds nothing or a
  first part of the file run in lockstep; only the missing bytes are streamed, the downloader ends with the
  whole file at its destination, the partial gone and nothing else changed.\<close>

theorem honest_pull:
  assumes "pull_ready sv bo op env fb f cb cd dir out partial content" "tx_calm tenv rd"
    and "int (length content) \<le> 2 ^ 40" "0 < length content"
    and "off = resumeOffset f partial (do_size op)" "ensureFreeSpace free (word_of_int (int (length content) - off))"
    and "pull_codecs sv (pull_request op off) (pull_accept (int (length content)))
      (push_done (int (length content)) (hex_encode (sv_sha sv content)))"
  shows "\<exists>toB fromB evs.
    Download sv op env f (Some dir) free (cd\<lparr>cn_in := fromB\<rparr>) =
      (f(partial := None, out \<mapsto> File content), toB,
       Inr (push_result cd out (int (length content)) (hex_encode (sv_sha sv content)))) \<and>
    handleDownload sv bo tenv rd fb (int (length content)) (hex_encode (sv_sha sv content)) (cb\<lparr>cn_in := toB\<rparr>) =
      (fromB, evs)"
proof -
  obtain bq where bq: "sv_mar_req sv (pull_request op off) = Some bq" using assms(7) by (auto simp: pull_codecs_def)
  have off: "0 \<le> off" "off \<le> int (length content)"
    using resumeOffset_bounds [of "do_size op" f partial] assms(1,5) by (simp_all add: pull_ready_def)
  obtain cs st where tx: "streamBodyFrom tenv rd 0 (drop (nat off) content) (tx_start []) = (None, st)" "chunks_ok cs"
    "concat cs = drop (nat off) content" "tx_wire st = wire_of cs"
    using streamBodyFrom_wire [of tenv rd 0 "drop (nat off) content" "tx_start []"] assms(2)
    by (auto simp: tx_calm_def tx_start_def)
  from broadcaster_side [OF assms(1) off assms(7) bq tx(1)] obtain ba bd evs where
    b: "sv_mar_accept sv (pull_accept (int (length content))) = Some ba"
      "sv_mar_done sv (push_done (int (length content)) (hex_encode (sv_sha sv content))) = Some bd"
      "handleDownload sv bo tenv rd fb (int (length content)) (hex_encode (sv_sha sv content))
        (cb\<lparr>cn_in := frame msgDownloadReq bq\<rparr>) = (frame msgAccept ba @ wire_of cs @ frame msgDone bd, evs)"
    using tx(4) by auto
  show ?thesis
    using downloader_side [OF assms(1,3,4,5,6,7) bq b(1,2) tx(2,3)] b(3) by blast
qed

text \<open>An instance: a downloader that holds nothing yet.\<close>

definition demo_pull :: "(bytes \<times> bytes) pull_services" where
  "demo_pull = client_services.extend
     (demo_services\<lparr>sv_un_accept := (\<lambda>_. Some (pull_accept 5)), sv_un_done := (\<lambda>_. Some (push_done 5 (hex_encode ''hello'')))\<rparr>)
     (pull_services.fields (\<lambda>_. Some ''q'') (\<lambda>_. Some \<lparr>q_version = 1, q_offset = 0, q_identity_pub = [], q_identity_sig = [],
        q_downloader_name = ''pc''\<rparr>))"

definition demo_offer :: BroadcastOptions where
  "demo_offer = \<lparr>bo_path = ''/s/f'', bo_name = ''f'', bo_identity = [], bo_access = AccessAll, bo_is_trusted = None,
     bo_on_request = None\<rparr>"

definition demo_fetch :: DownloadOptions where
  "demo_fetch = \<lparr>do_dest = ''h'', do_pin = ''p'', do_name = '' a '', do_size = 5, do_identity = [],
     do_downloader_name = ''pc'', do_overwrite = False\<rparr>"

definition demo_partial :: string where
  "demo_partial = Join ''/d'' (partialName id ''p'' '' a '' 5)"

lemma demo_partial_not_out: "demo_partial \<noteq> ''/d/a''"
  by code_simp

lemma demo_pull_sel [simp]:
  "sv_sha demo_pull = id" "sv_mar_req demo_pull q = Some ''q''"
  "sv_un_req demo_pull b = Some \<lparr>q_version = 1, q_offset = 0, q_identity_pub = [], q_identity_sig = [],
        q_downloader_name = ''pc''\<rparr>"
  "sv_mar_accept demo_pull a = Some ''a''" "sv_un_accept demo_pull b = Some (pull_accept 5)"
  "sv_mar_done demo_pull d = Some ''d''" "sv_un_done demo_pull b = Some (push_done 5 (hex_encode ''hello''))"
  by (simp_all add: demo_pull_def demo_services_def client_services.defs pull_services.defs)

lemma demo_pull_ready:
  "pull_ready demo_pull demo_offer demo_fetch good_env [''/s/f'' \<mapsto> File ''hello''] Map.empty toy_conn toy_conn ''/d'' ''/d/a''
     demo_partial ''hello''"
proof -
  have nd: "normalizeDest ''h'' \<noteq> None" by (simp add: normalizeDest_def split: option.split)
  then show ?thesis using example_destPath demo_partial_not_out
    by (simp add: pull_ready_def demo_offer_def demo_fetch_def demo_partial_def toy_conn_def)
qed

lemma honest_pull_witness:
  "\<exists>toB fromB evs.
    Download demo_pull demo_fetch good_env Map.empty (Some ''/d'') None (toy_conn\<lparr>cn_in := fromB\<rparr>) =
      (Map.empty(demo_partial := None, ''/d/a'' \<mapsto> File ''hello''), toB,
       Inr (push_result toy_conn ''/d/a'' (int (length ''hello'')) (hex_encode (sv_sha demo_pull ''hello'')))) \<and>
    handleDownload demo_pull demo_offer good_tx plain_reader [''/s/f'' \<mapsto> File ''hello''] (int (length ''hello''))
      (hex_encode (sv_sha demo_pull ''hello'')) (toy_conn\<lparr>cn_in := toB\<rparr>) = (fromB, evs)"
  by (rule honest_pull [OF demo_pull_ready tx_calm_good, where off = 0])
    (simp_all add: pull_codecs_def resumeOffset_def ensureFreeSpace_def pull_request_def demo_fetch_def
      protocolVersion_def cap_defs)

lemma demo_downloaded:
  "\<exists>fromB toB. Download demo_pull demo_fetch good_env Map.empty (Some ''/d'') None (toy_conn\<lparr>cn_in := fromB\<rparr>) =
      ([''/d/a'' \<mapsto> File ''hello''], toB, Inr (push_result toy_conn ''/d/a'' 5 (hex_encode ''hello'')))"
proof -
  obtain cs st where tx: "streamBodyFrom good_tx plain_reader 0 (drop (nat 0) ''hello'') (tx_start []) = (None, st)" "chunks_ok cs"
    "concat cs = drop (nat 0) ''hello''"
    using streamBodyFrom_wire [of good_tx plain_reader 0 "drop (nat 0) ''hello''" "tx_start []"] tx_calm_good
    by (auto simp: tx_calm_def)
  have "Download demo_pull demo_fetch good_env Map.empty (Some ''/d'') None
      (toy_conn\<lparr>cn_in := frame msgAccept ''a'' @ wire_of cs @ frame msgDone ''d''\<rparr>) =
      (Map.empty(demo_partial := None, ''/d/a'' \<mapsto> File ''hello''), frame msgDownloadReq ''q'',
       Inr (push_result toy_conn ''/d/a'' (int (length ''hello'')) (hex_encode (sv_sha demo_pull ''hello''))))"
    by (rule downloader_side [OF demo_pull_ready, where off = 0])
      (use tx in \<open>simp_all add: pull_codecs_def resumeOffset_def ensureFreeSpace_def pull_request_def demo_fetch_def
        protocolVersion_def cap_defs\<close>)
  then show ?thesis by auto
qed

lemma download_sound_witness:
  "\<exists>fromB toB f' res. Download demo_pull demo_fetch good_env Map.empty (Some ''/d'') None (toy_conn\<lparr>cn_in := fromB\<rparr>) =
      (f', toB, Inr res) \<and> (\<exists>content. f' (rr_path res) = Some (File content) \<and> rr_bytes res = int (length content) \<and>
        rr_sha256 res = hex_encode content)"
proof -
  obtain fromB toB where d: "Download demo_pull demo_fetch good_env Map.empty (Some ''/d'') None (toy_conn\<lparr>cn_in := fromB\<rparr>) =
      ([''/d/a'' \<mapsto> File ''hello''], toB, Inr (push_result toy_conn ''/d/a'' 5 (hex_encode ''hello'')))"
    using demo_downloaded by blast
  have p: "demo_partial = Join (the (Some ''/d'')) (partialName (sv_sha demo_pull) (do_pin demo_fetch) (do_name demo_fetch) (do_size demo_fetch))"
    by (simp add: demo_partial_def demo_fetch_def)
  have n: "rr_path (push_result toy_conn ''/d/a'' 5 (hex_encode ''hello'')) \<noteq> demo_partial"
    using demo_partial_not_out by (simp add: push_result_def)
  let ?res = "push_result toy_conn ''/d/a'' 5 (hex_encode ''hello'')" and ?f' = "[''/d/a'' \<mapsto> File ''hello'']"
  have "\<forall>g. meddle good_env g demo_partial = g demo_partial" by simp
  from download_sound [OF d p n this] obtain content where "?f' (rr_path ?res) = Some (File content)"
    "rr_bytes ?res = int (length content)" "rr_sha256 ?res = hex_encode (sv_sha demo_pull content)"
    by (elim exE conjE)
  then show ?thesis using d by (metis demo_pull_sel(1) id_apply)
qed

lemma broadcast_gate_witness:
  "\<exists>out evs. handleDownload demo_pull demo_offer good_tx plain_reader [''/s/f'' \<mapsto> File ''hello''] 5 ''x''
      (toy_conn\<lparr>cn_in := frame msgDownloadReq ''q''\<rparr>) = (out, evs) \<and> evs \<noteq> [] \<and>
    (\<exists>req rest. readControl (sv_un_req demo_pull) (sv_un_error demo_pull) msgDownloadReq (frame msgDownloadReq ''q'') = Inr (req, rest) \<and>
      0 \<le> q_offset req \<and> q_offset req \<le> 5)"
proof -
  let ?c = "toy_conn\<lparr>cn_in := frame msgDownloadReq ''q''\<rparr>"
  let ?q = "\<lparr>q_version = 1, q_offset = 0, q_identity_pub = [], q_identity_sig = [], q_downloader_name = ''pc''\<rparr>"
  have "readControl (sv_un_req demo_pull) (sv_un_error demo_pull) msgDownloadReq (frame msgDownloadReq ''q'' @ []) = Inr (?q, [])"
    by (intro readControl_frame) (simp_all add: cap_defs)
  then have rq: "readControl (sv_un_req demo_pull) (sv_un_error demo_pull) msgDownloadReq (frame msgDownloadReq ''q'') = Inr (?q, [])"
    by simp
  have w: "writeJSON (sv_mar_accept demo_pull) msgAccept a = Inr (frame msgAccept ''a'')" for a
    by (rule writeJSON_Some) (simp_all add: cap_defs)
  obtain out evs where s: "serve_stream demo_pull good_tx plain_reader (File ''hello'') 5 ''x'' ?c None (SanitizeName ''pc'') 0 = (out, evs)"
    by fastforce
  have ne: "evs \<noteq> []" using s by (auto simp: serve_stream_def Let_def split: prod.split_asm option.split_asm)
  have h: "handleDownload demo_pull demo_offer good_tx plain_reader [''/s/f'' \<mapsto> File ''hello''] 5 ''x'' ?c =
      (frame msgAccept ''a'' @ out, evs)"
    using rq s w by (simp add: handleDownload_def toy_conn_def check_identity_def access_denied_def demo_offer_def
        AccessAll_def AccessTrusted_def AccessApprove_def Let_def)
  from broadcast_gate [OF h ne] show ?thesis using h ne by auto
qed

end
