(* ===== verification/Store.thy ===== *)
theory Store
  imports GoPath "HOL-Library.Finite_Map"
begin

text \<open>
  The configuration files of the program: a small file store with failing system calls, the saved login
  (\<open>credentials.go\<close>), and the content keys kept for re-sealing (\<open>pending_reseal.go\<close>). JSON is a parameter
  (\<open>un\<close> parses, \<open>mar\<close> renders); times are nanoseconds.
\<close>

section \<open>Files\<close>

type_synonym files = "string \<rightharpoonup> bytes"

record os =
  os_config_base :: "string option"   \<comment> \<open>\<open>os.UserConfigDir\<close>\<close>
  os_home :: "string option"          \<comment> \<open>\<open>os.UserHomeDir\<close>\<close>
  os_xdg :: string                    \<comment> \<open>\<open>XDG_CONFIG_HOME\<close>\<close>
  os_read_ok :: "string \<Rightarrow> bool"
  os_write_ok :: "string \<Rightarrow> bool"
  os_remove_ok :: "string \<Rightarrow> bool"
  os_mkdir_ok :: "string \<Rightarrow> bool"
  os_rename_ok :: "string \<Rightarrow> bool"

datatype file_err = NotExist | IOError | NoConfigBase | ParseError | RenderError

definition read_file :: "os \<Rightarrow> files \<Rightarrow> string \<Rightarrow> file_err + bytes" where
  "read_file s fs p = (case fs p of None \<Rightarrow> Inl NotExist | Some b \<Rightarrow> if os_read_ok s p then Inr b else Inl IOError)"

text \<open>Creating the directory, writing and setting the mode, as one step that works or not.\<close>

definition write_file :: "os \<Rightarrow> files \<Rightarrow> string \<Rightarrow> bytes \<Rightarrow> files \<times> file_err option" where
  "write_file s fs p b = (if os_write_ok s p then (fs(p \<mapsto> b), None) else (fs, Some IOError))"

definition remove_file :: "os \<Rightarrow> files \<Rightarrow> string \<Rightarrow> files \<times> file_err option" where
  "remove_file s fs p =
     (if fs p = None then (fs, Some NotExist)
      else if os_remove_ok s p then (fs(p := None), None) else (fs, Some IOError))"

definition rename_file :: "os \<Rightarrow> files \<Rightarrow> string \<Rightarrow> string \<Rightarrow> files \<times> file_err option" where
  "rename_file s fs a p = (case fs a of
     None \<Rightarrow> (fs, Some NotExist)
   | Some c \<Rightarrow> if os_rename_ok s p then (fs(a := None, p \<mapsto> c), None) else (fs, Some IOError))"

text \<open>Writing beside the file and renaming over it.\<close>

definition replace_file :: "os \<Rightarrow> files \<Rightarrow> string \<Rightarrow> string \<Rightarrow> bytes \<Rightarrow> files \<times> file_err option" where
  "replace_file s fs tmp p b = (case write_file s fs tmp b of
     (fs1, Some e) \<Rightarrow> (fs1, Some e)
   | (fs1, None) \<Rightarrow> rename_file s fs1 tmp p)"

definition app_path :: "string \<Rightarrow> string \<Rightarrow> string" where
  "app_path base name = Join (Join base ''share2us'') name"

text \<open>Removing a list of files, keeping the first real error.\<close>

fun remove_all :: "('fs \<Rightarrow> 'p \<Rightarrow> 'fs \<times> 'e option) \<Rightarrow> 'e \<Rightarrow> 'p list \<Rightarrow> 'fs \<Rightarrow> 'e option \<Rightarrow> 'fs \<times> 'e option" where
  "remove_all rm gone [] fs first = (fs, first)"
| "remove_all rm gone (p # ps) fs first = (case rm fs p of
     (g, e) \<Rightarrow> remove_all rm gone ps g (if e \<noteq> None \<and> e \<noteq> Some gone \<and> first = None then e else first))"

text \<open>What the components that keep state in files rely on.\<close>

locale file_store =
  fixes rd :: "'fs \<Rightarrow> 'p \<Rightarrow> 'e + 'b" and wr :: "'fs \<Rightarrow> 'p \<Rightarrow> 'b \<Rightarrow> 'fs \<times> 'e option"
    and rm :: "'fs \<Rightarrow> 'p \<Rightarrow> 'fs \<times> 'e option" and gone :: 'e and readable :: "'p \<Rightarrow> bool"
  assumes rd_wr: "wr fs p b = (fs', None) \<Longrightarrow> readable p \<Longrightarrow> rd fs' p = Inr b"
    and rd_wr_other: "wr fs p b = (fs', e) \<Longrightarrow> q \<noteq> p \<Longrightarrow> rd fs' q = rd fs q"
    and wr_fails: "wr fs p b = (fs', Some x) \<Longrightarrow> fs' = fs"
    and rm_gone: "rm fs p = (fs', e) \<Longrightarrow> e = None \<or> e = Some gone \<Longrightarrow> rd fs' p = Inl gone"
    and rm_other: "rm fs p = (fs', e) \<Longrightarrow> q \<noteq> p \<Longrightarrow> rd fs' q = rd fs q"
begin

lemma rm_stays:
  assumes "rm fs p = (fs', e)" "rd fs q = Inl gone" "e = None \<or> e = Some gone"
  shows "rd fs' q = Inl gone"
  using assms rm_gone rm_other by (cases "q = p") metis+

lemma rm_all_first: "remove_all rm gone ps fs (Some x) = (fs', r) \<Longrightarrow> r = Some x"
  by (induction ps arbitrary: fs) (simp_all split: prod.splits)

lemma rm_all_step:
  assumes "remove_all rm gone (p # ps) fs None = (fs', None)"
  obtains g e where "rm fs p = (g, e)" "e = None \<or> e = Some gone" "remove_all rm gone ps g None = (fs', None)"
proof -
  obtain g e where r: "rm fs p = (g, e)" by fastforce
  show thesis
  proof (cases "e = None \<or> e = Some gone")
    case True
    then show thesis using assms r that [OF r] by auto
  next
    case False
    then show thesis using assms r rm_all_first [of ps g "the e" fs' None] by auto
  qed
qed

lemma rm_all_stays:
  "remove_all rm gone ps fs None = (fs', None) \<Longrightarrow> rd fs q = Inl gone \<Longrightarrow> rd fs' q = Inl gone"
proof (induction ps arbitrary: fs)
  case (Cons p ps)
  from Cons.prems(1) obtain g e where "rm fs p = (g, e)" "e = None \<or> e = Some gone"
    "remove_all rm gone ps g None = (fs', None)" by (rule rm_all_step)
  then show ?case using Cons.IH [of g] Cons.prems(2) rm_stays by blast
qed simp

lemma rm_all_gone:
  "remove_all rm gone ps fs None = (fs', None) \<Longrightarrow> q \<in> set ps \<Longrightarrow> rd fs' q = Inl gone"
proof (induction ps arbitrary: fs)
  case (Cons p ps)
  from Cons.prems(1) obtain g e where r: "rm fs p = (g, e)" "e = None \<or> e = Some gone"
    "remove_all rm gone ps g None = (fs', None)" by (rule rm_all_step)
  then show ?case using Cons.IH [OF r(3)] Cons.prems(2) rm_gone [OF r(1,2)] rm_all_stays [OF r(3)] by auto
qed simp

end

interpretation disk: file_store "read_file s" "write_file s" "remove_file s" NotExist "os_read_ok s" for s
  by unfold_locales (auto simp: read_file_def write_file_def remove_file_def split: if_splits)

lemma replace_file_rd:
  assumes "replace_file s fs tmp p b = (fs', None)" "os_read_ok s p"
  shows "read_file s fs' p = Inr b"
  using assms by (auto simp: replace_file_def write_file_def rename_file_def read_file_def split: if_splits option.splits)

lemma replace_file_other:
  assumes "replace_file s fs tmp p b = (fs', e)" "q \<noteq> p" "q \<noteq> tmp"
  shows "fs' q = fs q"
  using assms by (auto simp: replace_file_def write_file_def rename_file_def split: if_splits option.splits)

section \<open>The saved login\<close>

record Credential =
  cr_schema :: int
  cr_api_base :: string
  cr_token :: string
  cr_email :: string
  cr_account_id :: string
  cr_device_session_id :: string
  cr_device_public :: string
  cr_device_private :: string
  cr_signing_public :: string
  cr_signing_private :: string

record cred_codec =
  cc_un :: "bytes \<Rightarrow> Credential option"
  cc_mar :: "Credential \<Rightarrow> bytes option"

definition CredentialSchemaVersion :: int where "CredentialSchemaVersion = 1"
definition DefaultAPIBase :: string where "DefaultAPIBase = ''https://api.share2.us''"

definition CredentialPath :: "os \<Rightarrow> file_err + string" where
  "CredentialPath s = (case os_config_base s of None \<Rightarrow> Inl NoConfigBase | Some b \<Rightarrow> Inr (app_path b ''credentials.json''))"

definition legacy_base :: "os \<Rightarrow> string option" where
  "legacy_base s = (if os_xdg s \<noteq> [] then Some (os_xdg s)
     else (case os_home s of None \<Rightarrow> None | Some h \<Rightarrow> Some (Join h ''.config'')))"

definition legacyCredentialPath :: "os \<Rightarrow> file_err + string" where
  "legacyCredentialPath s = (case legacy_base s of None \<Rightarrow> Inl NoConfigBase | Some b \<Rightarrow> Inr (app_path b ''credentials.json''))"

definition migrateCredential :: "Credential \<Rightarrow> Credential \<times> bool" where
  "migrateCredential c =
     (if cr_schema c > CredentialSchemaVersion then (c, False)
      else if cr_schema c = 0 then (c\<lparr>cr_schema := 1\<rparr>, True) else (c, False))"

definition SaveCredentialAt :: "cred_codec \<Rightarrow> os \<Rightarrow> files \<Rightarrow> string \<Rightarrow> Credential \<Rightarrow> files \<times> file_err option" where
  "SaveCredentialAt cc s fs path c =
     (let c1 = (if cr_api_base c = [] then c\<lparr>cr_api_base := DefaultAPIBase\<rparr> else c);
          c2 = c1\<lparr>cr_schema := CredentialSchemaVersion\<rparr> in
      (case cc_mar cc c2 of None \<Rightarrow> (fs, Some RenderError) | Some raw \<Rightarrow> write_file s fs path (raw @ [CHR 0x0A])))"

definition LoadCredentialAt :: "cred_codec \<Rightarrow> os \<Rightarrow> files \<Rightarrow> string \<Rightarrow> files \<times> (file_err + Credential)" where
  "LoadCredentialAt cc s fs path = (case read_file s fs path of
     Inl e \<Rightarrow> (fs, Inl e)
   | Inr raw \<Rightarrow> (case cc_un cc raw of
       None \<Rightarrow> (fs, Inl ParseError)
     | Some c0 \<Rightarrow>
         let (c, changed) = migrateCredential c0 in
         if changed \<and> cr_token c \<noteq> [] then (fst (SaveCredentialAt cc s fs path c), Inr c) else (fs, Inr c)))"

definition LoadCredential :: "cred_codec \<Rightarrow> os \<Rightarrow> files \<Rightarrow> files \<times> (file_err + Credential)" where
  "LoadCredential cc s fs = (case CredentialPath s of
     Inl e \<Rightarrow> (fs, Inl e)
   | Inr path \<Rightarrow> (case LoadCredentialAt cc s fs path of
       (fs1, Inl NotExist) \<Rightarrow> (case legacyCredentialPath s of
           Inl _ \<Rightarrow> (fs1, Inl NotExist)
         | Inr legacy \<Rightarrow>
             if legacy = path then (fs1, Inl NotExist)
             else (case LoadCredentialAt cc s fs1 legacy of
                 (fs2, Inl _) \<Rightarrow> (fs2, Inl NotExist)
               | (fs2, Inr c) \<Rightarrow> (fst (SaveCredentialAt cc s fs2 path c), Inr c)))
     | r \<Rightarrow> r))"

definition SaveCredential :: "cred_codec \<Rightarrow> os \<Rightarrow> files \<Rightarrow> Credential \<Rightarrow> files \<times> file_err option" where
  "SaveCredential cc s fs c = (case CredentialPath s of
     Inl e \<Rightarrow> (fs, Some e) | Inr path \<Rightarrow> SaveCredentialAt cc s fs path c)"

text \<open>\<open>legacy\<close> is the empty string when there is none.\<close>

definition deleteCredentialFiles :: "os \<Rightarrow> files \<Rightarrow> string \<Rightarrow> string \<Rightarrow> files \<times> file_err option" where
  "deleteCredentialFiles s fs path legacy =
     (let (fs1, e1) = remove_file s fs path; first = (if e1 = Some NotExist then None else e1) in
      if legacy \<noteq> [] \<and> legacy \<noteq> path then
        (let (fs2, e2) = remove_file s fs1 legacy in
         (fs2, if e2 \<noteq> None \<and> e2 \<noteq> Some NotExist \<and> first = None then e2 else first))
      else (fs1, first))"

definition DeleteCredential :: "os \<Rightarrow> files \<Rightarrow> files \<times> file_err option" where
  "DeleteCredential s fs = (case CredentialPath s of
     Inl e \<Rightarrow> (fs, Some e)
   | Inr path \<Rightarrow> deleteCredentialFiles s fs path (case legacyCredentialPath s of Inl _ \<Rightarrow> [] | Inr l \<Rightarrow> l))"

section \<open>Keys kept for re-sealing\<close>

record PendingResealEntry =
  pe_share :: string
  pe_key :: string
  pe_recipient :: string
  pe_created :: int

type_synonym PendingResealStore = "(string, PendingResealEntry) fmap"

record reseal_codec =
  rc_un :: "bytes \<Rightarrow> PendingResealStore option"
  rc_mar :: "PendingResealStore \<Rightarrow> bytes option"

definition PendingResealTTL :: int where "PendingResealTTL = 14 * 24 * 3600 * 1000000000"

definition PendingResealPath :: "os \<Rightarrow> file_err + string" where
  "PendingResealPath s = (case os_config_base s of None \<Rightarrow> Inl NoConfigBase | Some b \<Rightarrow> Inr (app_path b ''pending_reseal.json''))"

definition legacyPendingResealPaths :: "os \<Rightarrow> string list" where
  "legacyPendingResealPaths s =
     (let current = (case PendingResealPath s of Inl _ \<Rightarrow> [] | Inr p \<Rightarrow> p);
          add = (\<lambda>base out. if base = [] then out
                 else let p = app_path base ''pending_reseal.json'' in
                   if p = current \<or> p \<in> set out then out else out @ [p]);
          out1 = add (os_xdg s) [] in
      (case os_home s of None \<Rightarrow> out1 | Some h \<Rightarrow> add (Join h ''.config'') out1))"

definition expired :: "int \<Rightarrow> PendingResealEntry \<Rightarrow> bool" where
  "expired now e \<longleftrightarrow> now - pe_created e > PendingResealTTL"

definition pruneExpired :: "int \<Rightarrow> PendingResealStore \<Rightarrow> PendingResealStore \<times> bool" where
  "pruneExpired now st =
     (let st' = fmfilter (\<lambda>k. case fmlookup st k of None \<Rightarrow> True | Some e \<Rightarrow> \<not> expired now e) st in (st', st' \<noteq> st))"

definition SavePendingReseal :: "reseal_codec \<Rightarrow> os \<Rightarrow> files \<Rightarrow> PendingResealStore \<Rightarrow> files \<times> file_err option" where
  "SavePendingReseal rc s fs st = (case PendingResealPath s of
     Inl e \<Rightarrow> (fs, Some e)
   | Inr path \<Rightarrow> (case rc_mar rc st of None \<Rightarrow> (fs, Some RenderError) | Some raw \<Rightarrow> write_file s fs path (raw @ [CHR 0x0A])))"

text \<open>The bytes to parse, and the legacy path whose removal is deferred to the end of the load.\<close>

definition find_reseal :: "os \<Rightarrow> files \<Rightarrow> string \<Rightarrow> file_err + (bytes \<times> string option) option" where
  "find_reseal s fs path = (case read_file s fs path of
     Inr raw \<Rightarrow> Inr (Some (raw, None))
   | Inl NotExist \<Rightarrow>
       (case find (\<lambda>l. \<not> isl (read_file s fs l)) (legacyPendingResealPaths s) of
          None \<Rightarrow> Inr None
        | Some l \<Rightarrow> (case read_file s fs l of Inl e \<Rightarrow> Inr None | Inr b \<Rightarrow> Inr (Some (b, Some l))))
   | Inl e \<Rightarrow> Inl e)"

definition LoadPendingReseal :: "reseal_codec \<Rightarrow> os \<Rightarrow> int \<Rightarrow> files \<Rightarrow> files \<times> (file_err + PendingResealStore)" where
  "LoadPendingReseal rc s now fs = (case PendingResealPath s of
     Inl e \<Rightarrow> (fs, Inl e)
   | Inr path \<Rightarrow> (case find_reseal s fs path of
       Inl e \<Rightarrow> (fs, Inl e)
     | Inr None \<Rightarrow> (fs, Inr fmempty)
     | Inr (Some (raw, legacy)) \<Rightarrow>
         let done = (\<lambda>g. case legacy of None \<Rightarrow> g | Some l \<Rightarrow> fst (remove_file s g l)) in
         (case rc_un rc raw of
            None \<Rightarrow> (done fs, Inl ParseError)
          | Some st0 \<Rightarrow>
              let (st, removed) = pruneExpired now st0 in
              (done (if removed then fst (SavePendingReseal rc s fs st) else fs), Inr st))))"

definition RetainContentKey ::
  "reseal_codec \<Rightarrow> os \<Rightarrow> int \<Rightarrow> files \<Rightarrow> string \<Rightarrow> string \<Rightarrow> string \<Rightarrow> files \<times> file_err option" where
  "RetainContentKey rc s now fs share key recipient =
     (if share = [] \<or> key = [] then (fs, None)
      else (case LoadPendingReseal rc s now fs of
          (fs1, Inl e) \<Rightarrow> (fs1, Some e)
        | (fs1, Inr st) \<Rightarrow> SavePendingReseal rc s fs1
            (fmupd share \<lparr>pe_share = share, pe_key = key, pe_recipient = recipient, pe_created = now\<rparr> st)))"

definition ForgetRetainedKey :: "reseal_codec \<Rightarrow> os \<Rightarrow> int \<Rightarrow> files \<Rightarrow> string \<Rightarrow> files \<times> file_err option" where
  "ForgetRetainedKey rc s now fs share = (case LoadPendingReseal rc s now fs of
     (fs1, Inl e) \<Rightarrow> (fs1, Some e)
   | (fs1, Inr st) \<Rightarrow> if fmlookup st share = None then (fs1, None) else SavePendingReseal rc s fs1 (fmdrop share st))"

definition ForgetAllRetainedKeys :: "os \<Rightarrow> files \<Rightarrow> files \<times> file_err option" where
  "ForgetAllRetainedKeys s fs =
     (let (current, e0) = (case PendingResealPath s of Inl e \<Rightarrow> ([], Some e) | Inr p \<Rightarrow> (p, None)) in
      remove_all (remove_file s) NotExist (legacyPendingResealPaths s @ (if current \<noteq> [] then [current] else [])) fs e0)"

section \<open>Facts\<close>

lemma join_sep_ne: "cs \<noteq> [] \<Longrightarrow> list_all (\<lambda>c. c \<noteq> []) cs \<Longrightarrow> join_sep cs \<noteq> []"
  by (induction cs rule: join_sep.induct) auto

lemma Clean_ne [simp]: "Clean p \<noteq> []"
proof -
  let ?cs = "clean_comps (rooted p) (split_sep p)"
  have "list_all (\<lambda>c. c \<noteq> []) ?cs"
    using clean_comps_list [of "rooted p" p] by (auto simp: clean_list_def list_all_iff)
  then have "?cs \<noteq> [] \<Longrightarrow> join_sep ?cs \<noteq> []" by (rule join_sep_ne [rotated])
  then show ?thesis by (cases "rooted p") (simp_all add: Clean_def render_def)
qed

lemma app_path_ne [simp]: "app_path b n \<noteq> []"
  by (simp add: app_path_def Join_def)

lemma deleteCredentialFiles_all:
  "deleteCredentialFiles s fs path legacy =
     remove_all (remove_file s) NotExist (path # (if legacy \<noteq> [] \<and> legacy \<noteq> path then [legacy] else [])) fs None"
  by (auto simp: deleteCredentialFiles_def Let_def split: prod.splits)

lemma LoadCredentialAt_gone: "read_file s fs p = Inl e \<Longrightarrow> LoadCredentialAt cc s fs p = (fs, Inl e)"
  by (simp add: LoadCredentialAt_def)

lemma LoadCredentialAt_saved:
  assumes sv: "SaveCredentialAt cc s fs p c = (fs', None)" and rd: "os_read_ok s p"
    and law: "\<And>c b. cc_mar cc c = Some b \<Longrightarrow> cc_un cc (b @ [CHR 0x0A]) = Some c"
  shows "LoadCredentialAt cc s fs' p =
    (fs', Inr (c\<lparr>cr_api_base := if cr_api_base c = [] then DefaultAPIBase else cr_api_base c, cr_schema := 1\<rparr>))"
proof -
  define c2 where "c2 = c\<lparr>cr_api_base := if cr_api_base c = [] then DefaultAPIBase else cr_api_base c, cr_schema := 1\<rparr>"
  from sv obtain raw where m: "cc_mar cc c2 = Some raw" and w: "write_file s fs p (raw @ [CHR 0x0A]) = (fs', None)"
    by (auto simp: SaveCredentialAt_def Let_def CredentialSchemaVersion_def c2_def split: option.splits if_splits)
  have "read_file s fs' p = Inr (raw @ [CHR 0x0A])" using disk.rd_wr [OF w] rd by simp
  then show ?thesis using law [OF m]
    by (simp add: LoadCredentialAt_def migrateCredential_def CredentialSchemaVersion_def c2_def)
qed

text \<open>Reading the store where it is expected.\<close>

lemma LoadPendingReseal_current:
  assumes "PendingResealPath s = Inr p" "read_file s fs p = Inr raw" "rc_un rc raw = Some st"
  shows "\<exists>fs'. LoadPendingReseal rc s now fs = (fs', Inr (fst (pruneExpired now st)))"
  using assms by (simp add: LoadPendingReseal_def find_reseal_def Let_def case_prod_unfold)

lemma LoadPendingReseal_absent:
  assumes "PendingResealPath s = Inr p" "read_file s fs p = Inl NotExist"
    and "\<And>l. l \<in> set (legacyPendingResealPaths s) \<Longrightarrow> read_file s fs l = Inl NotExist"
  shows "LoadPendingReseal rc s now fs = (fs, Inr fmempty)"
proof -
  have "find (\<lambda>l. \<not> isl (read_file s fs l)) (legacyPendingResealPaths s) = None"
    using assms(3) by (auto simp: find_None_iff)
  then show ?thesis using assms(1,2) by (simp add: LoadPendingReseal_def find_reseal_def)
qed

lemma lookup_pruneExpired:
  "fmlookup (fst (pruneExpired now st)) k =
     (case fmlookup st k of None \<Rightarrow> None | Some e \<Rightarrow> if expired now e then None else Some e)"
  by (auto simp: pruneExpired_def Let_def split: option.splits)

lemma pruneExpired_none: "fmpred (\<lambda>_ e. \<not> expired now e) st \<Longrightarrow> pruneExpired now st = (st, False)"
proof -
  assume a: "fmpred (\<lambda>_ e. \<not> expired now e) st"
  have "fmfilter (\<lambda>k. case fmlookup st k of None \<Rightarrow> True | Some e \<Rightarrow> \<not> expired now e) st = st"
    using fmpredD [OF a] by (intro fmap_ext) (auto split: option.splits)
  then show ?thesis by (simp add: pruneExpired_def)
qed

section \<open>Properties\<close>

text \<open>C24 Logging out is final: when \<open>DeleteCredential\<close> reports success, \<open>LoadCredential\<close> finds no login, in the
  current place or in the one older builds used, so nothing migrates a deleted login back.\<close>

theorem logout_is_final:
  assumes "DeleteCredential s fs = (fs', None)"
  shows "LoadCredential cc s fs' = (fs', Inl NotExist)"
proof -
  from assms obtain path where p: "CredentialPath s = Inr path" by (auto simp: DeleteCredential_def split: sum.splits)
  define legacy where "legacy = (case legacyCredentialPath s of Inl _ \<Rightarrow> [] | Inr l \<Rightarrow> l)"
  have ra: "remove_all (remove_file s) NotExist
      (path # (if legacy \<noteq> [] \<and> legacy \<noteq> path then [legacy] else [])) fs None = (fs', None)"
    using assms p by (simp only: DeleteCredential_def deleteCredentialFiles_all legacy_def sum.case)
  have gp: "LoadCredentialAt cc s fs' path = (fs', Inl NotExist)"
    using disk.rm_all_gone [OF ra] by (simp add: LoadCredentialAt_gone)
  show ?thesis
  proof (cases "legacyCredentialPath s")
    case (Inr l)
    then have "l \<noteq> []" "legacy = l" by (auto simp: legacyCredentialPath_def legacy_def split: option.splits)
    then have "LoadCredentialAt cc s fs' l = (fs', Inl NotExist)"
      using disk.rm_all_gone [OF ra, of l] gp by (cases "l = path") (auto simp: LoadCredentialAt_gone)
    then show ?thesis using p gp Inr by (simp add: LoadCredential_def)
  qed (use p gp in \<open>simp add: LoadCredential_def\<close>)
qed

text \<open>A retained key lives exactly as long as it may: after \<open>RetainContentKey\<close> reports success at time \<open>t\<close>,
  \<open>LoadPendingReseal\<close> at any later time returns the entry with this key while at most 14 days have passed, and
  no entry for the share afterwards. (Law: a rendered store parses back.)\<close>

theorem retained_key_lifetime:
  assumes "RetainContentKey rc s t fs share key recipient = (fs1, None)" "share \<noteq> []" "key \<noteq> []"
    and path: "PendingResealPath s = Inr p" and rd: "os_read_ok s p"
    and law: "\<And>st b. rc_mar rc st = Some b \<Longrightarrow> rc_un rc (b @ [CHR 0x0A]) = Some st"
  shows "\<exists>fs2 st. LoadPendingReseal rc s now fs1 = (fs2, Inr st) \<and>
    fmlookup st share = (if now - t \<le> 14 * 24 * 3600 * 1000000000
       then Some \<lparr>pe_share = share, pe_key = key, pe_recipient = recipient, pe_created = t\<rparr> else None)"
proof -
  define e where "e = \<lparr>pe_share = share, pe_key = key, pe_recipient = recipient, pe_created = t\<rparr>"
  from assms(1-3) obtain fs0 st0 where "SavePendingReseal rc s fs0 (fmupd share e st0) = (fs1, None)"
    by (auto simp: RetainContentKey_def e_def split: prod.splits sum.splits)
  then obtain raw where m: "rc_mar rc (fmupd share e st0) = Some raw"
    and w: "write_file s fs0 p (raw @ [CHR 0x0A]) = (fs1, None)"
    using path by (auto simp: SavePendingReseal_def split: option.splits)
  obtain fs2 where "LoadPendingReseal rc s now fs1 = (fs2, Inr (fst (pruneExpired now (fmupd share e st0))))"
    using LoadPendingReseal_current [OF path disk.rd_wr [OF w rd] law [OF m]] by blast
  then show ?thesis by (auto simp: lookup_pruneExpired expired_def PendingResealTTL_def e_def)
qed

text \<open>Logging out forgets every retained key: when \<open>ForgetAllRetainedKeys\<close> reports success, the store reads back
  empty, whatever older builds left in the places they used.\<close>

theorem logout_forgets_keys:
  assumes "ForgetAllRetainedKeys s fs = (fs', None)"
  shows "LoadPendingReseal rc s now fs' = (fs', Inr fmempty)"
proof -
  obtain p where p: "PendingResealPath s = Inr p"
  proof (cases "PendingResealPath s")
    case (Inl e)
    then show thesis
      using assms disk.rm_all_first [of s "legacyPendingResealPaths s" fs e fs' None] by (simp add: ForgetAllRetainedKeys_def)
  qed
  then have "p \<noteq> []" by (auto simp: PendingResealPath_def split: option.splits)
  with assms p have "remove_all (remove_file s) NotExist (legacyPendingResealPaths s @ [p]) fs None = (fs', None)"
    by (simp add: ForgetAllRetainedKeys_def)
  note gone = disk.rm_all_gone [OF this]
  show ?thesis by (rule LoadPendingReseal_absent [OF p]) (auto intro: gone)
qed

text \<open>Adopting a store from an old place can lose it: when the current store does not exist, none of the adopted
  entries has expired and the old file can be removed, \<open>LoadPendingReseal\<close> returns the keys and deletes their
  only copy, since it writes the store back only if something expired; the next load returns nothing.\<close>

theorem adopted_keys_lost:
  assumes p: "PendingResealPath s = Inr p" and cur: "fs p = None"
    and leg: "legacyPendingResealPaths s = [l]" "l \<noteq> p" "read_file s fs l = Inr raw" "os_remove_ok s l"
    and un: "rc_un rc raw = Some st" and fresh: "fmpred (\<lambda>_ e. \<not> expired now e) st"
  shows "\<exists>fs'. LoadPendingReseal rc s now fs = (fs', Inr st) \<and> LoadPendingReseal rc s later fs' = (fs', Inr fmempty)"
proof -
  have "fs l \<noteq> None" using leg(3) by (auto simp: read_file_def split: option.splits)
  then have rm: "remove_file s fs l = (fs(l := None), None)" using leg(4) by (simp add: remove_file_def)
  have "read_file s fs p = Inl NotExist" using cur by (simp add: read_file_def)
  then have "LoadPendingReseal rc s now fs = (fs(l := None), Inr st)"
    using p leg un by (simp add: LoadPendingReseal_def find_reseal_def pruneExpired_none [OF fresh] rm)
  moreover have "LoadPendingReseal rc s later (fs(l := None)) = (fs(l := None), Inr fmempty)"
    using p cur leg(1) by (intro LoadPendingReseal_absent) (auto simp: read_file_def)
  ultimately show ?thesis by blast
qed

section \<open>A concrete machine\<close>

definition demo_os :: os where
  "demo_os = \<lparr>os_config_base = Some ''/home/a/.config'', os_home = Some ''/home/a'', os_xdg = ''/x'',
     os_read_ok = (\<lambda>_. True), os_write_ok = (\<lambda>_. True), os_remove_ok = (\<lambda>_. True), os_mkdir_ok = (\<lambda>_. True), os_rename_ok = (\<lambda>_. True)\<rparr>"

definition demo_entry :: PendingResealEntry where
  "demo_entry = \<lparr>pe_share = ''s'', pe_key = ''k'', pe_recipient = ''r'', pe_created = 0\<rparr>"

text \<open>A codec for stores with at most one entry, of the fixed key \<open>demo_entry\<close>.\<close>

definition demo_codec :: reseal_codec where
  "demo_codec = \<lparr>rc_un = (\<lambda>b. if b = [CHR 0x0A] then Some fmempty
       else if b = ''1'' @ [CHR 0x0A] then Some (fmupd ''s'' demo_entry fmempty) else None),
     rc_mar = (\<lambda>st. if st = fmempty then Some [] else if st = fmupd ''s'' demo_entry fmempty then Some ''1'' else None)\<rparr>"

lemma demo_os_ok [simp]: "os_read_ok demo_os q" "os_write_ok demo_os q" "os_remove_ok demo_os q"
  "os_mkdir_ok demo_os q" "os_rename_ok demo_os q"
  by (simp_all add: demo_os_def)

lemma demo_store_ne: "fmupd ''s'' demo_entry fmempty \<noteq> fmempty"
  by (metis fmempty_lookup fmupd_lookup option.distinct(1))

lemma demo_codec_one: "rc_mar demo_codec (fmupd ''s'' demo_entry fmempty) = Some ''1''"
  "rc_un demo_codec (''1'' @ [CHR 0x0A]) = Some (fmupd ''s'' demo_entry fmempty)"
  using demo_store_ne by (simp_all add: demo_codec_def)

lemma demo_paths:
  "PendingResealPath demo_os = Inr ''/home/a/.config/share2us/pending_reseal.json''"
  "legacyPendingResealPaths demo_os = [''/x/share2us/pending_reseal.json'']"
  "CredentialPath demo_os = Inr ''/home/a/.config/share2us/credentials.json''"
  "legacyCredentialPath demo_os = Inr ''/x/share2us/credentials.json''"
  by code_simp+

lemma logout_is_final_witness:
  "\<exists>fs'. DeleteCredential demo_os [''/home/a/.config/share2us/credentials.json'' \<mapsto> ''new'',
       ''/x/share2us/credentials.json'' \<mapsto> ''old''] = (fs', None) \<and>
     LoadCredential \<lparr>cc_un = (\<lambda>_. None), cc_mar = (\<lambda>_. None)\<rparr> demo_os fs' = (fs', Inl NotExist)"
proof -
  have "DeleteCredential demo_os [''/home/a/.config/share2us/credentials.json'' \<mapsto> ''new'',
       ''/x/share2us/credentials.json'' \<mapsto> ''old''] = (Map.empty, None)"
    by (simp add: DeleteCredential_def demo_paths deleteCredentialFiles_def remove_file_def)
  from this logout_is_final [OF this] show ?thesis by blast
qed

lemma demo_codec_law: "rc_mar demo_codec st = Some b \<Longrightarrow> rc_un demo_codec (b @ [CHR 0x0A]) = Some st"
  by (auto simp: demo_codec_def split: if_splits)

lemma demo_retain:
  "RetainContentKey demo_codec demo_os 0 Map.empty ''s'' ''k'' ''r'' =
     ([''/home/a/.config/share2us/pending_reseal.json'' \<mapsto> ''1'' @ [CHR 0x0A]], None)"
proof -
  have "LoadPendingReseal demo_codec demo_os 0 Map.empty = (Map.empty, Inr fmempty)"
    by (rule LoadPendingReseal_absent [OF demo_paths(1)]) (simp_all add: read_file_def)
  then show ?thesis
    by (simp add: RetainContentKey_def SavePendingReseal_def demo_paths write_file_def demo_codec_one flip: demo_entry_def)
qed

lemma retained_key_lifetime_witness:
  "\<exists>fs st. LoadPendingReseal demo_codec demo_os 7
       [''/home/a/.config/share2us/pending_reseal.json'' \<mapsto> ''1'' @ [CHR 0x0A]] = (fs, Inr st) \<and>
     fmlookup st ''s'' = Some demo_entry"
  using retained_key_lifetime [OF demo_retain _ _ demo_paths(1) _ demo_codec_law, of 7]
  by (simp add: demo_entry_def)

lemma logout_forgets_keys_witness:
  "\<exists>fs'. ForgetAllRetainedKeys demo_os [''/x/share2us/pending_reseal.json'' \<mapsto> ''1''] = (fs', None) \<and>
     LoadPendingReseal demo_codec demo_os 7 fs' = (fs', Inr fmempty)"
proof -
  have "ForgetAllRetainedKeys demo_os [''/x/share2us/pending_reseal.json'' \<mapsto> ''1''] = (Map.empty, None)"
    by (simp add: ForgetAllRetainedKeys_def demo_paths remove_file_def)
  from this logout_forgets_keys [OF this] show ?thesis by blast
qed

lemma adopted_keys_lost_witness:
  "\<exists>fs. LoadPendingReseal demo_codec demo_os 7 [''/x/share2us/pending_reseal.json'' \<mapsto> ''1'' @ [CHR 0x0A]] =
       (fs, Inr (fmupd ''s'' demo_entry fmempty)) \<and>
     LoadPendingReseal demo_codec demo_os 8 fs = (fs, Inr fmempty)"
  by (rule adopted_keys_lost [OF demo_paths(1) _ demo_paths(2) _ _ _ demo_codec_one(2)])
    (simp_all add: read_file_def expired_def PendingResealTTL_def demo_entry_def fmpred_upd)

end
