(* ===== verification/LanStore.thy ===== *)
theory LanStore
  imports Store Auth Names
begin

text \<open>
  The files of \<open>lanid\<close> that are not the trust list: the device's persistent identity (\<open>lanid.go\<close>), the scan
  interval and the capped activity log (\<open>store.go\<close>). Key generation, the name of a temporary file, the clock
  and JSON are parameters.
\<close>

section \<open>The configuration directory\<close>

definition configDir :: "os \<Rightarrow> file_err + string" where
  "configDir s = (case os_config_base s of
     None \<Rightarrow> Inl NoConfigBase
   | Some b \<Rightarrow> (let dir = Join b ''share2us'' in if os_mkdir_ok s dir then Inr dir else Inl IOError))"

definition lan_path :: "os \<Rightarrow> string \<Rightarrow> file_err + string" where
  "lan_path s name = (case configDir s of Inl e \<Rightarrow> Inl e | Inr dir \<Rightarrow> Inr (Join dir name))"

lemma lan_path_app: "lan_path s n = Inr p \<Longrightarrow> \<exists>b. os_config_base s = Some b \<and> p = app_path b n"
  by (auto simp: lan_path_def configDir_def app_path_def Let_def split: option.splits if_splits)

section \<open>The device identity\<close>

record identity_codec =
  ic_un :: "bytes \<Rightarrow> bytes option"
  ic_mar :: "bytes \<Rightarrow> bytes option"

text \<open>\<open>tmp\<close> is the fresh name \<open>os.CreateTemp\<close> picks; it is removed on every exit.\<close>

definition writeIdentity :: "identity_codec \<Rightarrow> os \<Rightarrow> files \<Rightarrow> string \<Rightarrow> string \<Rightarrow> bytes \<Rightarrow> files \<times> file_err option" where
  "writeIdentity ic s fs tmp path priv = (case ic_mar ic priv of
     None \<Rightarrow> (fs, Some RenderError)
   | Some data \<Rightarrow> (case write_file s fs tmp data of
       (fs1, Some e) \<Rightarrow> (fs1, Some e)
     | (fs1, None) \<Rightarrow> (case rename_file s fs1 tmp path of (fs2, e) \<Rightarrow> (fst (remove_file s fs2 tmp), e))))"

text \<open>\<open>gen\<close> is the private key \<open>ed25519.GenerateKey\<close> returns, \<open>None\<close> on an error.\<close>

definition loadOrCreateIdentity ::
  "identity_codec \<Rightarrow> os \<Rightarrow> files \<Rightarrow> string \<Rightarrow> bytes option \<Rightarrow> files \<times> (file_err + bytes)" where
  "loadOrCreateIdentity ic s fs tmp gen = (case lan_path s ''lan_identity.json'' of
     Inl e \<Rightarrow> (fs, Inl e)
   | Inr path \<Rightarrow>
       (case (case read_file s fs path of
           Inl _ \<Rightarrow> None
         | Inr data \<Rightarrow> (case ic_un ic data of
             None \<Rightarrow> None | Some k \<Rightarrow> if length k = ed_private_size then Some k else None)) of
          Some k \<Rightarrow> (fs, Inr k)
        | None \<Rightarrow> (case gen of
            None \<Rightarrow> (fs, Inl IOError)
          | Some priv \<Rightarrow> (case writeIdentity ic s fs tmp path priv of
              (fs1, Some e) \<Rightarrow> (fs1, Inl e)
            | (fs1, None) \<Rightarrow> (fs1, Inr priv)))))"

text \<open>\<open>Identity\<close> computes once per process: \<open>once\<close> holds the first result.\<close>

definition Identity ::
  "identity_codec \<Rightarrow> os \<Rightarrow> files \<Rightarrow> string \<Rightarrow> bytes option \<Rightarrow> (file_err + bytes) option \<Rightarrow>
   files \<times> (file_err + bytes) option \<times> (file_err + bytes)" where
  "Identity ic s fs tmp gen once = (case once of
     Some r \<Rightarrow> (fs, once, r)
   | None \<Rightarrow> (let (fs1, r) = loadOrCreateIdentity ic s fs tmp gen in (fs1, Some r, r)))"

definition Fingerprint :: "(bytes \<Rightarrow> bytes) \<Rightarrow> (bytes \<Rightarrow> bytes) \<Rightarrow> file_err + bytes \<Rightarrow> string" where
  "Fingerprint sha public ident = (case ident of Inl _ \<Rightarrow> [] | Inr k \<Rightarrow> IdentityFingerprint sha (public k))"

section \<open>The scan interval\<close>

definition defaultScanIntervalSec :: int where "defaultScanIntervalSec = 60"

definition GetScanInterval :: "(bytes \<Rightarrow> int option) \<Rightarrow> os \<Rightarrow> files \<Rightarrow> int" where
  "GetScanInterval un s fs = (case lan_path s ''lan_settings.json'' of
     Inl _ \<Rightarrow> defaultScanIntervalSec
   | Inr p \<Rightarrow> (case read_file s fs p of
       Inl _ \<Rightarrow> defaultScanIntervalSec
     | Inr data \<Rightarrow> (case un data of
         None \<Rightarrow> defaultScanIntervalSec
       | Some sec \<Rightarrow> if sec < 0 then defaultScanIntervalSec else sec)))"

definition SetScanInterval :: "(int \<Rightarrow> bytes) \<Rightarrow> os \<Rightarrow> files \<Rightarrow> int \<Rightarrow> files \<times> file_err option" where
  "SetScanInterval mar s fs sec = (case lan_path s ''lan_settings.json'' of
     Inl e \<Rightarrow> (fs, Some e)
   | Inr p \<Rightarrow> replace_file s fs (p @ ''.tmp'') p (mar (if sec < 0 then 0 else sec)))"

section \<open>The activity log\<close>

record ActivityEntry =
  ae_kind :: string
  ae_peer :: string
  ae_name :: string
  ae_size :: int
  ae_link :: string
  ae_ts :: int

record activity_codec =
  ac_un :: "bytes \<Rightarrow> ActivityEntry list option"
  ac_mar :: "ActivityEntry list \<Rightarrow> bytes"

definition maxActivity :: nat where "maxActivity = 200"

definition readActivity :: "activity_codec \<Rightarrow> os \<Rightarrow> files \<Rightarrow> string \<Rightarrow> ActivityEntry list" where
  "readActivity ac s fs p = (case read_file s fs p of
     Inl _ \<Rightarrow> [] | Inr data \<Rightarrow> (case ac_un ac data of None \<Rightarrow> [] | Some xs \<Rightarrow> xs))"

definition writeActivity :: "activity_codec \<Rightarrow> os \<Rightarrow> files \<Rightarrow> string \<Rightarrow> ActivityEntry list \<Rightarrow> files" where
  "writeActivity ac s fs p xs = fst (replace_file s fs (p @ ''.tmp'') p (ac_mar ac xs))"

definition ActivityAppend :: "activity_codec \<Rightarrow> os \<Rightarrow> int \<Rightarrow> files \<Rightarrow> ActivityEntry \<Rightarrow> files" where
  "ActivityAppend ac s now fs e = (case lan_path s ''lan_activity.json'' of
     Inl _ \<Rightarrow> fs
   | Inr p \<Rightarrow>
       let e1 = (if ae_ts e = 0 then e\<lparr>ae_ts := now\<rparr> else e);
           xs = e1 # readActivity ac s fs p;
           ys = (if length xs > maxActivity then take maxActivity xs else xs) in
       writeActivity ac s fs p ys)"

definition ActivityList :: "activity_codec \<Rightarrow> os \<Rightarrow> files \<Rightarrow> ActivityEntry list" where
  "ActivityList ac s fs = (case lan_path s ''lan_activity.json'' of Inl _ \<Rightarrow> [] | Inr p \<Rightarrow> readActivity ac s fs p)"

definition ActivityClear :: "os \<Rightarrow> files \<Rightarrow> files" where
  "ActivityClear s fs = (case lan_path s ''lan_activity.json'' of Inl _ \<Rightarrow> fs | Inr p \<Rightarrow> fst (remove_file s fs p))"

section \<open>Facts\<close>

lemma writeIdentity_rd:
  assumes "writeIdentity ic s fs tmp path k = (fs', None)" "tmp \<noteq> path" "os_read_ok s path"
  shows "\<exists>d. ic_mar ic k = Some d \<and> read_file s fs' path = Inr d"
  using assms by (auto simp: writeIdentity_def write_file_def rename_file_def remove_file_def read_file_def
      split: option.splits if_splits)

lemma ActivityList_append:
  assumes p: "lan_path s ''lan_activity.json'' = Inr p" and ok: "os_write_ok s (p @ ''.tmp'')" "os_rename_ok s p" "os_read_ok s p"
    and law: "\<And>xs. ac_un ac (ac_mar ac xs) = Some xs"
  shows "ActivityList ac s (ActivityAppend ac s now fs e) =
    take maxActivity ((if ae_ts e = 0 then e\<lparr>ae_ts := now\<rparr> else e) # ActivityList ac s fs)"
proof -
  have "readActivity ac s (writeActivity ac s fs p xs) p = xs" for xs
    using ok law by (simp add: readActivity_def writeActivity_def replace_file_def write_file_def rename_file_def read_file_def)
  then show ?thesis using p by (simp add: ActivityList_def ActivityAppend_def Let_def)
qed

lemma SetScanInterval_Get:
  assumes "SetScanInterval mar s fs sec = (fs', None)" "\<And>p. os_read_ok s p" "\<And>n. un (mar n) = Some n"
  shows "GetScanInterval un s fs' = max 0 sec"
proof -
  from assms(1) obtain p where p: "lan_path s ''lan_settings.json'' = Inr p"
    and r: "replace_file s fs (p @ ''.tmp'') p (mar (if sec < 0 then 0 else sec)) = (fs', None)"
    by (auto simp: SetScanInterval_def split: sum.splits)
  show ?thesis using p replace_file_rd [OF r assms(2)] assms(3) by (simp add: GetScanInterval_def)
qed

text \<open>An identity file that cannot be read, for whatever passing reason, is replaced by a new identity.\<close>

lemma unreadable_identity_replaced:
  assumes "lan_path s ''lan_identity.json'' = Inr p" "fs p = Some old" "\<not> os_read_ok s p" "ic_mar ic g = Some d"
    and "os_write_ok s tmp" "os_rename_ok s p" "fs tmp = None"
  shows "loadOrCreateIdentity ic s fs tmp (Some g) = (fs(p \<mapsto> d), Inr g)"
proof -
  have "tmp \<noteq> p" using assms(2,7) by auto
  then show ?thesis using assms
    by (auto simp: loadOrCreateIdentity_def read_file_def writeIdentity_def write_file_def rename_file_def
        remove_file_def fun_eq_iff)
qed

section \<open>Properties\<close>

text \<open>A device keeps its identity: once \<open>loadOrCreateIdentity\<close> has returned a key, every later run returns the
  same one without touching the disk, whatever keys the generator would have offered. (Laws: a generated key
  has 64 bytes, a rendered identity parses back.)\<close>

theorem identity_stable:
  assumes run: "loadOrCreateIdentity ic s fs tmp gen = (fs', Inr k)"
    and path: "lan_path s ''lan_identity.json'' = Inr p" "tmp \<noteq> p" "os_read_ok s p"
    and key: "\<And>g. gen = Some g \<Longrightarrow> length g = 64" and law: "\<And>g d. ic_mar ic g = Some d \<Longrightarrow> ic_un ic d = Some g"
  shows "loadOrCreateIdentity ic s fs' tmp' gen' = (fs', Inr k)"
proof -
  define cached where "cached f = (case read_file s f p of
      Inl _ \<Rightarrow> None
    | Inr data \<Rightarrow> (case ic_un ic data of
        None \<Rightarrow> None | Some k \<Rightarrow> if length k = ed_private_size then Some k else None))" for f
  have run': "loadOrCreateIdentity ic s f t g = (case cached f of
      Some k \<Rightarrow> (f, Inr k)
    | None \<Rightarrow> (case g of
        None \<Rightarrow> (f, Inl IOError)
      | Some priv \<Rightarrow> (case writeIdentity ic s f t p priv of
          (f1, Some e) \<Rightarrow> (f1, Inl e) | (f1, None) \<Rightarrow> (f1, Inr priv))))" for f t g
    by (simp add: loadOrCreateIdentity_def path(1) cached_def)
  have "cached fs' = Some k"
  proof (cases "cached fs")
    case None
    then obtain priv where g: "gen = Some priv" "writeIdentity ic s fs tmp p priv = (fs', None)" "k = priv"
      using run by (auto simp: run' split: option.splits prod.splits)
    then show ?thesis
      using writeIdentity_rd [OF g(2) path(2,3)] law key by (auto simp: cached_def ed_private_size_def)
  qed (use run in \<open>auto simp: run'\<close>)
  then show ?thesis by (simp add: run')
qed

definition plain_codec :: identity_codec where "plain_codec = \<lparr>ic_un = Some, ic_mar = Some\<rparr>"

lemma identity_stable_witness:
  "\<exists>fs. loadOrCreateIdentity plain_codec demo_os Map.empty ''/t'' (Some (replicate 64 CHR ''k'')) =
       (fs, Inr (replicate 64 CHR ''k'')) \<and>
     loadOrCreateIdentity plain_codec demo_os fs ''/u'' (Some (replicate 64 CHR ''z'')) = (fs, Inr (replicate 64 CHR ''k''))"
proof -
  have p: "lan_path demo_os ''lan_identity.json'' = Inr ''/home/a/.config/share2us/lan_identity.json''" by code_simp
  have run: "loadOrCreateIdentity plain_codec demo_os Map.empty ''/t'' (Some (replicate 64 CHR ''k'')) =
      (Map.empty(''/t'' := None, ''/home/a/.config/share2us/lan_identity.json'' \<mapsto> replicate 64 CHR ''k''),
       Inr (replicate 64 CHR ''k''))"
    by (simp add: loadOrCreateIdentity_def p read_file_def writeIdentity_def plain_codec_def write_file_def
        rename_file_def remove_file_def)
  have "loadOrCreateIdentity plain_codec demo_os
      (Map.empty(''/t'' := None, ''/home/a/.config/share2us/lan_identity.json'' \<mapsto> replicate 64 CHR ''k''))
      ''/u'' (Some (replicate 64 CHR ''z'')) = (Map.empty(''/t'' := None,
        ''/home/a/.config/share2us/lan_identity.json'' \<mapsto> replicate 64 CHR ''k''), Inr (replicate 64 CHR ''k''))"
    by (rule identity_stable [OF run p]) (auto simp: plain_codec_def)
  with run show ?thesis by blast
qed

end
