(* ===== verification/Trust.thy ===== *)
theory Trust
  imports LanStore GoBase64 GoNet
begin

text \<open>
  The trusted-device list (\<open>lanid/trust_signed.go\<close>, the trust part of \<open>lanid/lanid.go\<close>, \<open>trust_binding.go\<close>): the
  cached list signed by the server, its verification, the pinned server key and the binding of the cache to
  the account that is logged in. Ed25519 verification, JSON, the environment and the clock are parameters.
\<close>

section \<open>Trusted devices\<close>

record TrustedDevice =
  td_fingerprint :: string
  td_name :: string
  td_mode :: string

definition ModeAsk :: string where "ModeAsk = ''ask''"
definition ModeAuto :: string where "ModeAuto = ''auto''"

definition NormalizeMode :: "string \<Rightarrow> string option" where
  "NormalizeMode v = (let m = to_lower (trim_space v) in
     if m = [] \<or> m = ModeAsk then Some ModeAsk else if m = ModeAuto then Some ModeAuto else None)"

definition EffectiveMode :: "TrustedDevice \<Rightarrow> string" where
  "EffectiveMode d = (if td_mode d = ModeAuto then ModeAuto else ModeAsk)"

definition AutoAccept :: "TrustedDevice \<Rightarrow> bool" where
  "AutoAccept d \<longleftrightarrow> EffectiveMode d = ModeAuto"

section \<open>The signed list\<close>

record SignedTrustList =
  st_kid :: string
  st_payload :: string
  st_signature :: string

record TrustListPayload =
  tp_version :: int
  tp_account :: string
  tp_issued :: int
  tp_expires :: int
  tp_devices :: "TrustedDevice list"

record signedTrustFile =
  sf_public :: string
  sf_list :: SignedTrustList
  sf_fetched :: int

datatype trust_err =
    KeyNotPinned | KeyChanged | BadTrustKey | BadPayloadEncoding | BadSignatureEncoding | BadTrustSignature | BadPayload
  | TrustExpired | NoAccountBinding | OtherAccount | TrustFile file_err

definition BuiltinTrustKeys :: "string list" where
  "BuiltinTrustKeys =
     [''fdce17424db15bee0a7f859e93f31f732296870a4209f639e02ec6286c6d327c'',
      ''87be5b415b53731efbc0fd79e79797c055ea9a9474264acf4965f118028a5e44'']"

text \<open>What verification, the files and the machine provide; \<open>tv_account\<close> is \<open>CurrentAccountID\<close>, which reads the
  saved login (and may migrate its file), \<open>None\<close> when nothing is wired.\<close>

record trust_services =
  tv_verify :: "bytes \<Rightarrow> bytes \<Rightarrow> bytes \<Rightarrow> bool"
  tv_un_payload :: "bytes \<Rightarrow> TrustListPayload option"
  tv_un_file :: "bytes \<Rightarrow> signedTrustFile option"
  tv_mar_file :: "signedTrustFile \<Rightarrow> bytes option"
  tv_keys_env :: string
  tv_account :: "(files \<Rightarrow> files \<times> string) option"

definition env_keys :: "string \<Rightarrow> string list" where
  "env_keys env = filter (\<lambda>k. k \<noteq> []) (map (\<lambda>k. to_lower (trim_space k)) (split_char CHR '','' env))"

definition trustKeyAllowed :: "string \<Rightarrow> string \<Rightarrow> bool" where
  "trustKeyAllowed env pubHex =
     (let p = to_lower (trim_space pubHex) in
      p \<noteq> [] \<and> (list_ex (\<lambda>k. equal_fold k p) BuiltinTrustKeys \<or> p \<in> set (env_keys env)))"

definition VerifyTrustList :: "trust_services \<Rightarrow> SignedTrustList \<Rightarrow> string \<Rightarrow> int \<Rightarrow> trust_err + TrustListPayload" where
  "VerifyTrustList tv l publicKeyHex now = (case hex_decode publicKeyHex of
     None \<Rightarrow> Inl BadTrustKey
   | Some pub \<Rightarrow>
       if length pub \<noteq> 32 then Inl BadTrustKey
       else (case b64_decode RawURLEncoding (st_payload l) of
         None \<Rightarrow> Inl BadPayloadEncoding
       | Some raw \<Rightarrow> (case b64_decode RawURLEncoding (st_signature l) of
           None \<Rightarrow> Inl BadSignatureEncoding
         | Some sig \<Rightarrow>
             if \<not> tv_verify tv pub raw sig then Inl BadTrustSignature
             else (case tv_un_payload tv raw of
               None \<Rightarrow> Inl BadPayload
             | Some p \<Rightarrow> if \<not> now < tp_expires p then Inl TrustExpired else Inr p))))"

definition verifyCached :: "trust_services \<Rightarrow> files \<Rightarrow> signedTrustFile \<Rightarrow> int \<Rightarrow> files \<times> (trust_err + TrustListPayload)" where
  "verifyCached tv fs f now =
     (if \<not> trustKeyAllowed (tv_keys_env tv) (sf_public f) then (fs, Inl KeyNotPinned)
      else (case VerifyTrustList tv (sf_list f) (sf_public f) now of
          Inl e \<Rightarrow> (fs, Inl e)
        | Inr p \<Rightarrow> (case tv_account tv of
            None \<Rightarrow> (fs, Inl NoAccountBinding)
          | Some account \<Rightarrow>
              (let (fs1, acct) = account fs in
               if acct = [] \<or> tp_account p \<noteq> acct then (fs1, Inl OtherAccount) else (fs1, Inr p)))))"

section \<open>The cache\<close>

definition signedTrustPath :: "os \<Rightarrow> file_err + string" where
  "signedTrustPath s = lan_path s ''lan_trusted_signed.json''"

definition readSignedFile :: "trust_services \<Rightarrow> os \<Rightarrow> files \<Rightarrow> string \<Rightarrow> signedTrustFile option" where
  "readSignedFile tv s fs p = (case read_file s fs p of Inl _ \<Rightarrow> None | Inr data \<Rightarrow> tv_un_file tv data)"

definition SaveSignedTrust ::
  "trust_services \<Rightarrow> os \<Rightarrow> int \<Rightarrow> files \<Rightarrow> SignedTrustList \<Rightarrow> string \<Rightarrow> files \<times> trust_err option" where
  "SaveSignedTrust tv s now fs l publicKeyHex =
     (if \<not> trustKeyAllowed (tv_keys_env tv) publicKeyHex then (fs, Some KeyNotPinned)
      else (case VerifyTrustList tv l publicKeyHex now of
          Inl e \<Rightarrow> (fs, Some e)
        | Inr _ \<Rightarrow> (case signedTrustPath s of
            Inl e \<Rightarrow> (fs, Some (TrustFile e))
          | Inr p \<Rightarrow>
              if (case readSignedFile tv s fs p of
                    None \<Rightarrow> False | Some prev \<Rightarrow> sf_public prev \<noteq> [] \<and> sf_public prev \<noteq> publicKeyHex)
              then (fs, Some KeyChanged)
              else (case tv_mar_file tv \<lparr>sf_public = publicKeyHex, sf_list = l, sf_fetched = now\<rparr> of
                  None \<Rightarrow> (fs, Some (TrustFile RenderError))
                | Some data \<Rightarrow> (case replace_file s fs (p @ ''.tmp'') p data of
                    (fs1, e) \<Rightarrow> (fs1, map_option TrustFile e))))))"

definition ResetTrust :: "os \<Rightarrow> files \<Rightarrow> files \<times> trust_err option" where
  "ResetTrust s fs = (case signedTrustPath s of
     Inl e \<Rightarrow> (fs, Some (TrustFile e))
   | Inr p \<Rightarrow> (case remove_file s fs p of
       (fs1, e) \<Rightarrow> (fs1, if e \<noteq> None \<and> e \<noteq> Some NotExist then map_option TrustFile e else None)))"

definition PinnedTrustKey :: "trust_services \<Rightarrow> os \<Rightarrow> files \<Rightarrow> string" where
  "PinnedTrustKey tv s fs = (case signedTrustPath s of
     Inl _ \<Rightarrow> [] | Inr p \<Rightarrow> (case readSignedFile tv s fs p of None \<Rightarrow> [] | Some f \<Rightarrow> sf_public f))"

definition cachedDevices :: "trust_services \<Rightarrow> os \<Rightarrow> int \<Rightarrow> files \<Rightarrow> files \<times> TrustedDevice list" where
  "cachedDevices tv s now fs = (case signedTrustPath s of
     Inl _ \<Rightarrow> (fs, [])
   | Inr p \<Rightarrow> (case readSignedFile tv s fs p of
       None \<Rightarrow> (fs, [])
     | Some f \<Rightarrow> (case verifyCached tv fs f now of
         (fs1, Inl _) \<Rightarrow> (fs1, []) | (fs1, Inr payload) \<Rightarrow> (fs1, tp_devices payload))))"

definition TrustCacheStatus :: "trust_services \<Rightarrow> os \<Rightarrow> int \<Rightarrow> files \<Rightarrow> files \<times> int option" where
  "TrustCacheStatus tv s now fs = (case signedTrustPath s of
     Inl _ \<Rightarrow> (fs, None)
   | Inr p \<Rightarrow> (case readSignedFile tv s fs p of
       None \<Rightarrow> (fs, None)
     | Some f \<Rightarrow> (case verifyCached tv fs f now of
         (fs1, Inl _) \<Rightarrow> (fs1, None) | (fs1, Inr payload) \<Rightarrow> (fs1, Some (tp_expires payload)))))"

definition Lookup :: "trust_services \<Rightarrow> os \<Rightarrow> int \<Rightarrow> files \<Rightarrow> string \<Rightarrow> files \<times> TrustedDevice option" where
  "Lookup tv s now fs fingerprint =
     (if fingerprint = [] then (fs, None)
      else (let (fs1, ds) = cachedDevices tv s now fs in (fs1, find (\<lambda>d. td_fingerprint d = fingerprint) ds)))"

section \<open>The binding to the login\<close>

text \<open>What \<open>init\<close> wires in as \<open>CurrentAccountID\<close>.\<close>

definition login_account :: "cred_codec \<Rightarrow> os \<Rightarrow> files \<Rightarrow> files \<times> string" where
  "login_account cc s fs = (case LoadCredential cc s fs of
     (fs1, Inl _) \<Rightarrow> (fs1, []) | (fs1, Inr c) \<Rightarrow> (fs1, cr_account_id c))"

text \<open>The clock is read twice: \<open>now\<close> for the check before caching, \<open>now2\<close> for the one after it.\<close>

definition SaveTrustList ::
  "trust_services \<Rightarrow> cred_codec \<Rightarrow> os \<Rightarrow> int \<Rightarrow> int \<Rightarrow> files \<Rightarrow> SignedTrustList \<Rightarrow> string \<Rightarrow> files \<times> trust_err option" where
  "SaveTrustList tv cc s now now2 fs l publicKeyHex = (case SaveSignedTrust tv s now fs l publicKeyHex of
     (fs1, Some e) \<Rightarrow> (fs1, Some e)
   | (fs1, None) \<Rightarrow> (case VerifyTrustList tv l publicKeyHex now2 of
       Inl e \<Rightarrow> (fs1, Some e)
     | Inr payload \<Rightarrow> (case LoadCredential cc s fs1 of
         (fs2, Inl _) \<Rightarrow> (fs2, None)
       | (fs2, Inr cred) \<Rightarrow>
           if cr_account_id cred = tp_account payload then (fs2, None)
           else if cr_account_id cred = [] then
             (case SaveCredential cc s fs2 (cred\<lparr>cr_account_id := tp_account payload\<rparr>) of
                (fs3, e) \<Rightarrow> (fs3, map_option TrustFile e))
           else (fst (ResetTrust s fs2), Some OtherAccount))))"

section \<open>Facts\<close>

lemma VerifyTrustList_InrD:
  "VerifyTrustList tv l key now = Inr p \<Longrightarrow>
   \<exists>pub raw sig. hex_decode key = Some pub \<and> length pub = 32 \<and> b64_decode RawURLEncoding (st_payload l) = Some raw \<and>
     b64_decode RawURLEncoding (st_signature l) = Some sig \<and> tv_verify tv pub raw sig \<and> tv_un_payload tv raw = Some p \<and>
     now < tp_expires p"
  by (auto simp: VerifyTrustList_def split: option.splits if_splits)

lemma VerifyTrustList_time:
  "VerifyTrustList tv l key now = Inr p \<Longrightarrow> t < tp_expires p \<Longrightarrow> VerifyTrustList tv l key t = Inr p"
  by (auto simp: VerifyTrustList_def split: option.splits if_splits)

lemma cachedDevices_memberD:
  assumes "cachedDevices tv s now fs = (fs', ds)" "d \<in> set ds"
  shows "\<exists>(f :: signedTrustFile) p account. trustKeyAllowed (tv_keys_env tv) (sf_public f) \<and>
    VerifyTrustList tv (sf_list f) (sf_public f) now = Inr p \<and> ds = tp_devices p \<and> tv_account tv = Some account \<and>
    account fs = (fs', tp_account p) \<and> tp_account p \<noteq> []"
  using assms
  by (auto simp: cachedDevices_def verifyCached_def split: sum.splits option.splits if_splits prod.splits)

lemma SaveSignedTrust_okD:
  assumes "SaveSignedTrust tv s now fs l key = (fs', None)"
  shows "\<exists>q data. trustKeyAllowed (tv_keys_env tv) key \<and> signedTrustPath s = Inr q \<and>
    tv_mar_file tv \<lparr>sf_public = key, sf_list = l, sf_fetched = now\<rparr> = Some data \<and>
    replace_file s fs (q @ ''.tmp'') q data = (fs', None)"
  using assms by (auto simp: SaveSignedTrust_def split: if_splits sum.splits option.splits prod.splits)

section \<open>Properties\<close>

text \<open>C23 Trust cannot be widened locally: whatever bytes stand in the cache file, a device that \<open>Lookup\<close> returns is
  listed in a payload the server signed under a key this build or its operator accepts, for the account that
  is logged in here, and that has not expired. (Hypothesis: a signature that verifies under an accepted key is
  on a payload the server issued.)\<close>

theorem lookup_only_signed:
  assumes found: "Lookup tv s now fs fp = (fs', Some d)" and wired: "tv_account tv = Some (login_account cc s)"
    and unforgeable: "\<And>key pub m sig. trustKeyAllowed (tv_keys_env tv) key \<Longrightarrow> hex_decode key = Some pub \<Longrightarrow>
      tv_verify tv pub m sig \<Longrightarrow> m \<in> issued"
  shows "\<exists>raw p c. raw \<in> issued \<and> tv_un_payload tv raw = Some p \<and> d \<in> set (tp_devices p) \<and> td_fingerprint d = fp \<and>
    now < tp_expires p \<and> LoadCredential cc s fs = (fs', Inr c) \<and> cr_account_id c = tp_account p \<and> tp_account p \<noteq> []"
proof -
  from found obtain ds where ds: "cachedDevices tv s now fs = (fs', ds)" "find (\<lambda>d. td_fingerprint d = fp) ds = Some d"
    by (auto simp: Lookup_def split: if_splits prod.splits)
  then have d: "d \<in> set ds" "td_fingerprint d = fp" by (auto simp: find_Some_iff)
  from cachedDevices_memberD [OF ds(1) d(1)] wired obtain f :: signedTrustFile and p where f: "trustKeyAllowed (tv_keys_env tv) (sf_public f)"
    "VerifyTrustList tv (sf_list f) (sf_public f) now = Inr p" "ds = tp_devices p"
    "login_account cc s fs = (fs', tp_account p)" "tp_account p \<noteq> []" by auto
  from f(4,5) obtain c where "LoadCredential cc s fs = (fs', Inr c)" "cr_account_id c = tp_account p"
    by (auto simp: login_account_def split: prod.splits sum.splits)
  with VerifyTrustList_InrD [OF f(2)] unforgeable [OF f(1)] d f(3,5) show ?thesis by blast
qed

text \<open>The pinned server key never changes: after any \<open>SaveSignedTrust\<close>, successful or not, a key that was pinned is
  still the pinned one. (Laws: the cache file can be read back and a rendered file parses back.)\<close>

theorem pinned_key_stays:
  assumes save: "SaveSignedTrust tv s now fs l key = (fs', r)" and pinned: "PinnedTrustKey tv s fs \<noteq> []"
    and rd: "\<And>q. os_read_ok s q" and law: "\<And>f b. tv_mar_file tv f = Some b \<Longrightarrow> tv_un_file tv b = Some f"
  shows "PinnedTrustKey tv s fs' = PinnedTrustKey tv s fs"
proof -
  from pinned obtain q prev where q: "signedTrustPath s = Inr q" and prev: "readSignedFile tv s fs q = Some prev"
    "sf_public prev \<noteq> []" by (auto simp: PinnedTrustKey_def split: sum.splits option.splits)
  show ?thesis
  proof (cases r)
    case None
    with save obtain data where m: "tv_mar_file tv \<lparr>sf_public = key, sf_list = l, sf_fetched = now\<rparr> = Some data"
      and w: "replace_file s fs (q @ ''.tmp'') q data = (fs', None)"
      using SaveSignedTrust_okD [of tv s now fs l key fs'] q by auto
    have "sf_public prev = key" using save None prev q by (auto simp: SaveSignedTrust_def split: if_splits sum.splits)
    then show ?thesis using replace_file_rd [OF w rd] law [OF m] q prev
      by (simp add: PinnedTrustKey_def readSignedFile_def)
  next
    case (Some e)
    have "fs' q = fs q" using save Some q
      by (auto simp: SaveSignedTrust_def replace_file_def write_file_def rename_file_def
          split: if_splits sum.splits option.splits prod.splits)
    then have "read_file s fs' q = read_file s fs q" by (simp add: read_file_def)
    then show ?thesis using q by (simp add: PinnedTrustKey_def readSignedFile_def)
  qed
qed

text \<open>A saved list is honoured until it expires: after \<open>SaveSignedTrust\<close> reports success for a list of the account
  that is logged in, \<open>Lookup\<close> of any fingerprint gives the list's device with this fingerprint (none if it has
  none) at every time before the expiry, and none from then on.\<close>

theorem saved_list_lookup:
  assumes save: "SaveSignedTrust tv s now fs l key = (fs', None)" and ver: "VerifyTrustList tv l key now = Inr p"
    and login: "tv_account tv = Some account" "account fs' = (fs'', tp_account p)" "tp_account p \<noteq> []"
    and rd: "\<And>q. os_read_ok s q" and law: "\<And>f b. tv_mar_file tv f = Some b \<Longrightarrow> tv_un_file tv b = Some f" and fp: "fp \<noteq> []"
  shows "snd (Lookup tv s t fs' fp) =
    (if t < tp_expires p then find (\<lambda>d. td_fingerprint d = fp) (tp_devices p) else None)"
proof -
  from SaveSignedTrust_okD [OF save] obtain q data where k: "trustKeyAllowed (tv_keys_env tv) key" "signedTrustPath s = Inr q"
    and m: "tv_mar_file tv \<lparr>sf_public = key, sf_list = l, sf_fetched = now\<rparr> = Some data"
    and w: "replace_file s fs (q @ ''.tmp'') q data = (fs', None)" by blast
  have f: "readSignedFile tv s fs' q = Some \<lparr>sf_public = key, sf_list = l, sf_fetched = now\<rparr>"
    using replace_file_rd [OF w rd] law [OF m] by (simp add: readSignedFile_def)
  have "VerifyTrustList tv l key t = (if t < tp_expires p then Inr p else Inl TrustExpired)"
    using VerifyTrustList_time [OF ver, of t] VerifyTrustList_InrD [OF ver] by (auto simp: VerifyTrustList_def)
  then show ?thesis using k f login fp
    by (auto simp: Lookup_def cachedDevices_def verifyCached_def split: option.splits)
qed

section \<open>A concrete cache\<close>

definition demo_key :: string where
  "demo_key = ''fdce17424db15bee0a7f859e93f31f732296870a4209f639e02ec6286c6d327c''"

definition demo_device :: TrustedDevice where
  "demo_device = \<lparr>td_fingerprint = ''fp'', td_name = ''laptop'', td_mode = ''auto''\<rparr>"

definition demo_list :: SignedTrustList where
  "demo_list = \<lparr>st_kid = ''k'', st_payload = b64_encode RawURLEncoding ''p'', st_signature = b64_encode RawURLEncoding ''s''\<rparr>"

definition demo_payload :: TrustListPayload where
  "demo_payload = \<lparr>tp_version = 1, tp_account = ''a'', tp_issued = 0, tp_expires = 100, tp_devices = [demo_device]\<rparr>"

definition demo_file :: signedTrustFile where
  "demo_file = \<lparr>sf_public = demo_key, sf_list = demo_list, sf_fetched = 0\<rparr>"

definition demo_login :: cred_codec where
  "demo_login = \<lparr>cc_un = (\<lambda>_. Some \<lparr>cr_schema = 1, cr_api_base = ''b'', cr_token = ''t'', cr_email = ''e'', cr_account_id = ''a'',
     cr_device_session_id = [], cr_device_public = [], cr_device_private = [], cr_signing_public = [], cr_signing_private = []\<rparr>),
     cc_mar = (\<lambda>_. None)\<rparr>"

definition demo_trust :: trust_services where
  "demo_trust = \<lparr>tv_verify = (\<lambda>_ m sig. m = ''p'' \<and> sig = ''s''), tv_un_payload = (\<lambda>m. if m = ''p'' then Some demo_payload else None),
     tv_un_file = (\<lambda>b. if b = ''F'' then Some demo_file else None), tv_mar_file = (\<lambda>f. if f = demo_file then Some ''F'' else None),
     tv_keys_env = [], tv_account = Some (login_account demo_login demo_os)\<rparr>"

lemma demo_key_allowed: "trustKeyAllowed env demo_key"
proof -
  have a: "list_all (\<lambda>c. of_char c < (0x80::nat)) demo_key" by (simp add: demo_key_def of_char_Char horner_sum_simps)
  have "trim_space demo_key = demo_key"
    by (rule trim_space_ascii_id [OF a]) (simp_all add: demo_key_def is_space_def of_char_Char horner_sum_simps)
  moreover have "to_lower demo_key = demo_key" using a
    by (simp add: to_lower_ascii demo_key_def lower_char_def of_char_Char horner_sum_simps)
  ultimately show ?thesis by (simp add: trustKeyAllowed_def BuiltinTrustKeys_def equal_fold_def flip: demo_key_def) (simp add: demo_key_def)
qed

lemma demo_verify: "VerifyTrustList demo_trust demo_list demo_key t = (if t < 100 then Inr demo_payload else Inl TrustExpired)"
proof -
  have "map_option length (hex_decode demo_key) = Some 32" by code_simp
  then obtain pub where "hex_decode demo_key = Some pub" "length pub = 32" by auto
  moreover have "b64_decode RawURLEncoding (st_payload demo_list) = Some ''p''"
    "b64_decode RawURLEncoding (st_signature demo_list) = Some ''s''"
    by (simp_all only: demo_list_def SignedTrustList.simps b64_decode_encode)
  ultimately show ?thesis by (simp add: VerifyTrustList_def demo_trust_def demo_payload_def)
qed

lemma demo_trust_path: "signedTrustPath demo_os = Inr ''/home/a/.config/share2us/lan_trusted_signed.json''"
  by code_simp

lemma demo_file_law: "tv_mar_file demo_trust f = Some b \<Longrightarrow> tv_un_file demo_trust b = Some f"
  by (auto simp: demo_trust_def split: if_splits)

definition demo_files :: files where
  "demo_files = [''/home/a/.config/share2us/credentials.json'' \<mapsto> ''c'',
     ''/home/a/.config/share2us/lan_trusted_signed.json'' \<mapsto> ''F'']"

lemma demo_account: "login_account demo_login demo_os fs = (fs, ''a'')"
  if "fs ''/home/a/.config/share2us/credentials.json'' = Some x"
  using that by (simp add: login_account_def LoadCredential_def demo_paths LoadCredentialAt_def read_file_def demo_login_def
      migrateCredential_def CredentialSchemaVersion_def)

lemma demo_cached: "readSignedFile demo_trust demo_os demo_files ''/home/a/.config/share2us/lan_trusted_signed.json'' = Some demo_file"
  by (simp add: readSignedFile_def read_file_def demo_files_def demo_trust_def)

lemma lookup_only_signed_witness:
  "Lookup demo_trust demo_os 5 demo_files ''fp'' = (demo_files, Some demo_device) \<and>
   (\<exists>p. tv_un_payload demo_trust ''p'' = Some p \<and> demo_device \<in> set (tp_devices p) \<and> 5 < tp_expires p)"
proof -
  have "verifyCached demo_trust demo_files demo_file 5 = (demo_files, Inr demo_payload)"
    using demo_account [of demo_files]
    by (simp add: verifyCached_def demo_file_def demo_key_allowed demo_verify)
      (simp add: demo_trust_def demo_payload_def demo_files_def)
  then have l: "Lookup demo_trust demo_os 5 demo_files ''fp'' = (demo_files, Some demo_device)"
    by (simp add: Lookup_def cachedDevices_def demo_trust_path demo_cached demo_payload_def demo_device_def)
  have w: "tv_account demo_trust = Some (login_account demo_login demo_os)" by (simp add: demo_trust_def)
  have "\<exists>raw p c. raw \<in> {''p''} \<and> tv_un_payload demo_trust raw = Some p \<and> demo_device \<in> set (tp_devices p) \<and>
      td_fingerprint demo_device = ''fp'' \<and> 5 < tp_expires p \<and> LoadCredential demo_login demo_os demo_files = (demo_files, Inr c) \<and>
      cr_account_id c = tp_account p \<and> tp_account p \<noteq> []"
    by (rule lookup_only_signed [OF l w]) (simp add: demo_trust_def)
  with l show ?thesis by auto
qed

lemma pinned_key_stays_witness:
  "PinnedTrustKey demo_trust demo_os (fst (SaveSignedTrust demo_trust demo_os 5 demo_files demo_list ''other'')) = demo_key"
proof -
  have k: "PinnedTrustKey demo_trust demo_os demo_files = demo_key"
    by (simp add: PinnedTrustKey_def demo_trust_path demo_cached demo_file_def)
  then have "PinnedTrustKey demo_trust demo_os demo_files \<noteq> []" by (simp add: demo_key_def)
  from pinned_key_stays [OF prod.collapse [symmetric] this _ demo_file_law] k show ?thesis by simp
qed

lemma saved_list_lookup_witness:
  "\<exists>fs. SaveSignedTrust demo_trust demo_os 0 [''/home/a/.config/share2us/credentials.json'' \<mapsto> ''c''] demo_list demo_key = (fs, None) \<and>
     snd (Lookup demo_trust demo_os 7 fs ''fp'') = Some demo_device"
proof -
  let ?fs = "(\<lambda>q. if q = ''/home/a/.config/share2us/lan_trusted_signed.json'' then Some ''F''
      else if q = ''/home/a/.config/share2us/credentials.json'' then Some ''c'' else None) :: files"
  have s: "SaveSignedTrust demo_trust demo_os 0 [''/home/a/.config/share2us/credentials.json'' \<mapsto> ''c''] demo_list demo_key =
      (?fs, None)"
    by (simp add: SaveSignedTrust_def demo_key_allowed demo_verify demo_trust_path)
      (simp add: readSignedFile_def read_file_def demo_trust_def demo_file_def replace_file_def write_file_def rename_file_def fun_eq_iff)
  have v: "VerifyTrustList demo_trust demo_list demo_key 0 = Inr demo_payload" by (simp add: demo_verify)
  have "snd (Lookup demo_trust demo_os 7 ?fs ''fp'') =
      (if 7 < tp_expires demo_payload then find (\<lambda>d. td_fingerprint d = ''fp'') (tp_devices demo_payload) else None)"
  proof (rule saved_list_lookup [OF s v _ _ _ _ demo_file_law])
    show "tv_account demo_trust = Some (login_account demo_login demo_os)" by (simp add: demo_trust_def)
    show "login_account demo_login demo_os ?fs = (?fs, tp_account demo_payload)"
      using demo_account [of ?fs] by (simp add: demo_payload_def)
  qed (simp_all add: demo_payload_def)
  with s show ?thesis by (simp add: demo_payload_def demo_device_def)
qed

end
