(* ===== verification/GoURL.thy ===== *)
theory GoURL
  imports GoText
begin

text \<open>
  \<open>net/url\<close> and \<open>strings\<close> as the API client uses them: percent-encoding of a path segment and of a query value,
  the encoding of a query, substring search.
\<close>

section \<open>Substrings\<close>

definition contains :: "string \<Rightarrow> string \<Rightarrow> bool" where
  "contains s sub = list_ex (\<lambda>i. take (length sub) (drop i s) = sub) [0..<Suc (length s)]"

section \<open>Percent-encoding\<close>

definition upper_hex :: "nat \<Rightarrow> char" where
  "upper_hex n = (if n < 10 then char_of (48 + n) else char_of (55 + n))"

definition unreserved :: "char \<Rightarrow> bool" where
  "unreserved c \<longleftrightarrow> (let n = (of_char c :: nat) in
     48 \<le> n \<and> n \<le> 57 \<or> 65 \<le> n \<and> n \<le> 90 \<or> 97 \<le> n \<and> n \<le> 122) \<or> c \<in> set ''-_.~''"

text \<open>The bytes \<open>shouldEscape\<close> keeps in a path segment, and in a query component.\<close>

definition kept_in_segment :: "char \<Rightarrow> bool" where
  "kept_in_segment c \<longleftrightarrow> unreserved c \<or> c \<in> set ''$&+:=@''"

definition percent :: "char \<Rightarrow> string" where
  "percent c = [CHR 0x25, upper_hex (of_char c div 16), upper_hex (of_char c mod 16)]"

definition PathEscape :: "string \<Rightarrow> string" where
  "PathEscape s = concat (map (\<lambda>c. if kept_in_segment c then [c] else percent c) s)"

definition QueryEscape :: "string \<Rightarrow> string" where
  "QueryEscape s = concat (map (\<lambda>c. if unreserved c then [c] else if c = CHR '' '' then ''+'' else percent c) s)"

text \<open>\<open>Values.Encode\<close> of single-valued keys given in their sorted order.\<close>

fun encode_values :: "(string \<times> string) list \<Rightarrow> string" where
  "encode_values [] = []"
| "encode_values [(k, v)] = QueryEscape k @ ''='' @ QueryEscape v"
| "encode_values ((k, v) # kv # kvs) = QueryEscape k @ ''='' @ QueryEscape v @ ''&'' @ encode_values (kv # kvs)"

section \<open>Reading an encoded segment back\<close>

fun percent_decode :: "string \<Rightarrow> string" where
  "percent_decode [] = []"
| "percent_decode [c] = [c]"
| "percent_decode [c, a] = [c, a]"
| "percent_decode (c # a # b # cs) =
     (if c = CHR 0x25 then (case (hex_val a, hex_val b) of
        (Some m, Some n) \<Rightarrow> char_of (16 * m + n) # percent_decode cs
      | _ \<Rightarrow> c # percent_decode (a # b # cs))
      else c # percent_decode (a # b # cs))"

lemma percent_decode_plain: "c \<noteq> CHR 0x25 \<Longrightarrow> percent_decode (c # s) = c # percent_decode s"
  by (cases s rule: percent_decode.cases) simp_all

lemma hex_val_upper: "n < 16 \<Longrightarrow> hex_val (upper_hex n) = Some n"
  by (auto simp: upper_hex_def hex_val_def Let_def)

lemma percent_decode_percent: "percent_decode (percent c @ s) = c # percent_decode s"
proof -
  have "(of_char c :: nat) div 16 < 16" using of_char_less [of c] by linarith
  then show ?thesis by (simp add: percent_def hex_val_upper)
qed

lemma not_kept_percent: "kept_in_segment c \<Longrightarrow> c \<noteq> CHR 0x25"
  by (auto simp: kept_in_segment_def unreserved_def of_char_Char horner_sum_simps)

lemma decode_PathEscape: "percent_decode (PathEscape s) = s"
  by (induction s)
    (auto simp: PathEscape_def percent_decode_percent percent_decode_plain not_kept_percent)

lemma PathEscape_inj: "PathEscape s = PathEscape t \<longleftrightarrow> s = t"
  by (metis decode_PathEscape)

lemma upper_hex_kept: "n < 16 \<Longrightarrow> unreserved (upper_hex n)"
  by (auto simp: upper_hex_def unreserved_def Let_def)

lemma percent_set: "d \<in> set (percent c) \<Longrightarrow> d = CHR 0x25 \<or> unreserved d"
proof -
  have "(of_char c :: nat) div 16 < 16" using of_char_less [of c] by linarith
  then show "d \<in> set (percent c) \<Longrightarrow> d = CHR 0x25 \<or> unreserved d" by (auto simp: percent_def intro!: upper_hex_kept)
qed

lemma PathEscape_set: "d \<in> set (PathEscape s) \<Longrightarrow> kept_in_segment d \<or> d = CHR 0x25"
  by (auto simp: PathEscape_def kept_in_segment_def dest: percent_set split: if_splits)

lemma PathEscape_one_segment:
  "CHR ''/'' \<notin> set (PathEscape s)" "CHR ''?'' \<notin> set (PathEscape s)" "CHR ''#'' \<notin> set (PathEscape s)"
  by (auto dest!: PathEscape_set simp: kept_in_segment_def unreserved_def of_char_Char horner_sum_simps)

lemma QueryEscape_set: "d \<in> set (QueryEscape s) \<Longrightarrow> unreserved d \<or> d = CHR ''+'' \<or> d = CHR 0x25"
  by (auto simp: QueryEscape_def dest: percent_set split: if_splits)

lemma QueryEscape_one_value:
  "CHR ''&'' \<notin> set (QueryEscape s)" "CHR ''='' \<notin> set (QueryEscape s)" "CHR ''#'' \<notin> set (QueryEscape s)"
  by (auto dest!: QueryEscape_set simp: unreserved_def of_char_Char horner_sum_simps)

end
