(* ===== verification/GoParseURL.thy ===== *)
theory GoParseURL
  imports GoURL GoNet
begin

text \<open>
  \<open>url.Parse\<close>, \<open>URL.Hostname\<close>, \<open>url.ParseQuery\<close> and \<open>URL.String\<close> of Go 1.25, the version \<open>go.mod\<close>
  names, as far as the code looks at their results: scheme, host, query and fragment. A path is checked for its
  escapes and kept as it stands.
\<close>

section \<open>Unescaping\<close>

datatype url_mode = EncPath | EncUser | EncQuery | EncFragment | EncHost | EncZone

text \<open>The bytes \<open>shouldEscape\<close> keeps in a host.\<close>

definition host_kept :: "char \<Rightarrow> bool" where
  "host_kept c \<longleftrightarrow> unreserved c \<or> c \<in> set ''!$&()*+,;=:[]<>'' \<or> c = CHR 0x27 \<or> c = CHR 0x22"

definition escape_ok :: "url_mode \<Rightarrow> nat \<Rightarrow> bool" where
  "escape_ok m v \<longleftrightarrow> (case m of
     EncHost \<Rightarrow> v \<ge> 0x80 \<or> v = 0x25
   | EncZone \<Rightarrow> v = 0x25 \<or> v = 0x20 \<or> host_kept (char_of v)
   | _ \<Rightarrow> True)"

definition plain_ok :: "url_mode \<Rightarrow> char \<Rightarrow> bool" where
  "plain_ok m c \<longleftrightarrow> (if m = EncHost \<or> m = EncZone then (of_char c :: nat) \<ge> 0x80 \<or> host_kept c else True)"

fun unescape :: "url_mode \<Rightarrow> string \<Rightarrow> string option" where
  "unescape m [] = Some []"
| "unescape m (c # cs) =
     (if c = CHR 0x25 then (case cs of
        a # b # rest \<Rightarrow> (case (hex_val a, hex_val b) of
            (Some x, Some y) \<Rightarrow>
              if escape_ok m (16 * x + y) then map_option (Cons (char_of (16 * x + y))) (unescape m rest) else None
          | _ \<Rightarrow> None)
      | _ \<Rightarrow> None)
      else if \<not> plain_ok m c then None
      else map_option (Cons (if m = EncQuery \<and> c = CHR ''+'' then CHR '' '' else c)) (unescape m cs))"

section \<open>The parts of a URL\<close>

record URL =
  ur_scheme :: string
  ur_opaque :: string
  ur_host :: string
  ur_path :: string
  ur_query :: string
  ur_fragment :: string

definition cut_at :: "char \<Rightarrow> string \<Rightarrow> string \<times> string" where
  "cut_at d s = (takeWhile (\<lambda>c. c \<noteq> d) s, tl (dropWhile (\<lambda>c. c \<noteq> d) s))"

definition last_cut :: "char \<Rightarrow> string \<Rightarrow> (string \<times> string) option" where
  "last_cut d s = (if d \<in> set s then
     (let after = rev (takeWhile (\<lambda>c. c \<noteq> d) (rev s)) in Some (take (length s - length after - 1) s, after)) else None)"

definition letter :: "char \<Rightarrow> bool" where
  "letter c \<longleftrightarrow> (let n = (of_char c :: nat) in 65 \<le> n \<and> n \<le> 90 \<or> 97 \<le> n \<and> n \<le> 122)"

definition scheme_char :: "char \<Rightarrow> bool" where
  "scheme_char c \<longleftrightarrow> letter c \<or> is_digit c \<or> c \<in> set ''+-.''"

text \<open>\<open>getScheme\<close>: the scheme and the rest, \<open>None\<close> for a missing one before a colon.\<close>

definition getScheme :: "string \<Rightarrow> (string \<times> string) option" where
  "getScheme s =
     (let p = takeWhile scheme_char s; r = dropWhile scheme_char s in
      if p \<noteq> [] \<and> \<not> letter (hd p) then Some ([], s)
      else if r \<noteq> [] \<and> hd r = CHR '':'' then (if p = [] then None else Some (p, tl r))
      else Some ([], s))"

definition validOptionalPort :: "string \<Rightarrow> bool" where
  "validOptionalPort p \<longleftrightarrow> p = [] \<or> (hd p = CHR '':'' \<and> list_all is_digit (tl p))"

text \<open>The index of \<open>%25\<close>.\<close>

definition zone_index :: "string \<Rightarrow> nat option" where
  "zone_index s = find (\<lambda>i. take 3 (drop i s) = [CHR 0x25, CHR ''2'', CHR ''5'']) [0..<length s]"

definition parseHost :: "string \<Rightarrow> string option" where
  "parseHost host =
     (if has_prefix host ''['' then
        (case last_cut CHR '']'' host of
           None \<Rightarrow> None
         | Some (front, port) \<Rightarrow>
             if \<not> validOptionalPort port then None
             else (case zone_index front of
                 None \<Rightarrow> unescape EncHost host
               | Some z \<Rightarrow> (case (unescape EncHost (take z front), unescape EncZone (drop z front), unescape EncHost (CHR '']'' # port)) of
                   (Some a, Some b, Some c) \<Rightarrow> Some (a @ b @ c) | _ \<Rightarrow> None)))
      else (case last_cut CHR '':'' host of
          Some (front, port) \<Rightarrow> if validOptionalPort (CHR '':'' # port) then unescape EncHost host else None
        | None \<Rightarrow> unescape EncHost host))"

definition user_char :: "char \<Rightarrow> bool" where
  "user_char c \<longleftrightarrow> letter c \<or> is_digit c \<or> c \<in> set ''-._:~!$&()*+,;=%@'' \<or> c = CHR 0x27"

definition user_ok :: "string \<Rightarrow> bool" where
  "user_ok u \<longleftrightarrow> list_all user_char u \<and>
     (let (n, p) = cut_at CHR '':'' u in unescape EncUser n \<noteq> None \<and> unescape EncUser p \<noteq> None)"

definition parseAuthority :: "string \<Rightarrow> string option" where
  "parseAuthority a = (case last_cut CHR ''@'' a of
     None \<Rightarrow> parseHost a
   | Some (user, host) \<Rightarrow> (case parseHost host of None \<Rightarrow> None | Some h \<Rightarrow> if user_ok user then Some h else None))"

definition ctl_byte :: "char \<Rightarrow> bool" where
  "ctl_byte c \<longleftrightarrow> (of_char c :: nat) < 0x20 \<or> c = CHR 0x7F"

definition empty_url :: URL where
  "empty_url = \<lparr>ur_scheme = [], ur_opaque = [], ur_host = [], ur_path = [], ur_query = [], ur_fragment = []\<rparr>"

definition parse_rest :: "string \<Rightarrow> string \<Rightarrow> string \<Rightarrow> URL option" where
  "parse_rest scheme rest query =
     (let u = empty_url\<lparr>ur_scheme := scheme, ur_query := query\<rparr> in
      if \<not> has_prefix rest ''/'' \<and> scheme \<noteq> [] then Some (u\<lparr>ur_opaque := rest\<rparr>)
      else if \<not> has_prefix rest ''/'' \<and> CHR '':'' \<in> set (takeWhile (\<lambda>c. c \<noteq> CHR ''/'') rest) then None
      else if (scheme \<noteq> [] \<or> \<not> has_prefix rest ''///'') \<and> has_prefix rest ''//'' then
        (let a = drop 2 rest; auth = takeWhile (\<lambda>c. c \<noteq> CHR ''/'') a; path = drop (length auth) a in
         (case (parseAuthority auth, unescape EncPath path) of
            (Some h, Some _) \<Rightarrow> Some (u\<lparr>ur_host := h, ur_path := path\<rparr>) | _ \<Rightarrow> None))
      else (case unescape EncPath rest of None \<Rightarrow> None | Some _ \<Rightarrow> Some (u\<lparr>ur_path := rest\<rparr>)))"

definition url_Parse :: "string \<Rightarrow> URL option" where
  "url_Parse raw =
     (let (s, frag) = cut_at CHR ''#'' raw in
      if list_ex ctl_byte s then None
      else (case (if s = ''*'' then Some (empty_url\<lparr>ur_path := s\<rparr>)
          else (case getScheme s of
              None \<Rightarrow> None
            | Some (scheme, r) \<Rightarrow> (let (rest, query) = cut_at CHR ''?'' r in parse_rest (map lower_char scheme) rest query))) of
          None \<Rightarrow> None
        | Some u \<Rightarrow> (case unescape EncFragment frag of None \<Rightarrow> None | Some f \<Rightarrow> Some (u\<lparr>ur_fragment := f\<rparr>))))"

definition Hostname :: "URL \<Rightarrow> string" where
  "Hostname u = (let h = (case last_cut CHR '':'' (ur_host u) of
       Some (front, port) \<Rightarrow> if validOptionalPort (CHR '':'' # port) then front else ur_host u
     | None \<Rightarrow> ur_host u) in
     if has_prefix h ''['' \<and> has_suffix h '']'' then take (length h - 2) (tl h) else h)"

section \<open>Queries\<close>

text \<open>One piece of a query: \<open>Inl\<close> an error, \<open>Inr None\<close> an empty one.\<close>

definition query_piece :: "string \<Rightarrow> unit + (string \<times> string) option" where
  "query_piece p =
     (if CHR '';'' \<in> set p then Inl ()
      else if p = [] then Inr None
      else (case cut_at CHR ''='' p of (k, v) \<Rightarrow> (case (unescape EncQuery k, unescape EncQuery v) of
          (Some k', Some v') \<Rightarrow> Inr (Some (k', v')) | _ \<Rightarrow> Inl ())))"

fun pieces_values :: "(unit + (string \<times> string) option) list \<Rightarrow> (string \<times> string) list" where
  "pieces_values [] = []"
| "pieces_values (Inr (Some kv) # ps) = kv # pieces_values ps"
| "pieces_values (_ # ps) = pieces_values ps"

text \<open>\<open>URL.Query\<close> drops the pieces in error, \<open>ParseQuery\<close> reports them.\<close>

definition Query_values :: "string \<Rightarrow> (string \<times> string) list" where
  "Query_values q = pieces_values (map query_piece (split_char CHR ''&'' q))"

definition ParseQuery :: "string \<Rightarrow> (string \<times> string) list option" where
  "ParseQuery q = (if list_ex (\<lambda>p. query_piece p = Inl ()) (split_char CHR ''&'' q) then None else Some (Query_values q))"

definition Values_Get :: "(string \<times> string) list \<Rightarrow> string \<Rightarrow> string" where
  "Values_Get vs k = (case map_of vs k of None \<Rightarrow> [] | Some v \<Rightarrow> v)"

section \<open>Rendering\<close>

text \<open>\<open>URL.String\<close> of a URL with a scheme, a host and a path that needs no escape.\<close>

definition host_escape :: "string \<Rightarrow> string" where
  "host_escape s = concat (map (\<lambda>c. if host_kept c then [c] else percent c) s)"

definition url_string :: "string \<Rightarrow> string \<Rightarrow> string \<Rightarrow> string \<Rightarrow> string" where
  "url_string scheme host path query = scheme @ ''://'' @ host_escape host @ path @ (if query = [] then [] else CHR ''?'' # query)"

section \<open>Facts\<close>

lemma unescape_percent:
  assumes "escape_ok m (of_char c)"
  shows "unescape m (percent c @ s) = map_option (Cons c) (unescape m s)"
proof -
  have "(of_char c :: nat) div 16 < 16" using of_char_less [of c] by linarith
  then show ?thesis using assms by (simp add: percent_def hex_val_upper)
qed

lemma unescape_plain: "plain_ok m c \<Longrightarrow> c \<noteq> CHR 0x25 \<Longrightarrow> c \<noteq> CHR ''+'' \<or> m \<noteq> EncQuery \<Longrightarrow> unescape m (c # s) = map_option (Cons c) (unescape m s)"
  by auto

lemma unescape_QueryEscape: "unescape EncQuery (QueryEscape s) = Some s"
proof (induction s)
  case (Cons c s)
  have e: "QueryEscape (c # s) = (if unreserved c then [c] else if c = CHR '' '' then ''+'' else percent c) @ QueryEscape s"
    by (simp add: QueryEscape_def)
  have u: "unreserved c \<Longrightarrow> c \<noteq> CHR 0x25 \<and> c \<noteq> CHR ''+''" by (auto simp: unreserved_def of_char_Char horner_sum_simps)
  show ?case
  proof (cases "unreserved c")
    case True
    then show ?thesis using Cons u by (simp add: e plain_ok_def)
  next
    case False
    then show ?thesis using Cons by (simp add: e unescape_percent escape_ok_def plain_ok_def)
  qed
qed (simp add: QueryEscape_def)

lemma unescape_host: "list_all host_kept s \<Longrightarrow> CHR 0x25 \<notin> set s \<Longrightarrow> unescape EncHost s = Some s"
  by (induction s) (auto simp: plain_ok_def)

lemma host_kept_percent: "\<not> host_kept CHR 0x25" "\<not> host_kept CHR ''@''" "\<not> host_kept CHR ''/''" "\<not> host_kept CHR ''?''" "\<not> host_kept CHR ''#''"
  by (simp_all add: host_kept_def unreserved_def of_char_Char horner_sum_simps)

lemma cut_at_found [simp]: "d \<notin> set a \<Longrightarrow> cut_at d (a @ d # b) = (a, b)"
  by (induction a) (auto simp: cut_at_def)

lemma cut_at_none [simp]: "d \<notin> set a \<Longrightarrow> cut_at d a = (a, [])"
  by (induction a) (auto simp: cut_at_def)

lemma last_cut_append [simp]: "d \<notin> set b \<Longrightarrow> last_cut d (a @ d # b) = Some (a, b)"
proof -
  assume "d \<notin> set b"
  then have "takeWhile (\<lambda>c. c \<noteq> d) (rev b @ d # rev a) = rev b" by (subst takeWhile_append2) auto
  then show ?thesis by (simp add: last_cut_def)
qed

lemma last_cut_none [simp]: "d \<notin> set a \<Longrightarrow> last_cut d a = None"
  by (simp add: last_cut_def)

text \<open>A query of escaped values reads back.\<close>

lemma split_char_single [simp]: "d \<notin> set s \<Longrightarrow> split_char d s = [s]"
  by (induction s) auto

lemma split_char_append: "d \<notin> set s \<Longrightarrow> split_char d (s @ d # t) = s # split_char d t"
  by (induction s) auto

lemma query_piece_escaped: "query_piece (QueryEscape k @ ''='' @ QueryEscape v) = Inr (Some (k, v))"
proof -
  have "CHR '';'' \<notin> set (QueryEscape x)" for x
    using QueryEscape_set [of "CHR '';''" x] by (auto simp: unreserved_def of_char_Char horner_sum_simps)
  then show ?thesis
    using cut_at_found [OF QueryEscape_one_value(2), of k "QueryEscape v"]
    by (simp add: query_piece_def unescape_QueryEscape)
qed

lemma QueryEscape_joined_plain: "CHR ''&'' \<notin> set (QueryEscape k @ ''='' @ QueryEscape v)"
  using QueryEscape_one_value(1) by simp

lemma Query_values_encode: "Query_values (encode_values kvs) = kvs"
proof (induction kvs rule: encode_values.induct)
  case 1
  show ?case by (simp add: Query_values_def query_piece_def)
next
  case (2 k v)
  show ?case using QueryEscape_joined_plain [of k v] query_piece_escaped [of k v] by (simp add: Query_values_def)
next
  case (3 k v kv kvs)
  have "split_char CHR ''&'' (encode_values ((k, v) # kv # kvs)) =
      (QueryEscape k @ ''='' @ QueryEscape v) # split_char CHR ''&'' (encode_values (kv # kvs))"
    using split_char_append [OF QueryEscape_joined_plain [of k v], of "encode_values (kv # kvs)"] by simp
  then show ?case using 3 query_piece_escaped [of k v] by (simp add: Query_values_def)
qed

lemma encode_values_set: "c \<in> set (encode_values kvs) \<Longrightarrow> unreserved c \<or> c \<in> {CHR ''+'', CHR 0x25, CHR ''='', CHR ''&''}"
  by (induction kvs rule: encode_values.induct) (auto dest: QueryEscape_set)

lemma not_ctl: "unreserved c \<or> c \<in> {CHR ''+'', CHR 0x25, CHR ''='', CHR ''&''} \<Longrightarrow> \<not> ctl_byte c \<and> c \<noteq> CHR ''#'' \<and> c \<noteq> CHR ''?''"
  by (auto simp: unreserved_def ctl_byte_def Let_def of_char_Char horner_sum_simps)

lemma host_kept_not_ctl: "host_kept c \<Longrightarrow> \<not> ctl_byte c"
  by (auto simp: host_kept_def ctl_byte_def unreserved_def Let_def of_char_Char horner_sum_simps)

lemma host_escape_kept: "list_all host_kept s \<Longrightarrow> host_escape s = s"
  by (induction s) (auto simp: host_escape_def)

lemma getScheme_append:
  assumes "s \<noteq> []" "letter (hd s)" "list_all scheme_char s"
  shows "getScheme (s @ CHR '':'' # r) = Some (s, r)"
proof -
  have n: "\<not> scheme_char CHR '':''" by (simp add: scheme_char_def letter_def is_digit_def of_char_Char horner_sum_simps)
  then have "takeWhile scheme_char (s @ CHR '':'' # r) = s" "dropWhile scheme_char (s @ CHR '':'' # r) = CHR '':'' # r"
    using assms(3) by (simp_all add: list_all_iff)
  then show ?thesis using assms(1,2) by (simp add: getScheme_def)
qed

text \<open>A URL that was rendered from a lower-case scheme, a plain host with a port and an escaped query parses to them.\<close>

theorem url_Parse_string:
  assumes scheme: "scheme \<noteq> []" "letter (hd scheme)" "list_all (\<lambda>c. scheme_char c \<and> lower_char c = c) scheme"
    and host: "list_all host_kept host" "host \<noteq> []" "parseHost host = Some host"
    and path: "path \<noteq> []" "hd path = CHR ''/''" "list_all unreserved (tl path)"
  shows "url_Parse (url_string scheme host path (encode_values q)) =
    Some (empty_url\<lparr>ur_scheme := scheme, ur_host := host, ur_path := path, ur_query := encode_values q\<rparr>)"
proof -
  define query where "query = encode_values q"
  define rest where "rest = ''//'' @ host @ path"
  define tail where "tail = (if query = [] then [] else CHR ''?'' # query)"
  have s: "url_string scheme host path (encode_values q) = scheme @ CHR '':'' # (rest @ tail)"
    using host_escape_kept [OF host(1)] by (simp add: url_string_def rest_def tail_def query_def)
  have letters: "\<not> ctl_byte c \<and> c \<noteq> CHR ''#'' \<and> scheme_char c" if "c \<in> set scheme" for c
  proof -
    from that scheme(3) have "scheme_char c" by (simp add: list_all_iff)
    then show ?thesis by (auto simp: letter_def is_digit_def ctl_byte_def scheme_char_def Let_def of_char_Char horner_sum_simps)
  qed
  have p: "c = CHR ''/'' \<or> unreserved c" if "c \<in> set path" for c
    using path that by (cases path) (auto simp: list_all_iff)
  have hk: "host_kept c" if "c \<in> set host" for c using host(1) that by (simp add: list_all_iff)
  have slash: "\<not> ctl_byte CHR ''/''" "\<not> ctl_byte CHR '':''" "\<not> ctl_byte CHR ''?''"
    by (simp_all add: ctl_byte_def of_char_Char horner_sum_simps)
  have parts: "\<not> ctl_byte c \<and> c \<noteq> CHR ''#'' \<and> c \<noteq> CHR ''?''" if "c \<in> set rest" for c
  proof -
    from that consider "c = CHR ''/''" | "c \<in> set host" | "c \<in> set path" by (auto simp: rest_def)
    then show ?thesis
    proof cases
      case 1
      then show ?thesis using slash by simp
    next
      case 2
      then show ?thesis using hk host_kept_not_ctl host_kept_percent(4,5) by blast
    next
      case 3
      then show ?thesis using p [of c] not_ctl [of c] slash by auto
    qed
  qed
  have tails: "\<not> ctl_byte c \<and> c \<noteq> CHR ''#''" if "c \<in> set tail" for c
    using that slash encode_values_set [of c q] not_ctl [of c] by (auto simp: tail_def query_def split: if_splits)
  have plain: "CHR ''#'' \<notin> set (scheme @ CHR '':'' # (rest @ tail))" "\<not> list_ex ctl_byte (scheme @ CHR '':'' # (rest @ tail))"
    using letters parts tails slash by (auto simp: list_ex_iff)
  have cut: "cut_at CHR ''?'' (rest @ tail) = (rest, query)"
  proof -
    have n: "CHR ''?'' \<notin> set rest" using parts by blast
    show ?thesis using cut_at_found [OF n, of query] cut_at_none [OF n] by (simp add: tail_def)
  qed
  have sch: "getScheme (scheme @ CHR '':'' # (rest @ tail)) = Some (scheme, rest @ tail)"
    using scheme letters by (intro getScheme_append) (auto simp: list_all_iff)
  have low: "map lower_char scheme = scheme" using scheme(3) by (induction scheme) auto
  have "takeWhile (\<lambda>c. c \<noteq> CHR ''/'') host = host" using hk host_kept_percent(3) by (auto simp: takeWhile_eq_all_conv)
  then have auth: "takeWhile (\<lambda>c. c \<noteq> CHR ''/'') (host @ path) = host"
    using path(1,2) hk host_kept_percent(3) by (cases path) (auto simp: takeWhile_append)
  have "CHR ''@'' \<notin> set host" using hk host_kept_percent(2) by blast
  then have "parseAuthority host = Some host" using host(3) by (simp add: parseAuthority_def)
  moreover have "unescape EncPath path = Some path"
  proof -
    have "\<not> unreserved CHR 0x25" by (simp add: unreserved_def of_char_Char horner_sum_simps)
    then have "list_all (\<lambda>c. c \<noteq> CHR 0x25) path" using p [of "CHR 0x25"] by (auto simp: list_all_iff)
    then show ?thesis by (induction path) (auto simp: plain_ok_def)
  qed
  ultimately have r: "parse_rest scheme rest query =
      Some (empty_url\<lparr>ur_scheme := scheme, ur_host := host, ur_path := path, ur_query := query\<rparr>)"
    using scheme(1) auth by (simp add: parse_rest_def has_prefix_def Let_def empty_url_def rest_def)
  have "scheme @ CHR '':'' # (rest @ tail) \<noteq> ''*''" using scheme(1) by (cases scheme) auto
  then show ?thesis
    unfolding s url_Parse_def using plain sch low cut r by (simp add: query_def Let_def empty_url_def)
qed

end
