(* ===== verification/Client.thy ===== *)
theory Client
  imports GoURL Policy
begin

text \<open>
  The HTTP client of the API (\<open>client.go\<close>): one request with its rate-limit retries, the reading of error
  responses, presigned uploads, plain downloads. The network is a parameter (what the \<open>n\<close>th attempt is
  answered), as are JSON, HTTP dates and the context (whether it is still live after the \<open>n\<close>th wait).
  Durations are nanoseconds.
\<close>

section \<open>Requests, responses, errors\<close>

record http_response =
  rs_status :: int
  rs_header :: "string \<Rightarrow> string"   \<comment> \<open>\<open>Header.Get\<close>\<close>
  rs_body :: bytes                        \<comment> \<open>the bytes that arrive\<close>
  rs_body_ok :: bool                      \<comment> \<open>the body ends instead of failing\<close>

record http_request =
  rq_method :: string
  rq_url :: string
  rq_headers :: "(string \<times> string) list"
  rq_body :: "bytes option"

record DeviceSession =
  ds_id :: string
  ds_device_name :: string
  ds_machine_id :: string
  ds_client_type :: string
  ds_public_key :: string
  ds_lan_fingerprint :: string
  ds_created_at :: string
  ds_last_used_at :: string
  ds_expires_at :: string
  ds_current :: bool

record DeviceLimitDetails =
  dl_limit :: int
  dl_sessions :: "DeviceSession list"

record APIError =
  api_status :: int
  api_code :: string
  api_message :: string
  api_request_id :: string
  api_device_limit :: "DeviceLimitDetails option"

definition plain_error :: "int \<Rightarrow> string \<Rightarrow> string \<Rightarrow> APIError" where
  "plain_error st code msg =
     \<lparr>api_status = st, api_code = code, api_message = msg, api_request_id = [], api_device_limit = None\<rparr>"

datatype client_err = Api APIError | BadRequest | Transport | BodyRead | Cancelled | NotJSON | SinkFailed

fun Error :: "APIError \<Rightarrow> string" where
  "Error e = (if api_code e = [] \<and> api_message e = [] then ''api error: status '' @ itoa (api_status e)
     else if api_message e = [] then api_code e
     else api_code e @ '': '' @ api_message e)"

text \<open>The error envelope as \<open>json.Unmarshal\<close> fills it, whatever the body (its error is ignored).\<close>

record error_envelope =
  ev_code :: string
  ev_message :: string
  ev_request_id :: string
  ev_sessions :: "DeviceSession list"
  ev_limit :: int

record http_env =
  he_new :: "string \<Rightarrow> string \<Rightarrow> bool"
  he_do :: "nat \<Rightarrow> http_request \<Rightarrow> http_response option"
  he_live :: "nat \<Rightarrow> bool"
  he_until :: "nat \<Rightarrow> string \<Rightarrow> int option"
  he_envelope :: "bytes \<Rightarrow> error_envelope"

record client =
  cl_base :: string
  cl_token :: string

definition NewClient :: "string \<Rightarrow> string \<Rightarrow> string option \<Rightarrow> string \<Rightarrow> client" where
  "NewClient default_base apiBase resolved token =
     (let b = (if apiBase = [] then (case resolved of None \<Rightarrow> default_base | Some r \<Rightarrow> r) else apiBase) in
      \<lparr>cl_base = trim_right b ''/'', cl_token = token\<rparr>)"

section \<open>Waiting\<close>

definition maxRateLimitAttempts :: nat where "maxRateLimitAttempts = 3"
definition maxRateLimitWait :: int where "maxRateLimitWait = 30 * 1000000000"
definition maxRateLimitTotal :: int where "maxRateLimitTotal = 60 * 1000000000"
definition maxJSONResponse :: nat where "maxJSONResponse = 8 * 2 ^ 20"
definition rateLimitBackoffBase :: int where "rateLimitBackoffBase = 1000000000"

definition capRateLimitWait :: "int \<Rightarrow> int" where
  "capRateLimitWait w = (if w > maxRateLimitWait then maxRateLimitWait else if w < 0 then 0 else w)"

text \<open>Seconds are multiplied as a 64-bit \<open>time.Duration\<close>.\<close>

definition parseRetryAfter :: "(string \<Rightarrow> int option) \<Rightarrow> string \<Rightarrow> int option" where
  "parseRetryAfter until value = (let v = trim_space value in
     if v = [] then None
     else (case parse_int64 v of
       Some n \<Rightarrow> Some (sint (word_of_int (if n < 0 then 0 else n) * second_ns))
     | None \<Rightarrow> (case until v of None \<Rightarrow> None | Some w \<Rightarrow> Some (if w < 0 then 0 else w))))"

definition retryWait :: "(string \<Rightarrow> int option) \<Rightarrow> string \<Rightarrow> nat \<Rightarrow> int" where
  "retryWait until header attempt = (case parseRetryAfter until header of
     Some d \<Rightarrow> capRateLimitWait d
   | None \<Rightarrow> capRateLimitWait (((\<lambda>w. w * 2) ^^ attempt) rateLimitBackoffBase))"

text \<open>\<open>Duration.Round\<close> to seconds, for the durations from 0 to 30 seconds it is called with.\<close>

definition round_seconds :: "int \<Rightarrow> int" where
  "round_seconds w = (let r = w mod 1000000000 in
     if r + r < 1000000000 then w - r else w + 1000000000 - r)"

definition rateLimitedError :: "int \<Rightarrow> int \<Rightarrow> APIError" where
  "rateLimitedError st w = (let n = round_seconds w div 1000000000; k = (if n < 1 then 1 else n) in
     plain_error st ''rate_limited'' (''rate limited by the server; try again in ~'' @ itoa k @ ''s''))"

section \<open>Reading a failed response\<close>

definition readLimitedBody :: "http_response \<Rightarrow> bytes option" where
  "readLimitedBody r = (if \<not> rs_body_ok r \<and> length (rs_body r) < 4096 then None else Some (take 4096 (rs_body r)))"

definition looksLikeJSON :: "bytes \<Rightarrow> bool" where
  "looksLikeJSON body = (let t = trim_space body in has_prefix t ''{'' \<or> has_prefix t ''['')"

definition isPlainNonJSONBody :: "http_response \<Rightarrow> bytes \<Rightarrow> bool" where
  "isPlainNonJSONBody r body =
     (if trim_space body = [] then False
      else if contains (to_lower (rs_header r ''Content-Type'')) ''json'' then False
      else \<not> looksLikeJSON body)"

definition isCloudflareChallenge :: "http_response \<Rightarrow> bytes \<Rightarrow> bool" where
  "isCloudflareChallenge r body =
     (if rs_status r \<noteq> 403 \<and> rs_status r \<noteq> 503 then False
      else if looksLikeJSON body then False
      else if trim_space (rs_header r ''cf-mitigated'') \<noteq> [] \<or> trim_space (rs_header r ''cf-ray'') \<noteq> [] then True
      else if contains (to_lower (rs_header r ''Server'')) ''cloudflare'' then True
      else (let text = to_lower (trim_space body) in
        contains (to_lower (rs_header r ''Content-Type'')) ''text/html'' \<or> has_prefix text ''<!doctype html'' \<or>
        has_prefix text ''<html''))"

definition cloudflareChallengeError :: "int \<Rightarrow> APIError" where
  "cloudflareChallengeError st = plain_error st ''cloudflare_challenge''
     ''the server returned a Cloudflare challenge that the CLI can't solve - open the share link in a browser, or if this persists contact support@share2.us''"

definition decodeAPIErrorFromBody :: "(bytes \<Rightarrow> error_envelope) \<Rightarrow> http_response \<Rightarrow> bytes \<Rightarrow> APIError" where
  "decodeAPIErrorFromBody un r body = (let v = un body in
     \<lparr>api_status = rs_status r, api_code = ev_code v, api_message = ev_message v, api_request_id = ev_request_id v,
      api_device_limit = (if ev_code v = ''device_limit_reached''
        then Some \<lparr>dl_limit = ev_limit v, dl_sessions = ev_sessions v\<rparr> else None)\<rparr>)"

definition IsAuthorizationPending :: "client_err \<Rightarrow> bool" where
  "IsAuthorizationPending e = (case e of Api a \<Rightarrow> api_code a = ''authorization_pending'' | _ \<Rightarrow> False)"

definition IsDeviceLimitReached :: "client_err \<Rightarrow> bool" where
  "IsDeviceLimitReached e = (case e of Api a \<Rightarrow> api_code a = ''device_limit_reached'' | _ \<Rightarrow> False)"

definition DeviceLimitDetailsFromError :: "client_err \<Rightarrow> DeviceLimitDetails option" where
  "DeviceLimitDetailsFromError e = (case e of
     Api a \<Rightarrow> if api_code a \<noteq> ''device_limit_reached'' then None else api_device_limit a
   | _ \<Rightarrow> None)"

definition SleepInterval :: "int \<Rightarrow> int" where
  "SleepInterval n = sint (word_of_int (if n \<le> 0 then 5 else n) * second_ns)"

section \<open>The attempts of one request\<close>

definition success :: "http_response \<Rightarrow> bool" where
  "success r \<longleftrightarrow> 200 \<le> rs_status r \<and> rs_status r < 300"

datatype verdict = GiveUp client_err | WaitFor int

text \<open>What a response outside 2xx leads to; \<open>other\<close> is the error of a status that is not 429.\<close>

definition failure_verdict ::
  "http_env \<Rightarrow> (http_response \<Rightarrow> bytes \<Rightarrow> APIError) \<Rightarrow> nat \<Rightarrow> int \<Rightarrow> http_response \<Rightarrow> verdict" where
  "failure_verdict env other attempt totalWait resp = (case readLimitedBody resp of
     None \<Rightarrow> GiveUp BodyRead
   | Some body \<Rightarrow>
       if isCloudflareChallenge resp body then GiveUp (Api (cloudflareChallengeError (rs_status resp)))
       else if rs_status resp = 429 then
         (if isPlainNonJSONBody resp body then GiveUp (Api (plain_error (rs_status resp) ''rate_limited'' (trim_space body)))
          else (let e = decodeAPIErrorFromBody (he_envelope env) resp body in
            if api_code e \<noteq> [] \<and> api_code e \<noteq> ''rate_limited'' \<and> api_code e \<noteq> ''too_many_requests'' then GiveUp (Api e)
            else (let wait = retryWait (he_until env attempt) (rs_header resp ''Retry-After'') attempt in
              if int attempt < int maxRateLimitAttempts - 1 \<and> totalWait + wait \<le> maxRateLimitTotal then WaitFor wait
              else GiveUp (Api (rateLimitedError (rs_status resp) wait)))))
       else GiveUp (Api (other resp body)))"

text \<open>The loop \<open>doJSON\<close> and \<open>DownloadURL\<close> share: the requests sent, the waits between them, the result.\<close>

fun request_attempts ::
  "http_env \<Rightarrow> (http_response \<Rightarrow> client_err + 'a) \<Rightarrow> (http_response \<Rightarrow> bytes \<Rightarrow> APIError) \<Rightarrow> http_request \<Rightarrow>
   int \<Rightarrow> nat list \<Rightarrow> http_request list \<times> int list \<times> (client_err + 'a)" where
  "request_attempts env got other req totalWait [] = ([], [], Inl (Api (rateLimitedError 429 maxRateLimitWait)))"
| "request_attempts env got other req totalWait (attempt # rest) =
     (if \<not> he_new env (rq_method req) (rq_url req) then ([], [], Inl BadRequest)
      else (case he_do env attempt req of
        None \<Rightarrow> ([req], [], Inl Transport)
      | Some resp \<Rightarrow>
          if success resp then ([req], [], got resp)
          else (case failure_verdict env other attempt totalWait resp of
            GiveUp e \<Rightarrow> ([req], [], Inl e)
          | WaitFor wait \<Rightarrow>
              if \<not> he_live env attempt then ([req], [wait], Inl Cancelled)
              else (case request_attempts env got other req (totalWait + wait) rest of
                (rs, ws, r) \<Rightarrow> (req # rs, wait # ws, r)))))"

definition auth_headers :: "client \<Rightarrow> (string \<times> string) list" where
  "auth_headers c = (if cl_token c \<noteq> [] then [(''Authorization'', ''Bearer '' @ cl_token c)] else [])"

definition json_request :: "client \<Rightarrow> string \<Rightarrow> string \<Rightarrow> bytes option \<Rightarrow> http_request" where
  "json_request c meth path body =
     \<lparr>rq_method = meth, rq_url = cl_base c @ path,
      rq_headers = (if body \<noteq> None then [(''Content-Type'', ''application/json'')] else []) @ auth_headers c,
      rq_body = body\<rparr>"

text \<open>\<open>body\<close> is the marshalled input, \<open>None\<close> without one; \<open>un\<close> decodes the output, when there is one.\<close>

definition doJSON ::
  "http_env \<Rightarrow> client \<Rightarrow> (bytes \<Rightarrow> 'a option) option \<Rightarrow> string \<Rightarrow> string \<Rightarrow> bytes option \<Rightarrow>
   http_request list \<times> int list \<times> (client_err + 'a option)" where
  "doJSON env c un meth path body =
     request_attempts env
       (\<lambda>resp. case un of
          None \<Rightarrow> Inr None
        | Some d \<Rightarrow> (case d (take maxJSONResponse (rs_body resp)) of None \<Rightarrow> Inl NotJSON | Some v \<Rightarrow> Inr (Some v)))
       (decodeAPIErrorFromBody (he_envelope env))
       (json_request c meth path body) 0 [0..<maxRateLimitAttempts]"

section \<open>Uploads and downloads\<close>

record PresignedUpload =
  pu_url :: string
  pu_method :: string
  pu_headers :: "(string \<times> string) list"

text \<open>\<open>io.Copy\<close> to the destination, which may refuse the bytes.\<close>

definition copy_body :: "(bytes \<Rightarrow> bool) \<Rightarrow> http_response \<Rightarrow> client_err + bytes" where
  "copy_body sink r = (if \<not> sink (rs_body r) then Inl SinkFailed else if rs_body_ok r then Inr (rs_body r) else Inl BodyRead)"

definition limited_or_empty :: "http_response \<Rightarrow> bytes" where
  "limited_or_empty r = take 4096 (rs_body r)"

definition upload_failure :: "http_env \<Rightarrow> http_response \<Rightarrow> APIError" where
  "upload_failure env r = (let body = limited_or_empty r in
     if isCloudflareChallenge r body then cloudflareChallengeError (rs_status r)
     else if rs_status r = 429 then
       (if isPlainNonJSONBody r body then plain_error (rs_status r) ''rate_limited'' (trim_space body)
        else rateLimitedError (rs_status r) (retryWait (he_until env 0) (rs_header r ''Retry-After'') 0))
     else plain_error (rs_status r) ''upload_failed''
       (''presigned upload failed: HTTP '' @ itoa (rs_status r) @ '': '' @ body))"

text \<open>One request without a retry: what was sent and the outcome.\<close>

definition one_request ::
  "http_env \<Rightarrow> http_request \<Rightarrow> (http_response \<Rightarrow> client_err + 'a) \<Rightarrow> (http_response \<Rightarrow> APIError) \<Rightarrow>
   http_request list \<times> (client_err + 'a)" where
  "one_request env req got failed =
     (if \<not> he_new env (rq_method req) (rq_url req) then ([], Inl BadRequest)
      else (case he_do env 0 req of
        None \<Rightarrow> ([req], Inl Transport)
      | Some r \<Rightarrow> ([req], if success r then got r else Inl (Api (failed r)))))"

definition PutUpload :: "http_env \<Rightarrow> PresignedUpload \<Rightarrow> bytes \<Rightarrow> http_request list \<times> (client_err + unit)" where
  "PutUpload env up body = one_request env
     \<lparr>rq_method = (if pu_method up = [] then ''PUT'' else pu_method up), rq_url = pu_url up,
      rq_headers = pu_headers up, rq_body = Some body\<rparr> (\<lambda>_. Inr ()) (upload_failure env)"

definition DownloadURL ::
  "http_env \<Rightarrow> (bytes \<Rightarrow> bool) \<Rightarrow> string \<Rightarrow> http_request list \<times> int list \<times> (client_err + bytes)" where
  "DownloadURL env sink rawURL =
     request_attempts env (copy_body sink)
       (\<lambda>r body. plain_error (rs_status r) ''download_failed''
          (''download failed: HTTP '' @ itoa (rs_status r) @ '': '' @ body))
       \<lparr>rq_method = ''GET'', rq_url = rawURL, rq_headers = [], rq_body = None\<rparr> 0 [0..<maxRateLimitAttempts]"

definition inbox_failure :: "http_env \<Rightarrow> http_response \<Rightarrow> APIError" where
  "inbox_failure env r = (let body = limited_or_empty r; e = decodeAPIErrorFromBody (he_envelope env) r body in
     if isCloudflareChallenge r body then cloudflareChallengeError (rs_status r)
     else if api_code e \<noteq> [] then e
     else plain_error (rs_status r) ''download_failed''
       (''inbox content failed: HTTP '' @ itoa (rs_status r) @ '': '' @ body))"

definition DownloadInboxContent ::
  "http_env \<Rightarrow> client \<Rightarrow> (bytes \<Rightarrow> bool) \<Rightarrow> string \<Rightarrow> http_request list \<times> (client_err + bytes)" where
  "DownloadInboxContent env c sink publicID = one_request env
     \<lparr>rq_method = ''GET'', rq_url = cl_base c @ ''/v1/inbox/'' @ PathEscape publicID @ ''/content'',
      rq_headers = auth_headers c, rq_body = None\<rparr> (copy_body sink) (inbox_failure env)"

definition agent_failure :: "http_env \<Rightarrow> string \<Rightarrow> string \<Rightarrow> http_response \<Rightarrow> APIError" where
  "agent_failure env code what r =
     (let e = decodeAPIErrorFromBody (he_envelope env) r (limited_or_empty r) in
      if api_code e \<noteq> [] then e else plain_error (rs_status r) code (what @ itoa (rs_status r)))"

definition AgentUploadContent ::
  "http_env \<Rightarrow> client \<Rightarrow> (bytes \<Rightarrow> string option) \<Rightarrow> bytes \<Rightarrow> http_request list \<times> (client_err + string)" where
  "AgentUploadContent env c un ciphertext = one_request env
     \<lparr>rq_method = ''POST'', rq_url = cl_base c @ ''/v1/agent/upload'',
      rq_headers = [(''Content-Type'', ''application/octet-stream'')] @ auth_headers c, rq_body = Some ciphertext\<rparr>
     (\<lambda>r. case un (take maxJSONResponse (rs_body r)) of None \<Rightarrow> Inl NotJSON | Some k \<Rightarrow> Inr k)
     (agent_failure env ''upload_failed'' ''agent upload failed: HTTP '')"

definition AgentDownloadContent ::
  "http_env \<Rightarrow> client \<Rightarrow> (bytes \<Rightarrow> bool) \<Rightarrow> string \<Rightarrow> http_request list \<times> (client_err + bytes)" where
  "AgentDownloadContent env c sink rid = one_request env
     \<lparr>rq_method = ''GET'', rq_url = cl_base c @ ''/v1/agent/inject/'' @ PathEscape rid @ ''/content'',
      rq_headers = auth_headers c, rq_body = None\<rparr>
     (copy_body sink) (agent_failure env ''download_failed'' ''agent content failed: HTTP '')"

section \<open>Facts\<close>

lemma capRateLimitWait_range: "capRateLimitWait w \<in> {0..maxRateLimitWait}"
  by (simp add: capRateLimitWait_def maxRateLimitWait_def)

lemma retryWait_range: "retryWait until h n \<in> {0..maxRateLimitWait}"
  using capRateLimitWait_range by (auto simp: retryWait_def split: option.splits)

lemma failure_verdict_wait:
  assumes "failure_verdict env other attempt tot resp = WaitFor w"
  shows "w \<in> {0..maxRateLimitWait}" "tot + w \<le> maxRateLimitTotal" "attempt + 1 < maxRateLimitAttempts"
    "rs_status resp = 429"
    "ev_code (he_envelope env (take 4096 (rs_body resp))) \<in> {[], ''rate_limited'', ''too_many_requests''}"
  using assms retryWait_range [of "he_until env attempt" "rs_header resp ''Retry-After''" attempt]
  by (auto simp: failure_verdict_def Let_def maxRateLimitAttempts_def readLimitedBody_def decodeAPIErrorFromBody_def
      split: option.splits if_splits)

lemma request_attempts_bounds:
  "request_attempts env got other req tot ns = (rs, ws, r) \<Longrightarrow> 0 \<le> tot \<Longrightarrow> tot \<le> maxRateLimitTotal \<Longrightarrow>
   length rs \<le> length ns \<and> length ws \<le> length rs \<and> set rs \<subseteq> {req} \<and> set ws \<subseteq> {0..maxRateLimitWait} \<and>
   tot + sum_list ws \<le> maxRateLimitTotal"
proof (induction ns arbitrary: tot rs ws r)
  case (Cons n ns)
  show ?case
  proof (cases "\<exists>resp w. he_new env (rq_method req) (rq_url req) \<and> he_do env n req = Some resp \<and> \<not> success resp \<and>
      failure_verdict env other n tot resp = WaitFor w")
    case False
    then have "ws = [] \<and> (rs = [] \<or> rs = [req])"
      using Cons.prems(1) by (fastforce split: if_splits option.splits verdict.splits)
    then show ?thesis using Cons.prems by auto
  next
    case True
    then obtain resp w where t: "he_new env (rq_method req) (rq_url req)" "he_do env n req = Some resp" "\<not> success resp"
      "failure_verdict env other n tot resp = WaitFor w" by blast
    note b = failure_verdict_wait [OF t(4)]
    obtain rs1 ws1 r1 where q: "request_attempts env got other req (tot + w) ns = (rs1, ws1, r1)" by (metis prod_cases3)
    then have "length rs1 \<le> length ns \<and> length ws1 \<le> length rs1 \<and> set rs1 \<subseteq> {req} \<and> set ws1 \<subseteq> {0..maxRateLimitWait} \<and>
        tot + w + sum_list ws1 \<le> maxRateLimitTotal"
      using Cons.prems(2) b(1,2) by (intro Cons.IH) auto
    then show ?thesis using Cons.prems t q b by (auto split: if_splits)
  qed
qed simp

text \<open>The response to the \<open>i\<close>th request when another request followed it.\<close>

lemma request_attempts_resent:
  "request_attempts env got other req tot [a..<b] = (rs, ws, r) \<Longrightarrow> Suc i < length rs \<Longrightarrow>
   \<exists>resp t w. he_do env (a + i) req = Some resp \<and> failure_verdict env other (a + i) t resp = WaitFor w"
proof (induction "[a..<b]" arbitrary: a tot rs ws r i)
  case (Cons n ns)
  from Cons.hyps(2) have "a < b" by (cases "a < b") simp_all
  with Cons.hyps(2) have n: "n = a" and ns: "ns = [Suc a..<b]" by (simp_all add: upt_conv_Cons)
  from Cons.prems Cons.hyps(2) obtain resp w rs1 ws1 r1 where t: "he_do env a req = Some resp" "\<not> success resp"
    "failure_verdict env other a tot resp = WaitFor w"
    "request_attempts env got other req (tot + w) [Suc a..<b] = (rs1, ws1, r1)" "rs = req # rs1"
    unfolding Cons.hyps(2) [symmetric] n ns
    by (fastforce split: if_splits option.splits verdict.splits prod.splits)
  show ?case
  proof (cases i)
    case (Suc j)
    then show ?thesis using Cons.hyps(1) [OF ns t(4)] Cons.prems(2) t(5) by auto
  qed (use t in auto)
qed simp

section \<open>Properties\<close>

text \<open>C25 A rate-limited call cannot run away: \<open>doJSON\<close> sends at most three requests, all the same, waits at most 30
  seconds between two of them and at most a minute in all, whatever the server answers.\<close>

theorem doJSON_bounded:
  "case doJSON env c un meth path body of (rs, ws, r) \<Rightarrow>
     length rs \<le> 3 \<and> set rs \<subseteq> {json_request c meth path body} \<and> set ws \<subseteq> {0..30 * 1000000000} \<and>
     sum_list ws \<le> 60 * 1000000000"
proof -
  obtain rs ws r where q: "doJSON env c un meth path body = (rs, ws, r)" by (metis prod_cases3)
  then show ?thesis using request_attempts_bounds [OF q [unfolded doJSON_def]]
    by (simp add: maxRateLimitAttempts_def maxRateLimitTotal_def maxRateLimitWait_def)
qed

text \<open>A call the server may have acted on is not repeated: when \<open>doJSON\<close> sends a request again, the previous one
  was answered with status 429, and its error code, if the body named one, was a rate limit.\<close>

theorem resent_only_when_limited:
  assumes "Suc i < length (fst (doJSON env c un meth path body))"
  shows "\<exists>resp. he_do env i (json_request c meth path body) = Some resp \<and> rs_status resp = 429 \<and>
    ev_code (he_envelope env (take 4096 (rs_body resp))) \<in> {[], ''rate_limited'', ''too_many_requests''}"
proof -
  obtain rs ws r where q: "doJSON env c un meth path body = (rs, ws, r)" by (metis prod_cases3)
  then have "Suc i < length rs" using assms by simp
  from request_attempts_resent [OF q [unfolded doJSON_def] this] obtain resp t w where
    r: "he_do env i (json_request c meth path body) = Some resp"
    "failure_verdict env (decodeAPIErrorFromBody (he_envelope env)) i t resp = WaitFor w" by auto
  from failure_verdict_wait(4,5) [OF r(2)] r(1) show ?thesis by blast
qed


text \<open>A server's \<open>Retry-After\<close> is honoured up to 30 seconds, as long as its seconds fit a \<open>time.Duration\<close>; one second
  more than 9,223,372,036 wraps to a negative wait, which is taken as none: the request is sent again at once.\<close>

theorem retry_after_seconds:
  assumes "trim_space h \<noteq> []" "parse_int64 (trim_space h) = Some n" "0 \<le> n"
  shows "(n \<le> 9223372036 \<longrightarrow> retryWait until h k = min (30 * 1000000000) (n * 1000000000)) \<and>
    (n = 9223372037 \<longrightarrow> retryWait until h k = 0)"
proof -
  have w: "retryWait until h k = capRateLimitWait (sint (word_of_int (n * 1000000000) :: 64 word))"
    using assms by (simp add: retryWait_def parseRetryAfter_def second_ns_def)
  have "sint (word_of_int (n * 1000000000) :: 64 word) = n * 1000000000" if "n \<le> 9223372036"
    using that assms(3) by (intro sint_small) simp_all
  then show ?thesis using assms(3) by (auto simp: w capRateLimitWait_def maxRateLimitWait_def)
qed

section \<open>A concrete server\<close>

text \<open>The first answer is a rate limit, the second an empty success.\<close>

definition demo_http :: http_env where
  "demo_http = \<lparr>he_new = (\<lambda>_ _. True),
     he_do = (\<lambda>n _. Some \<lparr>rs_status = (if n = 0 then 429 else 200), rs_header = (\<lambda>_. []), rs_body = [], rs_body_ok = True\<rparr>),
     he_live = (\<lambda>_. True), he_until = (\<lambda>_ _. None),
     he_envelope = (\<lambda>_. \<lparr>ev_code = [], ev_message = [], ev_request_id = [], ev_sessions = [], ev_limit = 0\<rparr>)\<rparr>"

definition demo_client :: client where
  "demo_client = \<lparr>cl_base = ''https://api.share2.us'', cl_token = ''t''\<rparr>"

lemma resent_only_when_limited_witness:
  "length (fst (doJSON demo_http demo_client (None :: (bytes \<Rightarrow> unit option) option) ''POST'' ''/v1/x'' None)) = 2 \<and>
   (\<exists>resp. he_do demo_http 0 (json_request demo_client ''POST'' ''/v1/x'' None) = Some resp \<and> rs_status resp = 429)"
proof -
  have "length (fst (doJSON demo_http demo_client (None :: (bytes \<Rightarrow> unit option) option) ''POST'' ''/v1/x'' None)) = 2"
    by (simp add: doJSON_def maxRateLimitAttempts_def upt_conv_Cons demo_http_def success_def failure_verdict_def
        readLimitedBody_def isCloudflareChallenge_def isPlainNonJSONBody_def decodeAPIErrorFromBody_def
        retryWait_def parseRetryAfter_def capRateLimitWait_def rateLimitBackoffBase_def maxRateLimitWait_def
        maxRateLimitTotal_def)
  then show ?thesis
    using resent_only_when_limited [of 0 demo_http demo_client "None :: (bytes \<Rightarrow> unit option) option" "''POST''" "''/v1/x''" None] by auto
qed

lemma retry_after_seconds_witness:
  "retryWait (\<lambda>_. None) ''9223372037'' 0 = 0"
proof -
  have t: "trim_space ''9223372037'' = ''9223372037''"
    by (rule trim_space_ascii_id) (simp_all add: is_space_def of_char_Char horner_sum_simps)
  have p: "parse_int64 (trim_space ''9223372037'') = Some 9223372037"
    by (simp add: t parse_int64_def digits_value_def is_digit_def of_char_Char horner_sum_simps)
  show ?thesis using retry_after_seconds [OF _ p, of "\<lambda>_. None" 0] t by auto
qed

end
