(* ===== verification/Config.thy ===== *)
theory Config
  imports Store GoParseURL
begin

text \<open>
  The configuration file (\<open>config.go\<close>, \<open>localshare_config.go\<close>, \<open>receive_config.go\<close>, \<open>daemon_config.go\<close>,
  \<open>agent_prefs.go\<close>): its record, loading and saving, the base addresses and where each comes from, device
  aliases and trusted peers, the receive and daemon settings, per-agent preferences. JSON,
  \<open>filepath.Abs\<close> and the environment variables are parameters.
\<close>

section \<open>The record\<close>

record UploadDefaults =
  ud_expires :: "string option"
  ud_reshare :: "bool option"
  ud_encrypt :: "bool option"
  ud_max_views :: "int option"
  ud_no_scan :: "bool option"
  ud_allowed_domains :: "string list"
  ud_denied_domains :: "string list"

record DeviceAlias =
  da_name :: string
  da_addr :: string

record DaemonConfig =
  dc_dest_dir :: string
  dc_lan_discoverable :: "bool option"
  dc_notify :: "bool option"
  dc_approval_policy :: string

record ReceiveConfig =
  rv_dir :: string
  rv_auto :: "bool option"

record AgentPrefs =
  ap_alias :: string
  ap_pinned :: bool
  ap_hidden :: bool

record Config =
  cf_base_url :: string
  cf_host :: string
  cf_share_base :: string
  cf_machine_id :: string
  cf_install_id :: string
  cf_install_reported :: bool
  cf_reshare :: "bool option"
  cf_defaults :: "UploadDefaults option"
  cf_devices :: "DeviceAlias list"
  cf_trusted_peers :: "string list"
  cf_update_channel :: string
  cf_daemon :: "DaemonConfig option"
  cf_receive :: "ReceiveConfig option"
  cf_agents :: "(string, AgentPrefs) fmap"

definition empty_config :: Config where
  "empty_config = \<lparr>cf_base_url = [], cf_host = [], cf_share_base = [], cf_machine_id = [], cf_install_id = [],
     cf_install_reported = False, cf_reshare = None, cf_defaults = None, cf_devices = [], cf_trusted_peers = [],
     cf_update_channel = [], cf_daemon = None, cf_receive = None, cf_agents = fmempty\<rparr>"

datatype config_err = ConfigFile file_err | BadHost | BadBase | BadShareBase | BadChannel | BadPublicID | NoAbs

section \<open>Update channel and standing defaults\<close>

definition UpdateChannelStable :: string where "UpdateChannelStable = ''stable''"
definition UpdateChannelBeta :: string where "UpdateChannelBeta = ''beta''"

definition NormalizeUpdateChannel :: "string \<Rightarrow> config_err + string" where
  "NormalizeUpdateChannel v = (let c = to_lower (trim_space v) in
     if c = [] \<or> c = UpdateChannelStable then Inr UpdateChannelStable
     else if c = UpdateChannelBeta then Inr UpdateChannelBeta else Inl BadChannel)"

definition ResolveUpdateChannel :: "(string \<Rightarrow> string) \<Rightarrow> Config \<Rightarrow> string" where
  "ResolveUpdateChannel env c =
     (let v = env ''SHARE2US_UPDATE_CHANNEL'';
          saved = (case NormalizeUpdateChannel (cf_update_channel c) of Inr ch \<Rightarrow> ch | Inl _ \<Rightarrow> UpdateChannelStable) in
      if trim_space v \<noteq> [] then (case NormalizeUpdateChannel v of Inr ch \<Rightarrow> ch | Inl _ \<Rightarrow> saved) else saved)"

definition IsEmpty :: "UploadDefaults option \<Rightarrow> bool" where
  "IsEmpty d = (case d of None \<Rightarrow> True
     | Some u \<Rightarrow> ud_expires u = None \<and> ud_reshare u = None \<and> ud_encrypt u = None \<and> ud_max_views u = None \<and>
         ud_no_scan u = None \<and> ud_allowed_domains u = [] \<and> ud_denied_domains u = [])"

definition ResolvedReshareDefault :: "Config \<Rightarrow> bool option" where
  "ResolvedReshareDefault c = (case Option.bind (cf_defaults c) ud_reshare of Some v \<Rightarrow> Some v | None \<Rightarrow> cf_reshare c)"

section \<open>Addresses\<close>

text \<open>Scheme, host and host name of \<open>url.Parse\<close>.\<close>

definition url_location :: "string \<Rightarrow> (string \<times> string \<times> string) option" where
  "url_location s = map_option (\<lambda>u. (ur_scheme u, ur_host u, Hostname u)) (url_Parse s)"

definition contains_any :: "string \<Rightarrow> string \<Rightarrow> bool" where
  "contains_any s cs = list_ex (\<lambda>c. c \<in> set cs) s"

definition absolute_http :: "string \<Rightarrow> string option" where
  "absolute_http v = (let t = trim_right (trim_space v) ''/'' in
     (case url_location t of
        None \<Rightarrow> None
      | Some (scheme, host, _) \<Rightarrow>
          if scheme \<noteq> ''http'' \<and> scheme \<noteq> ''https'' then None else if host = [] then None else Some t))"

definition NormalizeAPIHost :: "string \<Rightarrow> config_err + string" where
  "NormalizeAPIHost v = (case absolute_http v of None \<Rightarrow> Inl BadHost | Some t \<Rightarrow> Inr t)"

definition NormalizeShareBase :: "string \<Rightarrow> config_err + string" where
  "NormalizeShareBase v = (case absolute_http v of None \<Rightarrow> Inl BadShareBase | Some t \<Rightarrow> Inr t)"

definition host_rune :: "nat \<Rightarrow> bool" where
  "host_rune r \<longleftrightarrow> (97 \<le> r \<and> r \<le> 122) \<or> (48 \<le> r \<and> r \<le> 57) \<or> r = 45"

definition label_ok :: "string \<Rightarrow> bool" where
  "label_ok l \<longleftrightarrow> l \<noteq> [] \<and> \<not> has_prefix l ''-'' \<and> \<not> has_suffix l ''-'' \<and> list_all (\<lambda>rb. host_rune (fst rb)) (runes l)"

definition service_prefixes :: "string list" where
  "service_prefixes = [''api.'', ''s.'', ''app.'', ''admin.'']"

definition NormalizeBaseURL :: "string \<Rightarrow> config_err + string" where
  "NormalizeBaseURL v =
     (let t = trim_space v in
      if t = [] then Inl BadBase
      else if contains_any t [CHR '' '', CHR 0x09, CHR 0x0D, CHR 0x0A] then Inl BadBase
      else (case (if contains t ''://'' then
               (case url_location t of
                  None \<Rightarrow> None
                | Some (scheme, _, hostname) \<Rightarrow> if scheme \<noteq> ''http'' \<and> scheme \<noteq> ''https'' then None else Some hostname)
             else if contains_any t ''/?#'' then None else Some t) of
          None \<Rightarrow> Inl BadBase
        | Some h0 \<Rightarrow>
            (let h1 = trim_suffix (to_lower (trim_space h0)) ''.'';
                 h = foldl trim_prefix h1 service_prefixes in
             if h = [] \<or> \<not> contains h ''.'' then Inl BadBase
             else if contains_any h ''/:?#[]@'' then Inl BadBase
             else if list_all label_ok (split_char CHR ''.'' h) then Inr h else Inl BadBase)))"

definition APIBaseFromBaseURL :: "string \<Rightarrow> config_err + string" where
  "APIBaseFromBaseURL v = (case NormalizeBaseURL v of Inl e \<Rightarrow> Inl e | Inr h \<Rightarrow> Inr (''https://api.'' @ h))"

definition ShareBaseFromBaseURL :: "string \<Rightarrow> config_err + string" where
  "ShareBaseFromBaseURL v = (case NormalizeBaseURL v of Inl e \<Rightarrow> Inl e | Inr h \<Rightarrow> Inr (''https://s.'' @ h))"

definition DownloadGatewayURL :: "string \<Rightarrow> string \<Rightarrow> config_err + string" where
  "DownloadGatewayURL apiBase publicID = (case NormalizeAPIHost apiBase of
     Inl e \<Rightarrow> Inl e
   | Inr b \<Rightarrow> (let p = trim_space publicID in
       if p = [] then Inl BadPublicID
       else if contains_any p ''/?#'' then Inl BadPublicID
       else Inr (b @ ''/d/'' @ PathEscape p)))"

section \<open>The file\<close>

record config_codec =
  fc_un :: "bytes \<Rightarrow> Config option"
  fc_mar :: "Config \<Rightarrow> bytes option"

definition ConfigPath :: "os \<Rightarrow> file_err + string" where
  "ConfigPath s = (case os_config_base s of None \<Rightarrow> Inl NoConfigBase | Some b \<Rightarrow> Inr (app_path b ''config.json''))"

definition LoadConfigAt :: "config_codec \<Rightarrow> os \<Rightarrow> files \<Rightarrow> string \<Rightarrow> file_err + Config" where
  "LoadConfigAt fc s fs p = (case read_file s fs p of
     Inl e \<Rightarrow> Inl e | Inr raw \<Rightarrow> (case fc_un fc raw of None \<Rightarrow> Inl ParseError | Some c \<Rightarrow> Inr c))"

definition LoadConfig :: "config_codec \<Rightarrow> os \<Rightarrow> files \<Rightarrow> file_err + Config" where
  "LoadConfig fc s fs = (case ConfigPath s of Inl e \<Rightarrow> Inl e | Inr p \<Rightarrow> LoadConfigAt fc s fs p)"

definition normalized :: "string \<Rightarrow> (string \<Rightarrow> config_err + string) \<Rightarrow> config_err + string" where
  "normalized v f = (if v \<noteq> [] then f v else Inr v)"

definition SaveConfigAt :: "config_codec \<Rightarrow> os \<Rightarrow> files \<Rightarrow> string \<Rightarrow> Config \<Rightarrow> files \<times> config_err option" where
  "SaveConfigAt fc s fs p c = (case normalized (cf_host c) NormalizeAPIHost of
     Inl e \<Rightarrow> (fs, Some e)
   | Inr host \<Rightarrow> (case normalized (cf_base_url c) NormalizeBaseURL of
       Inl e \<Rightarrow> (fs, Some e)
     | Inr base \<Rightarrow> (case normalized (cf_share_base c) NormalizeShareBase of
         Inl e \<Rightarrow> (fs, Some e)
       | Inr share \<Rightarrow> (case fc_mar fc (c\<lparr>cf_host := host, cf_base_url := base, cf_share_base := share\<rparr>) of
           None \<Rightarrow> (fs, Some (ConfigFile RenderError))
         | Some raw \<Rightarrow> (case write_file s fs p (raw @ [CHR 0x0A]) of (fs', e) \<Rightarrow> (fs', map_option ConfigFile e))))))"

definition SaveConfig :: "config_codec \<Rightarrow> os \<Rightarrow> files \<Rightarrow> Config \<Rightarrow> files \<times> config_err option" where
  "SaveConfig fc s fs c = (case ConfigPath s of
     Inl e \<Rightarrow> (fs, Some (ConfigFile e)) | Inr p \<Rightarrow> SaveConfigAt fc s fs p c)"

section \<open>Where an address comes from\<close>

definition DefaultBaseURL :: string where "DefaultBaseURL = ''share2.us''"

datatype base_source = SourceEnv | SourceConfig | SourceDefault

text \<open>The configuration for a lookup: a missing file is no configuration, any other error is one.\<close>

definition lookup_config :: "config_codec \<Rightarrow> os \<Rightarrow> files \<Rightarrow> config_err + Config option" where
  "lookup_config fc s fs = (case LoadConfig fc s fs of
     Inr c \<Rightarrow> Inr (Some c) | Inl NotExist \<Rightarrow> Inr None | Inl e \<Rightarrow> Inl (ConfigFile e))"

definition from_source :: "base_source \<Rightarrow> config_err + string \<Rightarrow> config_err + string \<times> base_source" where
  "from_source src r = (case r of Inl e \<Rightarrow> Inl e | Inr v \<Rightarrow> Inr (v, src))"

definition ResolveBaseURL ::
  "config_codec \<Rightarrow> os \<Rightarrow> (string \<Rightarrow> string) \<Rightarrow> files \<Rightarrow> config_err + string \<times> base_source" where
  "ResolveBaseURL fc s env fs =
     (if env ''SHARE2US_BASE_URL'' \<noteq> [] then from_source SourceEnv (NormalizeBaseURL (env ''SHARE2US_BASE_URL''))
      else (case lookup_config fc s fs of
        Inl e \<Rightarrow> Inl e
      | Inr c \<Rightarrow> (case c of
          Some cf \<Rightarrow> if trim_space (cf_base_url cf) \<noteq> [] then from_source SourceConfig (NormalizeBaseURL (cf_base_url cf))
            else Inr (DefaultBaseURL, SourceDefault)
        | None \<Rightarrow> Inr (DefaultBaseURL, SourceDefault))))"

definition ResolveAPIBase ::
  "config_codec \<Rightarrow> os \<Rightarrow> (string \<Rightarrow> string) \<Rightarrow> files \<Rightarrow> config_err + string \<times> base_source" where
  "ResolveAPIBase fc s env fs =
     (if env ''SHARE2US_API_BASE'' \<noteq> [] then from_source SourceEnv (NormalizeAPIHost (env ''SHARE2US_API_BASE''))
      else if env ''SHARE2US_BASE_URL'' \<noteq> [] then from_source SourceEnv (APIBaseFromBaseURL (env ''SHARE2US_BASE_URL''))
      else (case lookup_config fc s fs of
        Inl e \<Rightarrow> Inl e
      | Inr c \<Rightarrow> (let default = from_source SourceDefault (APIBaseFromBaseURL DefaultBaseURL) in (case c of
          None \<Rightarrow> default
        | Some cf \<Rightarrow>
            if trim_space (cf_host cf) \<noteq> [] then from_source SourceConfig (NormalizeAPIHost (cf_host cf))
            else if trim_space (cf_base_url cf) \<noteq> [] then from_source SourceConfig (APIBaseFromBaseURL (cf_base_url cf))
            else default))))"

definition ResolveShareBase ::
  "config_codec \<Rightarrow> os \<Rightarrow> (string \<Rightarrow> string) \<Rightarrow> files \<Rightarrow> config_err + string \<times> base_source" where
  "ResolveShareBase fc s env fs =
     (if env ''SHARE2US_SHARE_BASE_URL'' \<noteq> [] then from_source SourceEnv (NormalizeShareBase (env ''SHARE2US_SHARE_BASE_URL''))
      else if env ''SHARE2US_SHARE_BASE'' \<noteq> [] then from_source SourceEnv (NormalizeShareBase (env ''SHARE2US_SHARE_BASE''))
      else if env ''SHARE2US_BASE_URL'' \<noteq> [] then from_source SourceEnv (ShareBaseFromBaseURL (env ''SHARE2US_BASE_URL''))
      else (case lookup_config fc s fs of
        Inl e \<Rightarrow> Inl e
      | Inr c \<Rightarrow> (let default = from_source SourceDefault (ShareBaseFromBaseURL DefaultBaseURL) in (case c of
          None \<Rightarrow> default
        | Some cf \<Rightarrow>
            if trim_space (cf_share_base cf) \<noteq> [] then from_source SourceConfig (NormalizeShareBase (cf_share_base cf))
            else if trim_space (cf_base_url cf) \<noteq> [] then from_source SourceConfig (ShareBaseFromBaseURL (cf_base_url cf))
            else default))))"

section \<open>Device aliases and trusted peers\<close>

fun set_alias :: "string \<Rightarrow> string \<Rightarrow> DeviceAlias list \<Rightarrow> DeviceAlias list" where
  "set_alias n a [] = [\<lparr>da_name = n, da_addr = a\<rparr>]"
| "set_alias n a (d # ds) = (if equal_fold (da_name d) n then d\<lparr>da_addr := a\<rparr> # ds else d # set_alias n a ds)"

definition SetDeviceAlias :: "string \<Rightarrow> string \<Rightarrow> Config \<Rightarrow> Config" where
  "SetDeviceAlias name addr c = c\<lparr>cf_devices := set_alias (trim_space name) (trim_space addr) (cf_devices c)\<rparr>"

text \<open>Removing the first element that matches, and whether there was one.\<close>

fun delete_first :: "('a \<Rightarrow> bool) \<Rightarrow> 'a list \<Rightarrow> 'a list \<times> bool" where
  "delete_first P [] = ([], False)"
| "delete_first P (x # xs) = (if P x then (xs, True) else (case delete_first P xs of (ys, b) \<Rightarrow> (x # ys, b)))"

definition DeleteDeviceAlias :: "string \<Rightarrow> Config \<Rightarrow> Config \<times> bool" where
  "DeleteDeviceAlias name c =
     (let (ds, b) = delete_first (\<lambda>d. equal_fold (da_name d) (trim_space name)) (cf_devices c) in (c\<lparr>cf_devices := ds\<rparr>, b))"

definition ResolveDeviceAlias :: "string \<Rightarrow> Config \<Rightarrow> string option" where
  "ResolveDeviceAlias name c =
     map_option da_addr (find (\<lambda>d. equal_fold (da_name d) (trim_space name)) (cf_devices c))"

definition SetTrustedPeer :: "string \<Rightarrow> Config \<Rightarrow> Config" where
  "SetTrustedPeer ref c = (let r = trim_space ref in
     if list_ex (\<lambda>e. equal_fold e r) (cf_trusted_peers c) then c
     else c\<lparr>cf_trusted_peers := cf_trusted_peers c @ [r]\<rparr>)"

definition DeleteTrustedPeer :: "string \<Rightarrow> Config \<Rightarrow> Config \<times> bool" where
  "DeleteTrustedPeer ref c =
     (let (ps, b) = delete_first (\<lambda>e. equal_fold e (trim_space ref)) (cf_trusted_peers c) in (c\<lparr>cf_trusted_peers := ps\<rparr>, b))"

definition hostToIP :: "string \<Rightarrow> string" where
  "hostToIP value = (let v = trim_space value in
     if v = [] then []
     else (let h = (if has_prefix v ''s2u://'' then
              (let r1 = takeWhile (\<lambda>c. c \<noteq> CHR ''/'') (trim_prefix v ''s2u://'');
                   r2 = takeWhile (\<lambda>c. c \<noteq> CHR ''?'') r1 in
               (case SplitHostPort r2 of Some (host, _) \<Rightarrow> host | None \<Rightarrow> r2))
            else (case SplitHostPort v of Some (host, _) \<Rightarrow> host | None \<Rightarrow> v)) in
       if parseIP h \<noteq> None then h else []))"

definition trusted_ip :: "Config \<Rightarrow> string \<Rightarrow> string list" where
  "trusted_ip c ref = (if hostToIP ref \<noteq> [] then [hostToIP ref]
     else (case ResolveDeviceAlias ref c of
        None \<Rightarrow> [] | Some addr \<Rightarrow> if hostToIP addr \<noteq> [] then [hostToIP addr] else []))"

definition TrustedIPs :: "Config \<Rightarrow> string list" where
  "TrustedIPs c = concat (map (trusted_ip c) (cf_trusted_peers c))"

section \<open>Receiving and the daemon\<close>

record ResolvedReceive =
  xr_dir :: string
  xr_auto :: bool
  xr_answered :: bool

definition DownloadsDir :: "os \<Rightarrow> (string \<Rightarrow> string) \<Rightarrow> string" where
  "DownloadsDir s env = (let d = trim_space (env ''XDG_DOWNLOAD_DIR'') in
     if d \<noteq> [] then d else (case os_home s of None \<Rightarrow> ''.'' | Some h \<Rightarrow> Join h ''Downloads''))"

definition expandHome :: "os \<Rightarrow> string \<Rightarrow> string" where
  "expandHome s path =
     (if path \<noteq> ''~'' \<and> \<not> has_prefix path ''~/'' then path
      else (case os_home s of
        None \<Rightarrow> path
      | Some home \<Rightarrow> if path = ''~'' then home else Join home (drop 2 path)))"

definition ReceiveSettings :: "os \<Rightarrow> (string \<Rightarrow> string) \<Rightarrow> Config \<Rightarrow> ResolvedReceive" where
  "ReceiveSettings s env c =
     (let dir0 = (case cf_receive c of None \<Rightarrow> [] | Some r \<Rightarrow> trim_space (rv_dir r));
          auto0 = Option.bind (cf_receive c) rv_auto;
          dir = (if dir0 = [] then (case cf_daemon c of None \<Rightarrow> [] | Some d \<Rightarrow> trim_space (dc_dest_dir d)) else dir0) in
      \<lparr>xr_dir = (if dir \<noteq> [] then expandHome s dir else DownloadsDir s env),
       xr_auto = (case auto0 of None \<Rightarrow> False | Some a \<Rightarrow> a), xr_answered = (auto0 \<noteq> None)\<rparr>)"

text \<open>The configuration to change: a missing file is an empty configuration.\<close>

definition config_or_empty :: "config_codec \<Rightarrow> os \<Rightarrow> files \<Rightarrow> config_err + Config" where
  "config_or_empty fc s fs = (case lookup_config fc s fs of
     Inl e \<Rightarrow> Inl e | Inr None \<Rightarrow> Inr empty_config | Inr (Some c) \<Rightarrow> Inr c)"

definition receive_of :: "Config \<Rightarrow> ReceiveConfig" where
  "receive_of c = (case cf_receive c of None \<Rightarrow> \<lparr>rv_dir = [], rv_auto = None\<rparr> | Some r \<Rightarrow> r)"

definition SetReceiveDir ::
  "config_codec \<Rightarrow> os \<Rightarrow> (string \<Rightarrow> string option) \<Rightarrow> files \<Rightarrow> string \<Rightarrow> files \<times> config_err option" where
  "SetReceiveDir fc s absolute fs dir0 = (case config_or_empty fc s fs of
     Inl e \<Rightarrow> (fs, Some e)
   | Inr c \<Rightarrow> (let dir = trim_space dir0 in
       (case (if dir = [] then Some [] else absolute (expandHome s dir)) of
          None \<Rightarrow> (fs, Some NoAbs)
        | Some d \<Rightarrow> SaveConfig fc s fs
            (c\<lparr>cf_receive := Some ((receive_of c)\<lparr>rv_dir := d\<rparr>),
               cf_daemon := map_option (\<lambda>x. x\<lparr>dc_dest_dir := []\<rparr>) (cf_daemon c)\<rparr>))))"

definition SetReceiveAuto :: "config_codec \<Rightarrow> os \<Rightarrow> files \<Rightarrow> bool \<Rightarrow> files \<times> config_err option" where
  "SetReceiveAuto fc s fs auto = (case config_or_empty fc s fs of
     Inl e \<Rightarrow> (fs, Some e)
   | Inr c \<Rightarrow> SaveConfig fc s fs (c\<lparr>cf_receive := Some ((receive_of c)\<lparr>rv_auto := Some auto\<rparr>)\<rparr>))"

definition ApprovalPolicyStrict :: string where "ApprovalPolicyStrict = ''strict''"
definition ApprovalPolicyNotifyWait :: string where "ApprovalPolicyNotifyWait = ''notify-wait''"

record ResolvedDaemon =
  xd_dest_dir :: string
  xd_lan_discoverable :: bool
  xd_notify :: bool
  xd_approval_policy :: string

definition DaemonSettings :: "os \<Rightarrow> (string \<Rightarrow> string) \<Rightarrow> Config \<Rightarrow> ResolvedDaemon" where
  "DaemonSettings s env c =
     (let d = \<lparr>xd_dest_dir = xr_dir (ReceiveSettings s env c), xd_lan_discoverable = True, xd_notify = True,
            xd_approval_policy = ApprovalPolicyStrict\<rparr> in
      (case cf_daemon c of
         None \<Rightarrow> d
       | Some k \<Rightarrow> d\<lparr>xd_lan_discoverable := (case dc_lan_discoverable k of None \<Rightarrow> True | Some b \<Rightarrow> b),
            xd_notify := (case dc_notify k of None \<Rightarrow> True | Some b \<Rightarrow> b),
            xd_approval_policy := (if dc_approval_policy k = ApprovalPolicyNotifyWait then ApprovalPolicyNotifyWait
              else ApprovalPolicyStrict)\<rparr>))"

definition DaemonTokenPath :: "os \<Rightarrow> file_err + string" where
  "DaemonTokenPath s = (case ConfigPath s of Inl e \<Rightarrow> Inl e | Inr p \<Rightarrow> Inr (Join (Dir p) ''daemon.token''))"

section \<open>Agent preferences\<close>

definition isEmpty :: "AgentPrefs \<Rightarrow> bool" where
  "isEmpty p \<longleftrightarrow> trim_space (ap_alias p) = [] \<and> \<not> ap_pinned p \<and> \<not> ap_hidden p"

definition AgentPref :: "Config \<Rightarrow> string \<Rightarrow> AgentPrefs" where
  "AgentPref c agentID = (case fmlookup (cf_agents c) (trim_space agentID) of
     None \<Rightarrow> \<lparr>ap_alias = [], ap_pinned = False, ap_hidden = False\<rparr> | Some p \<Rightarrow> p)"

definition SetAgentPref :: "string \<Rightarrow> AgentPrefs \<Rightarrow> Config \<Rightarrow> Config" where
  "SetAgentPref agentID0 p0 c = (let agentID = trim_space agentID0 in
     if agentID = [] then c
     else (let p = p0\<lparr>ap_alias := trim_space (ap_alias p0)\<rparr> in
       if isEmpty p then c\<lparr>cf_agents := fmdrop agentID (cf_agents c)\<rparr>
       else c\<lparr>cf_agents := fmupd agentID p (cf_agents c)\<rparr>))"

definition AgentDisplayName :: "Config \<Rightarrow> string \<Rightarrow> string \<Rightarrow> string" where
  "AgentDisplayName c agentID serverName =
     (let alias = trim_space (ap_alias (AgentPref c agentID)) in if alias \<noteq> [] then alias else serverName)"

definition UpdateAgentPref ::
  "config_codec \<Rightarrow> os \<Rightarrow> files \<Rightarrow> string \<Rightarrow> (AgentPrefs \<Rightarrow> AgentPrefs) \<Rightarrow> files \<times> config_err option" where
  "UpdateAgentPref fc s fs agentID mut = (case config_or_empty fc s fs of
     Inl e \<Rightarrow> (fs, Some e)
   | Inr c \<Rightarrow> SaveConfig fc s fs (SetAgentPref agentID (mut (AgentPref c agentID)) c))"

section \<open>Settings kept under a name\<close>

text \<open>What the aliases and the agent preferences promise: a value stored under a name is found under every
  spelling of the name and nowhere else.\<close>

locale keyed_settings =
  fixes same :: "'k \<Rightarrow> 'k \<Rightarrow> bool" and usable :: "'k \<Rightarrow> bool" and get :: "'k \<Rightarrow> 's \<Rightarrow> 'v"
    and put :: "'k \<Rightarrow> 'w \<Rightarrow> 's \<Rightarrow> 's" and norm :: "'w \<Rightarrow> 'v"
  assumes same_refl: "same k k" and same_sym: "same j k \<Longrightarrow> same k j"
    and same_trans: "same i j \<Longrightarrow> same j k \<Longrightarrow> same i k"
    and get_put: "usable k \<Longrightarrow> get j (put k w s) = (if same j k then norm w else get j s)"
begin

lemma get_put_same: "usable k \<Longrightarrow> same j k \<Longrightarrow> get j (put k w s) = norm w"
  by (simp add: get_put)

lemma last_put_wins:
  "usable k \<Longrightarrow> usable k' \<Longrightarrow> same k k' \<Longrightarrow> get j (put k w (put k' w' s)) = get j (put k w s)"
  by (simp add: get_put) (metis same_sym same_trans)

lemma puts_commute:
  "usable k \<Longrightarrow> usable k' \<Longrightarrow> \<not> same k k' \<Longrightarrow> get j (put k w (put k' w' s)) = get j (put k' w' (put k w s))"
  by (simp add: get_put) (metis same_sym same_trans)

end

lemma find_set_alias:
  "map_option da_addr (find (\<lambda>d. equal_fold (da_name d) m) (set_alias n a ds)) =
     (if equal_fold m n then Some a else map_option da_addr (find (\<lambda>d. equal_fold (da_name d) m) ds))"
  by (induction n a ds rule: set_alias.induct) (auto simp: equal_fold_def)

interpretation aliases: keyed_settings "\<lambda>a b. equal_fold (trim_space a) (trim_space b)" "\<lambda>_. True" ResolveDeviceAlias
  SetDeviceAlias "\<lambda>a. Some (trim_space a)"
proof unfold_locales
  fix j k w s
  show "ResolveDeviceAlias j (SetDeviceAlias k w s) =
      (if equal_fold (trim_space j) (trim_space k) then Some (trim_space w) else ResolveDeviceAlias j s)"
    by (simp add: ResolveDeviceAlias_def SetDeviceAlias_def find_set_alias)
qed (auto simp: equal_fold_def)

definition stored_prefs :: "AgentPrefs \<Rightarrow> AgentPrefs" where
  "stored_prefs p0 = (let p = p0\<lparr>ap_alias := trim_space (ap_alias p0)\<rparr> in
     if isEmpty p then \<lparr>ap_alias = [], ap_pinned = False, ap_hidden = False\<rparr> else p)"

interpretation prefs: keyed_settings "\<lambda>a b. trim_space a = trim_space b" "\<lambda>k. trim_space k \<noteq> []" "\<lambda>k c. AgentPref c k"
  SetAgentPref stored_prefs
  by unfold_locales (auto simp: AgentPref_def SetAgentPref_def stored_prefs_def Let_def)

section \<open>Facts\<close>

lemma foldl_trim_prefix_set: "set (foldl trim_prefix h ps) \<subseteq> set h"
proof (induction ps arbitrary: h)
  case (Cons q ps)
  have "set (trim_prefix h q) \<subseteq> set h" by (auto simp: trim_prefix_def dest: in_set_dropD)
  with Cons show ?case by fastforce
qed simp

lemma split_char_mem: "c \<in> set s \<Longrightarrow> c \<noteq> d \<Longrightarrow> \<exists>l\<in>set (split_char d s). c \<in> set l"
  by (induction s) (auto split: list.splits if_splits)

lemma label_ok_bytes:
  assumes "label_ok l" "c \<in> set l"
  shows "host_rune (of_char c)"
proof -
  have "c \<in> set (concat (map snd (runes l)))" using assms(2) by (simp only: concat_runes)
  then obtain rb where rb: "rb \<in> set (runes l)" "c \<in> set (snd rb)" by (auto simp only: set_concat set_map)
  then have h: "host_rune (fst rb)" using assms(1) by (auto simp: label_ok_def list_all_iff)
  then have "fst rb < 0x80" by (auto simp: host_rune_def)
  with runes_low [OF rb(1)] rb(2) h show ?thesis by (simp add: take_bit_eq_mod of_char_of)
qed

lemma NormalizeBaseURL_InrD:
  "NormalizeBaseURL v = Inr h \<Longrightarrow> contains h ''.'' \<and> list_all label_ok (split_char CHR ''.'' h)"
  by (auto simp: NormalizeBaseURL_def Let_def split: if_splits option.splits)

lemma contains_char: "contains s [c] \<Longrightarrow> c \<in> set s"
proof -
  assume "contains s [c]"
  then obtain i where "take 1 (drop i s) = [c]" by (auto simp: contains_def list_ex_iff)
  then have "c \<in> set (take 1 (drop i s))" by simp
  then show ?thesis by (blast dest: in_set_takeD in_set_dropD)
qed

lemmas normalize_eval = NormalizeBaseURL_def contains_any_def service_prefixes_def trim_suffix_def has_suffix_def
  trim_prefix_def has_prefix_def

lemma normalize_labels: "label_ok ''api''" "label_ok ''acme''" "label_ok ''org''"
  by (simp_all add: label_ok_def has_prefix_def has_suffix_def host_rune_def of_char_Char horner_sum_simps)

lemma normalize_api_acme: "NormalizeBaseURL ''api.acme.org'' = Inr ''acme.org''"
proof -
  have "trim_space ''api.acme.org'' = ''api.acme.org''"
    by (rule trim_space_ascii_id; simp add: is_space_def of_char_Char horner_sum_simps)
  moreover have "to_lower ''api.acme.org'' = ''api.acme.org''"
    by (simp add: to_lower_ascii lower_char_def of_char_Char horner_sum_simps)
  moreover have "contains ''api.acme.org'' ''://'' = False" "contains ''acme.org'' ''.''" by code_simp+
  ultimately show ?thesis using normalize_labels by (simp add: normalize_eval)
qed

section \<open>Properties\<close>

text \<open>A normalised base is a plain dotted host name: lower-case letters, digits, dashes and dots, at least one dot,
  no empty label and no dash at the ends of one, whatever the user typed; so
  the addresses built from it name that host and carry no port, path, user or query.\<close>

theorem base_url_plain:
  assumes "NormalizeBaseURL v = Inr h"
  shows "set h \<subseteq> {c. host_rune (of_char c)} \<union> {CHR ''.''} \<and> CHR ''.'' \<in> set h \<and>
    set (split_char CHR ''.'' h) \<subseteq> {l. l \<noteq> [] \<and> hd l \<noteq> CHR ''-'' \<and> last l \<noteq> CHR ''-''} \<and>
    APIBaseFromBaseURL v = Inr (''https://api.'' @ h)"
proof -
  from NormalizeBaseURL_InrD [OF assms] have d: "CHR ''.'' \<in> set h"
    and l: "\<And>l. l \<in> set (split_char CHR ''.'' h) \<Longrightarrow> label_ok l" by (auto simp: list_all_iff dest: contains_char)
  have "host_rune (of_char c)" if "c \<in> set h" "c \<noteq> CHR ''.''" for c
    using split_char_mem [OF that] l label_ok_bytes by blast
  moreover have "l \<noteq> [] \<and> hd l \<noteq> CHR ''-'' \<and> last l \<noteq> CHR ''-''" if "label_ok l" for l
  proof -
    have "l \<noteq> []" using that by (simp add: label_ok_def)
    then have "has_prefix l [hd l]" "has_suffix l [last l]"
      by (simp add: has_prefix_def take_Suc, metis append_butlast_last_id has_suffix_append)
    with that \<open>l \<noteq> []\<close> show ?thesis by (auto simp: label_ok_def)
  qed
  ultimately show ?thesis using d l assms by (auto simp: APIBaseFromBaseURL_def)
qed

text \<open>Normalising twice is not normalising once: a base the configuration saves can be read as another host,
  because one pass strips \<open>api.\<close>, \<open>s.\<close>, \<open>app.\<close> and \<open>admin.\<close> in that order, once each, and \<open>SaveConfigAt\<close> and the
  resolvers each make a pass.\<close>

theorem base_url_shifts:
  "NormalizeBaseURL ''s.api.acme.org'' = Inr ''api.acme.org'' \<and>
   NormalizeBaseURL ''api.acme.org'' = Inr ''acme.org''"
proof -
  have "trim_space ''s.api.acme.org'' = ''s.api.acme.org''"
    by (rule trim_space_ascii_id; simp add: is_space_def of_char_Char horner_sum_simps)
  moreover have "to_lower ''s.api.acme.org'' = ''s.api.acme.org''"
    by (simp add: to_lower_ascii lower_char_def of_char_Char horner_sum_simps)
  moreover have "contains ''s.api.acme.org'' ''://'' = False" "contains ''api.acme.org'' ''.''" by code_simp+
  ultimately have "NormalizeBaseURL ''s.api.acme.org'' = Inr ''api.acme.org''"
    using normalize_labels by (simp add: normalize_eval)
  then show ?thesis by (simp add: normalize_api_acme)
qed

text \<open>Aliases form a map from names, read without regard to case and outer spaces: after \<open>SetDeviceAlias\<close> the name
  resolves, in every spelling, to the trimmed address, every other name resolves as before, and setting a
  name again replaces its address.\<close>

theorem alias_map:
  "ResolveDeviceAlias n (SetDeviceAlias name addr c) =
     (if equal_fold (trim_space n) (trim_space name) then Some (trim_space addr) else ResolveDeviceAlias n c) \<and>
   ResolveDeviceAlias n (SetDeviceAlias name addr (SetDeviceAlias name old c)) = ResolveDeviceAlias n (SetDeviceAlias name addr c)"
  by (simp add: aliases.get_put aliases.last_put_wins)

text \<open>Only literal IP addresses are auto-accepted: every element of \<open>TrustedIPs\<close> parses as an IP, whatever the
  configuration file lists.\<close>

theorem trusted_ips_literal:
  "set (TrustedIPs c) \<subseteq> {ip. ip \<noteq> [] \<and> parseIP ip \<noteq> None}"
proof -
  have "hostToIP v \<noteq> [] \<Longrightarrow> parseIP (hostToIP v) \<noteq> None" for v
    by (auto simp: hostToIP_def Let_def split: if_splits option.splits)
  then show ?thesis by (auto simp: TrustedIPs_def trusted_ip_def split: if_splits option.splits)
qed

lemma base_url_plain_witness:
  "set ''acme.org'' \<subseteq> {c. host_rune (of_char c)} \<union> {CHR ''.''} \<and>
   APIBaseFromBaseURL ''api.acme.org'' = Inr ''https://api.acme.org''"
  using base_url_plain [OF normalize_api_acme] by (simp del: set_append) 

end
