(* ===== verification/Endpoints.thy ===== *)
theory Endpoints
  imports Client Config Hop
begin

text \<open>
  The API calls (\<open>client.go\<close>, \<open>agent.go\<close>, \<open>agent_projects.go\<close>, \<open>forms.go\<close>): for each method the HTTP method,
  the path with its escaped identifiers, the body as a JSON value, and whether an answer is decoded;
  \<open>run_call\<close> sends a call through \<open>doJSON\<close>. Rendering a JSON value is a parameter.
\<close>

datatype json = JNull | JBool bool | JNum int | JStr string | JArr "json list" | JObj "(string \<times> json) list"

record call =
  ca_method :: string
  ca_path :: string
  ca_body :: "json option"
  ca_out :: bool

definition call_of :: "string \<Rightarrow> string \<Rightarrow> json option \<Rightarrow> bool \<Rightarrow> call" where
  "call_of m p b out = \<lparr>ca_method = m, ca_path = p, ca_body = b, ca_out = out\<rparr>"

definition run_call ::
  "http_env \<Rightarrow> client \<Rightarrow> (json \<Rightarrow> bytes) \<Rightarrow> (bytes \<Rightarrow> 'a option) \<Rightarrow> call \<Rightarrow>
   http_request list \<times> int list \<times> (client_err + 'a option)" where
  "run_call env c mar un ca =
     doJSON env c (if ca_out ca then Some un else None) (ca_method ca) (ca_path ca) (map_option mar (ca_body ca))"

section \<open>Bodies\<close>

text \<open>Fields with \<open>omitempty\<close>.\<close>

definition opt_str :: "string \<Rightarrow> string \<Rightarrow> (string \<times> json) list" where
  "opt_str k v = (if v = [] then [] else [(k, JStr v)])"

definition opt_bool :: "string \<Rightarrow> bool \<Rightarrow> (string \<times> json) list" where
  "opt_bool k b = (if b then [(k, JBool True)] else [])"

definition opt_num :: "string \<Rightarrow> int \<Rightarrow> (string \<times> json) list" where
  "opt_num k n = (if n = 0 then [] else [(k, JNum n)])"

definition opt_strs :: "string \<Rightarrow> string list \<Rightarrow> (string \<times> json) list" where
  "opt_strs k vs = (if vs = [] then [] else [(k, JArr (map JStr vs))])"

record DeviceCodeRequest =
  dq_signing_public :: string
  dq_device_name :: string
  dq_machine_id :: string
  dq_os :: string
  dq_arch :: string
  dq_client_version :: string

definition device_code_json :: "DeviceCodeRequest \<Rightarrow> json" where
  "device_code_json r = JObj (
     opt_str ''signing_public_key'' (dq_signing_public r) @
     opt_str ''device_name'' (dq_device_name r) @
     opt_str ''machine_id'' (dq_machine_id r) @
     opt_str ''os'' (dq_os r) @
     opt_str ''arch'' (dq_arch r) @
     opt_str ''client_version'' (dq_client_version r))"

record InstallEvent =
  ie_install_id :: string
  ie_event_type :: string
  ie_version :: string
  ie_os :: string
  ie_arch :: string

definition install_json :: "InstallEvent \<Rightarrow> json" where
  "install_json e = JObj (
     [(''install_id'', JStr (ie_install_id e))] @
     opt_str ''event_type'' (ie_event_type e) @
     opt_str ''version'' (ie_version e) @
     opt_str ''os'' (ie_os e) @
     opt_str ''arch'' (ie_arch e))"

record UploadTarget =
  ut_session_id :: string
  ut_sealed_key :: string

definition target_json :: "UploadTarget \<Rightarrow> json" where
  "target_json t = JObj (
     [(''target_device_session_id'', JStr (ut_session_id t))] @
     [(''sealed_key'', JStr (ut_sealed_key t))])"

record UploadCreateRequest =
  uc_file_name :: string
  uc_size_bytes :: int
  uc_content_class :: string
  uc_content_type :: string
  uc_expires_in :: string
  uc_no_expiry :: bool
  uc_sha256 :: string
  uc_source_ref :: string
  uc_new :: bool
  uc_password :: string
  uc_one_time :: bool
  uc_encrypted :: bool
  uc_encryption_algo :: string
  uc_recipients :: "string list"
  uc_visibility :: string
  uc_max_views :: int
  uc_allowed_domains :: "string list"
  uc_denied_domains :: "string list"
  uc_live :: bool
  uc_target_device :: string
  uc_sealed_key :: string
  uc_recipient_email :: string
  uc_targets :: "UploadTarget list"
  uc_source :: string
  uc_allow_reshare :: "bool option"
  uc_note :: string
  uc_sharenet_id :: string
  uc_project_id :: string

definition upload_json :: "UploadCreateRequest \<Rightarrow> json" where
  "upload_json u = JObj (
     [(''file_name'', JStr (uc_file_name u))] @
     [(''size_bytes'', JNum (uc_size_bytes u))] @
     opt_str ''content_class'' (uc_content_class u) @
     opt_str ''content_type'' (uc_content_type u) @
     opt_str ''expires_in'' (uc_expires_in u) @
     opt_bool ''no_expiry'' (uc_no_expiry u) @
     opt_str ''sha256'' (uc_sha256 u) @
     opt_str ''source_ref'' (uc_source_ref u) @
     [(''new'', JBool (uc_new u))] @
     opt_str ''password'' (uc_password u) @
     opt_bool ''one_time'' (uc_one_time u) @
     opt_bool ''encrypted'' (uc_encrypted u) @
     opt_str ''encryption_algo'' (uc_encryption_algo u) @
     opt_strs ''recipients'' (uc_recipients u) @
     opt_str ''visibility'' (uc_visibility u) @
     opt_num ''max_views'' (uc_max_views u) @
     opt_strs ''allowed_domains'' (uc_allowed_domains u) @
     opt_strs ''denied_domains'' (uc_denied_domains u) @
     opt_bool ''live'' (uc_live u) @
     opt_str ''target_device'' (uc_target_device u) @
     opt_str ''sealed_key'' (uc_sealed_key u) @
     opt_str ''recipient_email'' (uc_recipient_email u) @
     (if uc_targets u = [] then [] else [(''targets'', JArr (map target_json (uc_targets u)))]) @
     opt_str ''source'' (uc_source u) @
     (case uc_allow_reshare u of None \<Rightarrow> [] | Some b \<Rightarrow> [(''allow_reshare'', JBool b)]) @
     opt_str ''note'' (uc_note u) @
     opt_str ''sharenet_id'' (uc_sharenet_id u) @
     opt_str ''project_id'' (uc_project_id u))"

record LivePutRequest =
  lp_content :: string
  lp_crc32 :: string
  lp_content_type :: string

definition live_json :: "LivePutRequest \<Rightarrow> json" where
  "live_json r = JObj (
     [(''content'', JStr (lp_content r))] @
     [(''crc32'', JStr (lp_crc32 r))] @
     opt_str ''content_type'' (lp_content_type r))"

record AccessControlsRequest =
  ac_max_views :: int
  ac_allowed_domains :: "string list"
  ac_denied_domains :: "string list"

definition access_json :: "AccessControlsRequest \<Rightarrow> json" where
  "access_json r = JObj (
     [(''max_views'', JNum (ac_max_views r))] @
     [(''allowed_domains'', JArr (map JStr (ac_allowed_domains r)))] @
     [(''denied_domains'', JArr (map JStr (ac_denied_domains r)))])"

record AgentRegisterInput =
  ar_agent_id :: string
  ar_session_id :: string
  ar_tool :: string
  ar_name :: string
  ar_project :: string
  ar_status :: string
  ar_lan_fingerprint :: string

definition register_json :: "AgentRegisterInput \<Rightarrow> json" where
  "register_json r = JObj (
     opt_str ''agent_id'' (ar_agent_id r) @
     [(''session_id'', JStr (ar_session_id r))] @
     [(''tool'', JStr (ar_tool r))] @
     [(''name'', JStr (ar_name r))] @
     [(''project'', JStr (ar_project r))] @
     [(''status'', JStr (ar_status r))] @
     opt_str ''lan_fingerprint'' (ar_lan_fingerprint r))"

record NewGoal =
  ng_project :: string
  ng_objective :: string
  ng_acceptance :: string
  ng_branch :: string
  ng_hop_cap :: int
  ng_time_cap_secs :: int
  ng_risk_ceiling :: int
  ng_created_by_agent :: string

definition goal_json :: "NewGoal \<Rightarrow> json" where
  "goal_json g = JObj (
     [(''project'', JStr (ng_project g))] @
     [(''objective'', JStr (ng_objective g))] @
     opt_str ''acceptance'' (ng_acceptance g) @
     opt_str ''branch'' (ng_branch g) @
     [(''hop_cap'', JNum (ng_hop_cap g))] @
     [(''time_cap_seconds'', JNum (ng_time_cap_secs g))] @
     opt_num ''risk_ceiling'' (ng_risk_ceiling g) @
     opt_str ''created_by_agent'' (ng_created_by_agent g))"

definition inject_json :: "AgentInjectInput \<Rightarrow> json" where
  "inject_json i = JObj (
     [(''target_device_id'', JStr (ai_target_device_id i)), (''target_session_id'', JStr (ai_target_session_id i)),
      (''tool'', JStr (ai_tool i)), (''sealed_prompt'', JStr (ai_sealed_prompt i))] @
     opt_str ''object_key'' (ai_object_key i) @
     opt_bool ''lan_file'' (ai_lan_file i) @
     opt_str ''sealed_file_key'' (ai_sealed_file_key i) @
     opt_str ''goal_id'' (ai_goal_id i) @
     opt_str ''signature'' (ai_signature i) @
     opt_str ''issued_at'' (ai_issued_at i) @
     opt_str ''nonce'' (ai_nonce i) @
     opt_str ''project_id'' (ai_project_id i) @
     opt_str ''sender_agent_id'' (ai_sender_agent_id i) @
     opt_str ''target_agent_id'' (ai_target_agent_id i))"

section \<open>Login, account and devices\<close>

definition StartDeviceCode :: "DeviceCodeRequest option \<Rightarrow> call" where
  "StartDeviceCode request = call_of ''POST'' (''/v1/auth/device-codes'')
     (map_option device_code_json request) True"

definition PollDeviceToken :: "string \<Rightarrow> call" where
  "PollDeviceToken deviceCode = call_of ''POST'' (''/v1/auth/device-codes/'' @ PathEscape deviceCode @ ''/token'')
     None True"

definition RegisterDeviceKey :: "string \<Rightarrow> string \<Rightarrow> call" where
  "RegisterDeviceKey publicKey fingerprint = call_of ''POST'' (''/v1/auth/devices/key'')
     (Some (JObj ([(''public_key'', JStr publicKey)] @ opt_str ''lan_fingerprint'' fingerprint))) False"

definition Me :: "call" where
  "Me = call_of ''GET'' (''/v1/auth/me'')
     None True"

definition GetOnboarding :: "call" where
  "GetOnboarding = call_of ''GET'' (''/v1/account/onboarding'')
     None True"

definition SubmitConsent :: "string \<Rightarrow> call" where
  "SubmitConsent version = call_of ''POST'' (''/v1/account/consent'')
     (Some (JObj [(''version'', JStr version)])) False"

definition ReportInstall :: "InstallEvent \<Rightarrow> call" where
  "ReportInstall e = call_of ''POST'' (''/v1/cli/install'')
     (Some (install_json e)) False"

definition ListDevices :: "call" where
  "ListDevices = call_of ''GET'' (''/v1/devices'')
     None True"

definition RevokeDeviceSession :: "string \<Rightarrow> call" where
  "RevokeDeviceSession sessionID = call_of ''POST'' (''/v1/auth/sessions/'' @ PathEscape sessionID @ ''/revoke'')
     None False"

definition RevokeDeviceSessionWithDeviceCode :: "string \<Rightarrow> string \<Rightarrow> call" where
  "RevokeDeviceSessionWithDeviceCode deviceCode sessionID = call_of ''POST'' (''/v1/auth/device-codes/'' @ PathEscape deviceCode @ ''/revoke-session'')
     (Some (JObj [(''session_id'', JStr sessionID)])) False"

definition Logout :: "call" where
  "Logout = call_of ''POST'' (''/v1/auth/logout'')
     None False"

section \<open>Contacts\<close>

definition TeammateDevices :: "string \<Rightarrow> call" where
  "TeammateDevices email = call_of ''GET'' (''/v1/contacts/devices?email='' @ QueryEscape email)
     None True"

definition GetTeammatePolicy :: "call" where
  "GetTeammatePolicy = call_of ''GET'' (''/v1/contacts/policy'')
     None True"

definition SetTeammatePolicy :: "string \<Rightarrow> call" where
  "SetTeammatePolicy md = call_of ''PUT'' (''/v1/contacts/policy'')
     (Some (JObj [(''mode'', JStr md)])) False"

definition SetTeammateSender :: "string \<Rightarrow> string \<Rightarrow> call" where
  "SetTeammateSender email md = call_of ''PUT'' (''/v1/contacts/senders'')
     (Some (JObj [(''email'', JStr email), (''mode'', JStr md)])) False"

definition DeleteTeammateSender :: "string \<Rightarrow> call" where
  "DeleteTeammateSender email = call_of ''DELETE'' (''/v1/contacts/senders?email='' @ QueryEscape email)
     None False"

definition ExposeDeviceToContact :: "string \<Rightarrow> string \<Rightarrow> call" where
  "ExposeDeviceToContact email deviceSessionID = call_of ''PUT'' (''/v1/contacts/senders/devices'')
     (Some (JObj [(''device_session_id'', JStr deviceSessionID), (''email'', JStr email)])) False"

definition UnexposeDeviceFromContact :: "string \<Rightarrow> string \<Rightarrow> call" where
  "UnexposeDeviceFromContact email deviceSessionID = call_of ''DELETE'' (''/v1/contacts/senders/devices?email='' @ QueryEscape email @ ''&device_session_id='' @ QueryEscape deviceSessionID)
     None False"

definition ListExposedDevicesForContact :: "string \<Rightarrow> call" where
  "ListExposedDevicesForContact email = call_of ''GET'' (''/v1/contacts/senders/devices?email='' @ QueryEscape email)
     None True"

section \<open>Inbox, uploads and shares\<close>

definition ListPendingInbox :: "call" where
  "ListPendingInbox = call_of ''GET'' (''/v1/inbox/pending'')
     None True"

definition ApprovePendingInbox :: "string \<Rightarrow> call" where
  "ApprovePendingInbox publicID = call_of ''POST'' (''/v1/inbox/pending/'' @ PathEscape publicID @ ''/approve'')
     None False"

definition RejectPendingInbox :: "string \<Rightarrow> call" where
  "RejectPendingInbox publicID = call_of ''POST'' (''/v1/inbox/pending/'' @ PathEscape publicID @ ''/reject'')
     None False"

definition AuthorizeP2PRoom :: "string \<Rightarrow> string \<Rightarrow> call" where
  "AuthorizeP2PRoom room role = call_of ''POST'' (''/v1/p2p/rooms'')
     (Some (JObj [(''role'', JStr role), (''room'', JStr room)])) True"

definition CreateAPIToken :: "string \<Rightarrow> string list \<Rightarrow> int option \<Rightarrow> call" where
  "CreateAPIToken label scopes expiresInDays = call_of ''POST'' (''/v1/account/api-tokens'')
     (Some (JObj ((case expiresInDays of None \<Rightarrow> [] | Some n \<Rightarrow> [(''expires_in_days'', JNum n)]) @
       [(''label'', JStr label), (''scopes'', JArr (map JStr scopes))]))) True"

definition ResealQueue :: "call" where
  "ResealQueue = call_of ''GET'' (''/v1/shares/reseal-queue'')
     None True"

definition UnlockOwnShareCall :: "string \<Rightarrow> call" where
  "UnlockOwnShareCall publicID = call_of ''POST'' (''/v1/shares/'' @ PathEscape publicID @ ''/unlock'')
     None True"

definition SubmitReseal :: "string \<Rightarrow> string \<Rightarrow> string \<Rightarrow> call" where
  "SubmitReseal publicID targetSessionID sealedKey = call_of ''POST'' (''/v1/shares/'' @ PathEscape publicID @ ''/reseal'')
     (Some (JObj [(''sealed_key'', JStr sealedKey), (''target_session_id'', JStr targetSessionID)])) False"

definition AckInboxShare :: "string \<Rightarrow> call" where
  "AckInboxShare publicID = call_of ''POST'' (''/v1/inbox/'' @ PathEscape publicID @ ''/ack'')
     None False"

definition CreateUpload :: "UploadCreateRequest \<Rightarrow> call" where
  "CreateUpload upload = call_of ''POST'' (''/v1/uploads'')
     (Some (upload_json upload)) True"

definition CreateReplaceUpload :: "string \<Rightarrow> UploadCreateRequest \<Rightarrow> call" where
  "CreateReplaceUpload publicID upload = call_of ''POST'' (''/v1/shares/'' @ PathEscape publicID @ ''/content'')
     (Some (upload_json upload)) True"

definition PutLive :: "string \<Rightarrow> LivePutRequest \<Rightarrow> call" where
  "PutLive publicID request = call_of ''PUT'' (''/v1/shares/'' @ PathEscape publicID @ ''/live'')
     (Some (live_json request)) True"

definition FlushShare :: "string \<Rightarrow> call" where
  "FlushShare publicID = call_of ''POST'' (''/v1/shares/'' @ PathEscape publicID @ ''/flush'')
     None True"

definition CompleteUpload :: "string \<Rightarrow> call" where
  "CompleteUpload uploadSessionID = call_of ''POST'' (''/v1/uploads/'' @ PathEscape uploadSessionID @ ''/complete'')
     None True"

definition ListShares :: "call" where
  "ListShares = call_of ''GET'' (''/v1/shares'')
     None True"

definition Inbox :: "call" where
  "Inbox = call_of ''GET'' (''/v1/inbox'')
     None True"

definition GetShare :: "string \<Rightarrow> call" where
  "GetShare publicID = call_of ''GET'' (''/v1/shares/'' @ PathEscape publicID)
     None True"

definition ShareAnalytics :: "string \<Rightarrow> call" where
  "ShareAnalytics publicID = call_of ''GET'' (''/v1/shares/'' @ PathEscape publicID @ ''/analytics'')
     None True"

definition RevokeShare :: "string \<Rightarrow> call" where
  "RevokeShare publicID = call_of ''POST'' (''/v1/shares/'' @ PathEscape publicID @ ''/revoke'')
     None True"

definition RevokeAllShares :: "call" where
  "RevokeAllShares = call_of ''POST'' (''/v1/shares/revoke-all'')
     None True"

definition DisableShare :: "string \<Rightarrow> call" where
  "DisableShare publicID = call_of ''POST'' (''/v1/shares/'' @ PathEscape publicID @ ''/disable'')
     None True"

definition EnableShare :: "string \<Rightarrow> call" where
  "EnableShare publicID = call_of ''POST'' (''/v1/shares/'' @ PathEscape publicID @ ''/enable'')
     None True"

definition UpdateAccessControls :: "string \<Rightarrow> AccessControlsRequest \<Rightarrow> call" where
  "UpdateAccessControls publicID controls = call_of ''POST'' (''/v1/shares/'' @ PathEscape publicID @ ''/access-controls'')
     (Some (access_json controls)) True"

definition ExtendExpiry :: "string \<Rightarrow> string \<Rightarrow> call" where
  "ExtendExpiry publicID expiresAt = call_of ''POST'' (''/v1/shares/'' @ PathEscape publicID @ ''/expiry'')
     (Some (JObj [(''expires_at'', JStr expiresAt)])) True"

definition DeleteShare :: "string \<Rightarrow> call" where
  "DeleteShare publicID = call_of ''DELETE'' (''/v1/shares/'' @ PathEscape publicID)
     None False"

definition Usage :: "call" where
  "Usage = call_of ''GET'' (''/v1/usage'')
     None True"

section \<open>Trusted devices: the identifiers go into the path as they are\<close>

definition LanTrustOpen :: "string \<Rightarrow> string \<Rightarrow> string \<Rightarrow> call" where
  "LanTrustOpen fingerprint name md = call_of ''POST'' (''/v1/lan/trust/challenges'')
     (Some (JObj [(''fingerprint'', JStr fingerprint), (''mode'', JStr md), (''name'', JStr name)])) True"

definition LanTrustVerify :: "string \<Rightarrow> string \<Rightarrow> call" where
  "LanTrustVerify challengeID code = call_of ''POST'' (''/v1/lan/trust/challenges/'' @ challengeID @ ''/verify'')
     (Some (JObj [(''code'', JStr code)])) True"

definition LanTrusted :: "call" where
  "LanTrusted = call_of ''GET'' (''/v1/lan/trusted'')
     None True"

definition LanTrustSetMode :: "string \<Rightarrow> string \<Rightarrow> call" where
  "LanTrustSetMode fingerprint md = call_of ''PATCH'' (''/v1/lan/trusted/'' @ fingerprint)
     (Some (JObj [(''mode'', JStr md)])) True"

definition LanTrustRevoke :: "string \<Rightarrow> call" where
  "LanTrustRevoke fingerprint = call_of ''DELETE'' (''/v1/lan/trusted/'' @ fingerprint)
     None True"

section \<open>Agents\<close>

definition RegisterAgentSession :: "AgentRegisterInput \<Rightarrow> call" where
  "RegisterAgentSession inp = call_of ''POST'' (''/v1/agent/sessions'')
     (Some (register_json inp)) False"

definition ListAgentSessions :: "call" where
  "ListAgentSessions = call_of ''GET'' (''/v1/agent/sessions'')
     None True"

definition ListAgentSessionsIncludingOffline :: "call" where
  "ListAgentSessionsIncludingOffline = call_of ''GET'' (''/v1/agent/sessions?include_offline=1'')
     None True"

definition DeregisterAgentSession :: "string \<Rightarrow> call" where
  "DeregisterAgentSession sessionID = call_of ''DELETE'' (''/v1/agent/sessions?session_id='' @ QueryEscape sessionID)
     None False"

definition AgentInject :: "AgentInjectInput \<Rightarrow> call" where
  "AgentInject inp = call_of ''POST'' (''/v1/agent/inject'')
     (Some (inject_json inp)) True"

definition AgentInjectStatus :: "string \<Rightarrow> call" where
  "AgentInjectStatus rid = call_of ''GET'' (''/v1/agent/inject/'' @ PathEscape rid)
     None True"

definition AgentLongPoll :: "int \<Rightarrow> call" where
  "AgentLongPoll waitSeconds = call_of ''GET'' (''/v1/agent/requests?wait='' @ itoa (if waitSeconds \<le> 0 \<or> waitSeconds > 30 then 25 else waitSeconds))
     None True"

definition AgentPending :: "call" where
  "AgentPending = call_of ''GET'' (''/v1/agent/pending'')
     None True"

definition AgentAllow :: "string \<Rightarrow> call" where
  "AgentAllow senderDeviceID = call_of ''POST'' (''/v1/agent/allow'')
     (Some (JObj [(''sender_device_id'', JStr senderDeviceID)])) False"

definition AgentReportResult :: "string \<Rightarrow> string \<Rightarrow> string \<Rightarrow> call" where
  "AgentReportResult rid status result = call_of ''POST'' (''/v1/agent/inject/'' @ PathEscape rid @ ''/result'')
     (Some (JObj [(''result'', JStr result), (''status'', JStr status)])) False"

definition AgentRequeueWaiting :: "call" where
  "AgentRequeueWaiting = call_of ''POST'' (''/v1/agent/requeue-waiting'')
     None True"

definition AgentApproveOnce :: "string \<Rightarrow> call" where
  "AgentApproveOnce rid = call_of ''POST'' (''/v1/agent/inject/'' @ PathEscape rid @ ''/approve'')
     None False"

definition AgentRevoke :: "string \<Rightarrow> call" where
  "AgentRevoke senderDeviceID = call_of ''POST'' (''/v1/agent/revoke'')
     (Some (JObj [(''sender_device_id'', JStr senderDeviceID)])) False"

definition AgentAllowed :: "call" where
  "AgentAllowed = call_of ''GET'' (''/v1/agent/allowed'')
     None True"

definition CreateGoal :: "NewGoal \<Rightarrow> call" where
  "CreateGoal inp = call_of ''POST'' (''/v1/agent/goals'')
     (Some (goal_json inp)) True"

definition ListGoals :: "bool \<Rightarrow> int \<Rightarrow> call" where
  "ListGoals liveOnly limit = call_of ''GET'' (''/v1/agent/goals?limit='' @ itoa limit @ (if liveOnly then ''&live=true'' else []))
     None True"

definition GetGoal :: "string \<Rightarrow> call" where
  "GetGoal rid = call_of ''GET'' (''/v1/agent/goals/'' @ PathEscape rid)
     None True"

definition CloseGoal :: "string \<Rightarrow> string \<Rightarrow> string \<Rightarrow> string \<Rightarrow> call" where
  "CloseGoal rid state reason evidence = call_of ''POST'' (''/v1/agent/goals/'' @ PathEscape rid @ ''/close'')
     (Some (JObj [(''evidence'', JStr evidence), (''reason'', JStr reason), (''state'', JStr state)])) True"

definition SetGoalState :: "string \<Rightarrow> string \<Rightarrow> call" where
  "SetGoalState rid state = call_of ''POST'' (''/v1/agent/goals/'' @ PathEscape rid @ ''/state'')
     (Some (JObj [(''state'', JStr state)])) True"

definition RegisterSigningKey :: "string \<Rightarrow> call" where
  "RegisterSigningKey publicKey = call_of ''POST'' (''/v1/agent/signing-key'')
     (Some (JObj [(''public_key'', JStr publicKey)])) False"

section \<open>Projects, invitations and forms\<close>

definition ListProjectAgents :: "string \<Rightarrow> call" where
  "ListProjectAgents projectID = call_of ''GET'' (''/v1/agent/projects/'' @ PathEscape projectID @ ''/agents'')
     None True"

definition ListProjectAgentsIncludingOffline :: "string \<Rightarrow> call" where
  "ListProjectAgentsIncludingOffline projectID = call_of ''GET'' (''/v1/agent/projects/'' @ PathEscape projectID @ ''/agents?include_offline=1'')
     None True"

definition ListAgentInvites :: "call" where
  "ListAgentInvites = call_of ''GET'' (''/v1/agent-invites'')
     None True"

definition AcceptAgentInvite :: "string \<Rightarrow> call" where
  "AcceptAgentInvite rid = call_of ''POST'' (''/v1/agent-invites/'' @ PathEscape rid @ ''/accept'')
     None False"

definition DeclineAgentInvite :: "string \<Rightarrow> call" where
  "DeclineAgentInvite rid = call_of ''POST'' (''/v1/agent-invites/'' @ PathEscape rid @ ''/decline'')
     None False"

definition WithdrawAgent :: "string \<Rightarrow> string \<Rightarrow> call" where
  "WithdrawAgent projectID membershipID = call_of ''DELETE'' (''/v1/projects/'' @ PathEscape projectID @ ''/agents/'' @ PathEscape membershipID)
     None False"

definition AgentJoin :: "string \<Rightarrow> string \<Rightarrow> call" where
  "AgentJoin code agentID = call_of ''POST'' (''/v1/agent/join'')
     (Some (JObj [(''agent_id'', JStr agentID), (''code'', JStr code)])) True"

definition ListFormResponses :: "string \<Rightarrow> int \<Rightarrow> int \<Rightarrow> call" where
  "ListFormResponses formID limit offset = call_of ''GET'' ((let q = encode_values ((if limit > 0 then [(''limit'', itoa limit)] else []) @
         (if offset > 0 then [(''offset'', itoa offset)] else [])) in
       ''/v1/forms/'' @ PathEscape formID @ ''/responses'' @ (if q \<noteq> [] then CHR ''?'' # q else [])))
     None True"

definition GetFormResponse :: "string \<Rightarrow> string \<Rightarrow> call" where
  "GetFormResponse formID responseID = call_of ''GET'' (''/v1/forms/'' @ PathEscape formID @ ''/responses/'' @ PathEscape responseID)
     None True"

text \<open>\<open>CheckUpdateChannel\<close>: the query is sorted by key.\<close>

definition CheckUpdateChannel :: "string \<Rightarrow> string \<Rightarrow> string \<Rightarrow> string \<Rightarrow> config_err + call" where
  "CheckUpdateChannel version osName arch channel = (case NormalizeUpdateChannel channel of
     Inl e \<Rightarrow> Inl e
   | Inr ch \<Rightarrow> Inr (call_of ''GET'' (''/v1/cli/update?'' @
       encode_values ([(''arch'', arch)] @ (if ch \<noteq> UpdateChannelStable then [(''channel'', ch)] else []) @
         [(''os'', osName), (''version'', version)])) None True))"

definition CheckUpdate :: "string \<Rightarrow> string \<Rightarrow> string \<Rightarrow> config_err + call" where
  "CheckUpdate version osName arch = CheckUpdateChannel version osName arch UpdateChannelStable"

text \<open>\<open>UnlockOwnShare\<close>: an empty token is an error (\<open>None\<close> inside the result).\<close>

definition UnlockOwnShare ::
  "http_env \<Rightarrow> client \<Rightarrow> (json \<Rightarrow> bytes) \<Rightarrow> (bytes \<Rightarrow> string option) \<Rightarrow> string \<Rightarrow> client_err + string option" where
  "UnlockOwnShare env c mar un publicID = (case run_call env c mar un (UnlockOwnShareCall publicID) of
     (_, _, Inl e) \<Rightarrow> Inl e
   | (_, _, Inr None) \<Rightarrow> Inr None
   | (_, _, Inr (Some token)) \<Rightarrow> Inr (if trim_space token = [] then None else Some token))"

text \<open>\<open>ShareRef.IsPrivate\<close>: the answer and whether the server gave one.\<close>

definition IsPrivate :: "bool option \<Rightarrow> bool \<times> bool" where
  "IsPrivate restricted = (case restricted of None \<Rightarrow> (False, False) | Some b \<Rightarrow> (b, True))"

section \<open>Properties\<close>

text \<open>The calls with an identifier in the path, and the segment it belongs in.\<close>

definition id_calls :: "((string \<Rightarrow> call) \<times> nat) list" where
  "id_calls =
     [(PollDeviceToken, 4), (RevokeDeviceSession, 4), (\<lambda>i. RevokeDeviceSessionWithDeviceCode i [], 4),
      (ApprovePendingInbox, 4), (RejectPendingInbox, 4), (AckInboxShare, 3), (UnlockOwnShareCall, 3),
      (\<lambda>i. SubmitReseal i [] [], 3), (FlushShare, 3), (CompleteUpload, 3), (GetShare, 3), (ShareAnalytics, 3),
      (RevokeShare, 3), (DisableShare, 3), (EnableShare, 3), (\<lambda>i. ExtendExpiry i [], 3), (DeleteShare, 3),
      (AgentInjectStatus, 4), (\<lambda>i. AgentReportResult i [] [], 4), (AgentApproveOnce, 4), (GetGoal, 4),
      (\<lambda>i. CloseGoal i [] [] [], 4), (\<lambda>i. SetGoalState i [], 4), (ListProjectAgents, 4), (AcceptAgentInvite, 3),
      (DeclineAgentInvite, 3), (\<lambda>i. WithdrawAgent i [], 3), (\<lambda>i. GetFormResponse i [], 3)]"

lemma split_sep_escaped:
  "split_sep (PathEscape i @ CHR ''/'' # q) = PathEscape i # split_sep q" "split_sep (PathEscape i) = [PathEscape i]"
proof -
  have "sep \<notin> set (PathEscape i)" using PathEscape_one_segment(1) by (simp add: sep_def)
  then show "split_sep (PathEscape i @ CHR ''/'' # q) = PathEscape i # split_sep q" "split_sep (PathEscape i) = [PathEscape i]"
    using split_sep_append [of "PathEscape i" q] by (simp_all add: sep_def)
qed

text \<open>An identifier cannot redirect a call: whatever the identifier, the path of a call has the segments of its
  template with the encoded identifier in its place, which decodes to the identifier and starts no query or
  fragment.\<close>

theorem id_stays_in_place:
  assumes "(f, n) \<in> set id_calls"
  shows "split_sep (ca_path (f i)) = (split_sep (ca_path (f [])))[n := PathEscape i] \<and>
    percent_decode (PathEscape i) = i \<and> CHR ''?'' \<notin> set (PathEscape i) \<and> CHR ''#'' \<notin> set (PathEscape i)"
proof -
  have nil: "PathEscape [] = []" by (simp add: PathEscape_def)
  show ?thesis
    using assms PathEscape_one_segment decode_PathEscape
    by (auto simp: id_calls_def call_of_def nil split_sep_escaped sep_def
        PollDeviceToken_def RevokeDeviceSession_def RevokeDeviceSessionWithDeviceCode_def ApprovePendingInbox_def
        RejectPendingInbox_def AckInboxShare_def UnlockOwnShareCall_def SubmitReseal_def FlushShare_def CompleteUpload_def
        GetShare_def ShareAnalytics_def RevokeShare_def DisableShare_def EnableShare_def ExtendExpiry_def DeleteShare_def
        AgentInjectStatus_def AgentReportResult_def AgentApproveOnce_def GetGoal_def CloseGoal_def SetGoalState_def
        ListProjectAgents_def AcceptAgentInvite_def DeclineAgentInvite_def WithdrawAgent_def GetFormResponse_def)
qed

text \<open>The trusted-device calls do not encode their identifier: a separator in the fingerprint given to
  \<open>LanTrustRevoke\<close> or \<open>LanTrustSetMode\<close>, or in the challenge given to \<open>LanTrustVerify\<close>, adds path segments.\<close>

theorem lan_trust_splices:
  "split_sep (ca_path (LanTrustRevoke (f @ sep # g))) = split_sep (ca_path (LanTrustRevoke f)) @ split_sep g \<and>
   split_sep (ca_path (LanTrustSetMode (f @ sep # g) md)) = split_sep (ca_path (LanTrustSetMode f md)) @ split_sep g \<and>
   split_sep (ca_path (LanTrustVerify (f @ sep # g) code)) =
     split_sep (''/v1/lan/trust/challenges/'' @ f) @ split_sep (g @ ''/verify'')"
  using split_sep_append [of "''/v1/lan/trusted/'' @ f" g]
    split_sep_append [of "''/v1/lan/trust/challenges/'' @ f" "g @ ''/verify''"]
  by (simp only: LanTrustRevoke_def LanTrustSetMode_def LanTrustVerify_def call_of_def call.simps append_assoc append_Cons append_Nil)

lemma id_stays_in_place_witness:
  "split_sep (ca_path (RevokeShare ''a/b'')) = [[], ''v1'', ''shares'', ''a%2Fb'', ''revoke'']"
proof -
  have "(RevokeShare, 3) \<in> set id_calls" by (simp add: id_calls_def)
  from id_stays_in_place [OF this, of "''a/b''"]
  have "split_sep (ca_path (RevokeShare ''a/b'')) = (split_sep (ca_path (RevokeShare [])))[3 := PathEscape ''a/b'']" by blast
  moreover have "split_sep (ca_path (RevokeShare [])) = [[], ''v1'', ''shares'', [], ''revoke'']" by code_simp
  moreover have "PathEscape ''a/b'' = ''a%2Fb''" by code_simp
  ultimately show ?thesis by simp
qed

end
