(* ===== verification/Adverts.thy ===== *)
theory Adverts
  imports Names GoParseURL Policy "HOL-Library.Char_ord" "HOL-Library.List_Lexorder"
begin

text \<open>
  Discovery by announcement (\<open>lanshare/mdns.go\<close>, \<open>lanshare/self.go\<close>) and the pairing string
  (\<open>lanshare/pairing.go\<close>): the TXT record of an advert, the choice of an address, the list of nearby devices,
  the multiset of this process's own fingerprints, and the string a sender scans. The mDNS library delivers
  service entries.
\<close>

section \<open>What a receiver announces\<close>

record ListenInfo =
  li_bind_addr :: string
  li_port :: int
  li_fingerprint :: string
  li_identity_fingerprint :: string
  li_passphrase :: string
  li_mode :: string
  li_app_version :: string
  li_min_peer :: string

definition receiverTXT :: "ListenInfo \<Rightarrow> string list" where
  "receiverTXT info =
     [''v=1'', ''f='' @ li_fingerprint info, ''mode='' @ li_mode info] @
     (if li_identity_fingerprint info \<noteq> [] then [''id='' @ li_identity_fingerprint info] else []) @
     (if li_app_version info \<noteq> [] then [''app='' @ li_app_version info] else []) @
     (let m = advertisedMin (li_min_peer info) (li_app_version info) in if m \<noteq> [] then [''min='' @ m] else [])"

definition txtValue :: "string list \<Rightarrow> string \<Rightarrow> string" where
  "txtValue txt key = (case find (\<lambda>t. has_prefix t (key @ ''='')) txt of
     None \<Rightarrow> [] | Some t \<Rightarrow> trim_prefix t (key @ ''=''))"

text \<open>The instance name and the TXT record of \<open>Advertise\<close> and of \<open>AdvertiseBroadcast\<close> (whose instance ends in a
  space, a middle dot and \<open>offer\<close>).\<close>

definition advert_instance :: "string \<Rightarrow> string" where
  "advert_instance name = (let n = trim_space name in if n = [] then ''share2us'' else n)"

definition broadcast_instance :: "string \<Rightarrow> string" where
  "broadcast_instance name = advert_instance name @ [CHR '' '', CHR 0xC2, CHR 0xB7] @ ''offer''"

definition broadcastTXT :: "string \<Rightarrow> ListenInfo \<Rightarrow> string \<Rightarrow> int \<Rightarrow> string list" where
  "broadcastTXT displayName info fileName fileSize =
     [''v=1'', ''f='' @ li_fingerprint info, ''mode=open'', ''dn='' @ advert_instance displayName, ''bc=1'',
      ''fn='' @ fileName, ''sz='' @ itoa fileSize] @
     (if li_app_version info \<noteq> [] then [''app='' @ li_app_version info] else []) @
     (let m = advertisedMin (li_min_peer info) (li_app_version info) in if m \<noteq> [] then [''min='' @ m] else [])"

section \<open>Choosing an address\<close>

text \<open>\<open>IP.To4\<close> on the bytes of an address.\<close>

definition to4 :: "nat list \<Rightarrow> nat list option" where
  "to4 ip = (if length ip = 4 then Some ip
     else if length ip = 16 \<and> take 12 ip = replicate 10 0 @ [255, 255] then Some (drop 12 ip) else None)"

definition addrScore :: "nat list \<Rightarrow> int" where
  "addrScore ip = (case to4 ip of
     None \<Rightarrow> -1
   | Some v \<Rightarrow>
       if v ! 0 = 169 \<and> v ! 1 = 254 then 0
       else if v ! 0 = 100 \<and> v ! 1 div 64 = 1 then 2
       else if v ! 0 = 10 \<or> (v ! 0 = 172 \<and> v ! 1 div 16 = 1) \<or> (v ! 0 = 192 \<and> v ! 1 = 168) then 3
       else 1)"

definition v4_string :: "nat list \<Rightarrow> string" where
  "v4_string v = (case map (\<lambda>n. itoa (int n)) v of
     [a, b, c, d] \<Rightarrow> a @ ''.'' @ b @ ''.'' @ c @ ''.'' @ d | _ \<Rightarrow> [])"

text \<open>IPv6 addresses come rendered; \<open>IP.String\<close> of an IPv4 one is dotted decimal.\<close>

record ServiceEntry =
  se_instance :: string
  se_port :: int
  se_text :: "string list"
  se_v4 :: "nat list list"
  se_v6 :: "string list"

fun best_v4 :: "nat list list \<Rightarrow> string \<Rightarrow> int \<Rightarrow> string" where
  "best_v4 [] best bestScore = best"
| "best_v4 (ip # ips) best bestScore =
     (if addrScore ip > bestScore then best_v4 ips (case to4 ip of None \<Rightarrow> [] | Some v \<Rightarrow> v4_string v) (addrScore ip)
      else best_v4 ips best bestScore)"

definition bestAddr :: "ServiceEntry \<Rightarrow> string" where
  "bestAddr e = (let best = best_v4 (se_v4 e) [] (-1) in
     if best \<noteq> [] then best else if se_v6 e \<noteq> [] then hd (se_v6 e) else [])"

section \<open>This process's own adverts\<close>

text \<open>The counting map: a fingerprint is present while an advert publishing it is up.\<close>

type_synonym self_counts = "string \<rightharpoonup> nat"

definition count_up :: "string \<Rightarrow> self_counts \<Rightarrow> self_counts" where
  "count_up fp m = m(fp \<mapsto> (case m fp of None \<Rightarrow> 0 | Some n \<Rightarrow> n) + 1)"

definition count_down :: "string \<Rightarrow> self_counts \<Rightarrow> self_counts" where
  "count_down fp m = (let n = (case m fp of None \<Rightarrow> 0 | Some n \<Rightarrow> n) in
     if n \<le> 1 then m(fp := None) else m(fp \<mapsto> n - 1))"

definition isSelfFingerprint :: "self_counts \<Rightarrow> string \<Rightarrow> bool" where
  "isSelfFingerprint m fp \<longleftrightarrow> fp \<noteq> [] \<and> (case m fp of None \<Rightarrow> False | Some n \<Rightarrow> n > 0)"

text \<open>A process registers adverts and closes them: \<open>closers\<close> are the functions \<open>registerSelf\<close> returned, each with
  its fingerprint and whether its \<open>sync.Once\<close> is spent. Closers may be called in any order and repeatedly.\<close>

record self_state =
  sf_counts :: self_counts
  sf_closers :: "(string \<times> bool) list"

definition registerSelf :: "string \<Rightarrow> self_state \<Rightarrow> self_state" where
  "registerSelf fp s = (if fp = [] then s\<lparr>sf_closers := sf_closers s @ [([], False)]\<rparr>
     else s\<lparr>sf_counts := count_up fp (sf_counts s), sf_closers := sf_closers s @ [(fp, False)]\<rparr>)"

definition close_advert :: "nat \<Rightarrow> self_state \<Rightarrow> self_state" where
  "close_advert i s = (case sf_closers s ! i of (fp, spent) \<Rightarrow>
     if spent then s
     else if fp = [] then s\<lparr>sf_closers := (sf_closers s)[i := (fp, True)]\<rparr>
     else s\<lparr>sf_counts := count_down fp (sf_counts s), sf_closers := (sf_closers s)[i := (fp, True)]\<rparr>)"

inductive self_step :: "self_state \<Rightarrow> self_state \<Rightarrow> bool" where
  Register: "self_step s (registerSelf fp s)"
| Close: "i < length (sf_closers s) \<Longrightarrow> self_step s (close_advert i s)"

inductive self_reachable :: "self_state \<Rightarrow> bool" where
  Start: "self_reachable \<lparr>sf_counts = Map.empty, sf_closers = []\<rparr>"
| Step: "self_reachable s \<Longrightarrow> self_step s t \<Longrightarrow> self_reachable t"

inductive_cases self_stepE: "self_step s t"

definition isSelfHost :: "string list \<Rightarrow> string \<Rightarrow> bool" where
  "isSelfHost local host =
     (if host = [] then False
      else if host \<in> set local then True
      else (case parseIP host of
        None \<Rightarrow> False
      | Some ip \<Rightarrow> (case to4 ip of Some v \<Rightarrow> v ! 0 = 127 | None \<Rightarrow> ip = replicate 15 0 @ [1])))"

section \<open>Nearby devices\<close>

record Peer =
  pr_name :: string
  pr_instance :: string
  pr_host :: string
  pr_port :: int
  pr_fingerprint :: string
  pr_identity_fingerprint :: string
  pr_mode :: string
  pr_is_broadcast :: bool
  pr_file_name :: string
  pr_file_size :: int
  pr_app_version :: string
  pr_min_peer :: string

text \<open>\<open>strconv.ParseInt\<close> with the error ignored: out of range it yields the nearest bound, otherwise 0.\<close>

definition parse_size :: "string \<Rightarrow> int" where
  "parse_size s = (case parse_int64 s of Some n \<Rightarrow> n
     | None \<Rightarrow>
         (let neg = has_prefix s ''-''; ds = (if neg \<or> has_prefix s ''+'' then tl s else s) in
          (case digits_value ds of None \<Rightarrow> 0 | Some _ \<Rightarrow> if neg then - (2 ^ 63) else 2 ^ 63 - 1)))"

definition peer_key :: "ServiceEntry \<Rightarrow> string" where
  "peer_key e = (let fp = txtValue (se_text e) ''f'' in
     if fp \<noteq> [] then (if txtValue (se_text e) ''bc'' = ''1'' then ''bc:'' @ fp else fp) else se_instance e)"

definition peer_of :: "ServiceEntry \<Rightarrow> Peer" where
  "peer_of e =
     (let v = txtValue (se_text e); n1 = SanitizeName (v ''dn'');
          n2 = (if n1 = [] then SanitizeName (se_instance e) else n1);
          name = (if n2 = [] then ''unnamed device'' else n2) in
      \<lparr>pr_name = name, pr_instance = se_instance e, pr_host = bestAddr e, pr_port = se_port e, pr_fingerprint = v ''f'',
       pr_identity_fingerprint = v ''id'', pr_mode = v ''mode'', pr_is_broadcast = (v ''bc'' = ''1''),
       pr_file_name = SanitizeName (v ''fn''), pr_file_size = (if v ''sz'' \<noteq> [] then parse_size (v ''sz'') else 0),
       pr_app_version = v ''app'', pr_min_peer = v ''min''\<rparr>)"

definition listable :: "self_counts \<Rightarrow> string list \<Rightarrow> ServiceEntry \<Rightarrow> bool" where
  "listable self local e \<longleftrightarrow> bestAddr e \<noteq> [] \<and> se_port e \<noteq> 0 \<and>
     \<not> isSelfFingerprint self (txtValue (se_text e) ''f'') \<and> \<not> isSelfHost local (bestAddr e)"

text \<open>The map from keys to peers, as a list of its entries; a later entry replaces the one of its key.\<close>

fun put_peer :: "string \<Rightarrow> Peer \<Rightarrow> (string \<times> Peer) list \<Rightarrow> (string \<times> Peer) list" where
  "put_peer k p [] = [(k, p)]"
| "put_peer k p ((k', q) # kqs) = (if k' = k then (k, p) # kqs else (k', q) # put_peer k p kqs)"

text \<open>The order of peers of one name is the map's, which Go leaves open; here it is the order of arrival.\<close>

definition Browse :: "self_counts \<Rightarrow> string list \<Rightarrow> ServiceEntry list \<Rightarrow> Peer list" where
  "Browse self local entries =
     sort_key pr_name (map snd (fold (\<lambda>e m. if listable self local e then put_peer (peer_key e) (peer_of e) m else m) entries []))"

section \<open>Finding one receiver by name\<close>

record PairingInfo =
  pi_host :: string
  pi_port :: int
  pi_fingerprint :: string
  pi_password :: string
  pi_app_version :: string
  pi_min_peer :: string

definition Discover :: "string \<Rightarrow> ServiceEntry list \<Rightarrow> PairingInfo option" where
  "Discover name0 entries = (let name = trim_space name0 in
     (case find (\<lambda>e. equal_fold (se_instance e) name \<and> bestAddr e \<noteq> [] \<and> se_port e \<noteq> 0) entries of
        None \<Rightarrow> None
      | Some e \<Rightarrow> (let v = txtValue (se_text e) in
          Some \<lparr>pi_host = bestAddr e, pi_port = se_port e, pi_fingerprint = v ''f'', pi_password = [],
            pi_app_version = v ''app'', pi_min_peer = v ''min''\<rparr>)))"

section \<open>Pairing strings\<close>

definition PairingScheme :: string where "PairingScheme = ''s2u''"

definition pairing_query :: "ListenInfo \<Rightarrow> (string \<times> string) list" where
  "pairing_query info =
     (if li_fingerprint info \<noteq> [] then [(''f'', li_fingerprint info)] else []) @
     (if li_identity_fingerprint info \<noteq> [] then [(''i'', li_identity_fingerprint info)] else []) @
     (if li_passphrase info \<noteq> [] then [(''k'', li_passphrase info)] else [])"

definition BuildPairingString :: "string \<Rightarrow> ListenInfo \<Rightarrow> string" where
  "BuildPairingString host info =
     url_string PairingScheme (JoinHostPort host (itoa (li_port info))) ''/join'' (encode_values (pairing_query info))"

definition IsPairingString :: "string \<Rightarrow> bool" where
  "IsPairingString s \<longleftrightarrow> length s > length PairingScheme + 3 \<and> take (length PairingScheme + 3) s = PairingScheme @ ''://''"

datatype pairing_err = BadPairing | NotPairing | NoHostPort | BadPairingPort

definition ParsePairingString :: "string \<Rightarrow> pairing_err + PairingInfo" where
  "ParsePairingString s = (case url_Parse s of
     None \<Rightarrow> Inl BadPairing
   | Some u \<Rightarrow>
       if ur_scheme u \<noteq> PairingScheme then Inl NotPairing
       else (case SplitHostPort (ur_host u) of
         None \<Rightarrow> Inl NoHostPort
       | Some (host, portStr) \<Rightarrow> (case parse_int64 portStr of
           None \<Rightarrow> Inl BadPairingPort
         | Some port \<Rightarrow>
             if port < 1 \<or> port > 65535 then Inl BadPairingPort
             else (let q = Values_Get (Query_values (ur_query u)) in
               Inr \<lparr>pi_host = host, pi_port = port,
                 pi_fingerprint = (if q ''i'' = [] then q ''f'' else q ''i''), pi_password = q ''k'',
                 pi_app_version = [], pi_min_peer = []\<rparr>))))"

section \<open>Facts\<close>

text \<open>What the counting map stands for: the live adverts.\<close>

definition counts_live :: "self_state \<Rightarrow> bool" where
  "counts_live s \<longleftrightarrow> (\<forall>fp. fp \<noteq> [] \<longrightarrow> sf_counts s fp =
     (let n = count_list (sf_closers s) (fp, False) in if n = 0 then None else Some n))"

lemma count_list_snoc: "count_list (xs @ [y]) x = count_list xs x + (if y = x then 1 else 0)"
  by (induction xs) auto

lemma count_list_update:
  "i < length xs \<Longrightarrow> xs ! i \<noteq> y \<Longrightarrow>
   count_list (xs[i := y]) x = (if xs ! i = x then count_list xs x - 1 else if y = x then count_list xs x + 1 else count_list xs x)"
proof (induction xs arbitrary: i)
  case (Cons z xs)
  have "xs ! j = x \<Longrightarrow> j < length xs \<Longrightarrow> 0 < count_list xs x" for j by (metis count_notin gr0I nth_mem count_list_0_iff)
  with Cons show ?case by (cases i) (auto simp: Suc_diff_Suc)
qed simp

lemma counts_live_register: "counts_live s \<Longrightarrow> counts_live (registerSelf fp s)"
  by (auto simp: counts_live_def registerSelf_def count_up_def count_list_snoc Let_def split: option.splits)

lemma counts_live_close:
  assumes "counts_live s" "i < length (sf_closers s)"
  shows "counts_live (close_advert i s)"
proof -
  obtain fp spent where c: "sf_closers s ! i = (fp, spent)" by fastforce
  show ?thesis
  proof (cases "spent")
    case True
    then show ?thesis using assms c by (simp add: close_advert_def)
  next
    case False
    have n: "count_list (sf_closers s) (fp, False) \<noteq> 0"
      using assms(2) c False by (metis count_list_0_iff nth_mem)
    have u: "count_list ((sf_closers s)[i := (fp, True)]) (q, False) =
        (if q = fp then count_list (sf_closers s) (q, False) - 1 else count_list (sf_closers s) (q, False))" for q
      using count_list_update [of i "sf_closers s" "(fp, True)" "(q, False)"] assms(2) c False by auto
    show ?thesis
    proof (cases "fp = []")
      case True
      then show ?thesis using assms c False u by (auto simp: counts_live_def close_advert_def)
    next
      case fp: False
      then have "sf_counts s fp = Some (count_list (sf_closers s) (fp, False))" using assms(1) n by (simp add: counts_live_def Let_def)
      then show ?thesis using assms c False u fp n
        by (auto simp: counts_live_def close_advert_def count_down_def Let_def)
    qed
  qed
qed

lemma reachable_counts_live: "self_reachable s \<Longrightarrow> counts_live s"
proof (induction rule: self_reachable.induct)
  case Start
  show ?case by (simp add: counts_live_def)
next
  case (Step s t)
  from Step.hyps(2) Step.IH show ?case
    by (elim self_stepE) (auto intro: counts_live_register counts_live_close)
qed

text \<open>The entries behind the list of nearby devices.\<close>

lemma put_peer_keys: "map fst (put_peer k p m) = (if k \<in> fst ` set m then map fst m else map fst m @ [k])"
  by (induction m) (auto split: if_splits)

lemma put_peer_set: "set (put_peer k p m) \<subseteq> insert (k, p) (set m)"
  by (induction m) (auto split: if_splits)

lemma browse_entries:
  fixes self local defines "add \<equiv> \<lambda>e m. if listable self local e then put_peer (peer_key e) (peer_of e) m else m"
  shows "distinct (map fst m) \<and> set m \<subseteq> (\<lambda>e. (peer_key e, peer_of e)) ` {e. listable self local e} \<Longrightarrow>
    distinct (map fst (fold add es m)) \<and> set (fold add es m) \<subseteq> (\<lambda>e. (peer_key e, peer_of e)) ` {e. listable self local e}"
proof (induction es arbitrary: m)
  case (Cons e es)
  have "distinct (map fst (add e m)) \<and> set (add e m) \<subseteq> (\<lambda>e. (peer_key e, peer_of e)) ` {e. listable self local e}"
    using Cons.prems put_peer_set [of "peer_key e" "peer_of e" m] by (auto simp: add_def put_peer_keys)
  from Cons.IH [OF this] show ?case by simp
qed simp

lemma peer_of_simps [simp]:
  "pr_host (peer_of e) = bestAddr e" "pr_port (peer_of e) = se_port e" "pr_fingerprint (peer_of e) = txtValue (se_text e) ''f''"
  "pr_is_broadcast (peer_of e) = (txtValue (se_text e) ''bc'' = ''1'')" "pr_instance (peer_of e) = se_instance e"
  by (simp_all add: peer_of_def Let_def)

lemma peer_of_name:
  "pr_name (peer_of e) \<noteq> [] \<and> list_all (\<lambda>rb. \<not> dropped_rune (fst rb)) (runes (pr_name (peer_of e)))"
proof -
  have s: "list_all (\<lambda>rb. \<not> dropped_rune (fst rb)) (runes (SanitizeName v))" for v
    using SanitizeName_facts [of v] by (simp add: list_all_iff)
  have "list_all (\<lambda>rb. \<not> dropped_rune (fst rb)) (runes ''unnamed device'')"
    by (simp add: dropped_rune_def of_char_Char horner_sum_simps)
  with s show ?thesis by (simp add: peer_of_def Let_def)
qed

lemma parse_int64_Cons:
  "parse_int64 (c # r) =
     (if c = CHR ''-'' then (case digits_value r of None \<Rightarrow> None | Some n \<Rightarrow> if n \<le> 2 ^ 63 then Some (- int n) else None)
      else (case digits_value (if c = CHR ''+'' then r else c # r) of
        None \<Rightarrow> None | Some n \<Rightarrow> if n < 2 ^ 63 then Some (int n) else None))"
  by (cases c) (auto simp: parse_int64_def split: bool.splits)

lemma parse_int64_itoa: "0 \<le> n \<Longrightarrow> n < 2 ^ 63 \<Longrightarrow> parse_int64 (itoa n) = Some n"
proof -
  assume n: "0 \<le> n" "n < 2 ^ 63"
  obtain c r where d: "digits (nat n) = c # r" by (cases "digits (nat n)") auto
  then have "is_digit c" using digits_set [of c "nat n"] by simp
  then have "c \<noteq> CHR ''-''" "c \<noteq> CHR ''+''" by (auto simp: is_digit_def of_char_Char horner_sum_simps)
  moreover have "digits_value (c # r) = Some (nat n)" using digits_value_digits [of "nat n"] d by simp
  moreover have "nat n < 2 ^ 63" using n by (simp add: nat_less_iff)
  ultimately show ?thesis using n d by (simp add: itoa_def parse_int64_Cons)
qed

section \<open>Properties\<close>

text \<open>A device is itself exactly while it says so: whatever adverts were opened and closed, in whatever order, and
  however often a closer was called, \<open>isSelfFingerprint\<close> holds of a fingerprint if and only if some advert
  publishing it has not been closed.\<close>

theorem self_while_advertised:
  assumes "self_reachable s"
  shows "isSelfFingerprint (sf_counts s) fp \<longleftrightarrow> fp \<noteq> [] \<and> (fp, False) \<in> set (sf_closers s)"
  using reachable_counts_live [OF assms]
  by (auto simp: counts_live_def isSelfFingerprint_def Let_def count_list_0_iff neq0_conv [symmetric] simp del: neq0_conv
      split: if_splits)

text \<open>The list of nearby devices is safe to show and to offer: no entry is this device, every entry has an address,
  a port and a non-empty name without control or direction runes, and no device is listed twice (as a receiver,
  or as an offer).\<close>

theorem browse_safe:
  assumes "p \<in> set (Browse self local es)"
  shows "\<not> isSelfFingerprint self (pr_fingerprint p) \<and> \<not> isSelfHost local (pr_host p) \<and> pr_host p \<noteq> [] \<and> pr_port p \<noteq> 0 \<and>
    pr_name p \<noteq> [] \<and> list_all (\<lambda>rb. \<not> dropped_rune (fst rb)) (runes (pr_name p)) \<and>
    (\<forall>q\<in>set (Browse self local es). pr_fingerprint q = pr_fingerprint p \<and> pr_fingerprint p \<noteq> [] \<and>
       pr_is_broadcast q = pr_is_broadcast p \<longrightarrow> q = p)"
proof -
  define m where "m = fold (\<lambda>e m. if listable self local e then put_peer (peer_key e) (peer_of e) m else m) es []"
  have d: "distinct (map fst m)" and m: "set m \<subseteq> (\<lambda>e. (peer_key e, peer_of e)) ` {e. listable self local e}"
    using browse_entries [of "[]" self local es] by (simp_all add: m_def)
  have b: "set (Browse self local es) = snd ` set m" by (simp add: Browse_def m_def)
  from assms b m obtain e where e: "(peer_key e, p) \<in> set m" "p = peer_of e" "listable self local e" by auto
  have "q = p" if q: "q \<in> set (Browse self local es)" "pr_fingerprint q = pr_fingerprint p" "pr_fingerprint p \<noteq> []"
    "pr_is_broadcast q = pr_is_broadcast p" for q
  proof -
    from q(1) b m obtain e' where e': "(peer_key e', q) \<in> set m" "q = peer_of e'" by auto
    have "peer_key e' = peer_key e" using q(2-4) e(2) e'(2) by (simp add: peer_key_def)
    then show ?thesis using e(1) e'(1) d by (metis eq_key_imp_eq_value)
  qed
  then show ?thesis using e(2,3) peer_of_name [of e] by (auto simp: listable_def)
qed

text \<open>The authority of a pairing string is what \<open>parseHost\<close> accepts unchanged.\<close>

definition plain_host :: "string \<Rightarrow> bool" where
  "plain_host host \<longleftrightarrow> list_all (\<lambda>c. host_kept c \<and> c \<noteq> CHR ''['' \<and> c \<noteq> CHR '']'') host"

lemma itoa_port: "1 \<le> port \<Longrightarrow> c \<in> set (itoa port) \<Longrightarrow> is_digit c"
  using digits_set [of c "nat port"] by (auto simp: itoa_def is_digit_def of_char_Char horner_sum_simps)

lemma digit_kept: "is_digit c \<Longrightarrow> host_kept c \<and> c \<noteq> CHR '':'' \<and> c \<noteq> CHR '']'' \<and> c \<noteq> CHR ''[''"
  by (auto simp: is_digit_def host_kept_def unreserved_def Let_def of_char_Char horner_sum_simps)

lemma parseHost_joined:
  assumes "plain_host host" "1 \<le> port"
  shows "list_all host_kept (JoinHostPort host (itoa port))" "parseHost (JoinHostPort host (itoa port)) = Some (JoinHostPort host (itoa port))"
proof -
  let ?p = "itoa port"
  have h: "host_kept c \<and> c \<noteq> CHR ''['' \<and> c \<noteq> CHR '']''" if "c \<in> set host" for c
    using assms(1) that by (simp add: plain_host_def list_all_iff)
  have d: "is_digit c" if "c \<in> set ?p" for c using itoa_port [OF assms(2) that] .
  have k: "host_kept CHR '':''" "host_kept CHR ''[''" "host_kept CHR '']''" by (simp_all add: host_kept_def)
  show kept: "list_all host_kept (JoinHostPort host ?p)"
    using h d digit_kept k by (auto simp: JoinHostPort_def list_all_iff)
  have "CHR 0x25 \<notin> set (JoinHostPort host ?p)" using kept host_kept_percent(1) by (auto simp: list_all_iff)
  then have u: "unescape EncHost (JoinHostPort host ?p) = Some (JoinHostPort host ?p)" by (rule unescape_host [OF kept])
  have port: "validOptionalPort (CHR '':'' # ?p)" using d by (auto simp: validOptionalPort_def list_all_iff)
  show "parseHost (JoinHostPort host ?p) = Some (JoinHostPort host ?p)"
  proof (cases "CHR '':'' \<in> set host")
    case True
    then have j: "JoinHostPort host ?p = (CHR ''['' # host) @ CHR '']'' # CHR '':'' # ?p" by (simp add: JoinHostPort_def)
    have c: "last_cut CHR '']'' (JoinHostPort host ?p) = Some (CHR ''['' # host, CHR '':'' # ?p)"
      unfolding j by (rule last_cut_append) (use d digit_kept in auto)
    have "CHR 0x25 \<notin> set (CHR ''['' # host)" using h host_kept_percent(1) by auto
    then have "zone_index (CHR ''['' # host) = None"
      unfolding zone_index_def find_None_iff by (metis append_take_drop_id list.set_intros(1) set_drop_subset set_take_subset subset_iff)
    then show ?thesis using c port u j by (simp add: parseHost_def has_prefix_def)
  next
    case False
    then have j: "JoinHostPort host ?p = host @ CHR '':'' # ?p" by (simp add: JoinHostPort_def)
    have c: "last_cut CHR '':'' (JoinHostPort host ?p) = Some (host, ?p)"
      unfolding j by (rule last_cut_append) (use d digit_kept in blast)
    have "\<not> has_prefix (JoinHostPort host ?p) ''[''" unfolding j using h by (cases host) (auto simp: has_prefix_def)
    then show ?thesis using c port u by (simp add: parseHost_def)
  qed
qed

text \<open>C40 A pairing string carries the receiver to the sender: parsing what \<open>BuildPairingString\<close> built gives back the
  host, the port, the passphrase whatever characters it has, and as the pin the stable fingerprint, or the
  certificate's when the receiver has no identity.\<close>

theorem pairing_roundtrip:
  assumes "plain_host host" "1 \<le> li_port info" "li_port info \<le> 65535"
  shows "ParsePairingString (BuildPairingString host info) =
    Inr \<lparr>pi_host = host, pi_port = li_port info,
      pi_fingerprint = (if li_identity_fingerprint info = [] then li_fingerprint info else li_identity_fingerprint info),
      pi_password = li_passphrase info, pi_app_version = [], pi_min_peer = []\<rparr>"
proof -
  let ?hp = "JoinHostPort host (itoa (li_port info))"
  have d: "CHR '':'' \<notin> set (itoa (li_port info))" "CHR ''['' \<notin> set (itoa (li_port info))" "CHR '']'' \<notin> set (itoa (li_port info))"
    using itoa_port [OF assms(2)] digit_kept by blast+
  have h: "CHR ''['' \<notin> set host" "CHR '']'' \<notin> set host" using assms(1) by (auto simp: plain_host_def list_all_iff)
  have "url_Parse (BuildPairingString host info) = Some (empty_url\<lparr>ur_scheme := PairingScheme, ur_host := ?hp, ur_path := ''/join'',
      ur_query := encode_values (pairing_query info)\<rparr>)"
    unfolding BuildPairingString_def
  proof (rule url_Parse_string)
    show "?hp \<noteq> []" by (simp add: JoinHostPort_def)
  qed (use parseHost_joined [OF assms(1,2)] in \<open>simp_all add: PairingScheme_def letter_def scheme_char_def is_digit_def lower_char_def unreserved_def Let_def of_char_Char horner_sum_simps\<close>)
  then show ?thesis using d h assms(2,3)
    by (simp add: ParsePairingString_def SplitHostPort_Join parse_int64_itoa Query_values_encode pairing_query_def Values_Get_def Let_def)
qed

section \<open>Concrete inputs\<close>

lemma self_while_advertised_witness:
  "\<exists>s. self_reachable s \<and> sf_closers s = [(''f'', True), (''f'', False)] \<and> isSelfFingerprint (sf_counts s) ''f''"
proof -
  define s0 where "s0 = \<lparr>sf_counts = Map.empty :: self_counts, sf_closers = []\<rparr>"
  define s where "s = close_advert 0 (registerSelf ''f'' (registerSelf ''f'' s0))"
  have c: "sf_closers s = [(''f'', True), (''f'', False)]"
    by (simp add: s_def s0_def registerSelf_def close_advert_def)
  have r1: "self_reachable (registerSelf ''f'' s0)"
    unfolding s0_def by (rule self_reachable.Step [OF self_reachable.Start self_step.Register])
  have r2: "self_reachable (registerSelf ''f'' (registerSelf ''f'' s0))"
    by (rule self_reachable.Step [OF r1 self_step.Register])
  have "self_step (registerSelf ''f'' (registerSelf ''f'' s0)) s"
    unfolding s_def by (rule self_step.Close) (simp add: registerSelf_def s0_def)
  with r2 have r: "self_reachable s" by (rule self_reachable.Step)
  from self_while_advertised [OF r, of "''f''"] have "isSelfFingerprint (sf_counts s) ''f''" by (simp add: c)
  with r c show ?thesis by blast
qed

definition demo_entry_lan :: ServiceEntry where
  "demo_entry_lan = \<lparr>se_instance = ''desk'', se_port = 4300, se_text = [''f=ab'', ''dn=desk''],
     se_v4 = [[192, 168, 1, 7]], se_v6 = []\<rparr>"

lemma demo_best: "bestAddr demo_entry_lan = ''192.168.1.7''" by code_simp

lemma browse_safe_witness:
  "pr_fingerprint (peer_of demo_entry_lan) = ''ab'' \<and> \<not> isSelfHost [] (pr_host (peer_of demo_entry_lan)) \<and>
   pr_name (peer_of demo_entry_lan) \<noteq> []"
proof -
  have h: "\<not> isSelfHost [] ''192.168.1.7''" by code_simp
  then have "listable Map.empty [] demo_entry_lan"
    by (simp add: listable_def demo_best isSelfFingerprint_def) (simp add: demo_entry_lan_def)
  then have "peer_of demo_entry_lan \<in> set (Browse Map.empty [] [demo_entry_lan])" by (simp add: Browse_def)
  from browse_safe [OF this]
  have "\<not> isSelfHost [] (pr_host (peer_of demo_entry_lan)) \<and> pr_name (peer_of demo_entry_lan) \<noteq> []" by blast
  moreover have "pr_fingerprint (peer_of demo_entry_lan) = ''ab''"
    by (simp add: demo_entry_lan_def txtValue_def has_prefix_def trim_prefix_def)
  ultimately show ?thesis by blast
qed

definition demo_info :: ListenInfo where
  "demo_info = \<lparr>li_bind_addr = [], li_port = 4300, li_fingerprint = ''ab'', li_identity_fingerprint = [], li_passphrase = ''p w&='',
     li_mode = ''password'', li_app_version = [], li_min_peer = []\<rparr>"

lemma pairing_roundtrip_witness:
  "ParsePairingString (BuildPairingString ''fe80::2'' demo_info) =
    Inr \<lparr>pi_host = ''fe80::2'', pi_port = 4300, pi_fingerprint = ''ab'', pi_password = ''p w&='', pi_app_version = [], pi_min_peer = []\<rparr>"
proof -
  have "plain_host ''fe80::2''" by (simp add: plain_host_def host_kept_def unreserved_def Let_def of_char_Char horner_sum_simps)
  from pairing_roundtrip [OF this, of demo_info] show ?thesis by (simp add: demo_info_def)
qed

end
