(* ===== verification/Cache.thy ===== *)
theory Cache
  imports Store
begin

text \<open>
  The files the client keeps beside its configuration (\<open>cache.go\<close>): the manifest of pulled content, the
  registry of shared sources, the index behind the last listing, the time of the last update check. All four
  are read and replaced in the same way; the locale \<open>saved_value\<close> states that shape once. JSON and SHA-256
  are parameters; a decoded \<open>null\<close> counts as the empty map or list.
\<close>

section \<open>Data\<close>

record CacheEntry =
  ce_path :: string
  ce_size_bytes :: nat
  ce_sha256 :: string
  ce_file_name :: string
  ce_pulled_at :: int

type_synonym CacheManifest = "(string, CacheEntry) fmap"

record UpdateCheckCache =
  uk_last_checked :: int
  uk_latest_version :: string

record SourceRegistryEntry =
  se_public_id :: string
  se_link :: string

type_synonym SourceRegistry = "(string, SourceRegistryEntry) fmap"

record ListIndexEntry =
  le_serial :: int
  le_public_id :: string
  le_file_name :: string

section \<open>Places\<close>

text \<open>\<open>cache\<close> is \<open>os.UserCacheDir\<close>.\<close>

definition CacheBaseDir :: "string option \<Rightarrow> file_err + string" where
  "CacheBaseDir cache = (case cache of None \<Rightarrow> Inl NoConfigBase | Some b \<Rightarrow> Inr (Join b ''share2us''))"

definition in_cache :: "string option \<Rightarrow> string \<Rightarrow> file_err + string" where
  "in_cache cache name = (case CacheBaseDir cache of Inl e \<Rightarrow> Inl e | Inr b \<Rightarrow> Inr (Join b name))"

definition CacheObjectsDir :: "string option \<Rightarrow> file_err + string" where
  "CacheObjectsDir cache = in_cache cache ''objects''"

definition CacheManifestPath :: "string option \<Rightarrow> file_err + string" where
  "CacheManifestPath cache = in_cache cache ''manifest.json''"

definition UpdateCheckCachePath :: "string option \<Rightarrow> file_err + string" where
  "UpdateCheckCachePath cache = in_cache cache ''update_check.json''"

definition SourceRegistryPath :: "os \<Rightarrow> file_err + string" where
  "SourceRegistryPath s = (case os_config_base s of None \<Rightarrow> Inl NoConfigBase | Some b \<Rightarrow> Inr (app_path b ''source_manifest.json''))"

definition ListIndexPath :: "os \<Rightarrow> file_err + string" where
  "ListIndexPath s = (case os_config_base s of None \<Rightarrow> Inl NoConfigBase | Some b \<Rightarrow> Inr (app_path b ''list_index.json''))"

section \<open>Replacing a file in steps\<close>

text \<open>How each system call of one save ends: the name \<open>os.CreateTemp\<close> picks (\<open>None\<close>: it fails), the bytes a
  failing write leaves, and whether changing modes, closing, renaming and removing work.\<close>

record save_steps =
  sv_mkdir :: bool
  sv_temp :: "string option"
  sv_write :: "nat option"
  sv_chmod_temp :: bool
  sv_close :: bool
  sv_rename :: bool
  sv_remove :: bool
  sv_chmod :: bool

definition drop_temp :: "save_steps \<Rightarrow> files \<Rightarrow> string \<Rightarrow> files" where
  "drop_temp v fs tmp = (if sv_remove v then fs(tmp := None) else fs)"

definition replace_steps :: "save_steps \<Rightarrow> files \<Rightarrow> string \<Rightarrow> bytes \<Rightarrow> files \<times> file_err option" where
  "replace_steps v fs path raw =
     (if \<not> sv_mkdir v then (fs, Some IOError)
      else case sv_temp v of
        None \<Rightarrow> (fs, Some IOError)
      | Some tmp \<Rightarrow>
          (case sv_write v of
             Some n \<Rightarrow> (drop_temp v (fs(tmp \<mapsto> take n raw)) tmp, Some IOError)
           | None \<Rightarrow>
               (let fs1 = fs(tmp \<mapsto> raw) in
                if \<not> sv_chmod_temp v then (drop_temp v fs1 tmp, Some IOError)
                else if \<not> sv_close v then (drop_temp v fs1 tmp, Some IOError)
                else if \<not> sv_rename v then (drop_temp v fs1 tmp, Some IOError)
                else (fs1(tmp := None, path \<mapsto> raw), if sv_chmod v then None else Some IOError))))"

definition save_value :: "('a \<Rightarrow> bytes option) \<Rightarrow> save_steps \<Rightarrow> files \<Rightarrow> string \<Rightarrow> 'a \<Rightarrow> files \<times> file_err option" where
  "save_value mar v fs path x = (case mar x of
     None \<Rightarrow> (fs, Some RenderError) | Some raw \<Rightarrow> replace_steps v fs path (raw @ [CHR 0x0A]))"

definition load_value :: "(bytes \<Rightarrow> 'a option) \<Rightarrow> 'a \<Rightarrow> os \<Rightarrow> files \<Rightarrow> string \<Rightarrow> file_err + 'a" where
  "load_value un unset s fs path = (case read_file s fs path of
     Inl e \<Rightarrow> if e = NotExist then Inr unset else Inl e
   | Inr raw \<Rightarrow> (case un raw of None \<Rightarrow> Inl ParseError | Some x \<Rightarrow> Inr x))"

text \<open>A sequence of updates to a kept value: read it, change it, save it; nothing is written when reading fails.\<close>

fun updates :: "('fs \<Rightarrow> 'e + 'a) \<Rightarrow> ('v \<Rightarrow> 'fs \<Rightarrow> 'a \<Rightarrow> 'fs \<times> 'e option) \<Rightarrow> ('v \<times> ('a \<Rightarrow> 'a)) list \<Rightarrow> 'fs \<Rightarrow> 'fs" where
  "updates load save [] fs = fs"
| "updates load save ((v, g) # us) fs =
     updates load save us (case load fs of Inl _ \<Rightarrow> fs | Inr x \<Rightarrow> fst (save v fs (g x)))"

text \<open>A value kept in one file. A save that reports an error may have happened or not, but nothing between.
  \<open>carried\<close> are the values the encoding carries, \<open>apart\<close> the saves whose temporary file is another file.\<close>

locale saved_value =
  fixes load :: "'fs \<Rightarrow> 'e + 'a" and save :: "'v \<Rightarrow> 'fs \<Rightarrow> 'a \<Rightarrow> 'fs \<times> 'e option"
    and apart :: "'v \<Rightarrow> bool" and carried :: "'a \<Rightarrow> bool"
  assumes load_save: "save v fs x = (fs', None) \<Longrightarrow> apart v \<Longrightarrow> carried x \<Longrightarrow> load fs' = Inr x"
    and load_failed: "save v fs x = (fs', Some e) \<Longrightarrow> apart v \<Longrightarrow> carried x \<Longrightarrow> load fs' = load fs \<or> load fs' = Inr x"
begin

lemma old_or_new: "apart v \<Longrightarrow> carried x \<Longrightarrow> load (fst (save v fs x)) \<in> {load fs, Inr x}"
  by (cases "save v fs x"; cases "snd (save v fs x)") (auto dest: load_save load_failed)

lemma updates_some:
  "load fs = Inr x \<Longrightarrow> carried x \<Longrightarrow> (\<And>v g. (v, g) \<in> set us \<Longrightarrow> apart v \<and> (\<forall>y. carried y \<longrightarrow> carried (g y))) \<Longrightarrow>
   \<exists>gs. gs \<in> set (subseqs (map snd us)) \<and> load (updates load save us fs) = Inr (fold (\<lambda>g. g) gs x)"
proof (induction us arbitrary: fs x)
  case (Cons u us)
  obtain v g where u: "u = (v, g)" by force
  let ?fs = "fst (save v fs (g x))"
  have vg: "apart v" "carried (g x)" using Cons.prems(2) Cons.prems(3) [of v g] u by auto
  have us: "\<And>v g. (v, g) \<in> set us \<Longrightarrow> apart v \<and> (\<forall>y. carried y \<longrightarrow> carried (g y))"
    using Cons.prems(3) by (metis list.set_intros(2))
  have up: "updates load save (u # us) fs = updates load save us ?fs" using u Cons.prems(1) by simp
  consider "load ?fs = Inr x" | "load ?fs = Inr (g x)" using old_or_new [OF vg, of fs] Cons.prems(1) by auto
  then show ?case
  proof cases
    case 1
    with Cons.IH [OF 1 Cons.prems(2) us] obtain gs where "gs \<in> set (subseqs (map snd us))"
      "load (updates load save us ?fs) = Inr (fold (\<lambda>g. g) gs x)" by auto
    then show ?thesis unfolding up using u by (auto simp: Let_def)
  next
    case 2
    with Cons.IH [OF 2 vg(2) us] obtain gs where "gs \<in> set (subseqs (map snd us))"
      "load (updates load save us ?fs) = Inr (fold (\<lambda>g. g) gs (g x))" by auto
    then have "g # gs \<in> set (subseqs (map snd (u # us)))"
      "load (updates load save us ?fs) = Inr (fold (\<lambda>g. g) (g # gs) x)"
      using u by (auto simp: Let_def)
    then show ?thesis unfolding up by blast
  qed
qed simp

end

section \<open>The four files\<close>

definition LoadCacheManifestAt :: "(bytes \<Rightarrow> CacheManifest option) \<Rightarrow> os \<Rightarrow> files \<Rightarrow> string \<Rightarrow> file_err + CacheManifest" where
  "LoadCacheManifestAt un s fs path = load_value un fmempty s fs path"

definition SaveCacheManifestAt :: "(CacheManifest \<Rightarrow> bytes option) \<Rightarrow> save_steps \<Rightarrow> files \<Rightarrow> string \<Rightarrow> CacheManifest \<Rightarrow> files \<times> file_err option" where
  "SaveCacheManifestAt mar v fs path m = save_value mar v fs path m"

definition LoadSourceRegistryAt :: "(bytes \<Rightarrow> SourceRegistry option) \<Rightarrow> os \<Rightarrow> files \<Rightarrow> string \<Rightarrow> file_err + SourceRegistry" where
  "LoadSourceRegistryAt un s fs path = load_value un fmempty s fs path"

definition SaveSourceRegistryAt :: "(SourceRegistry \<Rightarrow> bytes option) \<Rightarrow> save_steps \<Rightarrow> files \<Rightarrow> string \<Rightarrow> SourceRegistry \<Rightarrow> files \<times> file_err option" where
  "SaveSourceRegistryAt mar v fs path m = save_value mar v fs path m"

definition LoadListIndexAt :: "(bytes \<Rightarrow> ListIndexEntry list option) \<Rightarrow> os \<Rightarrow> files \<Rightarrow> string \<Rightarrow> file_err + ListIndexEntry list" where
  "LoadListIndexAt un s fs path = load_value un [] s fs path"

definition SaveListIndexAt :: "(ListIndexEntry list \<Rightarrow> bytes option) \<Rightarrow> save_steps \<Rightarrow> files \<Rightarrow> string \<Rightarrow> ListIndexEntry list \<Rightarrow> files \<times> file_err option" where
  "SaveListIndexAt mar v fs path es = save_value mar v fs path es"

definition LoadUpdateCheckCacheAt :: "(bytes \<Rightarrow> UpdateCheckCache option) \<Rightarrow> os \<Rightarrow> files \<Rightarrow> string \<Rightarrow> file_err + UpdateCheckCache" where
  "LoadUpdateCheckCacheAt un s fs path = load_value un \<lparr>uk_last_checked = 0, uk_latest_version = []\<rparr> s fs path"

definition SaveUpdateCheckCacheAt :: "(UpdateCheckCache \<Rightarrow> bytes option) \<Rightarrow> save_steps \<Rightarrow> files \<Rightarrow> string \<Rightarrow> UpdateCheckCache \<Rightarrow> files \<times> file_err option" where
  "SaveUpdateCheckCacheAt mar v fs path c = save_value mar v fs path c"

definition at_path :: "file_err + string \<Rightarrow> (string \<Rightarrow> file_err + 'a) \<Rightarrow> file_err + 'a" where
  "at_path p f = (case p of Inl e \<Rightarrow> Inl e | Inr path \<Rightarrow> f path)"

definition save_at_path :: "file_err + string \<Rightarrow> files \<Rightarrow> (string \<Rightarrow> files \<times> file_err option) \<Rightarrow> files \<times> file_err option" where
  "save_at_path p fs f = (case p of Inl e \<Rightarrow> (fs, Some e) | Inr path \<Rightarrow> f path)"

definition LoadCacheManifest :: "(bytes \<Rightarrow> CacheManifest option) \<Rightarrow> string option \<Rightarrow> os \<Rightarrow> files \<Rightarrow> file_err + CacheManifest" where
  "LoadCacheManifest un cache s fs = at_path (CacheManifestPath cache) (LoadCacheManifestAt un s fs)"

definition SaveCacheManifest :: "(CacheManifest \<Rightarrow> bytes option) \<Rightarrow> string option \<Rightarrow> save_steps \<Rightarrow> files \<Rightarrow> CacheManifest \<Rightarrow> files \<times> file_err option" where
  "SaveCacheManifest mar cache v fs m = save_at_path (CacheManifestPath cache) fs (\<lambda>p. SaveCacheManifestAt mar v fs p m)"

definition LoadSourceRegistry :: "(bytes \<Rightarrow> SourceRegistry option) \<Rightarrow> os \<Rightarrow> files \<Rightarrow> file_err + SourceRegistry" where
  "LoadSourceRegistry un s fs = at_path (SourceRegistryPath s) (LoadSourceRegistryAt un s fs)"

definition SaveSourceRegistry :: "(SourceRegistry \<Rightarrow> bytes option) \<Rightarrow> os \<Rightarrow> save_steps \<Rightarrow> files \<Rightarrow> SourceRegistry \<Rightarrow> files \<times> file_err option" where
  "SaveSourceRegistry mar s v fs m = save_at_path (SourceRegistryPath s) fs (\<lambda>p. SaveSourceRegistryAt mar v fs p m)"

definition LoadListIndex :: "(bytes \<Rightarrow> ListIndexEntry list option) \<Rightarrow> os \<Rightarrow> files \<Rightarrow> file_err + ListIndexEntry list" where
  "LoadListIndex un s fs = at_path (ListIndexPath s) (LoadListIndexAt un s fs)"

definition SaveListIndex :: "(ListIndexEntry list \<Rightarrow> bytes option) \<Rightarrow> os \<Rightarrow> save_steps \<Rightarrow> files \<Rightarrow> ListIndexEntry list \<Rightarrow> files \<times> file_err option" where
  "SaveListIndex mar s v fs es = save_at_path (ListIndexPath s) fs (\<lambda>p. SaveListIndexAt mar v fs p es)"

definition LoadUpdateCheckCache :: "(bytes \<Rightarrow> UpdateCheckCache option) \<Rightarrow> string option \<Rightarrow> os \<Rightarrow> files \<Rightarrow> file_err + UpdateCheckCache" where
  "LoadUpdateCheckCache un cache s fs = at_path (UpdateCheckCachePath cache) (LoadUpdateCheckCacheAt un s fs)"

definition SaveUpdateCheckCache :: "(UpdateCheckCache \<Rightarrow> bytes option) \<Rightarrow> string option \<Rightarrow> save_steps \<Rightarrow> files \<Rightarrow> UpdateCheckCache \<Rightarrow> files \<times> file_err option" where
  "SaveUpdateCheckCache mar cache v fs c = save_at_path (UpdateCheckCachePath cache) fs (\<lambda>p. SaveUpdateCheckCacheAt mar v fs p c)"

section \<open>Entries\<close>

definition AddCacheEntry :: "CacheManifest \<Rightarrow> string \<Rightarrow> CacheEntry \<Rightarrow> CacheManifest" where
  "AddCacheEntry m publicID e = fmupd publicID e m"

definition RemoveCacheEntry :: "CacheManifest \<Rightarrow> string \<Rightarrow> CacheManifest" where
  "RemoveCacheEntry m publicID = fmdrop publicID m"

definition AddSourceRegistryEntry :: "SourceRegistry \<Rightarrow> string \<Rightarrow> SourceRegistryEntry \<Rightarrow> SourceRegistry" where
  "AddSourceRegistryEntry m absPath e = fmupd absPath e m"

text \<open>\<open>absolute\<close> is \<open>filepath.Abs\<close>; the reference is the hash of the absolute path.\<close>

definition SourceRefForPath :: "(bytes \<Rightarrow> bytes) \<Rightarrow> (string \<Rightarrow> string option) \<Rightarrow> string \<Rightarrow> file_err + string \<times> string" where
  "SourceRefForPath sha absolute path = (case absolute path of
     None \<Rightarrow> Inl IOError | Some p \<Rightarrow> Inr (hex_encode (sha p), p))"

definition FileSHA256 :: "(bytes \<Rightarrow> bytes) \<Rightarrow> os \<Rightarrow> files \<Rightarrow> string \<Rightarrow> file_err + string" where
  "FileSHA256 sha s fs path = (case read_file s fs path of Inl e \<Rightarrow> Inl e | Inr b \<Rightarrow> Inr (hex_encode (sha b)))"

text \<open>\<open>stat\<close> gives whether a path is a directory and its size.\<close>

definition CacheEntryIsLocal :: "(bytes \<Rightarrow> bytes) \<Rightarrow> os \<Rightarrow> (string \<Rightarrow> (bool \<times> nat) option) \<Rightarrow> files \<Rightarrow> CacheEntry \<Rightarrow> bool" where
  "CacheEntryIsLocal sha s stat fs e =
     (if ce_path e = [] \<or> ce_sha256 e = [] then False
      else case stat (ce_path e) of
        None \<Rightarrow> False
      | Some (dir, sz) \<Rightarrow>
          if dir then False
          else if ce_size_bytes e \<noteq> 0 \<and> sz \<noteq> ce_size_bytes e then False
          else (case FileSHA256 sha s fs (ce_path e) of Inl _ \<Rightarrow> False | Inr h \<Rightarrow> h = ce_sha256 e))"

section \<open>Facts\<close>

lemma replace_steps_ok: "replace_steps v fs path raw = (fs', None) \<Longrightarrow> fs' path = Some raw"
  by (auto simp: replace_steps_def Let_def split: if_splits option.splits)

lemma replace_steps_failed:
  "replace_steps v fs path raw = (fs', Some e) \<Longrightarrow> sv_temp v \<noteq> Some path \<Longrightarrow> fs' path = fs path \<or> fs' path = Some raw"
  by (auto simp: replace_steps_def drop_temp_def Let_def split: if_splits option.splits)

lemma load_value_at: "fs path = g path \<Longrightarrow> load_value un unset s fs path = load_value un unset s g path"
  by (simp add: load_value_def read_file_def)

definition renders :: "(bytes \<Rightarrow> 'a option) \<Rightarrow> ('a \<Rightarrow> bytes option) \<Rightarrow> 'a \<Rightarrow> bool" where
  "renders un mar x \<longleftrightarrow> (case mar x of None \<Rightarrow> True | Some b \<Rightarrow> un (b @ [CHR 0x0A]) = Some x)"

definition safe_save :: "os \<Rightarrow> string \<Rightarrow> save_steps \<Rightarrow> bool" where
  "safe_save s path v \<longleftrightarrow> sv_temp v \<noteq> Some path \<and> os_read_ok s path"

lemma load_value_new:
  "renders un mar x \<Longrightarrow> os_read_ok s path \<Longrightarrow> mar x = Some b \<Longrightarrow> fs path = Some (b @ [CHR 0x0A]) \<Longrightarrow>
   load_value un unset s fs path = Inr x"
  by (simp add: load_value_def read_file_def renders_def)

lemma saved_value_file:
  "saved_value (\<lambda>fs. load_value un unset s fs path) (\<lambda>v fs x. save_value mar v fs path x) (safe_save s path)
     (renders un mar)"
proof (unfold_locales)
  fix v fs x fs'
  assume "save_value mar v fs path x = (fs', None)" "safe_save s path v" "renders un mar x"
  moreover from this obtain b where "mar x = Some b" "fs' path = Some (b @ [CHR 0x0A])"
    by (auto simp: save_value_def dest: replace_steps_ok split: option.splits)
  ultimately show "load_value un unset s fs' path = Inr x" using load_value_new by (auto simp: safe_save_def)
next
  fix v fs x fs' e
  assume a: "save_value mar v fs path x = (fs', Some e)" "safe_save s path v" "renders un mar x"
  show "load_value un unset s fs' path = load_value un unset s fs path \<or> load_value un unset s fs' path = Inr x"
  proof (cases "mar x")
    case None
    then show ?thesis using a(1) by (simp add: save_value_def)
  next
    case (Some b)
    with a have "fs' path = fs path \<or> fs' path = Some (b @ [CHR 0x0A])"
      by (auto simp: save_value_def safe_save_def dest: replace_steps_failed)
    then show ?thesis using load_value_at load_value_new [OF a(3) _ Some] a(2) unfolding safe_save_def by metis
  qed
qed

interpretation manifest: saved_value "\<lambda>fs. LoadCacheManifestAt un s fs path"
  "\<lambda>v fs m. SaveCacheManifestAt mar v fs path m" "safe_save s path" "renders un mar" for un mar s path
  unfolding LoadCacheManifestAt_def SaveCacheManifestAt_def by (rule saved_value_file)

interpretation registry: saved_value "\<lambda>fs. LoadSourceRegistryAt un s fs path"
  "\<lambda>v fs m. SaveSourceRegistryAt mar v fs path m" "safe_save s path" "renders un mar" for un mar s path
  unfolding LoadSourceRegistryAt_def SaveSourceRegistryAt_def by (rule saved_value_file)

interpretation listing: saved_value "\<lambda>fs. LoadListIndexAt un s fs path"
  "\<lambda>v fs es. SaveListIndexAt mar v fs path es" "safe_save s path" "renders un mar" for un mar s path
  unfolding LoadListIndexAt_def SaveListIndexAt_def by (rule saved_value_file)

interpretation update_check: saved_value "\<lambda>fs. LoadUpdateCheckCacheAt un s fs path"
  "\<lambda>v fs c. SaveUpdateCheckCacheAt mar v fs path c" "safe_save s path" "renders un mar" for un mar s path
  unfolding LoadUpdateCheckCacheAt_def SaveUpdateCheckCacheAt_def by (rule saved_value_file)

section \<open>Properties\<close>

text \<open>However a save of the cache manifest ends, the next load returns the manifest as it was before or the
  one being saved, never a mixture or a parse error that was not there. (Law of JSON: the saved manifest parses
  back; the temporary file is another file.)\<close>

theorem manifest_save_atomic:
  assumes "renders un mar m" "sv_temp v \<noteq> Some path" "os_read_ok s path"
  shows "LoadCacheManifestAt un s (fst (SaveCacheManifestAt mar v fs path m)) path
    \<in> {LoadCacheManifestAt un s fs path, Inr m}"
  using manifest.old_or_new [of s path v un mar m fs] assms by (simp add: safe_save_def)

text \<open>The changes of the manifest the code offers.\<close>

datatype manifest_change = Pulled string CacheEntry | Forgotten string

fun changed :: "manifest_change \<Rightarrow> CacheManifest \<Rightarrow> CacheManifest" where
  "changed (Pulled publicID e) m = AddCacheEntry m publicID e"
| "changed (Forgotten publicID) m = RemoveCacheEntry m publicID"

definition manifest_run ::
  "(bytes \<Rightarrow> CacheManifest option) \<Rightarrow> (CacheManifest \<Rightarrow> bytes option) \<Rightarrow> os \<Rightarrow> string \<Rightarrow>
   (save_steps \<times> manifest_change) list \<Rightarrow> files \<Rightarrow> files" where
  "manifest_run un mar s path cs fs = updates (\<lambda>fs. LoadCacheManifestAt un s fs path)
     (\<lambda>v fs m. SaveCacheManifestAt mar v fs path m) (map (\<lambda>(v, c). (v, changed c)) cs) fs"

lemma subseqs_map: "gs \<in> set (subseqs (map f xs)) \<Longrightarrow> \<exists>ys. ys \<in> set (subseqs xs) \<and> gs = map f ys"
proof (induction xs arbitrary: gs)
  case (Cons x xs)
  from Cons.prems have "gs \<in> set (subseqs (map f xs)) \<or> (\<exists>hs. hs \<in> set (subseqs (map f xs)) \<and> gs = f x # hs)"
    by (auto simp: Let_def)
  then show ?case
  proof
    assume "gs \<in> set (subseqs (map f xs))"
    with Cons.IH obtain ys where "ys \<in> set (subseqs xs)" "gs = map f ys" by blast
    then show ?case by (intro exI [of _ ys]) (simp add: Let_def)
  next
    assume "\<exists>hs. hs \<in> set (subseqs (map f xs)) \<and> gs = f x # hs"
    with Cons.IH obtain ys where "ys \<in> set (subseqs xs)" "gs = map f (x # ys)" by auto
    then show ?case by (intro exI [of _ "x # ys"]) (simp add: Let_def)
  qed
qed simp


text \<open>Content counts as local only when it is: the entry's file exists, can be read, has the recorded size when
  one is recorded, and hashes to the recorded digest.\<close>

theorem local_entry_is_content:
  "CacheEntryIsLocal sha s stat fs e \<longleftrightarrow>
   (\<exists>b n. ce_path e \<noteq> [] \<and> ce_sha256 e \<noteq> [] \<and> fs (ce_path e) = Some b \<and> os_read_ok s (ce_path e) \<and>
      stat (ce_path e) = Some (False, n) \<and> ce_size_bytes e \<in> {0, n} \<and> hex_encode (sha b) = ce_sha256 e)"
  by (auto simp: CacheEntryIsLocal_def FileSHA256_def read_file_def split: option.splits if_splits)

section \<open>Concrete inputs\<close>

definition good_steps :: save_steps where
  "good_steps = \<lparr>sv_mkdir = True, sv_temp = Some ''/t'', sv_write = None, sv_chmod_temp = True, sv_close = True,
     sv_rename = True, sv_remove = True, sv_chmod = True\<rparr>"

definition demo_cached :: CacheEntry where
  "demo_cached = \<lparr>ce_path = ''/o'', ce_size_bytes = 1, ce_sha256 = ''aa'', ce_file_name = ''f'', ce_pulled_at = 0\<rparr>"

text \<open>An encoding of two manifests: the empty one and one entry.\<close>

definition demo_un :: "bytes \<Rightarrow> CacheManifest option" where
  "demo_un b = (if b = ''0'' @ [CHR 0x0A] then Some fmempty
     else if b = ''1'' @ [CHR 0x0A] then Some (fmupd ''s'' demo_cached fmempty) else None)"

definition demo_mar :: "CacheManifest \<Rightarrow> bytes option" where
  "demo_mar m = (if m = fmempty then Some ''0''
     else if m = fmupd ''s'' demo_cached fmempty then Some ''1'' else None)"

lemma demo_renders: "renders demo_un demo_mar m"
  by (auto simp: renders_def demo_un_def demo_mar_def split: option.splits)

lemma manifest_save_atomic_witness:
  "LoadCacheManifestAt demo_un demo_os (fst (SaveCacheManifestAt demo_mar (good_steps\<lparr>sv_write := Some 0\<rparr>)
      Map.empty ''/m'' (fmupd ''s'' demo_cached fmempty))) ''/m''
   \<in> {LoadCacheManifestAt demo_un demo_os Map.empty ''/m'', Inr (fmupd ''s'' demo_cached fmempty)}"
  by (rule manifest_save_atomic [OF demo_renders]) (simp_all add: good_steps_def demo_os_def)


end
