(* ===== verification/ContentClass.thy ===== *)
theory ContentClass
  imports GoPath
begin

text \<open>
  The class a file is announced with (\<open>contentclass.go\<close>): by the suffix of its name, then by tables of text
  extensions and base names, then by its MIME type. The system's MIME table is a parameter.
\<close>

definition textFileExtensions :: "string list" where
  "textFileExtensions =
    [''.go'', ''.py'', ''.pyw'', ''.pyi'', ''.rb'', ''.php'', ''.phtml'', ''.pl'', ''.pm'', ''.lua'',
     ''.tcl'', ''.js'', ''.mjs'', ''.cjs'', ''.jsx'', ''.ts'', ''.tsx'', ''.mts'', ''.cts'', ''.c'',
     ''.h'', ''.cpp'', ''.cxx'', ''.cc'', ''.hpp'', ''.hxx'', ''.hh'', ''.cs'', ''.m'', ''.mm'',
     ''.java'', ''.kt'', ''.kts'', ''.scala'', ''.groovy'', ''.swift'', ''.rs'', ''.dart'', ''.r'', ''.jl'',
     ''.ex'', ''.exs'', ''.erl'', ''.hrl'', ''.clj'', ''.cljs'', ''.cljc'', ''.edn'', ''.hs'', ''.ml'',
     ''.mli'', ''.fs'', ''.fsx'', ''.fsi'', ''.vb'', ''.pas'', ''.d'', ''.nim'', ''.zig'', ''.v'',
     ''.sql'', ''.vhd'', ''.vhdl'', ''.sv'', ''.asm'', ''.s'', ''.lisp'', ''.el'', ''.scm'', ''.rkt'',
     ''.sh'', ''.bash'', ''.zsh'', ''.fish'', ''.ksh'', ''.ps1'', ''.psm1'', ''.psd1'', ''.bat'', ''.cmd'',
     ''.awk'', ''.sed'', ''.html'', ''.htm'', ''.xhtml'', ''.css'', ''.scss'', ''.sass'', ''.less'', ''.styl'',
     ''.vue'', ''.svelte'', ''.astro'', ''.xml'', ''.xsl'', ''.xslt'', ''.rss'', ''.atom'', ''.toml'', ''.ini'',
     ''.cfg'', ''.conf'', ''.config'', ''.properties'', ''.env'', ''.editorconfig'', ''.lock'', ''.tf'', ''.tfvars'', ''.hcl'',
     ''.proto'', ''.graphql'', ''.gql'', ''.cmake'', ''.mk'', ''.gradle'', ''.bazel'', ''.bzl'', ''.dockerfile'', ''.containerfile'',
     ''.npmrc'', ''.nvmrc'', ''.prettierrc'', ''.eslintrc'', ''.babelrc'', ''.rst'', ''.adoc'', ''.asciidoc'', ''.tex'', ''.ltx'',
     ''.org'', ''.srt'', ''.vtt'', ''.diff'', ''.patch'', ''.ics'', ''.vcf'', ''.nfo'', ''.tsv'', ''.plist'',
     ''.gitignore'', ''.gitattributes'', ''.dockerignore'', ''.npmignore'']"

definition jsonFileExtensions :: "string list" where
  "jsonFileExtensions = [''.jsonl'', ''.ndjson'', ''.json5'', ''.jsonc'', ''.geojson'']"

definition textFileBasenames :: "string list" where
  "textFileBasenames =
    [''dockerfile'', ''makefile'', ''gnumakefile'', ''rakefile'', ''gemfile'', ''procfile'', ''jenkinsfile'', ''vagrantfile'',
     ''brewfile'', ''license'', ''readme'', ''changelog'', ''authors'', ''notice'', ''copying'', ''todo'']"

text \<open>The cases of the first switch, in order.\<close>

definition suffix_classes :: "(string list \<times> string) list" where
  "suffix_classes =
    [([''.tar.gz'', ''.tgz''], ''targz''), ([''.tar.bz2'', ''.tbz2''], ''tarbz2''),
     ([''.png'', ''.jpg'', ''.jpeg'', ''.gif'', ''.webp''], ''image''), ([''.pdf''], ''pdf''), ([''.svg''], ''binary''),
     ([''.zip''], ''zip''), ([''.7z''], ''7z''), ([''.tar''], ''tar''), ([''.mdx''], ''form''),
     ([''.md'', ''.markdown''], ''markdown''), ([''.yml'', ''.yaml''], ''text''), ([''.log''], ''log''),
     ([''.csv''], ''csv''), ([''.json''], ''json''), ([''.txt'', ''.text''], ''text'')]"

text \<open>The cases of the MIME switch; the two compressed-archive cases that look at the name come after it.\<close>

definition media_classes :: "(string list \<times> string) list" where
  "media_classes =
    [([''text/plain''], ''text''), ([''text/x-log'', ''application/log''], ''log''),
     ([''text/yaml'', ''text/x-yaml'', ''application/x-yaml'', ''application/yaml''], ''text''),
     ([''text/csv''], ''csv''), ([''application/json''], ''json''), ([''text/markdown'', ''text/x-markdown''], ''markdown''),
     ([''image/png'', ''image/jpeg'', ''image/gif'', ''image/webp''], ''image''), ([''image/svg+xml''], ''binary''),
     ([''application/pdf''], ''pdf''), ([''application/zip'', ''application/x-zip-compressed''], ''zip''),
     ([''application/x-7z-compressed''], ''7z''), ([''application/x-tar''], ''tar'')]"

fun first_case :: "('a \<Rightarrow> bool) \<Rightarrow> ('a list \<times> 'b) list \<Rightarrow> 'b option" where
  "first_case P [] = None"
| "first_case P ((xs, c) # rest) = (if list_ex P xs then Some c else first_case P rest)"

definition hasTarStem :: "string \<Rightarrow> string \<Rightarrow> bool" where
  "hasTarStem name suffix = (if \<not> has_suffix name suffix then False else has_suffix (trim_suffix name suffix) ''.tar'')"

definition media_type :: "(string \<Rightarrow> string) \<Rightarrow> string \<Rightarrow> string \<Rightarrow> string" where
  "media_type mime name contentType =
     (let m = to_lower (trim_space (takeWhile (\<lambda>c. c \<noteq> CHR '';'') contentType)) in
      if m = [] then to_lower (mime (Ext name)) else m)"

definition ContentClassForNameAndType :: "(string \<Rightarrow> string) \<Rightarrow> string \<Rightarrow> string \<Rightarrow> string" where
  "ContentClassForNameAndType mime name contentType =
     (let n = to_lower (trim_space name) in
      case first_case (has_suffix n) suffix_classes of
        Some c \<Rightarrow> c
      | None \<Rightarrow>
          if Ext n \<in> set jsonFileExtensions then ''json''
          else if Ext n \<in> set textFileExtensions \<or> Base n \<in> set textFileBasenames then ''text''
          else (let m = media_type mime name contentType in
            case first_case (\<lambda>t. m = t) media_classes of
              Some c \<Rightarrow> c
            | None \<Rightarrow>
                if m = ''application/gzip'' then (if hasTarStem n ''.gz'' then ''targz'' else ''binary'')
                else if m = ''application/x-bzip2'' then (if hasTarStem n ''.bz2'' then ''tarbz2'' else ''binary'')
                else ''binary''))"

section \<open>Facts\<close>

lemma first_case_Some: "first_case P cs = Some c \<Longrightarrow> \<exists>xs x. (xs, c) \<in> set cs \<and> x \<in> set xs \<and> P x"
  by (induction P cs rule: first_case.induct) (auto simp: list_ex_iff split: if_splits)

lemma first_case_None: "first_case P cs = None \<longleftrightarrow> (\<forall>(xs, c)\<in>set cs. \<forall>x\<in>set xs. \<not> P x)"
  by (induction P cs rule: first_case.induct) (auto simp: list_ex_iff)

lemma has_suffix_iff: "has_suffix s p \<longleftrightarrow> (\<exists>t. s = t @ p)"
  by (auto simp: has_suffix_def) (metis append_take_drop_id)

lemma not_suffix: "first_case (has_suffix n) cs = None \<Longrightarrow> (xs, c) \<in> set cs \<Longrightarrow> x \<in> set xs \<Longrightarrow> \<not> has_suffix n x"
  by (auto simp: first_case_None)

lemma has_suffix_eq: "has_suffix s a \<Longrightarrow> has_suffix s b \<Longrightarrow> length a \<ge> length b \<Longrightarrow> drop (length a - length b) a = b"
  by (auto simp: has_suffix_iff append_eq_append_conv2)

lemma suffix_image: "(xs, ''image'') \<in> set suffix_classes \<Longrightarrow> xs = [''.png'', ''.jpg'', ''.jpeg'', ''.gif'', ''.webp'']"
  by (auto simp: suffix_classes_def)

lemma image_not_svg:
  assumes "x \<in> {''.png'', ''.jpg'', ''.jpeg'', ''.gif'', ''.webp''}" "has_suffix n x"
  shows "\<not> has_suffix n ''.svg''"
proof
  assume "has_suffix n ''.svg''"
  from has_suffix_eq [OF assms(2) this] assms(1) have "drop (length x - 4) x = ''.svg''" by auto
  then show False using assms(1) by auto
qed

lemma media_image: "(xs, ''image'') \<in> set media_classes \<Longrightarrow> xs = [''image/png'', ''image/jpeg'', ''image/gif'', ''image/webp'']"
  by (auto simp: media_classes_def)

section \<open>Properties\<close>

text \<open>Only raster pictures are announced as images: a file classed \<open>image\<close> has the suffix or the MIME type of a
  PNG, JPEG, GIF or WebP, and never the name of an SVG, whatever MIME type it comes with.\<close>

theorem image_only_raster:
  assumes "ContentClassForNameAndType mime name ct = ''image''"
  shows "(list_ex (has_suffix (to_lower (trim_space name))) [''.png'', ''.jpg'', ''.jpeg'', ''.gif'', ''.webp''] \<or>
      media_type mime name ct \<in> {''image/png'', ''image/jpeg'', ''image/gif'', ''image/webp''}) \<and>
    \<not> has_suffix (to_lower (trim_space name)) ''.svg''"
proof (cases "first_case (has_suffix (to_lower (trim_space name))) suffix_classes")
  case None
  then have "\<not> has_suffix (to_lower (trim_space name)) ''.svg''"
    by (rule not_suffix [where xs = "[''.svg'']" and c = "''binary''"]) (simp_all add: suffix_classes_def)
  moreover from None assms have "first_case (\<lambda>t. media_type mime name ct = t) media_classes = Some ''image''"
    by (auto simp: ContentClassForNameAndType_def Let_def split: if_splits option.splits)
  ultimately show ?thesis by (auto dest!: first_case_Some media_image)
next
  case (Some c)
  with assms have "c = ''image''" by (simp add: ContentClassForNameAndType_def Let_def)
  with Some obtain xs x where xs: "(xs, ''image'') \<in> set suffix_classes" "x \<in> set xs"
    and h: "has_suffix (to_lower (trim_space name)) x" by (blast dest: first_case_Some)
  from xs(2) have x: "x \<in> {''.png'', ''.jpg'', ''.jpeg'', ''.gif'', ''.webp''}" unfolding suffix_image [OF xs(1)] by simp
  then have "x \<in> set [''.png'', ''.jpg'', ''.jpeg'', ''.gif'', ''.webp'']" by simp
  with h have "list_ex (has_suffix (to_lower (trim_space name))) [''.png'', ''.jpg'', ''.jpeg'', ''.gif'', ''.webp'']"
    unfolding list_ex_iff by blast
  with image_not_svg [OF x h] show ?thesis by blast
qed

text \<open>The archive cases of the MIME switch are never taken: a name with such a stem was classed before.\<close>

lemma hasTarStem_suffix: "hasTarStem n e \<Longrightarrow> has_suffix n (''.tar'' @ e)"
  by (auto simp: hasTarStem_def trim_suffix_def has_suffix_iff split: if_splits)

lemma tar_stem_before:
  assumes "first_case (has_suffix n) suffix_classes = None"
  shows "\<not> hasTarStem n ''.gz'' \<and> \<not> hasTarStem n ''.bz2''"
proof -
  have "\<not> has_suffix n ''.tar.gz''" "\<not> has_suffix n ''.tar.bz2''"
    by (rule not_suffix [OF assms, where xs = "[''.tar.gz'', ''.tgz'']" and c = "''targz''"]; simp add: suffix_classes_def)
      (rule not_suffix [OF assms, where xs = "[''.tar.bz2'', ''.tbz2'']" and c = "''tarbz2''"]; simp add: suffix_classes_def)
  then show ?thesis using hasTarStem_suffix [of n "''.gz''"] hasTarStem_suffix [of n "''.bz2''"] by auto
qed

lemma image_only_raster_witness:
  "\<not> has_suffix (to_lower (trim_space ''a.png'')) ''.svg'' \<and> ContentClassForNameAndType (\<lambda>_. []) ''a.png'' ''image/svg+xml'' = ''image''"
proof -
  have n: "trim_space ''a.png'' = ''a.png''" "to_lower ''a.png'' = ''a.png''"
    by (simp_all add: trim_space_ascii_id to_lower_ascii is_space_def lower_char_def of_char_Char horner_sum_simps)
  have "ContentClassForNameAndType (\<lambda>_. []) ''a.png'' ''image/svg+xml'' = ''image''"
    by (simp add: ContentClassForNameAndType_def n suffix_classes_def has_suffix_def)
  then show ?thesis using image_only_raster [of "\<lambda>_. []" "''a.png''" "''image/svg+xml''"] by blast
qed

end
