(* ===== verification/Login.thy ===== *)
theory Login
  imports Store Hop
begin

text \<open>
  What a login prepares and accepts: the signing key kept across logins (\<open>login_signing.go\<close>), personal access
  tokens (\<open>apitoken.go\<close>), generated passphrases (\<open>lanshare/passphrase.go\<close>). Key generation, deriving a key
  from its seed and the word list are parameters.
\<close>

section \<open>The signing key of a login\<close>

definition empty_credential :: Credential where
  "empty_credential = \<lparr>cr_schema = 0, cr_api_base = [], cr_token = [], cr_email = [], cr_account_id = [],
     cr_device_session_id = [], cr_device_public = [], cr_device_private = [], cr_signing_public = [],
     cr_signing_private = []\<rparr>"

datatype login_err = LoadLogin file_err | BadSigningKey key_err | SaveLogin file_err

text \<open>\<open>from_seed\<close> is \<open>ed25519.NewKeyFromSeed\<close>: the seed followed by the public key.\<close>

definition loginSigningKey :: "(bytes \<Rightarrow> bytes) \<Rightarrow> (bytes \<times> bytes) option \<Rightarrow> Credential \<Rightarrow> key_err + string \<times> string" where
  "loginSigningKey from_seed gen cred =
     (if cr_signing_private cred = [] then NewSigningKeyPair gen
      else (case decodeSigningPrivateKey (cr_signing_private cred) of
          Inl e \<Rightarrow> Inl e
        | Inr raw \<Rightarrow> (let priv = from_seed (take 32 raw) in
            Inr (b64_encode StdEncoding (drop 32 priv), b64_encode StdEncoding priv))))"

definition PrepareLoginSigningKey ::
  "cred_codec \<Rightarrow> os \<Rightarrow> (bytes \<Rightarrow> bytes) \<Rightarrow> (bytes \<times> bytes) option \<Rightarrow> files \<Rightarrow> files \<times> (login_err + string \<times> string)" where
  "PrepareLoginSigningKey cc s from_seed gen fs =
     (case LoadCredential cc s fs of (fs1, r) \<Rightarrow>
        (case (case r of Inr c \<Rightarrow> Inr c | Inl e \<Rightarrow> if e = NotExist then Inr empty_credential else Inl e) of
           Inl e \<Rightarrow> (fs1, Inl (LoadLogin e))
         | Inr cred \<Rightarrow>
             (case loginSigningKey from_seed gen cred of
                Inl e \<Rightarrow> (fs1, Inl (BadSigningKey e))
              | Inr (pub, priv) \<Rightarrow>
                  (case SaveCredential cc s fs1 (cred\<lparr>cr_signing_public := pub, cr_signing_private := priv\<rparr>) of
                     (fs2, Some e) \<Rightarrow> (fs2, Inl (SaveLogin e))
                   | (fs2, None) \<Rightarrow> (fs2, Inr (pub, priv))))))"

section \<open>Access tokens and passphrases\<close>

definition APITokenPrefix :: string where "APITokenPrefix = ''s2u_pat_''"

definition EnvAPIToken :: "(string \<Rightarrow> string) \<Rightarrow> string" where
  "EnvAPIToken env = trim_space (env ''SHARE2US_API_TOKEN'')"

definition IsAPIToken :: "string \<Rightarrow> bool" where
  "IsAPIToken token = has_prefix (trim_space token) APITokenPrefix"

definition DefaultPassphraseWords :: int where "DefaultPassphraseWords = 10"

fun join_with :: "string \<Rightarrow> string list \<Rightarrow> string" where
  "join_with d [] = []"
| "join_with d [w] = w"
| "join_with d (w # v # ws) = w @ d @ join_with d (v # ws)"

text \<open>\<open>generate n\<close> draws \<open>n\<close> words.\<close>

definition GeneratePassphrase :: "(int \<Rightarrow> string list option) \<Rightarrow> int \<Rightarrow> string option" where
  "GeneratePassphrase generate n =
     map_option (join_with ''-'') (generate (if n \<le> 0 then DefaultPassphraseWords else n))"

section \<open>Facts\<close>

text \<open>A credential as it stands in the file.\<close>

definition stored :: "Credential \<Rightarrow> Credential" where
  "stored c = (if cr_api_base c = [] then c\<lparr>cr_api_base := DefaultAPIBase\<rparr> else c)\<lparr>cr_schema := CredentialSchemaVersion\<rparr>"

lemma stored_stored: "stored (stored c) = stored c"
  by (simp add: stored_def DefaultAPIBase_def)

lemma SaveCredentialAt_stored:
  "SaveCredentialAt cc s fs path c = (case cc_mar cc (stored c) of
     None \<Rightarrow> (fs, Some RenderError) | Some raw \<Rightarrow> write_file s fs path (raw @ [CHR 0x0A]))"
  by (simp add: SaveCredentialAt_def stored_def Let_def)

lemma SaveCredential_Load:
  assumes "SaveCredential cc s fs c = (fs', None)" "CredentialPath s = Inr path" "os_read_ok s path"
    and "\<And>c b. cc_mar cc c = Some b \<Longrightarrow> cc_un cc (b @ [CHR 0x0A]) = Some c"
  shows "LoadCredential cc s fs' = (fs', Inr (stored c))"
proof -
  from assms(1,2) obtain b where "cc_mar cc (stored c) = Some b" "write_file s fs path (b @ [CHR 0x0A]) = (fs', None)"
    by (auto simp: SaveCredential_def SaveCredentialAt_stored split: option.splits)
  moreover from this have "read_file s fs' path = Inr (b @ [CHR 0x0A])" using disk.rd_wr assms(3) by blast
  moreover have "migrateCredential (stored c) = (stored c, False)"
    by (simp add: migrateCredential_def stored_def CredentialSchemaVersion_def)
  ultimately show ?thesis using assms(2,4) by (simp add: LoadCredential_def LoadCredentialAt_def)
qed

lemma decodeSigningPrivateKey_encode:
  "length k = 64 \<Longrightarrow> decodeSigningPrivateKey (b64_encode StdEncoding k) = Inr k"
  by (simp add: decodeSigningPrivateKey_def)

lemma b64_nonempty: "k \<noteq> [] \<Longrightarrow> b64_encode e k \<noteq> []"
  by (cases "(e, k)" rule: b64_encode.cases) (simp_all add: Let_def)

text \<open>A pair that is stored comes back as it is.\<close>

lemma loginSigningKey_again:
  assumes seed: "\<And>sd. length (from_seed sd) = 64" "\<And>sd. from_seed (take 32 (from_seed sd)) = from_seed sd"
    and gen: "\<And>pub priv. gen = Some (pub, priv) \<Longrightarrow> (\<exists>sd. priv = from_seed sd) \<and> pub = drop 32 priv"
    and r: "loginSigningKey from_seed gen c = Inr (pub, priv)" and c: "cr_signing_private c' = priv"
  shows "loginSigningKey from_seed gen' c' = Inr (pub, priv)"
proof -
  from r have "\<exists>sd. priv = b64_encode StdEncoding (from_seed sd) \<and> pub = b64_encode StdEncoding (drop 32 (from_seed sd))"
    by (auto simp: loginSigningKey_def NewSigningKeyPair_def Let_def split: if_splits sum.splits option.splits dest: gen)
  then obtain sd where sd: "priv = b64_encode StdEncoding (from_seed sd)" "pub = b64_encode StdEncoding (drop 32 (from_seed sd))"
    by blast
  moreover have "from_seed sd \<noteq> []" using seed(1) [of sd] by auto
  ultimately show ?thesis using c seed
    by (simp add: loginSigningKey_def b64_nonempty decodeSigningPrivateKey_encode Let_def)
qed

section \<open>Properties\<close>

text \<open>A device keeps its signing key from login to login: after \<open>PrepareLoginSigningKey\<close> returned a pair, the
  saved credential differs from the one before only in the pair (and in the defaults every save fills in), and
  preparing again returns the same pair and leaves the file's credential as it is. (Laws: a rendered credential
  parses back; an Ed25519 key is its seed and the public key derived from it.)\<close>

theorem login_key_stable:
  assumes law: "\<And>c b. cc_mar cc c = Some b \<Longrightarrow> cc_un cc (b @ [CHR 0x0A]) = Some c"
    and path: "CredentialPath s = Inr path" "os_read_ok s path"
    and seed: "\<And>sd. length (from_seed sd) = 64" "\<And>sd. from_seed (take 32 (from_seed sd)) = from_seed sd"
    and gen: "\<And>pub priv. gen = Some (pub, priv) \<Longrightarrow> (\<exists>sd. priv = from_seed sd) \<and> pub = drop 32 priv"
    and run: "PrepareLoginSigningKey cc s from_seed gen fs = (fs2, Inr (pub, priv))"
  shows "\<exists>c. LoadCredential cc s fs2 = (fs2, Inr (stored (c\<lparr>cr_signing_public := pub, cr_signing_private := priv\<rparr>))) \<and>
      snd (LoadCredential cc s fs) \<in> {Inr c, Inl NotExist} \<and>
      snd (PrepareLoginSigningKey cc s from_seed gen' fs2) = Inr (pub, priv) \<and>
      snd (LoadCredential cc s (fst (PrepareLoginSigningKey cc s from_seed gen' fs2))) = snd (LoadCredential cc s fs2)"
proof -
  obtain fs1 r where l: "LoadCredential cc s fs = (fs1, r)" by fastforce
  define ok where "ok = (case r of Inr c \<Rightarrow> Inr c | Inl e \<Rightarrow> if e = NotExist then Inr empty_credential else Inl e)"
  from run l obtain cred where c: "ok = Inr cred" and k: "loginSigningKey from_seed gen cred = Inr (pub, priv)"
    and w: "SaveCredential cc s fs1 (cred\<lparr>cr_signing_public := pub, cr_signing_private := priv\<rparr>) = (fs2, None)"
    unfolding PrepareLoginSigningKey_def by (auto simp: ok_def split: sum.splits prod.splits option.splits if_splits)
  define d where "d = stored (cred\<lparr>cr_signing_public := pub, cr_signing_private := priv\<rparr>)"
  have load: "LoadCredential cc s fs2 = (fs2, Inr d)" unfolding d_def by (rule SaveCredential_Load [OF w path law])
  have k': "loginSigningKey from_seed gen' d = Inr (pub, priv)"
    by (rule loginSigningKey_again [OF seed gen k]) (auto simp: d_def stored_def)
  have d: "d\<lparr>cr_signing_public := pub, cr_signing_private := priv\<rparr> = d" by (simp add: d_def stored_def)
  obtain fs3 e where w3: "SaveCredential cc s fs2 d = (fs3, e)" by fastforce
  from w path(1) have "cc_mar cc d \<noteq> None" "os_write_ok s path"
    by (auto simp: SaveCredential_def SaveCredentialAt_stored d_def write_file_def split: option.splits if_splits)
  moreover have "stored d = d" by (simp add: d_def stored_stored)
  ultimately have "e = None" using w3 path(1)
    by (auto simp: SaveCredential_def SaveCredentialAt_stored write_file_def)
  then have "PrepareLoginSigningKey cc s from_seed gen' fs2 = (fs3, Inr (pub, priv))"
    "LoadCredential cc s fs3 = (fs3, Inr (stored d))"
    using w3 SaveCredential_Load [OF _ path law] by (simp_all add: PrepareLoginSigningKey_def load k' d)
  moreover have "snd (LoadCredential cc s fs) \<in> {Inr cred, Inl NotExist}"
    using c l by (auto simp: ok_def split: sum.splits if_splits)
  ultimately show ?thesis using load by (intro exI [of _ cred]) (simp add: d_def stored_stored)
qed

text \<open>A passphrase shows its words.\<close>

lemma filter_absent: "d \<notin> set x \<Longrightarrow> filter (\<lambda>c. c = d) x = []"
  by (induction x) auto

lemma passphrase_words:
  "list_all (\<lambda>w. CHR ''-'' \<notin> set w) ws \<Longrightarrow> length (filter (\<lambda>c. c = CHR ''-'') (join_with ''-'' ws)) = length ws - 1"
  by (induction ws rule: induct_list012) (auto simp: filter_absent)

section \<open>Concrete inputs\<close>

definition demo_seed :: "bytes \<Rightarrow> bytes" where
  "demo_seed sd = (if sd = replicate 32 CHR ''s'' then replicate 32 CHR ''s'' @ replicate 32 CHR ''p'' else replicate 64 CHR ''q'')"

definition demo_saved :: Credential where
  "demo_saved = (stored empty_credential)\<lparr>
     cr_signing_public := b64_encode StdEncoding (replicate 32 CHR ''p''),
     cr_signing_private := b64_encode StdEncoding (demo_seed (replicate 32 CHR ''s''))\<rparr>"

definition demo_logins :: cred_codec where
  "demo_logins = \<lparr>cc_un = (\<lambda>b. if b = ''L'' @ [CHR 0x0A] then Some demo_saved else None),
     cc_mar = (\<lambda>c. if c = demo_saved then Some ''L'' else None)\<rparr>"

definition demo_gen :: "(bytes \<times> bytes) option" where
  "demo_gen = Some (replicate 32 CHR ''p'', demo_seed (replicate 32 CHR ''s''))"

lemma demo_prepare:
  "PrepareLoginSigningKey demo_logins demo_os demo_seed demo_gen Map.empty =
     ([''/home/a/.config/share2us/credentials.json'' \<mapsto> ''L'' @ [CHR 0x0A]],
      Inr (b64_encode StdEncoding (replicate 32 CHR ''p''), b64_encode StdEncoding (demo_seed (replicate 32 CHR ''s''))))"
proof -
  have "LoadCredential demo_logins demo_os Map.empty = (Map.empty, Inl NotExist)"
    by (simp add: LoadCredential_def demo_paths LoadCredentialAt_def read_file_def)
  moreover have "stored (empty_credential\<lparr>cr_signing_public := b64_encode StdEncoding (replicate 32 CHR ''p''),
      cr_signing_private := b64_encode StdEncoding (demo_seed (replicate 32 CHR ''s''))\<rparr>) = demo_saved"
    unfolding demo_saved_def stored_def empty_credential_def by simp
  then have "SaveCredential demo_logins demo_os Map.empty (empty_credential\<lparr>
      cr_signing_public := b64_encode StdEncoding (replicate 32 CHR ''p''),
      cr_signing_private := b64_encode StdEncoding (demo_seed (replicate 32 CHR ''s''))\<rparr>) =
      ([''/home/a/.config/share2us/credentials.json'' \<mapsto> ''L'' @ [CHR 0x0A]], None)"
    by (simp add: SaveCredential_def demo_paths SaveCredentialAt_stored) (simp add: demo_logins_def write_file_def)
  moreover have "loginSigningKey demo_seed demo_gen empty_credential =
      Inr (b64_encode StdEncoding (replicate 32 CHR ''p''), b64_encode StdEncoding (demo_seed (replicate 32 CHR ''s'')))"
    by (simp only: loginSigningKey_def NewSigningKeyPair_def demo_gen_def) (simp add: empty_credential_def)
  ultimately show ?thesis unfolding PrepareLoginSigningKey_def by (simp only: prod.case sum.case) simp
qed

lemma demo_seed_laws: "length (demo_seed sd) = 64" "demo_seed (take 32 (demo_seed sd)) = demo_seed sd"
proof -
  have "replicate 32 CHR ''q'' \<noteq> replicate 32 CHR ''s''" by (simp add: replicate_eq_replicate)
  then show "length (demo_seed sd) = 64" "demo_seed (take 32 (demo_seed sd)) = demo_seed sd"
    by (simp_all add: demo_seed_def)
qed

lemma demo_gen_law: "demo_gen = Some (pub, priv) \<Longrightarrow> (\<exists>sd. priv = demo_seed sd) \<and> pub = drop 32 priv"
  by (auto simp: demo_gen_def demo_seed_def)

lemma demo_logins_law: "cc_mar demo_logins c = Some b \<Longrightarrow> cc_un demo_logins (b @ [CHR 0x0A]) = Some c"
  by (auto simp: demo_logins_def split: if_splits)

lemma login_key_stable_witness:
  "snd (PrepareLoginSigningKey demo_logins demo_os demo_seed None
      [''/home/a/.config/share2us/credentials.json'' \<mapsto> ''L'' @ [CHR 0x0A]]) =
    Inr (b64_encode StdEncoding (replicate 32 CHR ''p''), b64_encode StdEncoding (demo_seed (replicate 32 CHR ''s'')))"
proof -
  have "\<exists>c. LoadCredential demo_logins demo_os [''/home/a/.config/share2us/credentials.json'' \<mapsto> ''L'' @ [CHR 0x0A]] =
       ([''/home/a/.config/share2us/credentials.json'' \<mapsto> ''L'' @ [CHR 0x0A]], Inr (stored (c\<lparr>
         cr_signing_public := b64_encode StdEncoding (replicate 32 CHR ''p''),
         cr_signing_private := b64_encode StdEncoding (demo_seed (replicate 32 CHR ''s''))\<rparr>))) \<and>
     snd (LoadCredential demo_logins demo_os Map.empty) \<in> {Inr c, Inl NotExist} \<and>
     snd (PrepareLoginSigningKey demo_logins demo_os demo_seed None
       [''/home/a/.config/share2us/credentials.json'' \<mapsto> ''L'' @ [CHR 0x0A]]) =
       Inr (b64_encode StdEncoding (replicate 32 CHR ''p''), b64_encode StdEncoding (demo_seed (replicate 32 CHR ''s''))) \<and>
     snd (LoadCredential demo_logins demo_os (fst (PrepareLoginSigningKey demo_logins demo_os demo_seed None
       [''/home/a/.config/share2us/credentials.json'' \<mapsto> ''L'' @ [CHR 0x0A]]))) =
     snd (LoadCredential demo_logins demo_os [''/home/a/.config/share2us/credentials.json'' \<mapsto> ''L'' @ [CHR 0x0A]])"
    by (rule login_key_stable [where gen = demo_gen, OF _ demo_paths(3) _ _ _ _ demo_prepare])
      (rule demo_logins_law demo_os_ok demo_seed_laws demo_gen_law; assumption?)+
  then show ?thesis by blast
qed

end
