(* ===== verification/Daemon.thy ===== *)
theory Daemon
  imports Config
begin

text \<open>
  Control of the background daemon (\<open>daemonctl/daemonctl.go\<close>, \<open>transport_unix.go\<close>): the token file, one
  request and its answer at both ends, and the socket that keeps a second daemon out, as a step relation over
  the system calls of several starting daemons. JSON is a parameter.
\<close>

section \<open>Messages\<close>

record Request =
  ct_token :: string
  ct_op :: string
  ct_args :: "(string, string) fmap"
  ct_peer_pid :: int

record Response =
  rp_ok :: bool
  rp_pid :: int
  rp_version :: string
  rp_owns_lan :: bool
  rp_owns_inbox :: bool
  rp_since :: string
  rp_err :: string
  rp_data :: string

definition err_response :: "string \<Rightarrow> Response" where
  "err_response e = \<lparr>rp_ok = False, rp_pid = 0, rp_version = [], rp_owns_lan = False, rp_owns_inbox = False,
     rp_since = [], rp_err = e, rp_data = []\<rparr>"

record control_codec =
  kc_un_request :: "bytes \<Rightarrow> Request option"
  kc_mar_request :: "Request \<Rightarrow> bytes"
  kc_un_response :: "bytes \<Rightarrow> Response option"
  kc_mar_response :: "Response \<Rightarrow> bytes"

text \<open>Timeouts in nanoseconds.\<close>

definition dialTimeout :: int where "dialTimeout = 400 * 1000000"
definition channelCallTimeout :: int where "channelCallTimeout = 12 * 1000000000"

definition requestTimeout :: "string \<Rightarrow> int" where
  "requestTimeout op = (if op \<in> {''channel-poll'', ''channel-report'', ''channel-turn-ended'', ''channel-abandon-typed'',
     ''channel-guard-ready''} then channelCallTimeout else dialTimeout)"

section \<open>The token\<close>

text \<open>\<open>rnd\<close> are the 32 random bytes, \<open>None\<close> when the source fails.\<close>

definition LoadOrCreateToken :: "os \<Rightarrow> files \<Rightarrow> bytes option \<Rightarrow> files \<times> (file_err + string)" where
  "LoadOrCreateToken s fs rnd = (case DaemonTokenPath s of
     Inl e \<Rightarrow> (fs, Inl e)
   | Inr path \<Rightarrow>
       (let held = (case read_file s fs path of Inl _ \<Rightarrow> [] | Inr b \<Rightarrow> trim_space b) in
        if held \<noteq> [] then (fs, Inr held)
        else (case rnd of
            None \<Rightarrow> (fs, Inl IOError)
          | Some buf \<Rightarrow> (case write_file s fs path (hex_encode buf @ [CHR 0x0A]) of
              (fs1, Some e) \<Rightarrow> (fs1, Inl e) | (fs1, None) \<Rightarrow> (fs1, Inr (hex_encode buf))))))"

section \<open>One request\<close>

text \<open>\<open>ReadBytes('\n')\<close>: the bytes up to and with the first newline, or everything there is.\<close>

definition read_line :: "bytes \<Rightarrow> bytes" where
  "read_line inp = takeWhile (\<lambda>c. c \<noteq> CHR 0x0A) inp @ (if CHR 0x0A \<in> set inp then [CHR 0x0A] else [])"

text \<open>The handler works on a state of the daemon; \<open>pid\<close> is the peer's, 0 when unknown.\<close>

definition handle_control ::
  "control_codec \<Rightarrow> string \<Rightarrow> ('st \<Rightarrow> Request \<Rightarrow> 'st \<times> Response) \<Rightarrow> int \<Rightarrow> 'st \<Rightarrow> bytes \<Rightarrow> 'st \<times> bytes" where
  "handle_control kc token handler pid st inp =
     (let line = read_line inp; reply = (\<lambda>r. kc_mar_response kc r @ [CHR 0x0A]) in
      if line = [] then (st, [])
      else (case kc_un_request kc line of
          None \<Rightarrow> (st, reply (err_response ''bad request''))
        | Some req \<Rightarrow>
            if ct_token req \<noteq> token then (st, reply (err_response ''unauthorized''))
            else (let (st', r) = handler st (req\<lparr>ct_peer_pid := pid\<rparr>) in (st', reply r))))"

text \<open>The other end; \<open>server\<close> is what stands behind the endpoint, \<open>None\<close> when nothing answers there.\<close>

definition dial_control ::
  "control_codec \<Rightarrow> ('st \<Rightarrow> bytes \<Rightarrow> 'st \<times> bytes) option \<Rightarrow> string \<Rightarrow> Request \<Rightarrow> 'st \<Rightarrow> 'st \<times> Response option" where
  "dial_control kc server token req st = (case server of
     None \<Rightarrow> (st, None)
   | Some serve \<Rightarrow>
       (let (st', out) = serve st (kc_mar_request kc (req\<lparr>ct_token := token\<rparr>) @ [CHR 0x0A]); line = read_line out in
        (st', if line = [] then None else kc_un_response kc line)))"

definition Call ::
  "control_codec \<Rightarrow> os \<Rightarrow> bytes option \<Rightarrow> ('st \<Rightarrow> bytes \<Rightarrow> 'st \<times> bytes) option \<Rightarrow> Request \<Rightarrow> files \<Rightarrow> 'st \<Rightarrow>
   files \<times> 'st \<times> Response option" where
  "Call kc s rnd server req fs st = (case LoadOrCreateToken s fs rnd of
     (fs1, Inl _) \<Rightarrow> (fs1, st, None)
   | (fs1, Inr tok) \<Rightarrow> (let (st', r) = dial_control kc server tok req st in (fs1, st', r)))"

definition op_request :: "string \<Rightarrow> Request" where
  "op_request op = \<lparr>ct_token = [], ct_op = op, ct_args = fmempty, ct_peer_pid = 0\<rparr>"

definition Query ::
  "control_codec \<Rightarrow> os \<Rightarrow> bytes option \<Rightarrow> ('st \<Rightarrow> bytes \<Rightarrow> 'st \<times> bytes) option \<Rightarrow> string \<Rightarrow> files \<Rightarrow> 'st \<Rightarrow>
   files \<times> 'st \<times> Response option" where
  "Query kc s rnd server op fs st = Call kc s rnd server (op_request op) fs st"

definition answers_ok :: "Response option \<Rightarrow> bool" where
  "answers_ok r = (case r of None \<Rightarrow> False | Some p \<Rightarrow> rp_ok p)"

definition Running ::
  "control_codec \<Rightarrow> os \<Rightarrow> bytes option \<Rightarrow> ('st \<Rightarrow> bytes \<Rightarrow> 'st \<times> bytes) option \<Rightarrow> files \<Rightarrow> 'st \<Rightarrow> bool" where
  "Running kc s rnd server fs st = answers_ok (snd (snd (Query kc s rnd server ''ping'' fs st)))"

definition OwnsReceiver ::
  "control_codec \<Rightarrow> os \<Rightarrow> bytes option \<Rightarrow> ('st \<Rightarrow> bytes \<Rightarrow> 'st \<times> bytes) option \<Rightarrow> files \<Rightarrow> 'st \<Rightarrow> bool" where
  "OwnsReceiver kc s rnd server fs st = answers_ok (snd (snd (Query kc s rnd server ''owns-receiver'' fs st)))"

section \<open>One daemon per user\<close>

text \<open>Where a daemon stands in \<open>bindControl\<close>. The socket file remembers who bound it; it outlives a crash.\<close>

datatype stage = Idle | InUse | Refused | Removed | Serving | Backed | Failed | Gone

record sockets =
  so_file :: "nat option"
  so_stage :: "nat \<Rightarrow> stage"

abbreviation at_stage :: "nat \<Rightarrow> stage \<Rightarrow> sockets \<Rightarrow> sockets" where
  "at_stage i p w \<equiv> w\<lparr>so_stage := (so_stage w)(i := p)\<rparr>"

definition live_socket :: "sockets \<Rightarrow> bool" where
  "live_socket w = (case so_file w of None \<Rightarrow> False | Some j \<Rightarrow> so_stage w j = Serving)"

text \<open>The system calls of \<open>bindControl\<close>, one step each: listen, dial, remove, listen again. The flag says whether the system
  lets the call work, apart from an address in use.\<close>

record bind_sys =
  bs_listen :: bool
  bs_dial :: bool
  bs_remove :: bool
  bs_relisten :: bool

definition listen_step :: "bool \<Rightarrow> nat \<Rightarrow> sockets \<Rightarrow> sockets" where
  "listen_step ok i w =
     (if \<not> ok then at_stage i Failed w
      else if so_file w = None then at_stage i Serving (w\<lparr>so_file := Some i\<rparr>) else at_stage i InUse w)"

definition dial_step :: "bool \<Rightarrow> nat \<Rightarrow> sockets \<Rightarrow> sockets" where
  "dial_step ok i w = (if ok \<and> live_socket w then at_stage i Backed w else at_stage i Refused w)"

definition remove_step :: "bool \<Rightarrow> nat \<Rightarrow> sockets \<Rightarrow> sockets" where
  "remove_step ok i w = at_stage i Removed (if ok then w\<lparr>so_file := None\<rparr> else w)"

definition relisten_step :: "bool \<Rightarrow> nat \<Rightarrow> sockets \<Rightarrow> sockets" where
  "relisten_step ok i w =
     (if ok \<and> so_file w = None then at_stage i Serving (w\<lparr>so_file := Some i\<rparr>) else at_stage i Failed w)"

text \<open>\<open>bindControl\<close> with nobody in between.\<close>

definition bindControl :: "bind_sys \<Rightarrow> nat \<Rightarrow> sockets \<Rightarrow> sockets" where
  "bindControl sys i w =
     (let w1 = listen_step (bs_listen sys) i w in
      if so_stage w1 i \<noteq> InUse then w1
      else (let w2 = dial_step (bs_dial sys) i w1 in
        if so_stage w2 i = Backed then w2
        else relisten_step (bs_relisten sys) i (remove_step (bs_remove sys) i w2)))"

text \<open>A daemon that serves answers a dial.\<close>

inductive bind_step :: "sockets \<Rightarrow> sockets \<Rightarrow> bool" where
  Listen: "so_stage w i = Idle \<Longrightarrow> bind_step w (listen_step ok i w)"
| Dial: "so_stage w i = InUse \<Longrightarrow> bind_step w (dial_step True i w)"
| Remove: "so_stage w i = Refused \<Longrightarrow> bind_step w (remove_step ok i w)"
| Relisten: "so_stage w i = Removed \<Longrightarrow> bind_step w (relisten_step ok i w)"
| Crash: "so_stage w i = Serving \<Longrightarrow> bind_step w (at_stage i Gone w)"
| Close: "so_stage w i = Serving \<Longrightarrow> bind_step w (at_stage i Gone (w\<lparr>so_file := None\<rparr>))"

text \<open>The same with each start running to its end before anything else happens.\<close>

inductive start_step :: "sockets \<Rightarrow> sockets \<Rightarrow> bool" where
  Start: "so_stage w i = Idle \<Longrightarrow> bs_dial sys \<Longrightarrow> start_step w (bindControl sys i w)"
| Crashed: "so_stage w i = Serving \<Longrightarrow> start_step w (at_stage i Gone w)"
| Closed: "so_stage w i = Serving \<Longrightarrow> start_step w (at_stage i Gone (w\<lparr>so_file := None\<rparr>))"

definition no_daemon :: sockets where
  "no_daemon = \<lparr>so_file = None, so_stage = (\<lambda>_. Idle)\<rparr>"

section \<open>Facts\<close>

lemma trim_runes_snoc: "is_space (fst r) \<Longrightarrow> trim_runes (rs @ [r]) = trim_runes rs"
  by (cases "dropWhile (\<lambda>rb. is_space (fst rb)) rs = []") (auto simp: trim_runes_def dropWhile_append dest: set_dropWhileD)

lemma trim_space_line: "trim_space (s @ [CHR 0x0A]) = trim_space s"
  by (simp add: trim_space_def runes_ascii_snoc trim_runes_snoc is_space_def)

lemma hex_digit_plain: "n < 16 \<Longrightarrow> \<not> is_space (of_char (hex_digit n)) \<and> of_char (hex_digit n) < (0x80::nat)"
  by (auto simp: hex_digit_def is_space_def)

lemma hex_set: "c \<in> set (hex_encode b) \<Longrightarrow> \<not> is_space (of_char c) \<and> of_char c < (0x80::nat)"
proof (induction b)
  case (Cons x b)
  have "(of_char x :: nat) div 16 < 16" using of_char_less [of x] by linarith
  then show ?case using Cons hex_digit_plain by (auto simp: hex_encode_Cons)
qed simp

lemma trim_space_hex: "b \<noteq> [] \<Longrightarrow> trim_space (hex_encode b) = hex_encode b"
  using hex_set [of _ b] by (intro trim_space_ascii_id) (auto simp: list_all_iff hex_encode_Cons neq_Nil_conv)

lemma token_kept:
  assumes "LoadOrCreateToken s fs rnd = (fs1, Inr tok)" "\<And>p. os_read_ok s p" "rnd \<noteq> Some []"
  shows "LoadOrCreateToken s fs1 rnd' = (fs1, Inr tok)"
proof -
  from assms(1) obtain path where p: "DaemonTokenPath s = Inr path"
    by (auto simp: LoadOrCreateToken_def split: sum.splits)
  define held where "held = (case read_file s fs path of Inl _ \<Rightarrow> [] | Inr b \<Rightarrow> trim_space b)"
  show ?thesis
  proof (cases "held = []")
    case False
    then show ?thesis using assms(1) p by (auto simp: LoadOrCreateToken_def held_def Let_def)
  next
    case True
    with assms(1) p obtain buf where b: "rnd = Some buf" "tok = hex_encode buf"
      "write_file s fs path (hex_encode buf @ [CHR 0x0A]) = (fs1, None)"
      by (auto simp: LoadOrCreateToken_def held_def Let_def split: option.splits prod.splits)
    then have "read_file s fs1 path = Inr (hex_encode buf @ [CHR 0x0A])" using disk.rd_wr assms(2) by blast
    moreover from b(1) assms(3) have "buf \<noteq> []" by simp
    moreover from this have "hex_encode buf \<noteq> []" by (cases buf) (simp_all add: hex_encode_Cons)
    ultimately show ?thesis using p b(2)
      by (simp add: LoadOrCreateToken_def Let_def trim_space_line trim_space_hex)
  qed
qed

lemma read_line_line: "CHR 0x0A \<notin> set l \<Longrightarrow> read_line (l @ [CHR 0x0A]) = l @ [CHR 0x0A]"
proof -
  have "c \<notin> set l \<Longrightarrow> takeWhile (\<lambda>x. x \<noteq> c) (l @ [c]) = l" for c :: char by (induction l) auto
  then show "CHR 0x0A \<notin> set l \<Longrightarrow> read_line (l @ [CHR 0x0A]) = l @ [CHR 0x0A]" by (simp add: read_line_def)
qed

text \<open>At most one daemon serves, and then the socket file is its own.\<close>

definition one_serving :: "sockets \<Rightarrow> bool" where
  "one_serving w \<longleftrightarrow> (\<forall>i. so_stage w i = Serving \<longrightarrow> so_file w = Some i) \<and>
     (\<forall>i. so_stage w i \<notin> {InUse, Refused, Removed})"

lemma bindControl_one:
  assumes "one_serving w" "so_stage w i = Idle" "bs_dial sys"
  shows "one_serving (bindControl sys i w)"
  using assms
  by (auto simp: one_serving_def bindControl_def listen_step_def dial_step_def remove_step_def relisten_step_def
      live_socket_def Let_def split: if_splits option.splits)

lemma serving_file: "one_serving w \<Longrightarrow> so_stage w i = Serving \<Longrightarrow> so_file w = Some i"
  by (simp add: one_serving_def)

lemma serving_unique:
  assumes "one_serving w" "so_stage w i = Serving" "so_stage w j = Serving"
  shows "i = j"
  using serving_file [OF assms(1,2)] serving_file [OF assms(1,3)] by simp

lemma gone_one:
  assumes "one_serving w" "so_stage w i = Serving"
  shows "one_serving (at_stage i Gone w)" "one_serving (at_stage i Gone (w\<lparr>so_file := None\<rparr>))"
proof -
  have u: "so_stage w j \<noteq> Serving" if "j \<noteq> i" for j using serving_unique [OF assms] that by blast
  show "one_serving (at_stage i Gone w)" "one_serving (at_stage i Gone (w\<lparr>so_file := None\<rparr>))"
    using assms(1) u by (simp_all add: one_serving_def)
qed

section \<open>Properties\<close>

text \<open>C35 A request of the same user reaches the daemon and nobody else's does: when the daemon took its token from the
  user's token file, a \<open>Call\<close> that reads the same file runs the handler on the request, with the caller's process
  id from the socket, and returns its response; a request with another token is answered \<open>unauthorized\<close> and the
  daemon's state stays as it is. (Laws of JSON: requests and responses parse back and hold no newline; the process
  id is not encoded.)\<close>

theorem daemon_call:
  assumes tok: "LoadOrCreateToken s fs rnd = (fs1, Inr tok)" "\<And>p. os_read_ok s p" "rnd \<noteq> Some []"
    and req: "\<And>t. kc_un_request kc (kc_mar_request kc (req\<lparr>ct_token := t\<rparr>) @ [CHR 0x0A]) = Some (req\<lparr>ct_token := t, ct_peer_pid := 0\<rparr>)"
      "\<And>t. CHR 0x0A \<notin> set (kc_mar_request kc (req\<lparr>ct_token := t\<rparr>))"
    and resp: "\<And>p. p \<in> {err_response ''unauthorized'', snd (handler st (req\<lparr>ct_token := tok, ct_peer_pid := pid\<rparr>))} \<Longrightarrow>
      kc_un_response kc (kc_mar_response kc p @ [CHR 0x0A]) = Some p \<and> CHR 0x0A \<notin> set (kc_mar_response kc p)"
    and other: "t \<noteq> tok"
  shows "Call kc s rnd' (Some (handle_control kc tok handler pid)) req fs1 st =
      (let (st', p) = handler st (req\<lparr>ct_token := tok, ct_peer_pid := pid\<rparr>) in (fs1, st', Some p)) \<and>
    dial_control kc (Some (handle_control kc tok handler pid)) t req st = (st, Some (err_response ''unauthorized''))"
proof -
  have reply: "read_line (kc_mar_response kc p @ [CHR 0x0A]) = kc_mar_response kc p @ [CHR 0x0A]"
    "kc_un_response kc (kc_mar_response kc p @ [CHR 0x0A]) = Some p"
    if "p = err_response ''unauthorized'' \<or> p = snd (handler st (req\<lparr>ct_token := tok, ct_peer_pid := pid\<rparr>))" for p
    using resp [of p] that read_line_line by auto
  have h: "handle_control kc tok handler pid st (kc_mar_request kc (req\<lparr>ct_token := u\<rparr>) @ [CHR 0x0A]) =
      (if u \<noteq> tok then (st, kc_mar_response kc (err_response ''unauthorized'') @ [CHR 0x0A])
       else (let (st', p) = handler st (req\<lparr>ct_token := u, ct_peer_pid := pid\<rparr>) in (st', kc_mar_response kc p @ [CHR 0x0A])))" for u
    by (simp add: handle_control_def read_line_line [OF req(2)] req(1) Let_def)
  have "dial_control kc (Some (handle_control kc tok handler pid)) t req st = (st, Some (err_response ''unauthorized''))"
    using other by (simp add: dial_control_def h reply Let_def)
  moreover have "Call kc s rnd' (Some (handle_control kc tok handler pid)) req fs1 st =
      (let (st', p) = handler st (req\<lparr>ct_token := tok, ct_peer_pid := pid\<rparr>) in (fs1, st', Some p))"
    by (simp add: Call_def token_kept [OF tok] dial_control_def h reply Let_def case_prod_beta)
  ultimately show ?thesis by blast
qed


text \<open>Overlapping starts do not: after a crash left its socket file, two daemons that start at once can both end up
  serving, because the second removes the socket the first has just bound.\<close>

theorem two_daemons: "\<exists>w. bind_step\<^sup>*\<^sup>* no_daemon w \<and> so_stage w 1 = Serving \<and> so_stage w 2 = Serving"
proof -
  define w1 where "w1 = at_stage 0 Gone (listen_step True 0 no_daemon)"
  define w2 where "w2 = dial_step True 2 (listen_step True 2 (dial_step True 1 (listen_step True 1 w1)))"
  define w3 where "w3 = relisten_step True 1 (remove_step True 1 w2)"
  define w4 where "w4 = relisten_step True 2 (remove_step True 2 w3)"
  note defs = w1_def w2_def w3_def w4_def no_daemon_def listen_step_def dial_step_def remove_step_def relisten_step_def
    live_socket_def
  have "bind_step no_daemon (listen_step True 0 no_daemon)" by (rule Listen) (simp add: defs)
  moreover have "bind_step (listen_step True 0 no_daemon) w1" unfolding w1_def by (rule Crash) (simp add: defs)
  moreover have "bind_step w1 (listen_step True 1 w1)" by (rule Listen) (simp add: defs)
  moreover have "bind_step (listen_step True 1 w1) (dial_step True 1 (listen_step True 1 w1))" by (rule Dial) (simp add: defs)
  moreover have "bind_step (dial_step True 1 (listen_step True 1 w1)) (listen_step True 2 (dial_step True 1 (listen_step True 1 w1)))"
    by (rule Listen) (simp add: defs)
  moreover have "bind_step (listen_step True 2 (dial_step True 1 (listen_step True 1 w1))) w2" unfolding w2_def by (rule Dial) (simp add: defs)
  moreover have "bind_step w2 (remove_step True 1 w2)" by (rule Remove) (simp add: defs)
  moreover have "bind_step (remove_step True 1 w2) w3" unfolding w3_def by (rule Relisten) (simp add: defs)
  moreover have "bind_step w3 (remove_step True 2 w3)" by (rule Remove) (simp add: defs)
  moreover have "bind_step (remove_step True 2 w3) w4" unfolding w4_def by (rule Relisten) (simp add: defs)
  ultimately have "bind_step\<^sup>*\<^sup>* no_daemon w4" by (meson converse_rtranclp_into_rtranclp rtranclp.rtrancl_refl)
  moreover have "so_stage w4 1 = Serving" "so_stage w4 2 = Serving" by (simp_all add: defs)
  ultimately show ?thesis by blast
qed

section \<open>Concrete inputs\<close>

text \<open>A coding of the \<open>ping\<close> requests by their token in hex, and of two responses.\<close>

definition demo_control :: control_codec where
  "demo_control = \<lparr>
     kc_un_request = (\<lambda>b. map_option (\<lambda>t. (op_request ''ping'')\<lparr>ct_token := t\<rparr>) (hex_decode (butlast b))),
     kc_mar_request = (\<lambda>r. hex_encode (ct_token r)),
     kc_un_response = (\<lambda>b. if b = ''e'' @ [CHR 0x0A] then Some (err_response ''unauthorized'') else Some (err_response [])),
     kc_mar_response = (\<lambda>p. if p = err_response ''unauthorized'' then ''e'' else ''o'')\<rparr>"

lemma demo_token_path: "DaemonTokenPath demo_os = Inr ''/home/a/.config/share2us/daemon.token''"
  by code_simp

lemma demo_token: "LoadOrCreateToken demo_os Map.empty (Some ''ab'') =
  ([''/home/a/.config/share2us/daemon.token'' \<mapsto> ''6162'' @ [CHR 0x0A]], Inr ''6162'')"
proof -
  have "hex_encode ''ab'' = ''6162''" by code_simp
  then show ?thesis by (simp add: LoadOrCreateToken_def demo_token_path read_file_def write_file_def)
qed

lemma hex_no_newline: "CHR 0x0A \<notin> set (hex_encode b)"
  using hex_set [of "CHR 0x0A" b] by (auto simp: is_space_def)

lemma demo_control_request:
  "kc_un_request demo_control (kc_mar_request demo_control ((op_request ''ping'')\<lparr>ct_token := t\<rparr>) @ [CHR 0x0A]) =
     Some ((op_request ''ping'')\<lparr>ct_token := t, ct_peer_pid := 0\<rparr>)"
  "CHR 0x0A \<notin> set (kc_mar_request demo_control ((op_request ''ping'')\<lparr>ct_token := t\<rparr>))"
  by (simp_all add: demo_control_def hex_no_newline op_request_def)

lemma demo_control_response:
  assumes "p \<in> {err_response ''unauthorized'', err_response []}"
  shows "kc_un_response demo_control (kc_mar_response demo_control p @ [CHR 0x0A]) = Some p \<and>
    CHR 0x0A \<notin> set (kc_mar_response demo_control p)"
proof -
  have "err_response [] \<noteq> err_response ''unauthorized''" by (simp add: err_response_def)
  then show ?thesis using assms by (auto simp: demo_control_def)
qed

lemma daemon_call_witness:
  "Call demo_control demo_os None (Some (handle_control demo_control ''6162'' (\<lambda>n r. (n + ct_peer_pid r, err_response [])) 7))
      (op_request ''ping'') [''/home/a/.config/share2us/daemon.token'' \<mapsto> ''6162'' @ [CHR 0x0A]] (1 :: int) =
    ([''/home/a/.config/share2us/daemon.token'' \<mapsto> ''6162'' @ [CHR 0x0A]], 8, Some (err_response [])) \<and>
   dial_control demo_control (Some (handle_control demo_control ''6162'' (\<lambda>n r. (n + ct_peer_pid r, err_response [])) 7)) ''x''
      (op_request ''ping'') 1 = (1, Some (err_response ''unauthorized''))"
proof -
  have "Some ''ab'' \<noteq> Some []" "''x'' \<noteq> ''6162''" by simp_all
  then show ?thesis
    using daemon_call [where handler = "\<lambda>n r. (n + ct_peer_pid r, err_response [])" and st = "1 :: int" and pid = 7
        and rnd' = None, OF demo_token demo_os_ok(1) _ demo_control_request demo_control_response, of "''x''"]
    by (simp add: op_request_def)
qed

definition works :: bind_sys where
  "works = \<lparr>bs_listen = True, bs_dial = True, bs_remove = True, bs_relisten = True\<rparr>"


end
