(* ===== verification/P2PStream.thy ===== *)
theory P2PStream
  imports Prelude "HOL-Library.Sublist"
begin

text \<open>
  The byte stream of a peer-to-peer session (\<open>p2p/session.go\<close>): framing on the data channel, the sending loop
  with its end marker and the wait for the acknowledgement, the receiving loop with everything its \<open>select\<close>
  can take. The data channel is WebRTC's ordered, reliable one: the receiver is handed a prefix of the messages
  sent.
\<close>

section \<open>Frames\<close>

definition p2p_chunkSize :: nat where "p2p_chunkSize = 16 * 1024"

definition ackMessage :: bytes where "ackMessage = ''s2u-ack''"

datatype p2p_err =
  WrongRole | NotConnected | CtxDone | SessionClosed | SessionFailed string | ReadSource | ChannelSend | WriteDest
| AckTimedOut | ShortFrame nat | FrameLength nat nat

datatype frame = FrameData bytes | FrameEOF

definition frame_msg :: "bytes \<Rightarrow> bytes" where
  "frame_msg payload = be_put 4 (length payload) @ payload"

definition decodeFrame :: "bytes \<Rightarrow> p2p_err + frame" where
  "decodeFrame msg =
     (if length msg < 4 then Inl (ShortFrame (length msg))
      else (let n = be_get (take 4 msg) in
        if n = 0 then Inr FrameEOF
        else if n \<noteq> length msg - 4 then Inl (FrameLength n (length msg - 4))
        else Inr (FrameData (drop 4 msg))))"

section \<open>Sending\<close>

datatype p2p_role = SenderRole | ReceiverRole

text \<open>How one \<open>Read\<close> of the source ends.\<close>

datatype read_end = More | AtEnd | ReadError

text \<open>The loop of \<open>Send\<close>: \<open>halt i\<close> is what \<open>ctxErr\<close> reports before read \<open>i\<close>, \<open>wr i\<close> how the write after it ends,
  waiting for room in the buffer included. A source that returns nothing more is at its end.\<close>

fun send_loop ::
  "(nat \<Rightarrow> p2p_err option) \<Rightarrow> (nat \<Rightarrow> p2p_err option) \<Rightarrow> nat \<Rightarrow> (bytes \<times> read_end) list \<Rightarrow> bytes list \<times> p2p_err option" where
  "send_loop halt wr i [] = (case halt i of Some e \<Rightarrow> ([], Some e) | None \<Rightarrow> ([], None))"
| "send_loop halt wr i ((n, en) # reads) = (case halt i of
     Some e \<Rightarrow> ([], Some e)
   | None \<Rightarrow>
       (case (if n = [] then ([], None) else (case wr i of Some e \<Rightarrow> ([], Some e) | None \<Rightarrow> ([frame_msg n], None))) of
          (out, Some e) \<Rightarrow> (out, Some e)
        | (out, None) \<Rightarrow>
            (case en of
               AtEnd \<Rightarrow> (out, None)
             | ReadError \<Rightarrow> (out, Some ReadSource)
             | More \<Rightarrow> (case send_loop halt wr (Suc i) reads of (out', r) \<Rightarrow> (out @ out', r)))))"

text \<open>What \<open>awaitAck\<close> sees first: a message on the control channel, one of the ends, or a failure with or without
  a message beside it.\<close>

datatype ack_event = AckMessage bytes | AckCtx | AckClosed | AckFailed "bytes option" string | AckTimeout

definition awaitAck :: "ack_event \<Rightarrow> p2p_err option" where
  "awaitAck e = (case e of
     AckMessage _ \<Rightarrow> None
   | AckCtx \<Rightarrow> Some CtxDone
   | AckClosed \<Rightarrow> Some SessionClosed
   | AckFailed beside why \<Rightarrow> (if beside \<noteq> None then None else Some (SessionFailed why))
   | AckTimeout \<Rightarrow> Some AckTimedOut)"

record send_env =
  se_role :: p2p_role
  se_connected :: bool
  se_halt :: "nat \<Rightarrow> p2p_err option"
  se_write :: "nat \<Rightarrow> p2p_err option"
  se_write_end :: "p2p_err option"
  se_drain :: "p2p_err option"
  se_ack :: ack_event

definition p2p_Send :: "send_env \<Rightarrow> (bytes \<times> read_end) list \<Rightarrow> bytes list \<times> p2p_err option" where
  "p2p_Send env reads =
     (if se_role env \<noteq> SenderRole then ([], Some WrongRole)
      else if \<not> se_connected env then ([], Some NotConnected)
      else (case send_loop (se_halt env) (se_write env) 0 reads of
          (out, Some e) \<Rightarrow> (out, Some e)
        | (out, None) \<Rightarrow>
            (case se_write_end env of
               Some e \<Rightarrow> (out, Some e)
             | None \<Rightarrow> (out @ [frame_msg []],
                 (case se_drain env of Some e \<Rightarrow> Some e | None \<Rightarrow> awaitAck (se_ack env))))))"

section \<open>Receiving\<close>

text \<open>One turn of the \<open>select\<close> in \<open>Receive\<close>: a queued frame, a failure with or without a frame still queued, the
  ends. The flag of a frame says whether writing it to the destination works.\<close>

datatype recv_event = GotFrame frame bool | FailedWith frame bool | FailedEmpty string | RecvCtx | RecvClosed

text \<open>The bytes written, the result (\<open>None\<close>: the loop still waits), and whether the acknowledgement was sent.\<close>

fun recv_loop :: "recv_event list \<Rightarrow> bytes \<times> (p2p_err + unit) option \<times> bool" where
  "recv_loop [] = ([], None, False)"
| "recv_loop (e # es) = (case e of
     RecvCtx \<Rightarrow> ([], Some (Inl CtxDone), False)
   | RecvClosed \<Rightarrow> ([], Some (Inl SessionClosed), False)
   | FailedEmpty why \<Rightarrow> ([], Some (Inl (SessionFailed why)), False)
   | GotFrame FrameEOF _ \<Rightarrow> ([], Some (Inr ()), True)
   | FailedWith FrameEOF _ \<Rightarrow> ([], Some (Inr ()), True)
   | GotFrame (FrameData d) ok \<Rightarrow> (if \<not> ok then ([], Some (Inl WriteDest), False)
       else (case recv_loop es of (out, r) \<Rightarrow> (d @ out, r)))
   | FailedWith (FrameData d) ok \<Rightarrow> (if \<not> ok then ([], Some (Inl WriteDest), False)
       else (case recv_loop es of (out, r) \<Rightarrow> (d @ out, r))))"

definition p2p_Receive :: "p2p_role \<Rightarrow> bool \<Rightarrow> recv_event list \<Rightarrow> bytes \<times> (p2p_err + unit) option \<times> bool" where
  "p2p_Receive role connected evs =
     (if role \<noteq> ReceiverRole then ([], Some (Inl WrongRole), False)
      else if \<not> connected then ([], Some (Inl NotConnected), False)
      else recv_loop evs)"

text \<open>The frames the receiver took from its queue.\<close>

fun taken :: "recv_event list \<Rightarrow> frame list" where
  "taken [] = []"
| "taken (GotFrame f ok # es) = f # taken es"
| "taken (FailedWith f ok # es) = f # taken es"
| "taken (e # es) = taken es"

text \<open>What \<open>OnMessage\<close> queues: the messages that decode; one that does not fails the session, and the next is queued again.\<close>

fun queued :: "bytes list \<Rightarrow> frame list" where
  "queued [] = []"
| "queued (m # ms) = (case decodeFrame m of Inl _ \<Rightarrow> queued ms | Inr f \<Rightarrow> f # queued ms)"

section \<open>Facts\<close>

lemma decodeFrame_msg: "length p < 2 ^ 32 \<Longrightarrow> decodeFrame (frame_msg p) = Inr (if p = [] then FrameEOF else FrameData p)"
  by (simp add: decodeFrame_def frame_msg_def Let_def)

lemma queued_msgs:
  "list_all (\<lambda>p. length p < 2 ^ 32) ps \<Longrightarrow>
   queued (map frame_msg ps) = map (\<lambda>p. if p = [] then FrameEOF else FrameData p) ps"
  by (induction ps) (simp_all add: decodeFrame_msg)

text \<open>The payloads of a run of reads, and whether the run came to the end of the source.\<close>

fun payloads :: "(bytes \<times> read_end) list \<Rightarrow> bytes list" where
  "payloads [] = []"
| "payloads ((n, en) # reads) = (if n = [] then [] else [n]) @ (if en = More then payloads reads else [])"

fun ends_well :: "(bytes \<times> read_end) list \<Rightarrow> bool" where
  "ends_well [] = True"
| "ends_well ((n, en) # reads) = (case en of AtEnd \<Rightarrow> True | ReadError \<Rightarrow> False | More \<Rightarrow> ends_well reads)"

lemma payloads_nonempty: "[] \<notin> set (payloads reads)"
  by (induction reads rule: payloads.induct) auto

lemma payloads_small: "\<forall>r\<in>set reads. length (fst r) \<le> m \<Longrightarrow> p \<in> set (payloads reads) \<Longrightarrow> length p \<le> m"
  by (induction reads rule: payloads.induct) (auto split: if_splits)

lemma send_loop_out:
  "send_loop halt wr i reads = (out, r) \<Longrightarrow>
   \<exists>ps. prefix ps (payloads reads) \<and> out = map frame_msg ps \<and> (r = None \<longrightarrow> ps = payloads reads \<and> ends_well reads)"
proof (induction halt wr i reads arbitrary: out r rule: send_loop.induct)
  case (2 halt wr i n en reads)
  show ?case
  proof (cases "halt i \<noteq> None \<or> (n \<noteq> [] \<and> wr i \<noteq> None)")
    case True
    have "out = [] \<and> r \<noteq> None"
    proof (cases "halt i")
      case None
      with True obtain e where "wr i = Some e" "n \<noteq> []" by auto
      with None 2(2) show ?thesis by simp (metis option.distinct(1))
    next
      case (Some e)
      with 2(2) show ?thesis by simp (metis option.distinct(1))
    qed
    then show ?thesis by (intro exI [of _ "[]"]) (simp, metis option.distinct(1))
  next
    case ok: False
    show ?thesis
    proof (cases en)
      case More
      obtain out' r' where rec: "send_loop halt wr (Suc i) reads = (out', r')" by fastforce
      with ok More 2(2) have o: "out = map frame_msg (if n = [] then [] else [n]) @ out'" "r = r'"
        by (auto split: if_splits)
      from 2(1) [OF _ _ _ More rec] ok obtain ps where "prefix ps (payloads reads)" "out' = map frame_msg ps"
        "r' = None \<longrightarrow> ps = payloads reads \<and> ends_well reads" by (cases "n = []") auto
      then show ?thesis using o More by (intro exI [of _ "(if n = [] then [] else [n]) @ ps"]) auto
    next
      case AtEnd
      with ok 2(2) show ?thesis by (intro exI [of _ "if n = [] then [] else [n]"]) (auto split: if_splits)
    next
      case ReadError
      with ok 2(2) show ?thesis by (intro exI [of _ "if n = [] then [] else [n]"]) (auto split: if_splits)
    qed
  qed
qed (auto split: option.splits)

lemma recv_loop_success:
  "recv_loop evs = (out, Some (Inr ()), acked) \<Longrightarrow>
   acked \<and> (\<exists>ds fs. taken evs = map FrameData ds @ FrameEOF # fs \<and> out = concat ds)"
proof (induction evs arbitrary: out)
  case (Cons e es)
  have data: ?case if "e = GotFrame (FrameData d) ok \<or> e = FailedWith (FrameData d) ok" for d ok
  proof -
    from that Cons.prems obtain out' where o: "recv_loop es = (out', Some (Inr ()), acked)" "out = d @ out'"
      by (auto split: if_splits prod.splits)
    from Cons.IH [OF o(1)] obtain ds fs where "acked" "taken es = map FrameData ds @ FrameEOF # fs" "out' = concat ds" by blast
    then show ?thesis using that o(2) by (intro conjI exI [of _ "d # ds"]) auto
  qed
  show ?case
  proof (cases e)
    case (GotFrame f ok)
    then show ?thesis using data Cons.prems by (cases f) (auto intro: exI [of _ "[]"])
  next
    case (FailedWith f ok)
    then show ?thesis using data Cons.prems by (cases f) (auto intro: exI [of _ "[]"])
  qed (use Cons.prems in auto)
qed simp

lemma recv_loop_frames:
  "[] \<notin> set ds \<Longrightarrow> recv_loop (map (\<lambda>d. GotFrame (FrameData d) True) ds @ [GotFrame FrameEOF ok]) = (concat ds, Some (Inr ()), True)"
  by (induction ds) auto

lemma map_data_prefix:
  assumes "prefix (map FrameData ds @ [FrameEOF]) (map FrameData ps @ fin)" "fin = [] \<or> fin = [FrameEOF]"
  shows "fin = [FrameEOF] \<and> ds = ps"
proof -
  from assms(1) obtain zs where z: "map FrameData ps @ fin = (map FrameData ds @ [FrameEOF]) @ zs" by (auto simp: prefix_def)
  then have "FrameEOF \<in> set (map FrameData ps @ fin)" by simp
  then have m: "fin = [FrameEOF]" using assms(2) by auto
  have "takeWhile (\<lambda>f. f \<noteq> FrameEOF) (map FrameData xs @ FrameEOF # ys) = map FrameData xs" for xs ys
    by (induction xs) auto
  then have "map FrameData ps = map FrameData ds" using z m by (metis append.assoc append_Cons append_Nil)
  then show ?thesis using m by (simp add: inj_map_eq_map inj_def)
qed

section \<open>Properties\<close>

text \<open>A peer-to-peer receive that reports success has the whole file: however the sender ended and wherever the
  receiver was interrupted, when the frames it took are a prefix of those the sender's messages decode to and
  \<open>Receive\<close> returns without an error, the sender had read its source to the end, the bytes written are exactly
  the source's, and the acknowledgement was sent.\<close>

theorem p2p_receive_complete:
  assumes "p2p_Send env reads = (msgs, r)" "\<forall>rd\<in>set reads. length (fst rd) \<le> p2p_chunkSize"
    and "prefix (taken evs) (queued msgs)" "p2p_Receive ReceiverRole True evs = (out, Some (Inr ()), acked)"
  shows "ends_well reads \<and> out = concat (payloads reads) \<and> acked"
proof -
  from assms(4) have "recv_loop evs = (out, Some (Inr ()), acked)" by (simp add: p2p_Receive_def)
  from recv_loop_success [OF this] obtain ds fs where
    t: "taken evs = map FrameData ds @ FrameEOF # fs" "out = concat ds" "acked" by blast
  obtain o1 r1 where l: "send_loop (se_halt env) (se_write env) 0 reads = (o1, r1)" by fastforce
  from send_loop_out [OF l] obtain ps where ps: "prefix ps (payloads reads)" "o1 = map frame_msg ps"
    "r1 = None \<longrightarrow> ps = payloads reads \<and> ends_well reads" by blast
  have e: "taken evs \<noteq> []" using t(1) by simp
  with assms(1,3) l have msgs: "msgs = o1 \<or> (r1 = None \<and> msgs = o1 @ [frame_msg []])"
    by (auto simp: p2p_Send_def split: if_splits option.splits)
  have small: "p \<in> set ps \<Longrightarrow> p \<noteq> [] \<and> length p < 2 ^ 32" for p
    using payloads_small [OF assms(2), of p] payloads_nonempty [of reads] set_mono_prefix [OF ps(1)]
    by (auto simp: p2p_chunkSize_def)
  define fin where "fin = (if msgs = o1 then [] else [[] :: bytes])"
  have m: "msgs = map frame_msg (ps @ fin)" using msgs ps(2) by (auto simp: fin_def)
  have "queued msgs = map (\<lambda>p. if p = [] then FrameEOF else FrameData p) (ps @ fin)"
    unfolding m by (rule queued_msgs) (use small in \<open>auto simp: fin_def list_all_iff\<close>)
  also have "\<dots> = map FrameData ps @ (if msgs = o1 then [] else [FrameEOF])"
    using small by (auto simp: fin_def)
  finally have q: "queued msgs = map FrameData ps @ (if msgs = o1 then [] else [FrameEOF])" .
  have "prefix (map FrameData ds @ [FrameEOF]) (queued msgs)"
    using assms(3) t(1) by (metis append.assoc append_Cons append_Nil prefix_def)
  from map_data_prefix [OF this [unfolded q]] have "msgs \<noteq> o1" "ds = ps" by (auto split: if_splits)
  then show ?thesis using msgs ps(3) t(2,3) by blast
qed

text \<open>An undisturbed transfer arrives and is confirmed: when nothing halts the sender and the receiver takes every
  frame, the receiver has written the source's bytes and both ends report success.\<close>

theorem p2p_transfer:
  assumes "se_role env = SenderRole" "se_connected env" "\<And>i. se_halt env i = None" "\<And>i. se_write env i = None"
    and "se_write_end env = None" "se_drain env = None" "se_ack env = AckMessage ackMessage"
    and "ends_well reads" "\<forall>rd\<in>set reads. length (fst rd) \<le> p2p_chunkSize"
  shows "\<exists>msgs. p2p_Send env reads = (msgs, None) \<and>
    p2p_Receive ReceiverRole True (map (\<lambda>f. GotFrame f True) (queued msgs)) = (concat (payloads reads), Some (Inr ()), True)"
proof -
  have "send_loop (se_halt env) (se_write env) i reads = (map frame_msg (payloads reads), None)" for i
    using assms(8)
  proof (induction reads arbitrary: i)
    case (Cons rd reads)
    obtain n en where rd: "rd = (n, en)" by force
    show ?case using Cons assms(3,4) by (cases en) (simp_all add: rd)
  qed (simp add: assms(3))
  then have s: "p2p_Send env reads = (map frame_msg (payloads reads @ [[]]), None)"
    using assms(1-7) by (simp add: p2p_Send_def awaitAck_def)
  have small: "p \<in> set (payloads reads) \<Longrightarrow> p \<noteq> [] \<and> length p < 2 ^ 32" for p
    using payloads_small [OF assms(9), of p] payloads_nonempty [of reads] by (auto simp: p2p_chunkSize_def)
  have "queued (map frame_msg (payloads reads @ [[]])) = map (\<lambda>p. if p = [] then FrameEOF else FrameData p) (payloads reads @ [[]])"
    by (rule queued_msgs) (use small in \<open>auto simp: list_all_iff\<close>)
  also have "\<dots> = map FrameData (payloads reads) @ [FrameEOF]" using small by auto
  finally have "map (\<lambda>f. GotFrame f True) (queued (map frame_msg (payloads reads @ [[]]))) =
      map (\<lambda>d. GotFrame (FrameData d) True) (payloads reads) @ [GotFrame FrameEOF True]" by simp
  then show ?thesis using s recv_loop_frames [OF payloads_nonempty, of reads True] by (simp add: p2p_Receive_def)
qed

text \<open>The sender takes any message on the control channel for the acknowledgement.\<close>

lemma any_message_acknowledges: "awaitAck (AckMessage m) = None"
  by (simp add: awaitAck_def)

text \<open>A message that does not decode fails the session, and yet the transfer can succeed without it: \<open>Receive\<close>
  prefers a queued frame to the failure, up to the end marker.\<close>

lemma bad_frame_skipped:
  assumes "decodeFrame bad = Inl e" "length d1 < 2 ^ 32" "length d2 < 2 ^ 32" "d1 \<noteq> []" "d2 \<noteq> []"
  shows "queued [frame_msg d1, bad, frame_msg d2, frame_msg []] = [FrameData d1, FrameData d2, FrameEOF]"
    and "p2p_Receive ReceiverRole True [GotFrame (FrameData d1) True, FailedWith (FrameData d2) True, FailedWith FrameEOF True] =
      (d1 @ d2, Some (Inr ()), True)"
  using assms by (simp_all add: decodeFrame_msg p2p_Receive_def)

section \<open>Concrete inputs\<close>

definition demo_send :: send_env where
  "demo_send = \<lparr>se_role = SenderRole, se_connected = True, se_halt = (\<lambda>_. None), se_write = (\<lambda>_. None), se_write_end = None,
     se_drain = None, se_ack = AckMessage ackMessage\<rparr>"

lemma p2p_receive_complete_witness:
  "ends_well [(''ab'', More), (''c'', AtEnd)] \<and> ''abc'' = concat (payloads [(''ab'', More), (''c'', AtEnd)])"
proof -
  let ?evs = "[GotFrame (FrameData ''ab'') True, FailedWith (FrameData ''c'') True, FailedWith FrameEOF True]"
  have "p2p_Send (demo_send\<lparr>se_ack := AckTimeout\<rparr>) [(''ab'', More), (''c'', AtEnd)] =
      ([frame_msg ''ab'', frame_msg ''c'', frame_msg []], Some AckTimedOut)"
    by (simp add: p2p_Send_def demo_send_def awaitAck_def)
  moreover have "queued [frame_msg ''ab'', frame_msg ''c'', frame_msg []] = [FrameData ''ab'', FrameData ''c'', FrameEOF]"
    by (simp add: decodeFrame_msg)
  moreover have "p2p_Receive ReceiverRole True ?evs = (''abc'', Some (Inr ()), True)" by (simp add: p2p_Receive_def)
  ultimately have "ends_well [(''ab'', More), (''c'', AtEnd)] \<and> ''abc'' = concat (payloads [(''ab'', More), (''c'', AtEnd)]) \<and> True"
    by (intro p2p_receive_complete [where evs = ?evs and r = "Some AckTimedOut"]) (auto simp: p2p_chunkSize_def)
  then show ?thesis by blast
qed

lemma p2p_transfer_witness:
  "\<exists>msgs. p2p_Send demo_send [(''ab'', More), (''c'', AtEnd)] = (msgs, None) \<and>
    p2p_Receive ReceiverRole True (map (\<lambda>f. GotFrame f True) (queued msgs)) =
      (concat (payloads [(''ab'', More), (''c'', AtEnd)]), Some (Inr ()), True)"
  by (rule p2p_transfer) (simp_all add: demo_send_def p2p_chunkSize_def)

end
