(* ===== verification/P2PPeer.thy ===== *)
theory P2PPeer
  imports P2PStream GoNet
begin

text \<open>
  How two peers of a peer-to-peer session find and verify each other (\<open>p2p/signaling.go\<close>, \<open>p2p/session.go\<close>):
  the rendezvous over the relay, the order of session descriptions and candidates, the check of the peer by the
  pairing secret. The relay is the list of messages it delivers; the WebRTC library and HMAC are parameters.
\<close>

section \<open>The relay\<close>

record sigMsg =
  sm_type :: string
  sm_code :: string
  sm_token :: string
  sm_sdp :: string
  sm_candidate :: string
  sm_reason :: string

definition msg_of :: "string \<Rightarrow> sigMsg" where
  "msg_of t = \<lparr>sm_type = t, sm_code = [], sm_token = [], sm_sdp = [], sm_candidate = [], sm_reason = []\<rparr>"

definition relayError :: "string \<Rightarrow> string" where
  "relayError reason =
     (if reason = ''room_exists'' then ''p2p signaling: pairing code already in use (room_exists)''
      else if reason = ''no_room'' then ''p2p signaling: no room for pairing code (no_room)''
      else if reason = ''room_full'' then ''p2p signaling: room already has two peers (room_full)''
      else if reason = ''bad_message'' then ''p2p signaling: relay rejected message (bad_message)''
      else if reason = ''expired'' then ''p2p signaling: pairing code expired (expired)''
      else if reason = ''unauthorized'' then
        ''p2p signaling: relay rejected the room authorization (unauthorized) '' @ [CHR 0xE2, CHR 0x80, CHR 0x94] @
        '' the token expired or your plan does not allow P2P''
      else if reason = [] then ''p2p signaling: relay error''
      else ''p2p signaling: relay error ('' @ reason @ '')'')"

definition signalURL :: "string \<Rightarrow> string" where
  "signalURL base = trim_right base ''/'' @ ''/v1/signal''"

datatype sig_err = SigDial | SigWrite | SigRead | RelayRefused string | Unexpected string string

text \<open>Reading one message and expecting its type; the relay delivers the list, \<open>None\<close> is a read or decoding error.\<close>

fun expect_msg :: "string \<Rightarrow> sigMsg option list \<Rightarrow> sig_err + sigMsg option list" where
  "expect_msg t [] = Inl SigRead"
| "expect_msg t (None # ms) = Inl SigRead"
| "expect_msg t (Some m # ms) =
     (if sm_type m = ''error'' then Inl (RelayRefused (relayError (sm_reason m)))
      else if sm_type m \<noteq> t then Inl (Unexpected t (sm_type m)) else Inr ms)"

record RelayConfig =
  rc_code :: string
  rc_token :: string
  rc_secret :: string
  rc_insecure :: bool

text \<open>\<open>wsSignaler.connect\<close>: the messages sent and what is left of the input.\<close>

definition sig_connect ::
  "RelayConfig \<Rightarrow> p2p_role \<Rightarrow> bool \<Rightarrow> bool \<Rightarrow> sigMsg option list \<Rightarrow> sigMsg list \<times> (sig_err + sigMsg option list)" where
  "sig_connect cfg role dial_ok write_ok ms =
     (if \<not> dial_ok then ([], Inl SigDial)
      else (let hi = (msg_of (if role = SenderRole then ''create'' else ''join''))\<lparr>sm_code := rc_code cfg, sm_token := rc_token cfg\<rparr> in
        if \<not> write_ok then ([], Inl SigWrite)
        else if role = SenderRole then
          (case expect_msg ''created'' ms of
             Inl e \<Rightarrow> ([hi], Inl e) | Inr ms1 \<Rightarrow> ([hi], expect_msg ''peer-joined'' ms1))
        else ([hi], expect_msg ''peer-joined'' ms)))"

section \<open>Descriptions and candidates\<close>

text \<open>What is asked of the peer connection and sent over the relay, in order.\<close>

datatype pc_call = SetRemote string | SetLocal string | AddCandidate string | SendSignal sigMsg

record signal_state =
  sg_remote_set :: bool
  sg_pending :: "string list"
  sg_log :: "pc_call list"
  sg_failed :: "string option"

text \<open>Which calls work: setting the remote description, making and setting an answer, sending it; adding a
  candidate; decoding one.\<close>

record pc_env =
  pe_remote :: "string \<Rightarrow> bool"
  pe_answer :: "string \<Rightarrow> string option"
  pe_local :: "string \<Rightarrow> bool"
  pe_send :: bool
  pe_candidate :: "string \<Rightarrow> string option"
  pe_add :: "string \<Rightarrow> bool"

definition log_call :: "pc_call \<Rightarrow> signal_state \<Rightarrow> signal_state" where
  "log_call c st = st\<lparr>sg_log := sg_log st @ [c]\<rparr>"

text \<open>\<open>fail\<close> keeps the first error.\<close>

definition fail_signal :: "string \<Rightarrow> signal_state \<Rightarrow> signal_state" where
  "fail_signal e st = (if sg_failed st = None then st\<lparr>sg_failed := Some e\<rparr> else st)"

definition flushPendingICE :: "signal_state \<Rightarrow> signal_state" where
  "flushPendingICE st = st\<lparr>sg_remote_set := True, sg_pending := [], sg_log := sg_log st @ map AddCandidate (sg_pending st)\<rparr>"

definition handleOffer :: "pc_env \<Rightarrow> string \<Rightarrow> signal_state \<Rightarrow> signal_state \<times> string option" where
  "handleOffer env sdp st =
     (if \<not> pe_remote env sdp then (log_call (SetRemote sdp) st, Some ''set remote offer'')
      else (let st1 = flushPendingICE (log_call (SetRemote sdp) st) in
        (case pe_answer env sdp of
           None \<Rightarrow> (st1, Some ''create answer'')
         | Some answer \<Rightarrow>
             if \<not> pe_local env answer then (log_call (SetLocal answer) st1, Some ''set local answer'')
             else (log_call (SendSignal ((msg_of ''answer'')\<lparr>sm_sdp := answer\<rparr>)) (log_call (SetLocal answer) st1),
               if pe_send env then None else Some ''send answer''))))"

definition handleAnswer :: "pc_env \<Rightarrow> string \<Rightarrow> signal_state \<Rightarrow> signal_state \<times> string option" where
  "handleAnswer env sdp st =
     (if \<not> pe_remote env sdp then (log_call (SetRemote sdp) st, Some ''set remote answer'')
      else (flushPendingICE (log_call (SetRemote sdp) st), None))"

definition handleICE :: "pc_env \<Rightarrow> string \<Rightarrow> signal_state \<Rightarrow> signal_state \<times> string option" where
  "handleICE env candidate st =
     (if candidate = [] then (st, None)
      else (case pe_candidate env candidate of
          None \<Rightarrow> (st, Some ''decode candidate'')
        | Some c \<Rightarrow>
            if \<not> sg_remote_set st then (st\<lparr>sg_pending := sg_pending st @ [c]\<rparr>, None)
            else (log_call (AddCandidate c) st, if pe_add env c then None else Some ''add candidate'')))"

text \<open>One message of \<open>runSignaling\<close>; the flag says whether the loop goes on.\<close>

definition signal_step :: "pc_env \<Rightarrow> sigMsg option \<Rightarrow> signal_state \<Rightarrow> signal_state \<times> bool" where
  "signal_step env m st = (case m of
     None \<Rightarrow> (fail_signal ''read'' st, False)
   | Some m \<Rightarrow>
       (let go = (\<lambda>(st', e). case e of None \<Rightarrow> (st', True) | Some why \<Rightarrow> (fail_signal why st', False)) in
        if sm_type m = ''offer'' then go (handleOffer env (sm_sdp m) st)
        else if sm_type m = ''answer'' then go (handleAnswer env (sm_sdp m) st)
        else if sm_type m = ''ice'' then go (handleICE env (sm_candidate m) st)
        else if sm_type m = ''peer-left'' \<or> sm_type m = ''bye'' then (fail_signal ''p2p: peer left'' st, False)
        else if sm_type m = ''error'' then (fail_signal (relayError (sm_reason m)) st, False)
        else (st, True)))"

fun runSignaling :: "pc_env \<Rightarrow> sigMsg option list \<Rightarrow> signal_state \<Rightarrow> signal_state" where
  "runSignaling env [] st = st"
| "runSignaling env (m # ms) st = (case signal_step env m st of
     (st', True) \<Rightarrow> runSignaling env ms st' | (st', False) \<Rightarrow> st')"

definition new_signaling :: signal_state where
  "new_signaling = \<lparr>sg_remote_set = False, sg_pending = [], sg_log = [], sg_failed = None\<rparr>"

section \<open>The check of the peer\<close>

text \<open>The first fingerprint line of a description.\<close>

fun first_fingerprint :: "string list \<Rightarrow> string option" where
  "first_fingerprint [] = None"
| "first_fingerprint (l # ls) = (let t = trim_space l in
     if has_prefix t ''a=fingerprint:'' then Some (trim_space (drop 14 t)) else first_fingerprint ls)"

definition fingerprintFromSDP :: "string option \<Rightarrow> string option" where
  "fingerprintFromSDP desc = Option.bind desc (\<lambda>sdp. first_fingerprint (split_char CHR 0x0A sdp))"

text \<open>Go compares strings byte by byte.\<close>

fun string_less :: "string \<Rightarrow> string \<Rightarrow> bool" where
  "string_less s [] = False"
| "string_less [] (y # ys) = True"
| "string_less (x # xs) (y # ys) = (of_char x < (of_char y :: nat) \<or> x = y \<and> string_less xs ys)"

definition channelBinding :: "string \<Rightarrow> string \<Rightarrow> string" where
  "channelBinding a b = (if string_less b a then b @ ''|'' @ a else a @ ''|'' @ b)"

definition sasRoleTags :: "p2p_role \<Rightarrow> string \<times> string" where
  "sasRoleTags role = (if role = SenderRole then (''S'', ''R'') else (''R'', ''S''))"

definition sas_message :: "string \<Rightarrow> string \<Rightarrow> bytes" where
  "sas_message binding tag = ''s2u-sas-v2'' @ [CHR 0x00] @ tag @ [CHR 0x00] @ binding"

definition sasMAC :: "(bytes \<Rightarrow> bytes \<Rightarrow> bytes) \<Rightarrow> string \<Rightarrow> string \<Rightarrow> string \<Rightarrow> bytes" where
  "sasMAC hmac secret binding tag = take 16 (hmac secret (sas_message binding tag))"

datatype verify_err = NoSecret | NoControlChannel | NoFingerprint | VerifySend | PeerRefused | VerifyInterrupted

text \<open>What the peer's turn brings: its message, or a context, a failure, an end, a timeout.\<close>

definition verifyPeer ::
  "(bytes \<Rightarrow> bytes \<Rightarrow> bytes) \<Rightarrow> RelayConfig \<Rightarrow> p2p_role \<Rightarrow> bool \<Rightarrow> string option \<Rightarrow> string option \<Rightarrow> bool \<Rightarrow> bytes option \<Rightarrow>
   bytes option \<times> verify_err option" where
  "verifyPeer hmac cfg role ctrl local remote send_ok peer =
     (let secret = trim_space (rc_secret cfg) in
      if secret = [] then (None, if rc_insecure cfg then None else Some NoSecret)
      else if \<not> ctrl then (None, Some NoControlChannel)
      else (case (fingerprintFromSDP local, fingerprintFromSDP remote) of
          (Some l, Some r) \<Rightarrow>
            (let binding = channelBinding l r; mac = sasMAC hmac secret binding (fst (sasRoleTags role));
                 expected = sasMAC hmac secret binding (snd (sasRoleTags role)) in
             if \<not> send_ok then (None, Some VerifySend)
             else (Some mac, (case peer of
                 None \<Rightarrow> Some VerifyInterrupted
               | Some m \<Rightarrow> if m \<noteq> expected then Some PeerRefused else None)))
        | _ \<Rightarrow> (None, Some NoFingerprint)))"

section \<open>Facts on the order of strings and the binding\<close>

lemma string_less_asym: "string_less a b \<Longrightarrow> \<not> string_less b a"
  by (induction a b rule: string_less.induct) auto

lemma string_less_total: "a \<noteq> b \<Longrightarrow> string_less a b \<or> string_less b a"
proof (induction a b rule: string_less.induct)
  case (3 x xs y ys)
  show ?case
  proof (cases "x = y")
    case True
    then show ?thesis using 3 by auto
  next
    case False
    then have "(of_char x :: nat) \<noteq> of_char y" by simp
    then have "(of_char x :: nat) < of_char y \<or> (of_char y :: nat) < of_char x" by linarith
    then show ?thesis by auto
  qed
next
  case (1 s)
  then show ?case by (cases s) auto
qed auto

lemma channelBinding_commute: "channelBinding a b = channelBinding b a"
proof (cases "a = b")
  case False
  then consider "string_less a b" "\<not> string_less b a" | "string_less b a" "\<not> string_less a b"
    using string_less_total string_less_asym by blast
  then show ?thesis by cases (simp_all add: channelBinding_def)
qed simp

lemma split_bar_unique:
  "x @ CHR ''|'' # y = u @ CHR ''|'' # v \<Longrightarrow> CHR ''|'' \<notin> set x \<Longrightarrow> CHR ''|'' \<notin> set u \<Longrightarrow> x = u \<and> y = v"
proof (induction x arbitrary: u)
  case Nil
  then show ?case by (cases u) auto
next
  case (Cons a x)
  then show ?case by (cases u) auto
qed

lemma channelBinding_set:
  assumes "channelBinding a b = channelBinding c d" "CHR ''|'' \<notin> set a \<union> set b \<union> set c \<union> set d"
  shows "{a, b} = {c, d}"
  using assms by (auto simp: channelBinding_def split: if_splits dest!: split_bar_unique)

lemma sas_message_inj: "sas_message a s = sas_message b t \<Longrightarrow> length s = length t \<Longrightarrow> a = b \<and> s = t"
  by (simp add: sas_message_def)

lemma length_role_tag [simp]: "length (fst (sasRoleTags r)) = 1" "length (snd (sasRoleTags r)) = 1"
  by (simp_all add: sasRoleTags_def)

lemma verifyPeer_passes:
  assumes "verifyPeer hmac cfg role ctrl loc rem ok peer = (Some sent, None)"
  obtains l r where "trim_space (rc_secret cfg) \<noteq> []"
    "fingerprintFromSDP loc = Some l" "fingerprintFromSDP rem = Some r"
    "sent = sasMAC hmac (trim_space (rc_secret cfg)) (channelBinding l r) (fst (sasRoleTags role))"
    "peer = Some (sasMAC hmac (trim_space (rc_secret cfg)) (channelBinding l r) (snd (sasRoleTags role)))"
  using assms by (auto simp: verifyPeer_def Let_def split: if_splits option.splits)

lemma verifyPeer_accepts:
  assumes "trim_space (rc_secret cfg) = k" "k \<noteq> []" "ctrl" "ok"
    "fingerprintFromSDP loc = Some l" "fingerprintFromSDP rem = Some r"
  shows "verifyPeer hmac cfg role ctrl loc rem ok (Some (sasMAC hmac k (channelBinding l r) (snd (sasRoleTags role)))) =
    (Some (sasMAC hmac k (channelBinding l r) (fst (sasRoleTags role))), None)"
  using assms by (simp add: verifyPeer_def Let_def)

section \<open>The order of candidates\<close>

fun candidates_of :: "pc_call list \<Rightarrow> string list" where
  "candidates_of [] = []"
| "candidates_of (AddCandidate c # cs) = c # candidates_of cs"
| "candidates_of (_ # cs) = candidates_of cs"

text \<open>The candidates a list of messages offers, and the calls that set a remote description.\<close>

definition candidates_in :: "pc_env \<Rightarrow> sigMsg option \<Rightarrow> string list" where
  "candidates_in env m = (case m of
     None \<Rightarrow> []
   | Some m \<Rightarrow> if sm_type m = ''ice'' \<and> sm_candidate m \<noteq> []
       then (case pe_candidate env (sm_candidate m) of None \<Rightarrow> [] | Some c \<Rightarrow> [c]) else [])"

fun sets_remote :: "pc_env \<Rightarrow> pc_call \<Rightarrow> bool" where
  "sets_remote env (SetRemote sdp) = pe_remote env sdp"
| "sets_remote env _ = False"

definition signal_inv :: "pc_env \<Rightarrow> signal_state \<Rightarrow> bool" where
  "signal_inv env st \<longleftrightarrow>
     (if sg_remote_set st then sg_pending st = [] \<and> list_ex (sets_remote env) (sg_log st)
      else candidates_of (sg_log st) = []) \<and>
     candidates_of (takeWhile (\<lambda>c. \<not> sets_remote env c) (sg_log st)) = []"

definition known_candidates :: "signal_state \<Rightarrow> string list" where
  "known_candidates st = candidates_of (sg_log st) @ sg_pending st"

lemma candidates_of_append [simp]: "candidates_of (xs @ ys) = candidates_of xs @ candidates_of ys"
  by (induction xs rule: candidates_of.induct) simp_all

lemma candidates_of_adds [simp]: "candidates_of (map AddCandidate cs) = cs"
  by (induction cs) simp_all

lemma candidates_of_takeWhile_Nil: "candidates_of xs = [] \<Longrightarrow> candidates_of (takeWhile P xs) = []"
  by (induction xs rule: candidates_of.induct) simp_all

lemma takeWhile_after_remote: "list_ex (sets_remote env) xs \<Longrightarrow>
  takeWhile (\<lambda>c. \<not> sets_remote env c) (xs @ ys) = takeWhile (\<lambda>c. \<not> sets_remote env c) xs"
  by (induction xs) auto

lemma takeWhile_set_remote: "pe_remote env sdp \<Longrightarrow> candidates_of xs = [] \<Longrightarrow>
  candidates_of (takeWhile (\<lambda>c. \<not> sets_remote env c) (xs @ SetRemote sdp # ys)) = []"
  by (induction xs rule: candidates_of.induct) auto

lemma set_remote_inv:
  assumes "signal_inv env st"
  shows "signal_inv env (if pe_remote env sdp then flushPendingICE (log_call (SetRemote sdp) st) else log_call (SetRemote sdp) st)"
proof (cases "sg_remote_set st")
  case True
  with assms show ?thesis by (auto simp: signal_inv_def flushPendingICE_def log_call_def takeWhile_after_remote)
next
  case False
  with assms show ?thesis
    by (auto simp: signal_inv_def flushPendingICE_def log_call_def takeWhile_set_remote candidates_of_takeWhile_Nil)
qed

lemma set_remote_known [simp]:
  "known_candidates (flushPendingICE (log_call (SetRemote sdp) st)) = known_candidates st"
  "known_candidates (log_call (SetRemote sdp) st) = known_candidates st"
  "known_candidates (log_call (SetLocal sdp) st) = known_candidates st"
  "known_candidates (log_call (SendSignal m) st) = known_candidates st"
  "known_candidates (fail_signal e st) = known_candidates st"
  by (simp_all add: known_candidates_def flushPendingICE_def log_call_def fail_signal_def)

lemma inv_other_calls [simp]:
  "signal_inv env st \<Longrightarrow> signal_inv env (log_call (SetLocal sdp) st)"
  "signal_inv env st \<Longrightarrow> signal_inv env (log_call (SendSignal m) st)"
  "signal_inv env (fail_signal e st) = signal_inv env st"
  by (auto simp: signal_inv_def log_call_def fail_signal_def takeWhile_after_remote candidates_of_takeWhile_Nil)

lemma fail_signal_failed [simp]: "\<exists>y. sg_failed (fail_signal e st) = Some y"
  by (simp add: fail_signal_def)

lemma handleOffer_inv:
  "signal_inv env st \<Longrightarrow> signal_inv env (fst (handleOffer env sdp st)) \<and>
   known_candidates (fst (handleOffer env sdp st)) = known_candidates st"
  using set_remote_inv [of env st sdp]
  by (auto simp: handleOffer_def Let_def split: option.splits if_splits)

lemma handleAnswer_inv:
  "signal_inv env st \<Longrightarrow> signal_inv env (fst (handleAnswer env sdp st)) \<and>
   known_candidates (fst (handleAnswer env sdp st)) = known_candidates st"
  using set_remote_inv [of env st sdp] by (auto simp: handleAnswer_def)

lemma handleICE_inv:
  assumes "signal_inv env st"
  shows "signal_inv env (fst (handleICE env c st)) \<and>
    known_candidates (fst (handleICE env c st)) =
    known_candidates st @ (if c = [] then [] else case pe_candidate env c of None \<Rightarrow> [] | Some i \<Rightarrow> [i])"
  using assms
  by (auto simp: handleICE_def signal_inv_def known_candidates_def log_call_def takeWhile_after_remote split: option.splits)

lemma handlers_failed:
  "sg_failed (fst (handleOffer env s st)) = sg_failed st"
  "sg_failed (fst (handleAnswer env s st)) = sg_failed st"
  "sg_failed (fst (handleICE env s st)) = sg_failed st"
  by (simp_all add: handleOffer_def handleAnswer_def handleICE_def flushPendingICE_def log_call_def Let_def split: option.split)

lemma signal_step_inv:
  assumes "signal_inv env st" "signal_step env m st = (st', go)"
  shows "signal_inv env st' \<and> known_candidates st' = known_candidates st @ candidates_in env m \<and>
    (go \<longrightarrow> sg_failed st' = sg_failed st) \<and> (\<not> go \<longrightarrow> sg_failed st' \<noteq> None)"
proof (cases m)
  case None
  with assms show ?thesis by (auto simp: signal_step_def candidates_in_def fail_signal_def signal_inv_def known_candidates_def)
next
  case (Some a)
  consider "sm_type a = ''offer''" | "sm_type a = ''answer''" | "sm_type a = ''ice''"
    | "sm_type a \<noteq> ''offer''" "sm_type a \<noteq> ''answer''" "sm_type a \<noteq> ''ice''" by blast
  then show ?thesis
  proof cases
    case 1
    with assms Some handleOffer_inv [OF assms(1), of "sm_sdp a"] handlers_failed(1) [of env "sm_sdp a" st] show ?thesis
      by (auto simp: signal_step_def candidates_in_def split: prod.splits option.splits)
  next
    case 2
    with assms Some handleAnswer_inv [OF assms(1), of "sm_sdp a"] handlers_failed(2) [of env "sm_sdp a" st] show ?thesis
      by (auto simp: signal_step_def candidates_in_def split: prod.splits option.splits)
  next
    case 3
    with assms Some handleICE_inv [OF assms(1), of "sm_candidate a"] handlers_failed(3) [of env "sm_candidate a" st] show ?thesis
      by (auto simp: signal_step_def candidates_in_def split: prod.splits option.splits)
  next
    case 4
    with assms Some show ?thesis
      by (auto simp: signal_step_def candidates_in_def Let_def split: if_splits)
  qed
qed

lemma runSignaling_inv:
  "signal_inv env st \<Longrightarrow> sg_failed st = None \<Longrightarrow>
   signal_inv env (runSignaling env ms st) \<and>
   prefix (known_candidates (runSignaling env ms st)) (known_candidates st @ concat (map (candidates_in env) ms)) \<and>
   (sg_failed (runSignaling env ms st) = None \<longrightarrow>
    known_candidates (runSignaling env ms st) = known_candidates st @ concat (map (candidates_in env) ms))"
proof (induction ms arbitrary: st)
  case (Cons m ms)
  obtain st' go where step: "signal_step env m st = (st', go)" by (cases "signal_step env m st")
  note inv = signal_step_inv [OF Cons.prems(1) step]
  show ?case
  proof (cases go)
    case True
    with inv Cons.prems(2) have "sg_failed st' = None" by simp
    with Cons.IH [of st'] inv step True show ?thesis by simp
  next
    case False
    with inv step show ?thesis by (auto simp: prefix_def)
  qed
qed simp

lemma new_signaling_inv: "signal_inv env new_signaling" "sg_failed new_signaling = None" "known_candidates new_signaling = []"
  by (simp_all add: new_signaling_def signal_inv_def known_candidates_def)

text \<open>
  C32 The order of trickled candidates (\<open>runSignaling\<close>): whatever the relay delivers and in whatever order, no
  candidate is given to the peer connection before a remote description was set on it; the candidates given to it,
  followed by the ones still waiting, are the ones received, in the order received, none dropped and none twice, up
  to the message the session failed at, all of them as long as it has not failed; and once the remote description is
  set none waits any more.
\<close>

theorem ice_order:
  assumes "st = runSignaling env ms new_signaling" "all = concat (map (candidates_in env) ms)"
  shows "candidates_of (takeWhile (\<lambda>c. \<not> sets_remote env c) (sg_log st)) = [] \<and>
    prefix (candidates_of (sg_log st) @ sg_pending st) all \<and>
    (if sg_failed st = None then candidates_of (sg_log st) @ sg_pending st = all else True) \<and>
    (if sg_remote_set st then sg_pending st = [] else candidates_of (sg_log st) = [])"
  using runSignaling_inv [of env new_signaling ms, OF new_signaling_inv(1,2)] assms
  by (auto simp: signal_inv_def known_candidates_def new_signaling_def split: if_splits)

definition demo_pc :: pc_env where
  "demo_pc = \<lparr>pe_remote = (\<lambda>s. s \<noteq> []), pe_answer = (\<lambda>s. Some ''answer-sdp''), pe_local = (\<lambda>s. True), pe_send = True,
     pe_candidate = (\<lambda>c. if c = ''bad'' then None else Some c), pe_add = (\<lambda>c. True)\<rparr>"

definition demo_signals :: "sigMsg option list" where
  "demo_signals = [Some ((msg_of ''ice'')\<lparr>sm_candidate := ''c1''\<rparr>), Some (msg_of ''ice''),
     Some ((msg_of ''offer'')\<lparr>sm_sdp := ''offer-sdp''\<rparr>), Some ((msg_of ''ice'')\<lparr>sm_candidate := ''c2''\<rparr>)]"

theorem ice_order_witness:
  "sg_log (runSignaling demo_pc demo_signals new_signaling) =
     [SetRemote ''offer-sdp'', AddCandidate ''c1'', SetLocal ''answer-sdp'',
      SendSignal ((msg_of ''answer'')\<lparr>sm_sdp := ''answer-sdp''\<rparr>), AddCandidate ''c2''] \<and>
   candidates_of (sg_log (runSignaling demo_pc demo_signals new_signaling)) @
     sg_pending (runSignaling demo_pc demo_signals new_signaling) = [''c1'', ''c2'']"
proof
  show eval: "sg_log (runSignaling demo_pc demo_signals new_signaling) =
     [SetRemote ''offer-sdp'', AddCandidate ''c1'', SetLocal ''answer-sdp'',
      SendSignal ((msg_of ''answer'')\<lparr>sm_sdp := ''answer-sdp''\<rparr>), AddCandidate ''c2'']"
    by code_simp
  have "sg_failed (runSignaling demo_pc demo_signals new_signaling) = None" by code_simp
  moreover have "concat (map (candidates_in demo_pc) demo_signals) = [''c1'', ''c2'']" by code_simp
  ultimately show "candidates_of (sg_log (runSignaling demo_pc demo_signals new_signaling)) @
     sg_pending (runSignaling demo_pc demo_signals new_signaling) = [''c1'', ''c2'']"
    using ice_order [OF refl refl, of demo_pc demo_signals] by simp
qed

section \<open>What the check of the peer promises\<close>

text \<open>The inputs of the MAC that occur when a sender and a receiver, who see the fingerprints \<open>ls\<close>, \<open>rs\<close> and
  \<open>lr\<close>, \<open>rr\<close>, verify each other.\<close>

definition sas_inputs :: "string \<Rightarrow> string \<Rightarrow> string \<Rightarrow> string \<Rightarrow> string \<Rightarrow> string \<Rightarrow> (bytes \<times> bytes) set" where
  "sas_inputs ks ls rs kr lr rr =
     {(ks, sas_message (channelBinding ls rs) ''S''), (ks, sas_message (channelBinding ls rs) ''R''),
      (kr, sas_message (channelBinding lr rr) ''S''), (kr, sas_message (channelBinding lr rr) ''R'')}"

text \<open>
  Two peers that share the pairing secret and see the same connection, each other's certificate as the remote one,
  verify each other: each accepts the message the other sends, whatever HMAC computes.
\<close>

theorem sas_agreement:
  assumes "trim_space (rc_secret cs) = k" "trim_space (rc_secret cr) = k" "k \<noteq> []"
    and "fingerprintFromSDP ls = Some a" "fingerprintFromSDP rs = Some b" "fingerprintFromSDP lr = Some b" "fingerprintFromSDP rr = Some a"
    and "fst (verifyPeer hmac cs SenderRole True ls rs True None) = Some ms"
    and "fst (verifyPeer hmac cr ReceiverRole True lr rr True None) = Some mr"
  shows "verifyPeer hmac cs SenderRole True ls rs True (Some mr) = (Some ms, None) \<and>
    verifyPeer hmac cr ReceiverRole True lr rr True (Some ms) = (Some mr, None)"
  using assms by (simp add: verifyPeer_def Let_def sasRoleTags_def channelBinding_commute [of b a])

definition demo_hmac :: "bytes \<Rightarrow> bytes \<Rightarrow> bytes" where
  "demo_hmac k m = k @ drop 11 m"

definition demo_relay :: RelayConfig where
  "demo_relay = \<lparr>rc_code = ''code'', rc_token = ''tok'', rc_secret = ''k'', rc_insecure = False\<rparr>"

definition demo_sdp :: "string \<Rightarrow> string option" where
  "demo_sdp fp = Some (''v=0'' @ [CHR 0x0A] @ ''a=fingerprint:'' @ fp)"

lemma demo_sdp_fingerprint: "fingerprintFromSDP (demo_sdp ''AA'') = Some ''AA''" "fingerprintFromSDP (demo_sdp ''BB'') = Some ''BB''"
proof -
  have trims: "trim_space ''v=0'' = ''v=0''" "trim_space ''a=fingerprint:AA'' = ''a=fingerprint:AA''"
      "trim_space ''a=fingerprint:BB'' = ''a=fingerprint:BB''" "trim_space ''AA'' = ''AA''" "trim_space ''BB'' = ''BB''"
    by (rule trim_space_ascii_id; simp add: is_space_def of_char_Char horner_sum_simps)+
  have "split_char CHR 0x0A (''v=0'' @ [CHR 0x0A] @ ''a=fingerprint:AA'') = [''v=0'', ''a=fingerprint:AA'']"
    "split_char CHR 0x0A (''v=0'' @ [CHR 0x0A] @ ''a=fingerprint:BB'') = [''v=0'', ''a=fingerprint:BB'']"
    by simp_all
  then show "fingerprintFromSDP (demo_sdp ''AA'') = Some ''AA''" "fingerprintFromSDP (demo_sdp ''BB'') = Some ''BB''"
    by (simp_all add: fingerprintFromSDP_def demo_sdp_def Let_def trims has_prefix_def)
qed

lemma demo_secret: "trim_space (rc_secret demo_relay) = ''k''"
  unfolding demo_relay_def RelayConfig.simps
  by (rule trim_space_ascii_id; simp add: is_space_def of_char_Char horner_sum_simps)

definition demo_mac :: "char \<Rightarrow> bytes" where
  "demo_mac tag = [CHR ''k'', tag, CHR 0x00] @ ''AA|BB''"

lemma demo_macs:
  "sasMAC demo_hmac ''k'' (channelBinding ''AA'' ''BB'') ''S'' = demo_mac CHR ''S''"
  "sasMAC demo_hmac ''k'' (channelBinding ''AA'' ''BB'') ''R'' = demo_mac CHR ''R''"
  "sasMAC demo_hmac ''k'' (channelBinding ''BB'' ''AA'') ''S'' = demo_mac CHR ''S''"
  "sasMAC demo_hmac ''k'' (channelBinding ''BB'' ''AA'') ''R'' = demo_mac CHR ''R''"
  by code_simp+

lemma demo_peer_verify:
  "verifyPeer demo_hmac demo_relay SenderRole True (demo_sdp ''AA'') (demo_sdp ''BB'') True p =
     (Some (demo_mac CHR ''S''), case p of None \<Rightarrow> Some VerifyInterrupted
        | Some m \<Rightarrow> if m \<noteq> demo_mac CHR ''R'' then Some PeerRefused else None)"
  "verifyPeer demo_hmac demo_relay ReceiverRole True (demo_sdp ''BB'') (demo_sdp ''AA'') True p =
     (Some (demo_mac CHR ''R''), case p of None \<Rightarrow> Some VerifyInterrupted
        | Some m \<Rightarrow> if m \<noteq> demo_mac CHR ''S'' then Some PeerRefused else None)"
  by (simp_all add: verifyPeer_def demo_secret demo_sdp_fingerprint sasRoleTags_def demo_macs Let_def split: option.split)

theorem sas_agreement_witness:
  "verifyPeer demo_hmac demo_relay SenderRole True (demo_sdp ''AA'') (demo_sdp ''BB'') True (Some (demo_mac CHR ''R'')) =
     (Some (demo_mac CHR ''S''), None) \<and>
   verifyPeer demo_hmac demo_relay ReceiverRole True (demo_sdp ''BB'') (demo_sdp ''AA'') True (Some (demo_mac CHR ''S'')) =
     (Some (demo_mac CHR ''R''), None)"
  by (rule sas_agreement [OF demo_secret demo_secret, where a = "''AA''" and b = "''BB''"])
    (simp_all add: demo_sdp_fingerprint demo_peer_verify)

lemma verifyPeer_sends:
  assumes "verifyPeer hmac cfg role ctrl loc rem ok peer = (Some sent, e)"
    "fingerprintFromSDP loc = Some l" "fingerprintFromSDP rem = Some r"
  shows "sent = sasMAC hmac (trim_space (rc_secret cfg)) (channelBinding l r) (fst (sasRoleTags role))"
  using assms by (auto simp: verifyPeer_def Let_def split: if_splits)

text \<open>
  C31 What verification detects. A peer accepted a message that is the other peer's, sent by it on its own connection,
  or its own sent back by the relay. Unless two of the four MACs in play collide, the message is the other's and no
  reflection, the two secrets are the same, and both peers see the same pair of certificates: a relay that ends the
  encryption itself on either side, and so shows a certificate of its own, is detected.
\<close>

theorem sas_detects_relay:
  assumes accepted: "verifyPeer hmac ca role True la ra True (Some m) = (Some m1, None)"
    and other: "verifyPeer hmac cb role' True lb rb True p = (Some m2, e)" "role' \<noteq> role"
    and source: "m \<in> {m1, m2}"
    and seen: "map fingerprintFromSDP [la, ra, lb, rb] = map Some [a, b, c, d]" "CHR ''|'' \<notin> set a \<union> set b \<union> set c \<union> set d"
    and collision_free: "inj_on (\<lambda>(k, x). take 16 (hmac k x))
      (sas_inputs (trim_space (rc_secret ca)) a b (trim_space (rc_secret cb)) c d)"
  shows "m = m2 \<and> m \<noteq> m1 \<and> trim_space (rc_secret ca) = trim_space (rc_secret cb) \<and> {a, b} = {c, d}"
proof -
  let ?k1 = "trim_space (rc_secret ca)" and ?k2 = "trim_space (rc_secret cb)"
  have fps: "fingerprintFromSDP la = Some a" "fingerprintFromSDP ra = Some b"
    "fingerprintFromSDP lb = Some c" "fingerprintFromSDP rb = Some d" using seen(1) by simp_all
  have m1: "m1 = sasMAC hmac ?k1 (channelBinding a b) (fst (sasRoleTags role))"
    using verifyPeer_sends [OF accepted fps(1,2)] .
  have m: "m = sasMAC hmac ?k1 (channelBinding a b) (snd (sasRoleTags role))"
    using accepted fps(1,2) by (auto elim!: verifyPeer_passes)
  have m2: "m2 = sasMAC hmac ?k2 (channelBinding c d) (fst (sasRoleTags role'))"
    using verifyPeer_sends [OF other(1) fps(3,4)] .
  have tags: "fst (sasRoleTags role') = snd (sasRoleTags role)" "snd (sasRoleTags role) \<noteq> fst (sasRoleTags role)"
    using other(2) by (cases role; cases role'; simp add: sasRoleTags_def)+
  have mac: "sasMAC hmac k x t = (\<lambda>(k, x). take 16 (hmac k x)) (k, sas_message x t)" for k x t
    by (simp add: sasMAC_def)
  have inputs: "(?k1, sas_message (channelBinding a b) t) \<in> sas_inputs ?k1 a b ?k2 c d"
    "(?k2, sas_message (channelBinding c d) t) \<in> sas_inputs ?k1 a b ?k2 c d"
    if "t = fst (sasRoleTags role) \<or> t = snd (sasRoleTags role)" for t
    using that by (auto simp: sas_inputs_def sasRoleTags_def split: if_splits)
  have own: "m \<noteq> m1"
    using inj_onD [OF collision_free, of "(?k1, sas_message (channelBinding a b) (snd (sasRoleTags role)))"
      "(?k1, sas_message (channelBinding a b) (fst (sasRoleTags role)))"] inputs(1) tags(2) m m1 mac
      sas_message_inj [of "channelBinding a b" "snd (sasRoleTags role)" "channelBinding a b" "fst (sasRoleTags role)"]
    by auto
  then have "m = m2" using source by simp
  then have "(?k1, sas_message (channelBinding a b) (snd (sasRoleTags role))) =
      (?k2, sas_message (channelBinding c d) (snd (sasRoleTags role)))"
    using inj_onD [OF collision_free, of "(?k1, sas_message (channelBinding a b) (snd (sasRoleTags role)))"
      "(?k2, sas_message (channelBinding c d) (snd (sasRoleTags role)))"] inputs m m2 mac tags(1) by simp
  then have "?k1 = ?k2" "channelBinding a b = channelBinding c d"
    using sas_message_inj [of "channelBinding a b" "snd (sasRoleTags role)" "channelBinding c d" "snd (sasRoleTags role)"]
    by simp_all
  then show ?thesis using \<open>m = m2\<close> own channelBinding_set [of a b c d] seen(2) by simp
qed

theorem sas_detects_relay_witness:
  "demo_mac CHR ''R'' \<noteq> demo_mac CHR ''S'' \<and> {''AA'', ''BB''} = {''BB'', ''AA''}"
proof -
  have macs: "inj_on (\<lambda>(k, x). take 16 (demo_hmac k x)) (sas_inputs ''k'' ''AA'' ''BB'' ''k'' ''BB'' ''AA'')"
    by (simp add: sas_inputs_def sas_message_def demo_hmac_def channelBinding_commute [of "''BB''"] inj_on_def)
  have "demo_mac CHR ''R'' = demo_mac CHR ''R'' \<and> demo_mac CHR ''R'' \<noteq> demo_mac CHR ''S'' \<and>
    trim_space (rc_secret demo_relay) = trim_space (rc_secret demo_relay) \<and> {''AA'', ''BB''} = {''BB'', ''AA''}"
    by (rule sas_detects_relay [where hmac = demo_hmac and role = SenderRole and role' = ReceiverRole and
        la = "demo_sdp ''AA''" and ra = "demo_sdp ''BB''" and lb = "demo_sdp ''BB''" and rb = "demo_sdp ''AA''" and
        p = None and e = "Some VerifyInterrupted"])
      (simp_all add: demo_sdp_fingerprint demo_peer_verify demo_secret macs)
  then show ?thesis by simp
qed

end
