(* ===== verification/P2PConnect.thy ===== *)
theory P2PConnect
  imports P2PPeer
begin

text \<open>
  Opening and closing a peer-to-peer session (\<open>Connect\<close>, \<open>newPeerConnection\<close>, \<open>Close\<close> of \<open>p2p/session.go\<close>,
  \<open>NewSession\<close> of \<open>p2p/p2p.go\<close>): the rendezvous, the channels, the offer, the wait for both channels, the check
  of the peer. Each call of the WebRTC library is a parameter; what is sent over the relay is the result.
\<close>

section \<open>A session\<close>

record ICEServer =
  ic_urls :: "string list"
  ic_username :: string
  ic_credential :: string

datatype connect_err =
  NotImplemented | InvalidRole | Signalling sig_err | NewConnection | CreateChannel | CreateControl | CreateOffer
| SetLocalOffer | SendOffer | OpenCtx | OpenFailed string | OpenCancelled | NotVerified verify_err

text \<open>The servers given to the ICE agent: those with an address, with their credentials when a user name is set,
  then the plain ones.\<close>

definition ice_servers :: "ICEServer list \<Rightarrow> string list \<Rightarrow> ICEServer list" where
  "ice_servers srvs turns =
     map (\<lambda>s. \<lparr>ic_urls = ic_urls s, ic_username = ic_username s,
       ic_credential = (if ic_username s \<noteq> [] then ic_credential s else [])\<rparr>)
       (filter (\<lambda>s. ic_urls s \<noteq> []) srvs) @
     (if turns \<noteq> [] then [\<lparr>ic_urls = turns, ic_username = [], ic_credential = []\<rparr>] else [])"

text \<open>How the wait for one channel ends.\<close>

datatype open_event = ChannelOpen | OpenCtxDone | OpenFatal string | SessionDone

fun wait_open :: "open_event list \<Rightarrow> connect_err option" where
  "wait_open [] = None"
| "wait_open (ChannelOpen # es) = wait_open es"
| "wait_open (OpenCtxDone # es) = Some OpenCtx"
| "wait_open (OpenFatal why # es) = Some (OpenFailed why)"
| "wait_open (SessionDone # es) = Some OpenCancelled"

text \<open>What the calls of \<open>Connect\<close> return: dialling, writing to and reading from the relay; the peer connection and
  its two channels; the offer, setting and sending it; the two waits; the descriptions and the peer's message the
  verification sees.\<close>

record connect_env =
  ce_signaler :: bool
  ce_dial :: bool
  ce_write :: bool
  ce_relay :: "sigMsg option list"
  ce_connection :: bool
  ce_channel :: bool
  ce_control :: bool
  ce_offer :: "string option"
  ce_set_local :: bool
  ce_send_offer :: bool
  ce_file_open :: open_event
  ce_control_open :: open_event
  ce_local :: "string option"
  ce_remote :: "string option"
  ce_verify_send :: bool
  ce_peer :: "bytes option"

text \<open>The sender's part after the rendezvous: both channels, then the offer.\<close>

definition send_offer :: "connect_env \<Rightarrow> sigMsg list \<times> connect_err option" where
  "send_offer env =
     (if \<not> ce_channel env then ([], Some CreateChannel)
      else if \<not> ce_control env then ([], Some CreateControl)
      else (case ce_offer env of
          None \<Rightarrow> ([], Some CreateOffer)
        | Some sdp \<Rightarrow>
            if \<not> ce_set_local env then ([], Some SetLocalOffer)
            else if \<not> ce_send_offer env then ([], Some SendOffer)
            else ([(msg_of ''offer'')\<lparr>sm_sdp := sdp\<rparr>], None)))"

text \<open>\<open>Connect\<close>: the messages sent over the relay, the message sent to the peer, the error.\<close>

definition p2p_Connect ::
  "(bytes \<Rightarrow> bytes \<Rightarrow> bytes) \<Rightarrow> RelayConfig \<Rightarrow> p2p_role \<Rightarrow> connect_env \<Rightarrow> sigMsg list \<times> bytes option \<times> connect_err option" where
  "p2p_Connect hmac cfg role env =
     (if \<not> ce_signaler env then ([], None, Some NotImplemented)
      else (case sig_connect cfg role (ce_dial env) (ce_write env) (ce_relay env) of
          (out, Inl e) \<Rightarrow> (out, None, Some (Signalling e))
        | (out, Inr _) \<Rightarrow>
            if \<not> ce_connection env then (out, None, Some NewConnection)
            else (case (if role = SenderRole then send_offer env else ([], None)) of
                (off, Some e) \<Rightarrow> (out @ off, None, Some e)
              | (off, None) \<Rightarrow>
                  (case wait_open [ce_file_open env, ce_control_open env] of
                     Some e \<Rightarrow> (out @ off, None, Some e)
                   | None \<Rightarrow>
                       (case verifyPeer hmac cfg role True (ce_local env) (ce_remote env) (ce_verify_send env) (ce_peer env) of
                          (sent, e) \<Rightarrow> (out @ off, sent, map_option NotVerified e))))))"

text \<open>\<open>Close\<close>: what is closed, in order, and the errors met; a second call does nothing and returns the same.\<close>

datatype closing = CloseChannel | CloseControl | ClosePeer | CloseSignaling

definition close_calls :: "bool \<Rightarrow> bool \<Rightarrow> bool \<Rightarrow> bool \<Rightarrow> closing list" where
  "close_calls dc ctrl pc sig =
     (if dc then [CloseChannel] else []) @ (if ctrl then [CloseControl] else []) @ (if pc then [ClosePeer] else []) @
     (if sig then [CloseSignaling] else [])"

record closer =
  cl_done :: bool
  cl_cancelled :: bool
  cl_calls :: "closing list"
  cl_errors :: "string list"

definition p2p_Close :: "(closing \<Rightarrow> string option) \<Rightarrow> closing list \<Rightarrow> closer \<Rightarrow> closer \<times> string list" where
  "p2p_Close err calls st =
     (if cl_done st then (st, cl_errors st)
      else (let es = List.map_filter err calls in
        (st\<lparr>cl_done := True, cl_cancelled := True, cl_calls := cl_calls st @ calls, cl_errors := es\<rparr>, es)))"

section \<open>Facts\<close>

lemma p2p_Close_once: "p2p_Close err calls st = (st', es) \<Longrightarrow> p2p_Close err' calls' st' = (st', es)"
  by (auto simp: p2p_Close_def Let_def split: if_splits)

lemma ice_servers_addressed: "s \<in> set (ice_servers srvs turns) \<Longrightarrow> ic_urls s \<noteq> []"
  by (auto simp: ice_servers_def split: if_splits)

lemma wait_open_None: "wait_open [a, b] = None \<Longrightarrow> a = ChannelOpen \<and> b = ChannelOpen"
  by (cases a; cases b) simp_all

lemma p2p_Connect_verified:
  assumes "p2p_Connect hmac cfg role env = (out, sent, None)"
  shows "ce_file_open env = ChannelOpen \<and> ce_control_open env = ChannelOpen \<and>
    verifyPeer hmac cfg role True (ce_local env) (ce_remote env) (ce_verify_send env) (ce_peer env) = (sent, None)"
  using assms wait_open_None [of "ce_file_open env" "ce_control_open env"]
  by (auto simp: p2p_Connect_def split: if_splits prod.splits sum.splits option.splits)

lemma p2p_Connect_relay:
  "fst (p2p_Connect hmac (cfg\<lparr>rc_secret := other\<rparr>) role env) = fst (p2p_Connect hmac cfg role env)"
  by (simp add: p2p_Connect_def sig_connect_def split: sum.split prod.split option.split)

section \<open>Properties\<close>

text \<open>
  C30 A session that connected is verified, and the relay has not seen the secret: when \<open>Connect\<close> returns without an
  error and the configuration does not give up the check, both channels are open, the secret is not empty, the peer's
  message is the MAC of the other role under that secret over the two certificates this peer sees, and what went over
  the relay would have been the same with any other secret.
\<close>

theorem connect_verifies:
  assumes "p2p_Connect hmac cfg role env = (out, sent, None)" "\<not> rc_insecure cfg"
  shows "\<exists>l r. fingerprintFromSDP (ce_local env) = Some l \<and> fingerprintFromSDP (ce_remote env) = Some r \<and>
    ce_file_open env = ChannelOpen \<and> ce_control_open env = ChannelOpen \<and> trim_space (rc_secret cfg) \<noteq> [] \<and>
    ce_peer env = Some (sasMAC hmac (trim_space (rc_secret cfg)) (channelBinding l r) (snd (sasRoleTags role))) \<and>
    fst (p2p_Connect hmac (cfg\<lparr>rc_secret := other\<rparr>) role env) = out"
proof -
  note opened = p2p_Connect_verified [OF assms(1)]
  then have "sent \<noteq> None" using assms(2) by (auto simp: verifyPeer_def Let_def split: if_splits option.splits)
  with opened obtain m where
    "verifyPeer hmac cfg role True (ce_local env) (ce_remote env) (ce_verify_send env) (ce_peer env) = (Some m, None)" by auto
  then obtain l r where fps: "trim_space (rc_secret cfg) \<noteq> []" "fingerprintFromSDP (ce_local env) = Some l"
    "fingerprintFromSDP (ce_remote env) = Some r"
    "ce_peer env = Some (sasMAC hmac (trim_space (rc_secret cfg)) (channelBinding l r) (snd (sasRoleTags role)))"
    by (rule verifyPeer_passes)
  have "fst (p2p_Connect hmac (cfg\<lparr>rc_secret := other\<rparr>) role env) = out" using p2p_Connect_relay assms(1) by simp
  then show ?thesis using fps opened by blast
qed

definition demo_connect :: connect_env where
  "demo_connect = \<lparr>ce_signaler = True, ce_dial = True, ce_write = True,
     ce_relay = [Some (msg_of ''created''), Some (msg_of ''peer-joined'')], ce_connection = True, ce_channel = True,
     ce_control = True, ce_offer = Some ''offer'', ce_set_local = True, ce_send_offer = True, ce_file_open = ChannelOpen,
     ce_control_open = ChannelOpen, ce_local = demo_sdp ''AA'', ce_remote = demo_sdp ''BB'', ce_verify_send = True,
     ce_peer = Some (demo_mac CHR ''R'')\<rparr>"

lemma demo_connects:
  "p2p_Connect demo_hmac demo_relay SenderRole demo_connect =
     ([(msg_of ''create'')\<lparr>sm_code := ''code'', sm_token := ''tok''\<rparr>, (msg_of ''offer'')\<lparr>sm_sdp := ''offer''\<rparr>],
      Some (demo_mac CHR ''S''), None)"
  by (simp add: p2p_Connect_def sig_connect_def send_offer_def demo_connect_def demo_peer_verify demo_relay_def [symmetric])
    (simp add: demo_relay_def msg_of_def)

theorem connect_verifies_witness:
  "\<exists>l r. fingerprintFromSDP (ce_local demo_connect) = Some l \<and> fingerprintFromSDP (ce_remote demo_connect) = Some r \<and>
    ce_file_open demo_connect = ChannelOpen \<and> ce_control_open demo_connect = ChannelOpen \<and> trim_space (rc_secret demo_relay) \<noteq> [] \<and>
    ce_peer demo_connect =
      Some (sasMAC demo_hmac (trim_space (rc_secret demo_relay)) (channelBinding l r) (snd (sasRoleTags SenderRole))) \<and>
    fst (p2p_Connect demo_hmac (demo_relay\<lparr>rc_secret := ''other''\<rparr>) SenderRole demo_connect) =
      [(msg_of ''create'')\<lparr>sm_code := ''code'', sm_token := ''tok''\<rparr>, (msg_of ''offer'')\<lparr>sm_sdp := ''offer''\<rparr>]"
  by (rule connect_verifies [OF demo_connects]) (simp add: demo_relay_def)

end
