(* ===== verification/ScanRoute.thy ===== *)
theory ScanRoute
  imports Adverts DestPath
begin

text \<open>
  Discovery by probing and the choice of the direct route (\<open>lanshare/scan.go\<close>, \<open>lanroute.go\<close>): which addresses
  of the machine's own subnets and of the tailnet are probed, what makes a host that answers a receiver, and which of
  the account's devices are on this network. The handshake with a host is a parameter that yields the certificates
  the host presented; the addresses of the interfaces and the answer of the tailscale command are parameters.
\<close>

section \<open>Addresses\<close>

text \<open>\<open>netip.Addr\<close>: an IPv4 address as a number below \<open>2^32\<close>, an IPv6 one as its bytes with a zone.\<close>

datatype netaddr = A4 nat | A6 "nat list" string

definition v4_number :: "nat list \<Rightarrow> nat" where
  "v4_number v = foldl (\<lambda>n b. n * 256 + b) 0 v"

definition v4_octets :: "nat \<Rightarrow> nat list" where
  "v4_octets n = [n div 2 ^ 24 mod 256, n div 2 ^ 16 mod 256, n div 2 ^ 8 mod 256, n mod 256]"

definition ParseAddr :: "string \<Rightarrow> netaddr option" where
  "ParseAddr s =
     (case find (\<lambda>c. c \<in> set ''.:%'') s of
        None \<Rightarrow> None
      | Some c \<Rightarrow>
          if c = CHR ''.'' then map_option (\<lambda>v. A4 (v4_number v)) (parse_v4 s)
          else if c = CHR '':'' then
            (let a = takeWhile (\<lambda>c. c \<noteq> CHR ''%'') s; zone = drop (Suc (length a)) s in
             if length a < length s \<and> zone = [] then None else map_option (\<lambda>b. A6 b zone) (parse_v6 a))
          else None)"

text \<open>The text of an IPv6 address: the groups in hexadecimal, the first longest run of two or more zero groups as an
  ellipsis.\<close>

definition hex_group :: "nat \<Rightarrow> string" where
  "hex_group x = (if x \<ge> 0x1000 then [hex_digit (x div 0x1000 mod 16)] else []) @
     (if x \<ge> 0x100 then [hex_digit (x div 0x100 mod 16)] else []) @
     (if x \<ge> 0x10 then [hex_digit (x div 0x10 mod 16)] else []) @ [hex_digit (x mod 16)]"

fun v6_groups :: "nat list \<Rightarrow> nat list" where
  "v6_groups (a # b # bs) = (a * 256 + b) # v6_groups bs"
| "v6_groups _ = []"

definition zero_run :: "nat list \<Rightarrow> nat \<times> nat" where
  "zero_run gs = fold (\<lambda>i (s, n). let l = length (takeWhile (\<lambda>g. g = 0) (drop i gs)) in
     if l \<ge> 2 \<and> l > n then (i, l) else (s, n)) [0..<8] (0, 0)"

fun colon_groups :: "nat list \<Rightarrow> string" where
  "colon_groups [] = []"
| "colon_groups [g] = hex_group g"
| "colon_groups (g # h # gs) = hex_group g @ '':'' @ colon_groups (h # gs)"

definition v6_string :: "nat list \<Rightarrow> string" where
  "v6_string bs = (let gs = v6_groups bs; (s, n) = zero_run gs in
     if n = 0 then colon_groups gs else colon_groups (take s gs) @ ''::'' @ colon_groups (drop (s + n) gs))"

definition addr_string :: "netaddr \<Rightarrow> string" where
  "addr_string a = (case a of
     A4 n \<Rightarrow> v4_string (v4_octets n)
   | A6 bs zone \<Rightarrow>
       (if take 12 bs = replicate 10 0 @ [255, 255] then ''::ffff:'' @ v4_string (drop 12 bs) else v6_string bs) @
       (if zone = [] then [] else CHR ''%'' # zone))"

section \<open>What is probed\<close>

record ScanOptions =
  sn_port :: int
  sn_timeout :: int
  sn_concurrency :: int
  sn_targets :: "netaddr list"
  sn_include_tailscale :: "bool option"
  sn_skip_local :: bool

definition scan_defaults :: "ScanOptions \<Rightarrow> ScanOptions" where
  "scan_defaults op = op\<lparr>sn_port := (if sn_port op = 0 then DefaultPort else sn_port op),
     sn_timeout := (if sn_timeout op \<le> 0 then 400 * 1000000 else sn_timeout op),
     sn_concurrency := (if sn_concurrency op \<le> 0 then 128 else sn_concurrency op)\<rparr>"

definition wantTailnet :: "ScanOptions \<Rightarrow> bool" where
  "wantTailnet op = (case sn_include_tailscale op of Some b \<Rightarrow> b | None \<Rightarrow> sn_targets op = [])"

text \<open>The loop over the tailnet peers keeps the list, which also is the set of addresses seen, and the tailnet ones.\<close>

definition scanTargets :: "netaddr list \<Rightarrow> netaddr list \<Rightarrow> netaddr list \<Rightarrow> netaddr list \<times> netaddr set" where
  "scanTargets explicit local peers =
     fold (\<lambda>a (targets, tailnet). if a \<in> set targets then (targets, tailnet) else (targets @ [a], insert a tailnet))
       peers (if explicit = [] then local else explicit, {})"

text \<open>An address of an interface: the bytes of an \<open>IPNet\<close> with the length of its mask, 0 for one that is none.\<close>

datatype iface_addr = IPNet "nat list" nat | OtherAddr

definition in_prefix :: "nat \<Rightarrow> nat \<Rightarrow> nat \<Rightarrow> bool" where
  "in_prefix ones base ip \<longleftrightarrow> ip < 2 ^ 32 \<and> ip div 2 ^ (32 - ones) = base div 2 ^ (32 - ones)"

function walk_subnet :: "nat \<Rightarrow> nat \<Rightarrow> nat \<Rightarrow> nat list" where
  "walk_subnet ones base ip =
     (if in_prefix ones base ip \<and> in_prefix ones base (Suc ip) then ip # walk_subnet ones base (Suc ip) else [])"
  by pat_completeness auto
termination
  by (relation "measure (\<lambda>(ones, base, ip). 2 ^ 32 - ip)") (auto simp: in_prefix_def)

declare walk_subnet.simps [simp del]

definition masked :: "nat \<Rightarrow> nat \<Rightarrow> nat" where
  "masked ones ip = ip div 2 ^ (32 - ones) * 2 ^ (32 - ones)"

text \<open>The address and prefix of an interface whose subnet is walked.\<close>

definition walked :: "iface_addr \<Rightarrow> (nat \<times> nat) option" where
  "walked a = (case a of
     OtherAddr \<Rightarrow> None
   | IPNet ip ones \<Rightarrow>
       (case to4 ip of
          None \<Rightarrow> None
        | Some v \<Rightarrow>
            if v ! 0 = 127 \<or> (v ! 0 = 169 \<and> v ! 1 = 254) then None
            else if ones < 22 \<or> ones > 30 then None else Some (v4_number v, ones)))"

definition add_subnet :: "iface_addr \<Rightarrow> nat list \<Rightarrow> nat list" where
  "add_subnet a out = (case walked a of
     None \<Rightarrow> out
   | Some (self, ones) \<Rightarrow>
       fold (\<lambda>ip out. if ip = self \<or> ip \<in> set out then out else out @ [ip])
         (walk_subnet ones (masked ones self) (Suc (masked ones self))) out)"

definition localScanTargets :: "iface_addr list \<Rightarrow> netaddr list" where
  "localScanTargets ifs = map A4 (fold add_subnet ifs [])"

text \<open>The tailnet: of each peer online the first address that is IPv4.\<close>

definition is_v4 :: "netaddr \<Rightarrow> bool" where
  "is_v4 a = (case a of A4 _ \<Rightarrow> True | A6 _ _ \<Rightarrow> False)"

definition tailscalePeers :: "(bool \<times> string list) list option \<Rightarrow> netaddr list" where
  "tailscalePeers status = (case status of
     None \<Rightarrow> []
   | Some ps \<Rightarrow> List.map_filter (\<lambda>(online, ips).
       if online then find is_v4 (List.map_filter ParseAddr ips) else None) ps)"

section \<open>Probing\<close>

definition scanCertCommonName :: string where "scanCertCommonName = ''share2us-lan''"

record ScannedPeer =
  sp_host :: string
  sp_port :: int
  sp_fingerprint :: string
  sp_name :: string
  sp_identity_fingerprint :: string
  sp_via_tailscale :: bool

text \<open>The loop over the certificates a host presented, each with its common name.\<close>

fun probe_certs :: "card_crypto \<Rightarrow> (string \<times> cert) list \<Rightarrow> (string \<times> DeviceCard) option" where
  "probe_certs cc [] = None"
| "probe_certs cc ((cn, c) # cs) =
     (if cn = scanCertCommonName
      then Some (certFingerprint (cc_sha cc) (c_der c),
        case cardFromCert cc (Some c) of None \<Rightarrow> \<lparr>card_name = [], card_key = []\<rparr> | Some dc \<Rightarrow> dc)
      else probe_certs cc cs)"

text \<open>\<open>net\<close> gives the certificates of the host that completes a handshake at an address.\<close>

definition probeReceiver ::
  "card_crypto \<Rightarrow> (string \<Rightarrow> (string \<times> cert) list option) \<Rightarrow> string \<Rightarrow> (string \<times> DeviceCard) option" where
  "probeReceiver cc net addr = Option.bind (net addr) (probe_certs cc)"

definition scan_target ::
  "card_crypto \<Rightarrow> (string \<Rightarrow> (string \<times> cert) list option) \<Rightarrow> self_counts \<Rightarrow> int \<Rightarrow> netaddr set \<Rightarrow> netaddr \<Rightarrow> ScannedPeer option" where
  "scan_target cc net self port tailnet a =
     (case probeReceiver cc net (JoinHostPort (addr_string a) (itoa port)) of
        None \<Rightarrow> None
      | Some (fp, dc) \<Rightarrow>
          if isSelfFingerprint self fp then None
          else Some \<lparr>sp_host = addr_string a, sp_port = port, sp_fingerprint = fp, sp_name = card_name dc,
            sp_identity_fingerprint = IdentityFingerprint (cc_sha cc) (card_key dc), sp_via_tailscale = (a \<in> tailnet)\<rparr>)"

text \<open>What the machine tells a scan.\<close>

record scan_world =
  sw_crypto :: card_crypto
  sw_net :: "string \<Rightarrow> (string \<times> cert) list option"
  sw_self :: self_counts
  sw_ifaces :: "iface_addr list"
  sw_tailscale :: "(bool \<times> string list) list option"

text \<open>\<open>Scan\<close> that is not cancelled. Peers at one host (a target named twice) stand in an order Go leaves open.\<close>

definition scan_plan :: "scan_world \<Rightarrow> ScanOptions \<Rightarrow> netaddr list \<times> netaddr set" where
  "scan_plan w op = scanTargets (sn_targets op)
     (if sn_targets op = [] \<and> \<not> sn_skip_local op then localScanTargets (sw_ifaces w) else [])
     (if wantTailnet op then tailscalePeers (sw_tailscale w) else [])"

definition Scan :: "scan_world \<Rightarrow> ScanOptions \<Rightarrow> ScannedPeer list" where
  "Scan w op0 = (let op = scan_defaults op0; (targets, tailnet) = scan_plan w op in
     sort_key sp_host (List.map_filter (scan_target (sw_crypto w) (sw_net w) (sw_self w) (sn_port op) tailnet) targets))"

section \<open>The account's devices on this network\<close>

record DeviceRef =
  dr_session :: string
  dr_fingerprint :: string

record LocalMatch =
  lm_session :: string
  lm_peer :: ScannedPeer

definition normaliseFingerprint :: "string \<Rightarrow> string" where
  "normaliseFingerprint v = to_lower (trim_space v)"

text \<open>The lookup from fingerprint to session; the first device of a fingerprint is the one it names.\<close>

definition wanted_add :: "DeviceRef \<Rightarrow> (string \<times> string) list \<Rightarrow> (string \<times> string) list" where
  "wanted_add d m = (let fp = normaliseFingerprint (dr_fingerprint d) in
     if fp = [] \<or> dr_session d = [] then m else if map_of m fp = None then m @ [(fp, dr_session d)] else m)"

definition wanted_devices :: "DeviceRef list \<Rightarrow> (string \<times> string) list" where
  "wanted_devices ds = fold wanted_add ds []"

fun match_peers :: "(string \<times> string) list \<Rightarrow> string list \<Rightarrow> ScannedPeer list \<Rightarrow> LocalMatch list" where
  "match_peers wanted claimed [] = []"
| "match_peers wanted claimed (p # ps) =
     (let fp = normaliseFingerprint (sp_identity_fingerprint p) in
      if fp = [] then match_peers wanted claimed ps
      else (case map_of wanted fp of
          None \<Rightarrow> match_peers wanted claimed ps
        | Some s \<Rightarrow>
            if s \<in> set claimed then match_peers wanted claimed ps
            else \<lparr>lm_session = s, lm_peer = p\<rparr> # match_peers wanted (s # claimed) ps))"

definition browseTargets :: "Peer list option \<Rightarrow> netaddr list" where
  "browseTargets answer = (case answer of
     None \<Rightarrow> []
   | Some ps \<Rightarrow> fold (\<lambda>p out. case ParseAddr (pr_host p) of
       None \<Rightarrow> out | Some a \<Rightarrow> if a \<in> set out then out else out @ [a]) ps [])"

record MatchOptions =
  mo_timeout :: int
  mo_skip_local :: bool

definition match_scan :: "MatchOptions \<Rightarrow> Peer list option \<Rightarrow> ScanOptions" where
  "match_scan op heard =
     \<lparr>sn_port = 0, sn_timeout = (if mo_timeout op \<le> 0 then 400 * 1000000 else mo_timeout op), sn_concurrency = 0,
      sn_targets = browseTargets heard, sn_include_tailscale = Some True, sn_skip_local = mo_skip_local op\<rparr>"

text \<open>\<open>scan\<close> is the scan, \<open>None\<close> when it fails; \<open>heard\<close> is what mDNS announced.\<close>

definition MatchLocalDevices ::
  "(ScanOptions \<Rightarrow> ScannedPeer list option) \<Rightarrow> Peer list option \<Rightarrow> MatchOptions \<Rightarrow> DeviceRef list \<Rightarrow> unit + LocalMatch list" where
  "MatchLocalDevices scan heard op devices =
     (let wanted = wanted_devices devices in
      if wanted = [] then Inr []
      else (case scan (match_scan op heard) of None \<Rightarrow> Inl () | Some peers \<Rightarrow> Inr (match_peers wanted [] peers)))"

section \<open>Facts on the subnets\<close>

lemma div_eq_range:
  assumes "0 < (s::nat)"
  shows "n div s = q \<longleftrightarrow> q * s \<le> n \<and> n < q * s + s"
proof
  assume "n div s = q"
  then have "q * s + n mod s = n" using div_mult_mod_eq [of n s] by simp
  then show "q * s \<le> n \<and> n < q * s + s" using mod_less_divisor [OF assms, of n] by linarith
next
  assume "q * s \<le> n \<and> n < q * s + s"
  then show "n div s = q" by (intro div_nat_eqI) (simp_all add: mult.commute)
qed

lemma in_prefix_range:
  assumes "0 < k" "k \<le> 32" "base < 2 ^ 32"
  shows "in_prefix (32 - k) base ip \<longleftrightarrow> masked (32 - k) base \<le> ip \<and> ip < masked (32 - k) base + 2 ^ k"
proof -
  let ?s = "2 ^ k :: nat"
  have k: "32 - (32 - k) = k" using assms(2) by simp
  have dvd: "?s dvd 2 ^ 32" by (rule le_imp_power_dvd [OF assms(2)])
  then obtain q where q: "2 ^ 32 = ?s * q" by (auto simp: dvd_def)
  have "base div ?s < q" using assms(3) q by (metis less_mult_imp_div_less mult.commute)
  then have top: "base div ?s * ?s + ?s \<le> 2 ^ 32" using q by (metis Suc_leI mult.commute mult_Suc add.commute mult_le_mono2)
  have split: "ip div ?s = base div ?s \<longleftrightarrow> base div ?s * ?s \<le> ip \<and> ip < base div ?s * ?s + ?s"
    by (rule div_eq_range) simp
  show ?thesis unfolding in_prefix_def masked_def k split using top by auto
qed

lemma walk_range:
  assumes "0 < k" "k \<le> 32" "base < 2 ^ 32" "masked (32 - k) base \<le> ip"
  shows "walk_subnet (32 - k) base ip = [ip ..< masked (32 - k) base + 2 ^ k - 1]"
  using assms(4)
proof (induction "masked (32 - k) base + 2 ^ k - ip" arbitrary: ip rule: less_induct)
  case less
  note range = in_prefix_range [OF assms(1-3)]
  show ?case
  proof (cases "Suc ip < masked (32 - k) base + 2 ^ k")
    case True
    then have "walk_subnet (32 - k) base (Suc ip) = [Suc ip ..< masked (32 - k) base + 2 ^ k - 1]"
      using less by simp
    then show ?thesis using True less.prems by (subst walk_subnet.simps) (simp add: range upt_conv_Cons)
  next
    case False
    then show ?thesis by (subst walk_subnet.simps) (simp add: range)
  qed
qed

lemma octets_bound: "length v \<le> n \<Longrightarrow> \<forall>b\<in>set v. b < 256 \<Longrightarrow> v4_number v < 256 ^ length v"
proof (induction v rule: rev_induct)
  case (snoc b v)
  then have "v4_number v < 256 ^ length v" "b < 256" by simp_all
  then have "v4_number v * 256 + b < 256 ^ length v * 256" by linarith
  then show ?case by (simp add: v4_number_def mult.commute)
qed (simp add: v4_number_def)

lemma set_fold_new: "set (fold (\<lambda>x out. if x = s \<or> x \<in> set out then out else out @ [x]) xs out) = set out \<union> (set xs - {s})"
  by (induction xs arbitrary: out) auto

lemma distinct_fold_new:
  "distinct out \<Longrightarrow> distinct (fold (\<lambda>x out. if x = s \<or> x \<in> set out then out else out @ [x]) xs out)"
  by (induction xs arbitrary: out) auto

lemma length_fold_new:
  "length (fold (\<lambda>x out. if x = s \<or> x \<in> set out then out else out @ [x]) xs out) \<le> length out + length xs"
proof (induction xs arbitrary: out)
  case (Cons x xs)
  show ?case using Cons.IH [of out] Cons.IH [of "out @ [x]"] by auto
qed simp

text \<open>An address is well formed when its bytes are.\<close>

definition iface_ok :: "iface_addr \<Rightarrow> bool" where
  "iface_ok a = (case a of OtherAddr \<Rightarrow> True | IPNet ip _ \<Rightarrow> list_all (\<lambda>b. b < 256) ip)"

lemma to4_octets: "to4 ip = Some v \<Longrightarrow> length v = 4 \<and> set v \<subseteq> set ip"
  by (auto simp: to4_def dest: in_set_dropD split: if_splits)

lemma walked_range:
  assumes "iface_ok a" "walked a = Some (self, ones)"
  shows "walk_subnet ones (masked ones self) (Suc (masked ones self)) =
      [Suc (masked ones self) ..< masked ones self + 2 ^ (32 - ones) - 1]" "22 \<le> ones" "ones \<le> 30"
proof -
  from assms obtain v where v: "\<forall>b\<in>set v. b < 256" "length v = 4" "self = v4_number v" and o: "22 \<le> ones" "ones \<le> 30"
    by (fastforce simp: walked_def iface_ok_def list_all_iff dest: to4_octets split: iface_addr.splits option.splits if_splits)
  then have "self < 2 ^ 32" using octets_bound [of v 4] by simp
  show "22 \<le> ones" "ones \<le> 30" by (fact o)+
  let ?k = "32 - ones"
  have k: "32 - ?k = ones" using o by simp
  have m: "masked ones self < 2 ^ 32" "masked ones (masked ones self) = masked ones self"
    using \<open>self < 2 ^ 32\<close> by (auto simp: masked_def intro: le_less_trans [OF div_times_less_eq_dividend])
  show "walk_subnet ones (masked ones self) (Suc (masked ones self)) =
      [Suc (masked ones self) ..< masked ones self + 2 ^ (32 - ones) - 1]"
    using walk_range [of ?k "masked ones self" "Suc (masked ones self)"] m o k by simp
qed

text \<open>The hosts of a subnet that an interface has probed: between the network and the broadcast address, not its own.\<close>

definition subnet_host :: "iface_addr \<Rightarrow> nat \<Rightarrow> bool" where
  "subnet_host a n = (case walked a of
     None \<Rightarrow> False
   | Some (self, ones) \<Rightarrow> n \<noteq> self \<and> masked ones self < n \<and> n + 1 < masked ones self + 2 ^ (32 - ones))"

lemma add_subnet_facts:
  assumes "iface_ok a"
  shows "set (add_subnet a out) = set out \<union> {n. subnet_host a n}"
    and "distinct out \<Longrightarrow> distinct (add_subnet a out)"
    and "length (add_subnet a out) \<le> length out + 1022"
proof -
  have "set (add_subnet a out) = set out \<union> {n. subnet_host a n} \<and> (distinct out \<longrightarrow> distinct (add_subnet a out)) \<and>
    length (add_subnet a out) \<le> length out + 1022"
  proof (cases "walked a")
    case None
    then show ?thesis by (simp add: add_subnet_def subnet_host_def)
  next
    case (Some so)
    obtain self ones where so: "so = (self, ones)" by force
    note walk = walked_range [OF assms Some [unfolded so]]
    have "(2::nat) ^ (32 - ones) \<le> 2 ^ 10" using walk(2) by (intro power_increasing) simp_all
    then have "length [Suc (masked ones self) ..< masked ones self + 2 ^ (32 - ones) - 1] \<le> 1022" by simp
    then have len: "length (add_subnet a out) \<le> length out + 1022"
      using length_fold_new [of self "walk_subnet ones (masked ones self) (Suc (masked ones self))" out] walk(1)
      by (simp add: add_subnet_def Some so)
    show ?thesis using len
      by (auto simp: add_subnet_def Some so subnet_host_def set_fold_new distinct_fold_new walk(1))
  qed
  then show "set (add_subnet a out) = set out \<union> {n. subnet_host a n}"
    "distinct out \<Longrightarrow> distinct (add_subnet a out)" "length (add_subnet a out) \<le> length out + 1022" by blast+
qed

lemma fold_subnets:
  "list_all iface_ok ifs \<Longrightarrow> distinct out \<Longrightarrow>
   set (fold add_subnet ifs out) = set out \<union> {n. list_ex (\<lambda>a. subnet_host a n) ifs} \<and>
   distinct (fold add_subnet ifs out) \<and> length (fold add_subnet ifs out) \<le> length out + 1022 * length ifs"
proof (induction ifs arbitrary: out)
  case (Cons a ifs)
  then have a: "iface_ok a" and rest: "list_all iface_ok ifs" by simp_all
  note facts = add_subnet_facts [OF a, of out]
  from Cons.IH [OF rest facts(2) [OF Cons.prems(2)]] facts show ?case by auto
qed simp

section \<open>Properties of a scan\<close>

text \<open>
  A subnet sweep is complete and polite: the addresses probed for the machine's interfaces are exactly the hosts of
  its IPv4 subnets between /22 and /30, loopback and link-local left out, without the network address, the broadcast
  address and that interface's own; each stands once, at most 1022 for an interface.
\<close>

theorem sweep_polite:
  assumes "list_all iface_ok ifs"
  shows "(A4 n \<in> set (localScanTargets ifs) \<longleftrightarrow> list_ex (\<lambda>a. subnet_host a n) ifs) \<and>
    distinct (localScanTargets ifs) \<and> length (localScanTargets ifs) \<le> 1022 * length ifs"
  using fold_subnets [OF assms, of "[]"] by (auto simp: localScanTargets_def distinct_map inj_on_def)

lemma demo_ifaces:
  "list_all iface_ok [IPNet [192, 168, 2, 5] 24, IPNet [127, 0, 0, 2] 8]"
  "walked (IPNet [192, 168, 2, 5] 24) = Some (3232236037, 24)" "masked 24 3232236037 = 3232236032"
  by (simp_all add: iface_ok_def walked_def to4_def v4_number_def masked_def)

theorem sweep_polite_witness:
  "A4 3232236038 \<in> set (localScanTargets [IPNet [192, 168, 2, 5] 24, IPNet [127, 0, 0, 2] 8]) \<and>
   length (localScanTargets [IPNet [192, 168, 2, 5] 24, IPNet [127, 0, 0, 2] 8]) \<le> 2044"
  using sweep_polite [OF demo_ifaces(1), of 3232236038] by (simp add: subnet_host_def demo_ifaces)

text \<open>Only the interface's own address is left out: with two interfaces in a subnet each sweep probes the other's
  address, which is this machine too.\<close>

lemma own_address_swept:
  "A4 3232236038 \<in> set (localScanTargets [IPNet [192, 168, 2, 5] 24, IPNet [192, 168, 2, 6] 24])"
proof -
  have ok: "list_all iface_ok [IPNet [192, 168, 2, 5] 24, IPNet [192, 168, 2, 6] 24]" by (simp add: iface_ok_def)
  show ?thesis using fold_subnets [OF ok, of "[]"] by (simp add: localScanTargets_def subnet_host_def demo_ifaces)
qed

section \<open>Facts on the route\<close>

definition names_device :: "string \<Rightarrow> DeviceRef \<Rightarrow> bool" where
  "names_device fp d \<longleftrightarrow> fp \<noteq> [] \<and> normaliseFingerprint (dr_fingerprint d) = fp \<and> dr_session d \<noteq> []"

lemma wanted_fold:
  "map_of (fold wanted_add ds m) fp = (case map_of m fp of Some s \<Rightarrow> Some s
     | None \<Rightarrow> map_option dr_session (find (names_device fp) ds))"
proof (induction ds arbitrary: m)
  case (Cons d ds)
  then show ?case
    by (auto simp: wanted_add_def names_device_def Let_def map_add_def split: option.splits)
qed (simp split: option.split)

lemma wanted_devices_lookup: "map_of (wanted_devices ds) fp = map_option dr_session (find (names_device fp) ds)"
  by (simp add: wanted_devices_def wanted_fold)

lemma match_peers_sound:
  "m \<in> set (match_peers wanted claimed ps) \<Longrightarrow>
   lm_peer m \<in> set ps \<and> lm_session m \<notin> set claimed \<and>
   normaliseFingerprint (sp_identity_fingerprint (lm_peer m)) \<noteq> [] \<and>
   map_of wanted (normaliseFingerprint (sp_identity_fingerprint (lm_peer m))) = Some (lm_session m)"
  by (induction wanted claimed ps rule: match_peers.induct) (auto simp: Let_def split: if_splits option.splits)

lemma match_peers_distinct: "distinct (map lm_session (match_peers wanted claimed ps))"
proof (induction wanted claimed ps rule: match_peers.induct)
  case (2 wanted claimed p ps)
  then show ?case by (auto simp: Let_def dest: match_peers_sound split: option.split)
qed simp

lemma match_peers_complete:
  assumes "p \<in> set ps" "normaliseFingerprint (sp_identity_fingerprint p) \<noteq> []"
    "map_of wanted (normaliseFingerprint (sp_identity_fingerprint p)) = Some s"
  shows "s \<in> set claimed \<union> lm_session ` set (match_peers wanted claimed ps)"
  using assms(1)
proof (induction ps arbitrary: claimed)
  case (Cons q ps)
  show ?case
  proof (cases "p = q")
    case True
    then show ?thesis using assms(2,3) by (simp add: Let_def)
  next
    case False
    then have rest: "s \<in> set cl \<union> lm_session ` set (match_peers wanted cl ps)" for cl using Cons by simp
    show ?thesis using rest [of claimed] rest [of "the (map_of wanted (normaliseFingerprint (sp_identity_fingerprint q))) # claimed"]
      by (auto simp: Let_def split: option.split)
  qed
qed simp

lemma probe_certs_SomeD:
  "probe_certs cc chain = Some (fp, dc) \<Longrightarrow> \<exists>c. (scanCertCommonName, c) \<in> set chain \<and>
     fp = certFingerprint (cc_sha cc) (c_der c) \<and> (card_key dc = [] \<or> cardFromCert cc (Some c) = Some dc)"
  by (induction cc chain rule: probe_certs.induct) (auto split: if_splits option.splits)

lemma Scan_peerD:
  assumes "p \<in> set (Scan w op)"
  obtains a chain c dc where "a \<in> set (fst (scan_plan w (scan_defaults op)))"
    "sw_net w (JoinHostPort (addr_string a) (itoa (sn_port (scan_defaults op)))) = Some chain"
    "(scanCertCommonName, c) \<in> set chain" "sp_fingerprint p = certFingerprint (cc_sha (sw_crypto w)) (c_der c)"
    "card_key dc = [] \<or> cardFromCert (sw_crypto w) (Some c) = Some dc" "sp_host p = addr_string a"
    "sp_identity_fingerprint p = IdentityFingerprint (cc_sha (sw_crypto w)) (card_key dc)"
    "\<not> isSelfFingerprint (sw_self w) (sp_fingerprint p)"
proof -
  from assms obtain a tailnet where a: "a \<in> set (fst (scan_plan w (scan_defaults op)))"
    "scan_target (sw_crypto w) (sw_net w) (sw_self w) (sn_port (scan_defaults op)) tailnet a = Some p"
    by (cases "scan_plan w (scan_defaults op)") (auto simp: Scan_def Let_def List.map_filter_def)
  then obtain chain fp dc where c: "sw_net w (JoinHostPort (addr_string a) (itoa (sn_port (scan_defaults op)))) = Some chain"
    "probe_certs (sw_crypto w) chain = Some (fp, dc)" "\<not> isSelfFingerprint (sw_self w) fp" "sp_fingerprint p = fp"
    "sp_host p = addr_string a" "sp_identity_fingerprint p = IdentityFingerprint (cc_sha (sw_crypto w)) (card_key dc)"
    by (auto simp: scan_target_def probeReceiver_def bind_eq_Some_conv split: option.splits if_splits)
  from probe_certs_SomeD [OF c(2)] show thesis using that a c by metis
qed

section \<open>Properties of the route\<close>

text \<open>
  C36 A direct route names a device that showed its identity: every match of \<open>MatchLocalDevices\<close> with the scan of
  this network carries the session of one of the account's devices, and the matched peer is a probed address whose
  handshake presented a Share2Us certificate with a verified device card whose identity has that device's fingerprint;
  no device is matched twice.
\<close>

theorem route_identified:
  assumes "MatchLocalDevices (\<lambda>so. Some (Scan w so)) heard op ds = Inr ms" "m \<in> set ms"
  shows "distinct (map lm_session ms) \<and> (\<exists>d\<in>set ds. dr_session d = lm_session m \<and> dr_session d \<noteq> [] \<and>
    (\<exists>a chain c dc. a \<in> set (fst (scan_plan w (scan_defaults (match_scan op heard)))) \<and>
      sp_host (lm_peer m) = addr_string a \<and> sw_net w (JoinHostPort (addr_string a) (itoa DefaultPort)) = Some chain \<and>
      (scanCertCommonName, c) \<in> set chain \<and> cardFromCert (sw_crypto w) (Some c) = Some dc \<and>
      normaliseFingerprint (IdentityFingerprint (cc_sha (sw_crypto w)) (card_key dc)) = normaliseFingerprint (dr_fingerprint d)))"
proof -
  from assms have ms: "ms = match_peers (wanted_devices ds) [] (Scan w (match_scan op heard))"
    by (auto simp: MatchLocalDevices_def Let_def split: if_splits)
  let ?fp = "normaliseFingerprint (sp_identity_fingerprint (lm_peer m))"
  from match_peers_sound [OF assms(2) [unfolded ms]] have p: "lm_peer m \<in> set (Scan w (match_scan op heard))" "?fp \<noteq> []"
    "map_of (wanted_devices ds) ?fp = Some (lm_session m)" by blast+
  then obtain d where d: "find (names_device ?fp) ds = Some d" "dr_session d = lm_session m"
    by (auto simp: wanted_devices_lookup)
  then have "d \<in> set ds" "names_device ?fp d" by (auto simp: find_Some_iff)
  from Scan_peerD [OF p(1)] obtain a chain c dc where s: "a \<in> set (fst (scan_plan w (scan_defaults (match_scan op heard))))"
    "sw_net w (JoinHostPort (addr_string a) (itoa (sn_port (scan_defaults (match_scan op heard))))) = Some chain"
    "(scanCertCommonName, c) \<in> set chain" "card_key dc = [] \<or> cardFromCert (sw_crypto w) (Some c) = Some dc"
    "sp_host (lm_peer m) = addr_string a"
    "sp_identity_fingerprint (lm_peer m) = IdentityFingerprint (cc_sha (sw_crypto w)) (card_key dc)" by metis
  have "card_key dc \<noteq> []" using p(2) s(6) by (auto simp: IdentityFingerprint_def normaliseFingerprint_def to_lower_def)
  moreover have "sn_port (scan_defaults (match_scan op heard)) = DefaultPort" by (simp add: scan_defaults_def match_scan_def)
  ultimately have "sp_host (lm_peer m) = addr_string a" "sw_net w (JoinHostPort (addr_string a) (itoa DefaultPort)) = Some chain"
    "cardFromCert (sw_crypto w) (Some c) = Some dc"
    "normaliseFingerprint (IdentityFingerprint (cc_sha (sw_crypto w)) (card_key dc)) = normaliseFingerprint (dr_fingerprint d)"
    using s \<open>names_device ?fp d\<close> by (simp_all add: names_device_def)
  moreover have "dr_session d \<noteq> []" using \<open>names_device ?fp d\<close> by (simp add: names_device_def)
  ultimately show ?thesis using s(1,3) \<open>d \<in> set ds\<close> d(2) match_peers_distinct [of "wanted_devices ds" "[]"] ms by blast
qed

text \<open>
  A device that is here is found: when the scan's answer holds a peer with the fingerprint of one of the devices,
  \<open>MatchLocalDevices\<close> has a match for a device of that fingerprint, the first one listed.
\<close>

theorem route_found:
  assumes "MatchLocalDevices scan heard op ds = Inr ms" "scan (match_scan op heard) = Some peers" "p \<in> set peers"
    and "find (names_device (normaliseFingerprint (sp_identity_fingerprint p))) ds = Some d"
  shows "dr_session d \<in> lm_session ` set ms"
proof -
  let ?fp = "normaliseFingerprint (sp_identity_fingerprint p)"
  have w: "map_of (wanted_devices ds) ?fp = Some (dr_session d)" using assms(4) by (simp add: wanted_devices_lookup)
  then have "wanted_devices ds \<noteq> []" by auto
  then have "ms = match_peers (wanted_devices ds) [] peers" using assms(1,2) by (auto simp: MatchLocalDevices_def Let_def)
  moreover have "?fp \<noteq> []" using assms(4) by (auto simp: find_Some_iff names_device_def)
  ultimately show ?thesis using match_peers_complete [OF assms(3) _ w, of "[]"] by simp
qed

text \<open>A host need not own the certificate it is identified by: the loop looks at every certificate presented, TLS
  proves the key of the first one only. A captured certificate in second place yields its fingerprint and its card.\<close>

lemma second_certificate_identifies:
  assumes "cn \<noteq> scanCertCommonName" "cardFromCert cc (Some captured) = Some dc"
  shows "probe_certs cc [(cn, own), (scanCertCommonName, captured)] = Some (certFingerprint (cc_sha cc) (c_der captured), dc)"
  using assms by simp

text \<open>What mDNS announces replaces the sweep: with one parsable announced address no local subnet is probed.\<close>

lemma announced_replaces_sweep:
  assumes "browseTargets heard \<noteq> []" "sw_tailscale w = None"
  shows "fst (scan_plan w (scan_defaults (match_scan op heard))) = browseTargets heard"
  using assms by (simp add: scan_plan_def scan_defaults_def match_scan_def scanTargets_def wantTailnet_def tailscalePeers_def)

section \<open>Concrete inputs\<close>

definition demo_world :: scan_world where
  "demo_world = \<lparr>sw_crypto = toy_cc,
     sw_net = (\<lambda>a. if a = ''192.168.2.9:4300'' then Some [(scanCertCommonName, toy_cert)] else None),
     sw_self = Map.empty, sw_ifaces = [], sw_tailscale = None\<rparr>"

definition demo_heard :: "Peer list option" where
  "demo_heard = Some [\<lparr>pr_name = ''desk'', pr_instance = ''desk'', pr_host = ''192.168.2.9'', pr_port = 4300,
     pr_fingerprint = [], pr_identity_fingerprint = [], pr_mode = [], pr_is_broadcast = False, pr_file_name = [],
     pr_file_size = 0, pr_app_version = [], pr_min_peer = []\<rparr>]"

definition demo_match :: MatchOptions where "demo_match = \<lparr>mo_timeout = 0, mo_skip_local = False\<rparr>"

definition demo_devices :: "DeviceRef list" where
  "demo_devices = [\<lparr>dr_session = ''s1'', dr_fingerprint = ''6B6B6B6B''\<rparr>]"

definition demo_scanned :: ScannedPeer where
  "demo_scanned = \<lparr>sp_host = ''192.168.2.9'', sp_port = 4300, sp_fingerprint = ''63657274'', sp_name = stripControls (card_label ''pc''),
     sp_identity_fingerprint = ''6b6b6b6b'', sp_via_tailscale = False\<rparr>"

lemma demo_address: "ParseAddr ''192.168.2.9'' = Some (A4 3232236041)" "addr_string (A4 3232236041) = ''192.168.2.9''"
proof -
  have "parse_v4 ''192.168.2.9'' = Some [192, 168, 2, 9]" "v4_string [192, 168, 2, 9] = ''192.168.2.9''" by code_simp+
  then show "ParseAddr ''192.168.2.9'' = Some (A4 3232236041)" "addr_string (A4 3232236041) = ''192.168.2.9''"
    by (simp_all add: ParseAddr_def v4_number_def addr_string_def v4_octets_def)
qed

lemma demo_scan: "Scan demo_world (match_scan demo_match demo_heard) = [demo_scanned]"
proof -
  have t: "browseTargets demo_heard = [A4 3232236041]" by (simp add: browseTargets_def demo_heard_def demo_address)
  have h: "hex_encode (take 4 ''cert'') = ''63657274''" "hex_encode (replicate 4 CHR ''k'') = ''6b6b6b6b''" by code_simp+
  have j: "JoinHostPort ''192.168.2.9'' (itoa 4300) = ''192.168.2.9:4300''"
    using itoa_DefaultPort by (simp add: DefaultPort_def JoinHostPort_def)
  have "scan_target toy_cc (sw_net demo_world) Map.empty 4300 {} (A4 3232236041) = Some demo_scanned"
    by (simp add: scan_target_def demo_address j probeReceiver_def demo_world_def toy_card isSelfFingerprint_def demo_scanned_def)
      (simp add: toy_cc_def toy_cert_def toy_ident_def certFingerprint_def IdentityFingerprint_def h [simplified])
  then show ?thesis
    by (simp add: Scan_def scan_plan_def scan_defaults_def match_scan_def t scanTargets_def wantTailnet_def DefaultPort_def
        tailscalePeers_def demo_world_def List.map_filter_def)
qed

lemma demo_fingerprint: "normaliseFingerprint ''6B6B6B6B'' = ''6b6b6b6b''" "normaliseFingerprint ''6b6b6b6b'' = ''6b6b6b6b''"
proof -
  have "trim_space ''6B6B6B6B'' = ''6B6B6B6B''" "trim_space ''6b6b6b6b'' = ''6b6b6b6b''"
    by (rule trim_space_ascii_id; simp add: is_space_def of_char_Char horner_sum_simps)+
  moreover have "map lower_char ''6B6B6B6B'' = ''6b6b6b6b''" "map lower_char ''6b6b6b6b'' = ''6b6b6b6b''" by code_simp+
  ultimately show "normaliseFingerprint ''6B6B6B6B'' = ''6b6b6b6b''" "normaliseFingerprint ''6b6b6b6b'' = ''6b6b6b6b''"
    by (simp_all add: normaliseFingerprint_def to_lower_ascii of_char_Char horner_sum_simps)
qed

lemma demo_matched:
  "MatchLocalDevices (\<lambda>so. Some (Scan demo_world so)) demo_heard demo_match demo_devices =
     Inr [\<lparr>lm_session = ''s1'', lm_peer = demo_scanned\<rparr>]"
  by (simp add: MatchLocalDevices_def demo_scan wanted_devices_def wanted_add_def demo_devices_def demo_fingerprint
      demo_scanned_def)

theorem route_identified_witness:
  "\<exists>d\<in>set demo_devices. dr_session d = ''s1'' \<and> (\<exists>c dc. cardFromCert toy_cc (Some c) = Some dc \<and>
     normaliseFingerprint (IdentityFingerprint (cc_sha toy_cc) (card_key dc)) = normaliseFingerprint (dr_fingerprint d))"
proof -
  have "\<lparr>lm_session = ''s1'', lm_peer = demo_scanned\<rparr> \<in> set [\<lparr>lm_session = ''s1'', lm_peer = demo_scanned\<rparr>]" by simp
  from route_identified [OF demo_matched this] obtain d c dc where "d \<in> set demo_devices" "dr_session d = ''s1''"
    "cardFromCert (sw_crypto demo_world) (Some c) = Some dc"
    "normaliseFingerprint (IdentityFingerprint (cc_sha (sw_crypto demo_world)) (card_key dc)) = normaliseFingerprint (dr_fingerprint d)"
    by auto
  then show ?thesis by (auto simp: demo_world_def)
qed

theorem route_found_witness: "''s1'' \<in> lm_session ` set [\<lparr>lm_session = ''s1'', lm_peer = demo_scanned\<rparr>]"
proof -
  have "dr_session \<lparr>dr_session = ''s1'', dr_fingerprint = ''6B6B6B6B''\<rparr> \<in> lm_session ` set [\<lparr>lm_session = ''s1'', lm_peer = demo_scanned\<rparr>]"
    by (rule route_found [OF demo_matched, of "[demo_scanned]" demo_scanned])
      (simp_all add: demo_scan demo_devices_def demo_scanned_def demo_fingerprint names_device_def)
  then show ?thesis by simp
qed

end
