(* ===== verification/AgentSend.thy ===== *)
theory AgentSend
  imports Endpoints Adverts SealedStream Session
begin

text \<open>
  Sending a prompt or a file to an agent on another device (\<open>agent_send.go\<close>, \<open>agent_lan_push.go\<close>): the
  payload is sealed to the target, the file encrypted under a fresh key and pushed over the LAN when the target's
  stage is announced, over the relay otherwise, and the hop is signed and submitted. It composes the stream, the keys,
  the hop signature, discovery and the API calls of the other theories.
\<close>

section \<open>Parameters and results\<close>

record agentInjectEnvelope =
  en_prompt :: string
  en_file_name :: string
  en_deliver :: string
  en_sender_fingerprint :: string
  en_sender_name :: string

record SendAgentFileParams =
  pa_device_id :: string
  pa_session_id :: string
  pa_tool :: string
  pa_public_key :: string
  pa_fingerprint :: string
  pa_agent_id :: string
  pa_prompt :: string
  pa_file_path :: string
  pa_inbox :: bool
  pa_goal_id :: string
  pa_project_id :: string
  pa_sender_agent_id :: string
  pa_sender_name :: string

record SendAgentFileResult =
  ar_request_id :: string
  ar_status :: string
  ar_busy :: bool
  ar_transport :: string

record AgentInjectResult =
  ir_id :: string
  ir_status :: string
  ir_busy :: bool

datatype agent_err =
  NoDeviceSession | NoSigningKey | NoTargetKey | NoNonce key_err | UnreadableFile | NoContentKey key_err
| NotEncrypted crypt_err | UploadFailed client_err | KeyNotSealed key_err | NotSealed key_err | NotSigned key_err
| NotSubmitted client_err

text \<open>What \<open>SendAgentFile\<close> uses: the services of the other theories, the random bytes it draws, this device's
  fingerprint and identity, the files, what is announced on the network, and what \<open>Send\<close> to a pinned receiver
  returns for a name and content.\<close>

record agent_world =
  aw_upload :: http_env
  aw_submit :: http_env
  aw_client :: client
  aw_render :: "json \<Rightarrow> bytes"
  aw_read_key :: "bytes \<Rightarrow> string option"
  aw_read_result :: "bytes \<Rightarrow> AgentInjectResult option"
  aw_signer :: signer
  aw_rfc3339 :: "int \<Rightarrow> string"
  aw_now :: int
  aw_box :: nacl
  aw_aead :: aead
  aw_nonce :: "bytes option"
  aw_key :: "bytes option"
  aw_salt :: "bytes option"
  aw_fingerprint :: string
  aw_identity :: "bytes option"
  aw_file :: "string \<Rightarrow> bytes option"
  aw_envelope :: "agentInjectEnvelope \<Rightarrow> bytes"
  aw_browse :: "Peer list option"
  aw_lan_send :: "SendOptions \<Rightarrow> string \<Rightarrow> string \<Rightarrow> bytes \<Rightarrow> bool"

section \<open>The direct push\<close>

definition agentFilesSuffix :: string where "agentFilesSuffix = ''-agent-files''"

definition agent_stage :: "string \<Rightarrow> Peer \<Rightarrow> bool" where
  "agent_stage fp p \<longleftrightarrow> \<not> pr_is_broadcast p \<and> pr_host p \<noteq> [] \<and> pr_port p \<noteq> 0 \<and>
     equal_fold (pr_identity_fingerprint p) fp \<and> has_suffix (to_lower (pr_instance p)) agentFilesSuffix"

definition selectAgentFilePeer :: "Peer list \<Rightarrow> string \<Rightarrow> Peer option" where
  "selectAgentFilePeer peers target = (let fp = to_lower (trim_space target) in
     if fp = [] then None else find (agent_stage fp) peers)"

text \<open>A push: the options and the pin of \<open>Send\<close>, the name and the content.\<close>

type_synonym lan_push = "SendOptions \<times> string \<times> string \<times> bytes"

definition pushAgentFileLAN :: "agent_world \<Rightarrow> string \<Rightarrow> string \<Rightarrow> string \<Rightarrow> bytes \<Rightarrow> lan_push option \<times> bool" where
  "pushAgentFileLAN w target senderName nonce ciphertext = (let fp = to_lower (trim_space target) in
     if fp = [] \<or> nonce = [] then (None, False)
     else (case aw_identity w of
         None \<Rightarrow> (None, False)
       | Some ident \<Rightarrow>
           (case Option.bind (aw_browse w) (\<lambda>peers. selectAgentFilePeer peers fp) of
              None \<Rightarrow> (None, False)
            | Some p \<Rightarrow>
                (let opts = \<lparr>so_dest = JoinHostPort (pr_host p) (itoa (pr_port p)), so_password = [], so_identity = ident,
                     so_sender_name = senderName, so_resume = False\<rparr> in
                 (Some (opts, pr_fingerprint p, nonce, ciphertext), aw_lan_send w opts (pr_fingerprint p) nonce ciphertext)))))"

section \<open>The file\<close>

definition encrypt_bytes :: "aead \<Rightarrow> bytes option \<Rightarrow> bytes \<Rightarrow> bytes \<Rightarrow> crypt_err + bytes" where
  "encrypt_bytes ae salt key data =
     (case EncryptStream all_ok ae salt key \<lparr>src_data = data, src_fails = False\<rparr> \<lparr>sk_out = [], sk_writes = 0\<rparr> of
        (None, sk) \<Rightarrow> Inr (sk_out sk) | (Some e, _) \<Rightarrow> Inl e)"

text \<open>What went out: the push, the upload, the inject submitted.\<close>

record agent_trace =
  at_pushed :: "lan_push option"
  at_uploaded :: "bytes option"
  at_inject :: "AgentInjectInput option"

definition no_trace :: agent_trace where
  "no_trace = \<lparr>at_pushed = None, at_uploaded = None, at_inject = None\<rparr>"

text \<open>What the file contributes to the hop: object key, sealed key, transport, whether it is staged at the target.\<close>

record sent_file =
  sf_object_key :: string
  sf_sealed_key :: string
  sf_transport :: string
  sf_lan :: bool
  sf_name :: string

definition no_file :: sent_file where
  "no_file = \<lparr>sf_object_key = [], sf_sealed_key = [], sf_transport = [], sf_lan = False, sf_name = []\<rparr>"

definition send_ciphertext ::
  "agent_world \<Rightarrow> SendAgentFileParams \<Rightarrow> string \<Rightarrow> bytes \<Rightarrow> agent_trace \<times> (agent_err + string \<times> bool)" where
  "send_ciphertext w p nonce ct =
     (let (push, landed) = (if pa_fingerprint p \<noteq> [] then pushAgentFileLAN w (pa_fingerprint p) (pa_sender_name p) nonce ct
            else (None, False)); tr = no_trace\<lparr>at_pushed := push\<rparr> in
      if landed then (tr, Inr ([], True))
      else (case AgentUploadContent (aw_upload w) (aw_client w) (aw_read_key w) ct of
          (_, Inl e) \<Rightarrow> (tr\<lparr>at_uploaded := Some ct\<rparr>, Inl (UploadFailed e))
        | (_, Inr k) \<Rightarrow> (tr\<lparr>at_uploaded := Some ct\<rparr>, Inr (k, False))))"

definition send_file ::
  "agent_world \<Rightarrow> SendAgentFileParams \<Rightarrow> string \<Rightarrow> agent_trace \<times> (agent_err + sent_file)" where
  "send_file w p nonce =
     (if trim_space (pa_file_path p) = [] then (no_trace, Inr no_file)
      else (case aw_file w (pa_file_path p) of
          None \<Rightarrow> (no_trace, Inl UnreadableFile)
        | Some data \<Rightarrow> (case NewContentKey (aw_key w) of
          Inl e \<Rightarrow> (no_trace, Inl (NoContentKey e))
        | Inr ck \<Rightarrow> (case encrypt_bytes (aw_aead w) (aw_salt w) ck data of
          Inl e \<Rightarrow> (no_trace, Inl (NotEncrypted e))
        | Inr ct \<Rightarrow> (case send_ciphertext w p nonce ct of
          (tr, Inl e) \<Rightarrow> (tr, Inl e)
        | (tr, Inr (obj, lan)) \<Rightarrow> (case SealContentKeyForDevice (aw_box w) ck (pa_public_key p) of
          Inl e \<Rightarrow> (tr, Inl (KeyNotSealed e))
        | Inr sealed \<Rightarrow> (tr, Inr \<lparr>sf_object_key = obj, sf_sealed_key = sealed,
            sf_transport = (if lan then ''direct LAN'' else ''relay''), sf_lan = lan, sf_name = Base (pa_file_path p)\<rparr>)))))))"

section \<open>The hop\<close>

definition agent_envelope :: "agent_world \<Rightarrow> SendAgentFileParams \<Rightarrow> string \<Rightarrow> agentInjectEnvelope" where
  "agent_envelope w p fileName =
     \<lparr>en_prompt = pa_prompt p, en_file_name = fileName, en_deliver = (if pa_inbox p then ''inbox'' else []),
      en_sender_fingerprint = aw_fingerprint w, en_sender_name = pa_sender_name p\<rparr>"

definition agent_input :: "SendAgentFileParams \<Rightarrow> string \<Rightarrow> sent_file \<Rightarrow> AgentInjectInput" where
  "agent_input p sealed f =
     \<lparr>ai_target_device_id = trim_space (pa_device_id p), ai_target_session_id = trim_space (pa_session_id p),
      ai_tool = to_lower (trim_space (pa_tool p)), ai_sealed_prompt = sealed, ai_object_key = sf_object_key f,
      ai_lan_file = sf_lan f, ai_sealed_file_key = sf_sealed_key f, ai_goal_id = trim_space (pa_goal_id p),
      ai_signature = [], ai_issued_at = [], ai_nonce = [], ai_project_id = trim_space (pa_project_id p),
      ai_sender_agent_id = trim_space (pa_sender_agent_id p), ai_target_agent_id = trim_space (pa_agent_id p)\<rparr>"

definition empty_result :: AgentInjectResult where
  "empty_result = \<lparr>ir_id = [], ir_status = [], ir_busy = False\<rparr>"

definition SendAgentFile ::
  "agent_world \<Rightarrow> Credential \<Rightarrow> SendAgentFileParams \<Rightarrow> agent_trace \<times> (agent_err + SendAgentFileResult)" where
  "SendAgentFile w cred p =
     (if trim_space (cr_device_session_id cred) = [] then (no_trace, Inl NoDeviceSession)
      else if trim_space (cr_signing_private cred) = [] then (no_trace, Inl NoSigningKey)
      else if trim_space (pa_public_key p) = [] then (no_trace, Inl NoTargetKey)
      else (case NewHopNonce (aw_nonce w) of
          Inl e \<Rightarrow> (no_trace, Inl (NoNonce e))
        | Inr nonce \<Rightarrow> (case send_file w p nonce of
          (tr, Inl e) \<Rightarrow> (tr, Inl e)
        | (tr, Inr f) \<Rightarrow> (case SealForDevice (aw_box w) (aw_envelope w (agent_envelope w p (sf_name f))) (pa_public_key p) of
          Inl e \<Rightarrow> (tr, Inl (NotSealed e))
        | Inr sealed \<Rightarrow> (case signHopWithNonce (aw_signer w) (aw_rfc3339 w) (agent_input p sealed f)
            (cr_device_session_id cred) (cr_signing_private cred) (aw_now w) nonce of
          Inl e \<Rightarrow> (tr, Inl (NotSigned e))
        | Inr i \<Rightarrow> (case run_call (aw_submit w) (aw_client w) (aw_render w) (aw_read_result w) (AgentInject i) of
          (_, _, Inl e) \<Rightarrow> (tr\<lparr>at_inject := Some i\<rparr>, Inl (NotSubmitted e))
        | (_, _, Inr r) \<Rightarrow> (case (case r of None \<Rightarrow> empty_result | Some a \<Rightarrow> a) of a \<Rightarrow>
            (tr\<lparr>at_inject := Some i\<rparr>, Inr \<lparr>ar_request_id = ir_id a, ar_status = ir_status a, ar_busy = ir_busy a,
              ar_transport = sf_transport f\<rparr>)))))))) "

section \<open>Facts\<close>

lemma send_ciphertext_sent:
  assumes "send_ciphertext w p nonce ct = (tr, Inr (obj, lan))"
  shows "at_inject tr = None \<and> (if lan then obj = [] \<and> at_uploaded tr = None \<and>
      (\<exists>opts pin. at_pushed tr = Some (opts, pin, nonce, ct) \<and> aw_lan_send w opts pin nonce ct)
    else at_uploaded tr = Some ct)"
  using assms
  by (auto simp: send_ciphertext_def pushAgentFileLAN_def Let_def no_trace_def split: if_splits prod.splits sum.splits option.splits)

lemma encrypt_bytes_decrypts:
  assumes "encrypt_bytes ae (Some salt) key data = Inr ct" "length salt = 16" "gcm ae (ae_hkdf ae key salt hkdfInfo)"
  shows "\<exists>out'. DecryptStream all_ok ae key \<lparr>src_data = ct, src_fails = f\<rparr> out = (None, out') \<and> sk_out out' = sk_out out @ data"
proof -
  from assms(1) obtain sk where "EncryptStream all_ok ae (Some salt) key \<lparr>src_data = data, src_fails = False\<rparr>
      \<lparr>sk_out = [], sk_writes = 0\<rparr> = (None, sk)" "ct = sk_out sk"
    by (auto simp: encrypt_bytes_def split: prod.splits option.splits)
  from decrypt_encrypt [OF this(1) _ assms(2,3), of "[]" f out] this(2) show ?thesis by simp
qed

lemma send_file_sent:
  assumes "send_file w p nonce = (tr, Inr f)" "trim_space (pa_file_path p) \<noteq> []"
  obtains data ck ct where "aw_file w (pa_file_path p) = Some data" "aw_key w = Some ck"
    "encrypt_bytes (aw_aead w) (aw_salt w) ck data = Inr ct" "send_ciphertext w p nonce ct = (tr, Inr (sf_object_key f, sf_lan f))"
    "SealContentKeyForDevice (aw_box w) ck (pa_public_key p) = Inr (sf_sealed_key f)" "sf_name f = Base (pa_file_path p)"
    "sf_transport f = (if sf_lan f then ''direct LAN'' else ''relay'')"
  using assms by (auto simp: send_file_def NewContentKey_def split: option.splits sum.splits prod.splits)

lemma SendAgentFile_success:
  assumes "SendAgentFile w cred p = (tr, Inr r)"
  obtains nonce tr0 f sealed i where "NewHopNonce (aw_nonce w) = Inr nonce" "send_file w p nonce = (tr0, Inr f)"
    "SealForDevice (aw_box w) (aw_envelope w (agent_envelope w p (sf_name f))) (pa_public_key p) = Inr sealed"
    "signHopWithNonce (aw_signer w) (aw_rfc3339 w) (agent_input p sealed f) (cr_device_session_id cred)
       (cr_signing_private cred) (aw_now w) nonce = Inr i"
    "tr = tr0\<lparr>at_inject := Some i\<rparr>" "ar_transport r = sf_transport f"
  using assms by (auto simp: SendAgentFile_def split: if_splits sum.splits prod.splits)

lemma signed_fields:
  assumes "signHopWithNonce sg rfc i0 dev key now nonce = Inr i"
  shows "ai_sealed_prompt i = ai_sealed_prompt i0" "ai_object_key i = ai_object_key i0" "ai_lan_file i = ai_lan_file i0"
    "ai_sealed_file_key i = trim_space (ai_sealed_file_key i0)" "ai_nonce i = nonce"
  using assms by (auto simp: signHopWithNonce_def normalize_inject_def Let_def split: sum.splits)

lemma sealed_key_plain:
  "SealContentKeyForDevice nb ck pk = Inr s \<Longrightarrow> trim_space s = s"
  by (auto simp: SealContentKeyForDevice_def encodeDeviceKey_def split: if_splits sum.splits option.splits)

section \<open>Properties\<close>

text \<open>
  C29 What an agent receives is what was sent: after a successful \<open>SendAgentFile\<close> the target opens the sealed prompt
  with its device key and reads the envelope, and the hop verifies fresh under the sender's key over the fields
  submitted. With a file, the target opens the sealed file key to the key the file was encrypted under, and the
  ciphertext that went out, pushed over the LAN under the hop's own nonce or uploaded to the relay as the hop says,
  decrypts under it to the file as it was read.
\<close>

theorem agent_receives_file:
  assumes "SendAgentFile w cred p = (tr, Inr r)" "trim_space (pa_file_path p) \<noteq> []"
    and "box_pair (aw_box w) pub priv" "pa_public_key p = encodeDeviceKey pub"
    and "signing_pair (aw_signer w) spriv spub" "cr_signing_private cred = b64_encode StdEncoding spriv"
    and "aw_salt w = Some salt" "length salt = 16" "\<And>k. gcm (aw_aead w) (ae_hkdf (aw_aead w) k salt hkdfInfo)"
  shows "\<exists>i ck data ct out'. at_inject tr = Some i \<and>
    OpenSealedForDevice (aw_box w) (ai_sealed_prompt i) (encodeDeviceKey pub) (encodeDeviceKey priv) =
      Inr (aw_envelope w (agent_envelope w p (Base (pa_file_path p)))) \<and>
    VerifyHopFresh (aw_signer w) (inject_claims (cr_device_session_id cred) (truncate_second (aw_now w)) (ai_nonce i) i)
      (ai_signature i) (b64_encode StdEncoding spub) (aw_now w) 1000000000 = None \<and>
    OpenSealedContentKey (aw_box w) (ai_sealed_file_key i) (encodeDeviceKey pub) (encodeDeviceKey priv) = Inr ck \<and>
    aw_file w (pa_file_path p) = Some data \<and>
    DecryptStream all_ok (aw_aead w) ck \<lparr>src_data = ct, src_fails = False\<rparr> \<lparr>sk_out = [], sk_writes = 0\<rparr> = (None, out') \<and>
    sk_out out' = data \<and>
    (if ai_lan_file i then ar_transport r = ''direct LAN'' \<and>
       (\<exists>opts pin. at_pushed tr = Some (opts, pin, ai_nonce i, ct) \<and> aw_lan_send w opts pin (ai_nonce i) ct)
     else ar_transport r = ''relay'' \<and> at_uploaded tr = Some ct)"
proof -
  from assms(1) obtain nonce tr0 f sealed i where s: "send_file w p nonce = (tr0, Inr f)"
    "SealForDevice (aw_box w) (aw_envelope w (agent_envelope w p (sf_name f))) (pa_public_key p) = Inr sealed"
    "signHopWithNonce (aw_signer w) (aw_rfc3339 w) (agent_input p sealed f) (cr_device_session_id cred)
       (cr_signing_private cred) (aw_now w) nonce = Inr i"
    "tr = tr0\<lparr>at_inject := Some i\<rparr>" "ar_transport r = sf_transport f"
    by (rule SendAgentFile_success)
  from s(1) assms(2) obtain data ck ct where f: "aw_file w (pa_file_path p) = Some data" "aw_key w = Some ck"
    "encrypt_bytes (aw_aead w) (aw_salt w) ck data = Inr ct" "send_ciphertext w p nonce ct = (tr0, Inr (sf_object_key f, sf_lan f))"
    "SealContentKeyForDevice (aw_box w) ck (pa_public_key p) = Inr (sf_sealed_key f)" "sf_name f = Base (pa_file_path p)"
    "sf_transport f = (if sf_lan f then ''direct LAN'' else ''relay'')"
    by (rule send_file_sent)
  note fields = signed_fields [OF s(3)]
  have key: "ai_sealed_file_key i = sf_sealed_key f" using fields(4) sealed_key_plain [OF f(5)] by (simp add: agent_input_def)
  have "OpenSealedForDevice (aw_box w) (ai_sealed_prompt i) (encodeDeviceKey pub) (encodeDeviceKey priv) =
      Inr (aw_envelope w (agent_envelope w p (Base (pa_file_path p))))"
    using open_sealed_payload [OF assms(3)] s(2) f(6) assms(4) fields(1) by (simp add: agent_input_def)
  moreover have "VerifyHopFresh (aw_signer w) (inject_claims (cr_device_session_id cred) (truncate_second (aw_now w)) (ai_nonce i) i)
      (ai_signature i) (b64_encode StdEncoding spub) (aw_now w) 1000000000 = None"
    using inject_signed [OF assms(5) s(3) [unfolded assms(6)]] by simp
  moreover have "OpenSealedContentKey (aw_box w) (ai_sealed_file_key i) (encodeDeviceKey pub) (encodeDeviceKey priv) = Inr ck"
    using open_sealed_key [OF assms(3)] f(5) assms(4) key by simp
  moreover obtain out' where "DecryptStream all_ok (aw_aead w) ck \<lparr>src_data = ct, src_fails = False\<rparr>
      \<lparr>sk_out = [], sk_writes = 0\<rparr> = (None, out')" "sk_out out' = data"
    using encrypt_bytes_decrypts [OF f(3) [unfolded assms(7)] assms(8,9), of False "\<lparr>sk_out = [], sk_writes = 0\<rparr>"] by auto
  moreover have "if ai_lan_file i then ar_transport r = ''direct LAN'' \<and>
       (\<exists>opts pin. at_pushed tr = Some (opts, pin, ai_nonce i, ct) \<and> aw_lan_send w opts pin (ai_nonce i) ct)
     else ar_transport r = ''relay'' \<and> at_uploaded tr = Some ct"
    using send_ciphertext_sent [OF f(4)] fields(3,5) s(4,5) f(7) by (auto simp: agent_input_def split: if_splits)
  moreover have "at_inject tr = Some i" using s(4) by simp
  ultimately show ?thesis using f(1) by blast
qed

text \<open>The direct push goes to the target's stage only: a receiver that is announced, no broadcast, with an address,
  announcing the target's fingerprint and named as the stage for agent files. Nothing but the announcement says that it
  is the target.\<close>

lemma push_to_stage:
  assumes "pushAgentFileLAN w target name nonce ct = (Some (opts, pin, n, content), landed)"
  shows "n = nonce \<and> content = ct \<and> (\<exists>peers p. aw_browse w = Some peers \<and> p \<in> set peers \<and>
    selectAgentFilePeer peers (to_lower (trim_space target)) = Some p \<and> \<not> pr_is_broadcast p \<and>
    has_suffix (to_lower (pr_instance p)) agentFilesSuffix \<and> pin = pr_fingerprint p \<and>
    so_dest opts = JoinHostPort (pr_host p) (itoa (pr_port p)))"
proof -
  from assms obtain peers p where p: "aw_browse w = Some peers" "selectAgentFilePeer peers (to_lower (trim_space target)) = Some p"
    "n = nonce" "content = ct" "pin = pr_fingerprint p" "so_dest opts = JoinHostPort (pr_host p) (itoa (pr_port p))"
    by (auto simp: pushAgentFileLAN_def Let_def bind_eq_Some_conv split: if_splits option.splits)
  then have "p \<in> set peers" "agent_stage (to_lower (trim_space (to_lower (trim_space target)))) p"
    by (auto simp: selectAgentFilePeer_def Let_def find_Some_iff split: if_splits)
  then show ?thesis using p by (auto simp: agent_stage_def)
qed

text \<open>A misroute is more than wasted effort: when the announced stage takes the bytes, whoever it is, the relay is not
  used and the hop says that the file is staged at the target.\<close>

lemma landed_is_not_relayed:
  assumes "pa_fingerprint p \<noteq> []" "pushAgentFileLAN w (pa_fingerprint p) (pa_sender_name p) nonce ct = (push, True)"
  shows "send_ciphertext w p nonce ct = (no_trace\<lparr>at_pushed := push\<rparr>, Inr ([], True))"
  using assms by (simp add: send_ciphertext_def)

section \<open>Concrete inputs\<close>

definition toy_box :: nacl where
  "toy_box = \<lparr>bx_seal = (\<lambda>m pub. Some (m @ replicate 48 CHR 0x00)), bx_open = (\<lambda>c pub priv. Some (take (length c - 48) c))\<rparr>"

definition toy_device :: bytes where "toy_device = replicate 32 CHR ''d''"

lemma toy_pair: "box_pair toy_box toy_device toy_device"
  by (simp add: box_pair_def toy_box_def toy_device_def)

definition ok_http :: http_env where
  "ok_http = demo_http\<lparr>he_do := (\<lambda>n r. Some \<lparr>rs_status = 200, rs_header = (\<lambda>_. []), rs_body = [], rs_body_ok = True\<rparr>)\<rparr>"

definition demo_agent :: agent_world where
  "demo_agent = \<lparr>aw_upload = ok_http, aw_submit = ok_http, aw_client = demo_client, aw_render = (\<lambda>_. []),
     aw_read_key = (\<lambda>_. Some ''obj''), aw_read_result = (\<lambda>_. Some \<lparr>ir_id = ''id'', ir_status = ''queued'', ir_busy = False\<rparr>),
     aw_signer = any_signer, aw_rfc3339 = (\<lambda>_. ''t''), aw_now = 5, aw_box = toy_box, aw_aead = toy_aead,
     aw_nonce = Some ''n'', aw_key = Some toy_key, aw_salt = Some toy_salt, aw_fingerprint = ''fp'', aw_identity = None,
     aw_file = (\<lambda>p. if p = ''/f'' then Some ''hello'' else None), aw_envelope = en_prompt, aw_browse = None,
     aw_lan_send = (\<lambda>_ _ _ _. False)\<rparr>"

definition demo_target :: SendAgentFileParams where
  "demo_target = \<lparr>pa_device_id = ''dev'', pa_session_id = ''sess'', pa_tool = ''codex'', pa_public_key = encodeDeviceKey toy_device,
     pa_fingerprint = [], pa_agent_id = [], pa_prompt = ''read it'', pa_file_path = ''/f'', pa_inbox = False, pa_goal_id = [],
     pa_project_id = [], pa_sender_agent_id = [], pa_sender_name = ''me''\<rparr>"

definition demo_sender :: Credential where
  "demo_sender = \<lparr>cr_schema = 1, cr_api_base = [], cr_token = ''t'', cr_email = [], cr_account_id = [],
     cr_device_session_id = ''me'', cr_device_public = [], cr_device_private = [], cr_signing_public = [],
     cr_signing_private = b64_encode StdEncoding toy_private\<rparr>"

lemma demo_fields:
  "aw_submit demo_agent = ok_http" "aw_client demo_agent = demo_client" "aw_signer demo_agent = any_signer"
  "aw_read_result demo_agent b = Some \<lparr>ir_id = ''id'', ir_status = ''queued'', ir_busy = False\<rparr>" "aw_now demo_agent = 5"
  "aw_box demo_agent = toy_box" "aw_aead demo_agent = toy_aead" "aw_nonce demo_agent = Some ''n''"
  "aw_key demo_agent = Some toy_key" "aw_salt demo_agent = Some toy_salt" "aw_file demo_agent ''/f'' = Some ''hello''"
  "pa_public_key demo_target = encodeDeviceKey toy_device" "pa_file_path demo_target = ''/f''"
  "cr_device_session_id demo_sender = ''me''" "cr_signing_private demo_sender = b64_encode StdEncoding toy_private"
  by (simp_all add: demo_agent_def demo_target_def demo_sender_def)

lemma demo_agent_sends: "\<exists>tr r. SendAgentFile demo_agent demo_sender demo_target = (tr, Inr r)"
proof -
  obtain sk where "EncryptStream all_ok toy_aead (Some toy_salt) toy_key \<lparr>src_data = ''hello'', src_fails = False\<rparr>
      \<lparr>sk_out = [], sk_writes = 0\<rparr> = (None, sk)"
    using toy_encrypts by blast
  then have enc: "encrypt_bytes toy_aead (Some toy_salt) toy_key ''hello'' = Inr (sk_out sk)" by (simp add: encrypt_bytes_def)
  have f: "trim_space ''/f'' = ''/f''" "trim_space ''me'' = ''me''"
    by (rule trim_space_ascii_id; simp add: is_space_def of_char_Char horner_sum_simps)+
  have keys: "b64_encode StdEncoding toy_private \<noteq> []" "encodeDeviceKey toy_device \<noteq> []" "trim_space (encodeDeviceKey toy_device) \<noteq> []"
    by (simp_all add: toy_private_def toy_device_def encodeDeviceKey_def b64_encode_inj [of _ _ "[]", simplified])
  have len: "length toy_device = 32" "length toy_key = 32" "length toy_private = 64"
    by (simp_all add: toy_device_def toy_key_def toy_private_def)
  have ct: "send_ciphertext demo_agent demo_target nonce ct = (no_trace\<lparr>at_pushed := None, at_uploaded := Some ct\<rparr>, Inr (''obj'', False))"
    for nonce ct
    by (simp add: send_ciphertext_def demo_target_def demo_agent_def AgentUploadContent_def one_request_def ok_http_def demo_http_def
        success_def)
  have key: "\<exists>s. SealContentKeyForDevice toy_box toy_key (encodeDeviceKey toy_device) = Inr s"
    by (simp add: SealContentKeyForDevice_def len toy_box_def)
  have sent: "\<exists>tr f. send_file demo_agent demo_target nonce = (tr, Inr f)" for nonce
    using key by (auto simp: send_file_def demo_fields f NewContentKey_def enc ct)
  have sealed: "\<exists>s. SealForDevice toy_box m (encodeDeviceKey toy_device) = Inr s" for m
    by (simp add: SealForDevice_def len toy_box_def)
  have signed: "\<exists>i. signHopWithNonce any_signer rfc i0 dev (b64_encode StdEncoding toy_private) now nonce = Inr i" for rfc i0 dev now nonce
    by (simp add: signHopWithNonce_def SignHop_def decodeSigningPrivateKey_def len Let_def)
  have call: "\<exists>rs ws r. run_call ok_http demo_client mar un (AgentInject i) = (rs, ws, Inr (Some (r :: AgentInjectResult)))"
    if "un [] = Some r0" for mar un i r0
    using that by (simp add: run_call_def AgentInject_def call_of_def doJSON_def maxRateLimitAttempts_def upt_conv_Cons ok_http_def demo_http_def success_def)
  obtain nonce where n1: "NewHopNonce (Some ''n'') = Inr nonce" by (simp add: NewHopNonce_def)
  obtain tr f where f1: "send_file demo_agent demo_target nonce = (tr, Inr f)" using sent by blast
  obtain s where s1: "SealForDevice toy_box (aw_envelope demo_agent (agent_envelope demo_agent demo_target (sf_name f)))
      (encodeDeviceKey toy_device) = Inr s" using sealed by blast
  obtain i where i1: "signHopWithNonce any_signer (aw_rfc3339 demo_agent) (agent_input demo_target s f) ''me''
      (b64_encode StdEncoding toy_private) 5 nonce = Inr i" using signed by blast
  obtain rs ws r where r1: "run_call ok_http demo_client (aw_render demo_agent) (aw_read_result demo_agent) (AgentInject i) =
      (rs, ws, Inr (Some r))" using call [of "aw_read_result demo_agent", OF demo_fields(4)] by blast
  show ?thesis
    by (simp add: SendAgentFile_def demo_fields f keys n1 f1 s1 i1 r1)
qed

theorem agent_receives_file_witness:
  "\<exists>tr r i ck ct out'. SendAgentFile demo_agent demo_sender demo_target = (tr, Inr r) \<and> at_inject tr = Some i \<and>
    OpenSealedContentKey toy_box (ai_sealed_file_key i) (encodeDeviceKey toy_device) (encodeDeviceKey toy_device) = Inr ck \<and>
    DecryptStream all_ok toy_aead ck \<lparr>src_data = ct, src_fails = False\<rparr> \<lparr>sk_out = [], sk_writes = 0\<rparr> = (None, out') \<and>
    sk_out out' = ''hello''"
proof -
  obtain tr r where run: "SendAgentFile demo_agent demo_sender demo_target = (tr, Inr r)" using demo_agent_sends by blast
  have f: "trim_space ''/f'' = ''/f''"
    by (rule trim_space_ascii_id; simp add: is_space_def of_char_Char horner_sum_simps)+
  show ?thesis
    using agent_receives_file [OF run _ toy_pair [folded demo_fields(6)] demo_fields(12) any_pair [folded demo_fields(3)]
        demo_fields(15) demo_fields(10)] run
    by (auto simp: demo_fields f toy_salt_def toy_gcm)
qed

end
