(* ===== verification/ShareLink.thy ===== *)
theory ShareLink
  imports CryptoKeys GoParseURL
begin

text \<open>
  Addresses that come from outside: the content key in the fragment of a share link (\<open>KeyFromShareURL\<close> of
  \<open>crypto.go\<close>) and the address handed to the browser (\<open>browser.go\<close>), with the command it is opened by.
\<close>

section \<open>Share links\<close>

datatype link_err = BadLink | BadFragment | BadLinkKey key_err

definition KeyFromShareURL :: "string \<Rightarrow> link_err + bytes" where
  "KeyFromShareURL raw = (case url_Parse raw of
     None \<Rightarrow> Inl BadLink
   | Some u \<Rightarrow> (case ParseQuery (ur_fragment u) of
       None \<Rightarrow> Inl BadFragment
     | Some vs \<Rightarrow> (case DecodeKey (Values_Get vs ''k'') of Inl e \<Rightarrow> Inl (BadLinkKey e) | Inr k \<Rightarrow> Inr k)))"

section \<open>The browser\<close>

datatype browser_err = EmptyURL | InvalidURL | NotWeb string

definition validateBrowserURL :: "string \<Rightarrow> browser_err option" where
  "validateBrowserURL raw =
     (if raw = [] then Some EmptyURL
      else (case url_Parse raw of
          None \<Rightarrow> Some InvalidURL
        | Some u \<Rightarrow> if ur_scheme u \<noteq> ''http'' \<and> ur_scheme u \<noteq> ''https'' then Some (NotWeb (ur_scheme u)) else None))"

text \<open>The command line started, for an operating system.\<close>

definition OpenBrowser :: "string \<Rightarrow> string \<Rightarrow> browser_err + string list" where
  "OpenBrowser goos raw = (let u = trim_space raw in
     (case validateBrowserURL u of
        Some e \<Rightarrow> Inl e
      | None \<Rightarrow> Inr (if goos = ''darwin'' then [''open'', u]
          else if goos = ''windows'' then [''rundll32'', ''url.dll,FileProtocolHandler'', u] else [''xdg-open'', u])))"

section \<open>Facts\<close>

lemma sym_not_pad: "n < 64 \<Longrightarrow> sym_of al n \<noteq> pad_char"
  using of_char_sym_of [of n al] by (auto dest: arg_cong [where f = "of_char :: char \<Rightarrow> nat"])

lemma raw_encode_no_pad: "\<not> be_padded e \<Longrightarrow> pad_char \<notin> set (b64_encode e bs)"
proof (induction e bs rule: b64_encode.induct)
  case (2 e a)
  have "pad_char \<noteq> sym_of (be_alphabet e) (of_char a div 4)" "pad_char \<noteq> sym_of (be_alphabet e) (of_char a mod 4 * 16)"
    using sym_ranges(1) [of a] sym_ranges(2) [of "of_char a"] by (metis sym_not_pad)+
  then show ?case using 2 by (simp add: Let_def)
next
  case (3 e a b)
  have "pad_char \<noteq> sym_of (be_alphabet e) (of_char a div 4)"
    "pad_char \<noteq> sym_of (be_alphabet e) (of_char a mod 4 * 16 + of_char b div 16)"
    "pad_char \<noteq> sym_of (be_alphabet e) (of_char b mod 16 * 4)"
    using sym_ranges(1) [of a] sym_ranges(3) [of "of_char a" b] sym_ranges(4) [of "of_char b"] by (metis sym_not_pad)+
  then show ?case using 3 by (simp add: Let_def)
next
  case (4 e a b c rest)
  have "(of_char c :: nat) mod 64 < 64" by simp
  then have "pad_char \<noteq> sym_of (be_alphabet e) (of_char a div 4)"
    "pad_char \<noteq> sym_of (be_alphabet e) (of_char a mod 4 * 16 + of_char b div 16)"
    "pad_char \<noteq> sym_of (be_alphabet e) (of_char b mod 16 * 4 + of_char c div 64)"
    "pad_char \<noteq> sym_of (be_alphabet e) (of_char c mod 64)"
    using sym_ranges(1) [of a] sym_ranges(3) [of "of_char a" b] sym_ranges(5) [of "of_char b" c] by (metis sym_not_pad)+
  then show ?case using 4 by (simp add: Let_def)
qed simp

lemma url_sym_unreserved:
  assumes "n < 64"
  shows "unreserved (sym_of URLAlphabet n)"
proof -
  consider "n < 26" | "26 \<le> n" "n < 52" | "52 \<le> n" "n < 62" | "n = 62" | "n = 63" using assms by linarith
  then show ?thesis by cases (auto simp: sym_of_def unreserved_def Let_def)
qed

lemma EncodeKey_plain: "c \<in> set (EncodeKey key) \<Longrightarrow> unreserved c"
  using b64_encode_set [of c RawURLEncoding key] raw_encode_no_pad [of RawURLEncoding key]
  by (auto simp: EncodeKey_def RawURLEncoding_def intro: url_sym_unreserved)

lemma unescape_unreserved: "(\<And>c. c \<in> set s \<Longrightarrow> unreserved c \<or> c = CHR ''='') \<Longrightarrow> m \<noteq> EncHost \<Longrightarrow> m \<noteq> EncZone \<Longrightarrow> unescape m s = Some s"
proof (induction s)
  case (Cons c s)
  have "\<not> unreserved CHR 0x25" "\<not> unreserved CHR ''+''" by (simp_all add: unreserved_def of_char_Char horner_sum_simps)
  then have "c \<noteq> CHR 0x25" "c \<noteq> CHR ''+''" using Cons.prems(1) [of c] by auto
  then show ?case using Cons by (simp add: plain_ok_def)
qed simp

lemma key_fragment: "ParseQuery (''k='' @ EncodeKey key) = Some [(''k'', EncodeKey key)]"
proof -
  have n: "\<not> unreserved CHR ''&''" "\<not> unreserved CHR '';''" "\<not> unreserved CHR ''=''"
    by (simp_all add: unreserved_def of_char_Char horner_sum_simps)
  then have f: "CHR ''&'' \<notin> set (''k='' @ EncodeKey key)" "CHR '';'' \<notin> set (''k='' @ EncodeKey key)"
    using EncodeKey_plain by auto
  have c: "cut_at CHR ''='' (''k='' @ EncodeKey key) = (''k'', EncodeKey key)"
    using cut_at_found [of "CHR ''=''" "''k''" "EncodeKey key"] by simp
  have "unescape EncQuery (EncodeKey key) = Some (EncodeKey key)" "unescape EncQuery ''k'' = Some ''k''"
    by (rule unescape_unreserved; simp add: EncodeKey_plain) (simp add: plain_ok_def)
  then have "query_piece (''k='' @ EncodeKey key) = Inr (Some (''k'', EncodeKey key))"
    using f(2) c by (simp add: query_piece_def)
  then show ?thesis using split_char_single [OF f(1)] by (simp add: ParseQuery_def Query_values_def)
qed

text \<open>The parser looks at the fragment last.\<close>

lemma url_Parse_fragment:
  assumes "url_Parse base = Some u" "CHR ''#'' \<notin> set base" "unescape EncFragment frag = Some f"
  shows "url_Parse (base @ CHR ''#'' # frag) = Some (u\<lparr>ur_fragment := f\<rparr>)"
  using assms by (auto simp: url_Parse_def Let_def split: if_splits option.splits prod.splits)

lemma parse_rest_scheme: "parse_rest sch rest query = Some u \<Longrightarrow> ur_scheme u = sch"
  by (auto simp: parse_rest_def empty_url_def Let_def split: if_splits option.splits)

lemma getScheme_SomeD:
  assumes "getScheme s = Some (p, r)" "p \<noteq> []"
  shows "s = p @ CHR '':'' # r"
proof -
  have "p = takeWhile scheme_char s" "dropWhile scheme_char s \<noteq> []" "hd (dropWhile scheme_char s) = CHR '':''"
    "r = tl (dropWhile scheme_char s)"
    using assms by (auto simp: getScheme_def Let_def split: if_splits)
  then show ?thesis using takeWhile_dropWhile_id [of scheme_char s] by (metis list.collapse)
qed

lemma url_Parse_scheme:
  assumes "url_Parse s = Some u" "ur_scheme u \<noteq> []"
  shows "\<exists>p r. s = p @ CHR '':'' # r \<and> map lower_char p = ur_scheme u"
proof -
  obtain s0 frag where c: "cut_at CHR ''#'' s = (s0, frag)" by force
  then have s0: "s = s0 @ dropWhile (\<lambda>c. c \<noteq> CHR ''#'') s" using takeWhile_dropWhile_id [of "\<lambda>c. c \<noteq> CHR ''#''" s] by (auto simp: cut_at_def)
  from assms c obtain sch r rest query u' where g: "getScheme s0 = Some (sch, r)" "parse_rest (map lower_char sch) rest query = Some u'"
    "ur_scheme u = ur_scheme u'"
    by (auto simp: url_Parse_def empty_url_def split: if_splits option.splits prod.splits)
  have e: "ur_scheme u = map lower_char sch" using parse_rest_scheme [OF g(2)] g(3) by simp
  then have "sch \<noteq> []" using assms(2) by auto
  from getScheme_SomeD [OF g(1) this] s0 have "s = sch @ CHR '':'' # (r @ dropWhile (\<lambda>c. c \<noteq> CHR ''#'') s)" by simp
  then show ?thesis using e by metis
qed

section \<open>Properties\<close>

text \<open>
  A share link carries its key: for any address without a fragment that parses, the link that ends in \<open>#k=\<close> and the
  encoded key gives back exactly that key.
\<close>

theorem share_link_key:
  assumes "url_Parse base = Some u" "CHR ''#'' \<notin> set base" "length key = 32"
  shows "KeyFromShareURL (base @ ''#k='' @ EncodeKey key) = Inr key"
proof -
  have "unescape EncFragment (''k='' @ EncodeKey key) = Some (''k='' @ EncodeKey key)"
  proof (rule unescape_unreserved)
    fix c
    assume "c \<in> set (''k='' @ EncodeKey key)"
    then consider "c = CHR ''k''" | "c = CHR ''=''" | "c \<in> set (EncodeKey key)" by auto
    then show "unreserved c \<or> c = CHR ''=''"
      by cases (simp_all add: EncodeKey_plain, simp add: unreserved_def of_char_Char horner_sum_simps)
  qed simp_all
  from url_Parse_fragment [OF assms(1,2) this] show ?thesis
    using assms(3) by (simp add: KeyFromShareURL_def key_fragment [simplified] Values_Get_def DecodeKey_EncodeKey)
qed

text \<open>
  Only a web address reaches the launcher: the command \<open>OpenBrowser\<close> starts ends in the trimmed address, which begins
  with \<open>http:\<close> or \<open>https:\<close> in some spelling, so it is no option of the launcher, no file and no other scheme.
\<close>

theorem browser_web_only:
  assumes "OpenBrowser goos raw = Inr cmd"
  shows "last cmd = trim_space raw \<and> last cmd \<noteq> [] \<and> hd (last cmd) \<noteq> CHR ''-'' \<and>
    (has_prefix (map lower_char (last cmd)) ''http:'' \<or> has_prefix (map lower_char (last cmd)) ''https:'')"
proof -
  from assms have v: "validateBrowserURL (trim_space raw) = None" and l: "last cmd = trim_space raw"
    by (auto simp: OpenBrowser_def Let_def split: option.splits if_splits)
  from v obtain u where u: "url_Parse (trim_space raw) = Some u" "ur_scheme u = ''http'' \<or> ur_scheme u = ''https''" "trim_space raw \<noteq> []"
    by (auto simp: validateBrowserURL_def split: option.splits if_splits)
  then have "ur_scheme u \<noteq> []" by auto
  from url_Parse_scheme [OF u(1) this] obtain p r where p: "trim_space raw = p @ CHR '':'' # r" "map lower_char p = ur_scheme u"
    by blast
  then have "p \<noteq> []" using u(2) by auto
  have low: "lower_char CHR '':'' = CHR '':''" "lower_char CHR ''-'' = CHR ''-''" by (simp_all add: lower_char_def of_char_Char horner_sum_simps)
  have "lower_char (hd p) = CHR ''h''" using p(2) u(2) \<open>p \<noteq> []\<close> by (cases p) auto
  then have "hd p \<noteq> CHR ''-''" using low(2) by auto
  then show ?thesis using l p u(2,3) \<open>p \<noteq> []\<close> low(1) by (auto simp: has_prefix_def)
qed

lemma demo_link: "\<exists>u. url_Parse ''https://s.acme.org/x'' = Some u \<and> ur_scheme u = ''https''"
proof -
  have "url_string ''https'' ''s.acme.org'' ''/x'' (encode_values []) = ''https://s.acme.org/x''"
    by (simp add: url_string_def host_escape_def host_kept_def unreserved_def Let_def of_char_Char horner_sum_simps)
  moreover have "parseHost ''s.acme.org'' = Some ''s.acme.org''"
    by (simp add: parseHost_def has_prefix_def plain_ok_def host_kept_def unreserved_def Let_def of_char_Char horner_sum_simps)
  ultimately show ?thesis
    using url_Parse_string [of "''https''" "''s.acme.org''" "''/x''" "[]"]
    by (simp add: letter_def scheme_char_def lower_char_def host_kept_def unreserved_def Let_def of_char_Char horner_sum_simps)
qed

theorem share_link_key_witness:
  "KeyFromShareURL (''https://s.acme.org/x'' @ ''#k='' @ EncodeKey (replicate 32 CHR ''q'')) = Inr (replicate 32 CHR ''q'')"
proof -
  obtain u where "url_Parse ''https://s.acme.org/x'' = Some u" using demo_link by blast
  then show ?thesis by (rule share_link_key) simp_all
qed

theorem browser_web_only_witness:
  "OpenBrowser ''linux'' ''https://s.acme.org/x'' = Inr [''xdg-open'', ''https://s.acme.org/x''] \<and>
   hd (last [''xdg-open'', ''https://s.acme.org/x'']) \<noteq> CHR ''-''"
proof -
  have "trim_space ''https://s.acme.org/x'' = ''https://s.acme.org/x''"
    by (rule trim_space_ascii_id; simp add: is_space_def of_char_Char horner_sum_simps)
  then have run: "OpenBrowser ''linux'' ''https://s.acme.org/x'' = Inr [''xdg-open'', ''https://s.acme.org/x'']"
    using demo_link by (auto simp: OpenBrowser_def validateBrowserURL_def Let_def)
  from browser_web_only [OF run] run show ?thesis by blast
qed

end
