(* ===== verification/Listener.thy ===== *)
theory Listener
  imports Broadcast Throttle Adverts Store
begin

text \<open>
  A listener from its start to its end: the port, the certificate with the device card, what is announced, and the
  one-shot loop of \<open>Receive\<close> (\<open>lanshare/receive.go\<close>), the start of \<open>Broadcast\<close> (\<open>lanshare/broadcast.go\<close>), and
  \<open>generateEphemeralCert\<close> (\<open>lanshare/tls.go\<close>). It composes the guards of Throttle with the handler of Receive. Key
  generation, \<open>crypto/x509\<close> and the system's \<open>listen\<close> are parameters. The concurrent loop of a receiver that stays is
  the step relation of Throttle.
\<close>

section \<open>Port and directory\<close>

datatype start_err =
    NoHome | MkdirFailed | NoPassphrase | BadAllowIP string | NoKey | NoSerial | BadCard | NoCertificateMade
  | PortTaken int | NoFreePort | NoSource

text \<open>\<open>bind\<close> is \<open>net.Listen\<close> on an address: the port it got.\<close>

fun first_bound :: "(string \<Rightarrow> int option) \<Rightarrow> string \<Rightarrow> int list \<Rightarrow> int option" where
  "first_bound bind host [] = None"
| "first_bound bind host (p # ps) =
     (case bind (JoinHostPort host (itoa p)) of Some q \<Rightarrow> Some q | None \<Rightarrow> first_bound bind host ps)"

definition listen :: "(string \<Rightarrow> int option) \<Rightarrow> string \<Rightarrow> int \<Rightarrow> start_err + int" where
  "listen bind host port =
     (if port \<noteq> 0 then (case bind (JoinHostPort host (itoa port)) of None \<Rightarrow> Inl (PortTaken port) | Some q \<Rightarrow> Inr q)
      else (case first_bound bind host [DefaultPort..portRangeEnd] of None \<Rightarrow> Inl NoFreePort | Some q \<Rightarrow> Inr q))"

definition resolveDestDir :: "os \<Rightarrow> string \<Rightarrow> start_err + string" where
  "resolveDestDir s dir =
     (case (if dir = [] then (case os_home s of None \<Rightarrow> None | Some home \<Rightarrow> Some (Join home ''s2u'')) else Some dir) of
        None \<Rightarrow> Inl NoHome
      | Some d \<Rightarrow> if os_mkdir_ok s d then Inr d else Inl MkdirFailed)"

section \<open>The certificate of a session\<close>

text \<open>Times in nanoseconds.\<close>

definition certValidity :: int where "certValidity = 24 * 3600 * 1000000000"

record cert_template =
  ct_serial :: nat
  ct_common_name :: string
  ct_not_before :: int
  ct_not_after :: int
  ct_uris :: "card_uri list"

text \<open>What the standard library draws and makes: the new key as its SubjectPublicKeyInfo (inside, \<open>None\<close> when that
  cannot be marshalled), the serial number, and the DER of the certificate signed over a template by that key.\<close>

record cert_maker =
  cm_key :: "bytes option option"
  cm_serial :: "nat option"
  cm_create :: "cert_template \<Rightarrow> bytes option \<Rightarrow> bytes option"

definition generateEphemeralCert ::
  "card_crypto \<Rightarrow> cert_maker \<Rightarrow> int \<Rightarrow> bytes \<Rightarrow> string \<Rightarrow> start_err + bytes \<times> string" where
  "generateEphemeralCert cc cm now ident deviceName =
     (case cm_key cm of
        None \<Rightarrow> Inl NoKey
      | Some spki \<Rightarrow> (case cm_serial cm of
          None \<Rightarrow> Inl NoSerial
        | Some serial \<Rightarrow> (case buildCardURI cc ident deviceName spki of
            Inl _ \<Rightarrow> Inl BadCard
          | Inr uri \<Rightarrow>
              (case cm_create cm \<lparr>ct_serial = serial, ct_common_name = ''share2us-lan'', ct_not_before = now - 60 * 1000000000,
                   ct_not_after = now + certValidity, ct_uris = (case uri of None \<Rightarrow> [] | Some u \<Rightarrow> [u])\<rparr> spki of
                 None \<Rightarrow> Inl NoCertificateMade
               | Some der \<Rightarrow> Inr (der, certFingerprint (cc_sha cc) der)))))"

definition identityFingerprintOf :: "card_crypto \<Rightarrow> bytes \<Rightarrow> string" where
  "identityFingerprintOf cc ident =
     (if length ident \<noteq> ed_private_size then [] else IdentityFingerprint (cc_sha cc) (cc_public cc ident))"

fun mode_text :: "mode \<Rightarrow> string" where
  "mode_text ModePassword = ''password''"
| "mode_text ModeAllowIP = ''allow-ip''"
| "mode_text ModeOpen = ''open''"

section \<open>\<open>Receive\<close>\<close>

text \<open>Where to listen and as whom; what the machine provides.\<close>

record listen_conf =
  lc_bind :: string
  lc_port :: int
  lc_identity :: bytes
  lc_name :: string

record machine =
  ma_os :: os
  ma_cc :: card_crypto
  ma_cert :: cert_maker
  ma_now :: int
  ma_bind :: "string \<Rightarrow> int option"
  ma_passphrase :: "string option"

text \<open>Everything before the first \<open>Accept\<close>: the options with the directory, the password, the allow list, the
  certificate and what \<open>OnListen\<close> is told.\<close>

definition start_receive ::
  "machine \<Rightarrow> listen_conf \<Rightarrow> ReceiveOptions \<Rightarrow> start_err + ReceiveOptions \<times> string \<times> ip list \<times> bytes \<times> ListenInfo" where
  "start_receive m lc opts =
     (case resolveDestDir (ma_os m) (ro_dest_dir opts) of
        Inl e \<Rightarrow> Inl e
      | Inr dir \<Rightarrow> (case effective_password opts (ma_passphrase m) of
          None \<Rightarrow> Inl NoPassphrase
        | Some password \<Rightarrow> (case parseAllowIPs (ro_allow_ips opts) of
            Inl bad \<Rightarrow> Inl (BadAllowIP bad)
          | Inr ips \<Rightarrow> (case generateEphemeralCert (ma_cc m) (ma_cert m) (ma_now m) (lc_identity lc) (lc_name lc) of
              Inl e \<Rightarrow> Inl e
            | Inr (der, fingerprint) \<Rightarrow> (case listen (ma_bind m) (lc_bind lc) (lc_port lc) of
                Inl e \<Rightarrow> Inl e
              | Inr port \<Rightarrow> Inr (opts\<lparr>ro_dest_dir := dir\<rparr>, password, ips, der,
                  \<lparr>li_bind_addr = lc_bind lc, li_port = port, li_fingerprint = fingerprint,
                   li_identity_fingerprint = identityFingerprintOf (ma_cc m) (lc_identity lc), li_passphrase = password,
                   li_mode = mode_text (receive_mode password (ro_allow_ips opts)), li_app_version = [], li_min_peer = []\<rparr>))))))"

text \<open>A connection that \<open>Accept\<close> returns: when, what it is, and what the machine does while it is handled. After the
  last one \<open>Accept\<close> fails (a cancelled context closes the listener).\<close>

record arrival =
  ar_time :: int
  ar_conn :: conn
  ar_env :: io_env

datatype receive_err = NotStarted start_err | AcceptFailed | TransferFailed hard_err

fun receive_loop ::
  "('s, 'm) services_scheme \<Rightarrow> ReceiveOptions \<Rightarrow> string \<Rightarrow> ip list \<Rightarrow> ipThrottle \<Rightarrow> inflightCap \<Rightarrow> fs \<Rightarrow> arrival list \<Rightarrow>
   fs \<times> bytes list \<times> (receive_err + ReceiveResult)" where
  "receive_loop sv opts password ips t c f [] = (f, [], Inl AcceptFailed)"
| "receive_loop sv opts password ips t c f (a # rest) =
     (let ip = remoteIP (cn_remote (ar_conn a)); (ok, t1) = allow (ar_time a) t ip in
      if \<not> ok then receive_loop sv opts password ips t1 c f rest
      else (let (ok2, c1) = acquire c ip in
        if \<not> ok2 then receive_loop sv opts password ips t1 c1 f rest
        else (case handleConn sv opts password ips (ar_env a) f (ar_conn a) of
            (f1, out, Completed r) \<Rightarrow> (f1, [out], Inr r)
          | (f1, out, HardError e) \<Rightarrow> (f1, [out], Inl (TransferFailed e))
          | (f1, out, Rejected) \<Rightarrow>
              (let (f2, outs, r) = receive_loop sv opts password ips t1 (release c1 ip) f1 rest in (f2, out # outs, r)))))"

definition Receive_once ::
  "('s, 'm) services_scheme \<Rightarrow> machine \<Rightarrow> listen_conf \<Rightarrow> ReceiveOptions \<Rightarrow> fs \<Rightarrow> arrival list \<Rightarrow>
   fs \<times> bytes list \<times> (receive_err + ReceiveResult)" where
  "Receive_once sv m lc opts f arrivals =
     (case start_receive m lc opts of
        Inl e \<Rightarrow> (f, [], Inl (NotStarted e))
      | Inr (opts1, password, ips, _) \<Rightarrow>
          receive_loop sv opts1 password ips (newIPThrottle 10 connWindow) (newInflightCap 2) f arrivals)"

section \<open>\<open>Broadcast\<close>\<close>

text \<open>Everything before its first \<open>Accept\<close>: the options with defaults, size and digest of the source, the certificate
  and what \<open>OnListen\<close> is told.\<close>

definition start_broadcast ::
  "machine \<Rightarrow> listen_conf \<Rightarrow> fs \<Rightarrow> BroadcastOptions \<Rightarrow>
   start_err + BroadcastOptions \<times> int \<times> string \<times> bytes \<times> ListenInfo" where
  "start_broadcast m lc f op =
     (let op1 = broadcast_options op in
      case broadcast_source (cc_sha (ma_cc m)) f op1 of
        None \<Rightarrow> Inl NoSource
      | Some (sz, dg) \<Rightarrow> (case generateEphemeralCert (ma_cc m) (ma_cert m) (ma_now m) (bo_identity op1) (lc_name lc) of
          Inl e \<Rightarrow> Inl e
        | Inr (der, fingerprint) \<Rightarrow> (case listen (ma_bind m) (lc_bind lc) (lc_port lc) of
            Inl e \<Rightarrow> Inl e
          | Inr port \<Rightarrow> Inr (op1, sz, dg, der,
              \<lparr>li_bind_addr = lc_bind lc, li_port = port, li_fingerprint = fingerprint,
               li_identity_fingerprint = identityFingerprintOf (ma_cc m) (bo_identity op1), li_passphrase = [],
               li_mode = mode_text ModeOpen, li_app_version = [], li_min_peer = []\<rparr>))))"

section \<open>Facts\<close>

lemma handleConn_rejected:
  assumes "handleConn sv opts password ips env f c = (f', out, Rejected)"
  shows "f' = f"
  using assms by (auto simp: handleConn_def transfer_def Let_def split: prod.split_asm sum.split_asm option.split_asm)

lemma acquire_release:
  assumes "ic_n c = Map.empty" "0 < ic_max c"
  shows "\<exists>c1. acquire c ip = (True, c1) \<and> release c1 ip = c"
  using assms by (auto simp: acquire_def release_def held_def)

lemma allow_few:
  assumes "knows t now adm" "length (recent (it_window t) now (adm ip)) < it_max t"
  shows "fst (allow now t ip)"
proof (cases "ip = []")
  case False
  have "knows (prune now t) now adm" using assms(1) by (rule knows_prune)
  then have "filter (\<lambda>ts. now - ts < it_window t) (seen_of (prune now t) ip) = recent (it_window t) now (adm ip)"
    using False unfolding knows_def by (simp add: recent_def)
  then show ?thesis using False assms(2) by (simp add: allow_def Let_def)
qed (simp add: allow_def)

lemma knows_cong: "knows t now adm \<Longrightarrow> (\<And>ip. ip \<noteq> [] \<Longrightarrow> adm ip = adm' ip) \<Longrightarrow> knows t now adm'"
  by (simp add: knows_def)

lemma times_of_Cons: "times_of ip (e # es) = (if snd e = ip then fst e # times_of ip es else times_of ip es)"
  by (cases e) (simp add: times_of_def)

lemma attempts_knows:
  "knows t n adm \<Longrightarrow> sorted (n # map fst evs) \<Longrightarrow> \<forall>x\<in>set (n # map fst evs). x \<le> now \<Longrightarrow> attempts t evs = (t', admitted) \<Longrightarrow>
   knows t' now (\<lambda>ip. adm ip @ times_of ip admitted) \<and> it_window t' = it_window t \<and> it_max t' = it_max t"
proof (induction evs arbitrary: t n adm t' admitted)
  case Nil
  then show ?case by (auto simp: times_of_def intro: knows_later)
next
  case (Cons ev evs)
  obtain n0 ip0 where ev: "ev = (n0, ip0)" by (cases ev)
  obtain ok t1 where al: "allow n0 t ip0 = (ok, t1)" by fastforce
  obtain admitted1 where at: "attempts t1 evs = (t', admitted1)" "admitted = (if ok then (n0, ip0) # admitted1 else admitted1)"
    using Cons.prems(4) ev al by (auto split: prod.splits)
  have "knows t n0 adm" using Cons.prems(1,2) ev by (auto intro: knows_later)
  note al_facts = allow_knows [OF this al]
  from al_facts have k: "knows t1 n0 (if ok \<and> ip0 \<noteq> [] then adm(ip0 := adm ip0 @ [n0]) else adm)" by blast
  have "sorted (n0 # map fst evs)" "\<forall>x\<in>set (n0 # map fst evs). x \<le> now" using Cons.prems(2,3) ev by auto
  from Cons.IH [OF k this at(1)] al_facts at(2) show ?case
    by (auto simp: times_of_Cons elim!: knows_cong)
qed

lemma attempts_recent:
  "length (recent w now (times_of ip (snd (attempts t evs)))) \<le> length (recent w now (times_of ip evs))"
proof (induction evs arbitrary: t)
  case Nil
  then show ?case by simp
next
  case (Cons ev evs)
  obtain n0 ip0 where ev: "ev = (n0, ip0)" by (cases ev)
  obtain ok t1 where al: "allow n0 t ip0 = (ok, t1)" by fastforce
  show ?case using Cons [of t1] ev al
    by (auto simp: times_of_Cons recent_def split: prod.splits)
qed

lemma allow_after:
  assumes "sorted (map fst evs)" "\<forall>x\<in>set (map fst evs). x \<le> now" "length (recent w now (times_of ip evs)) < k"
  shows "fst (allow now (fst (attempts (newIPThrottle k w) evs)) ip)"
proof -
  obtain t' admitted where at: "attempts (newIPThrottle k w) evs = (t', admitted)" by fastforce
  define n where "n = (case evs of [] \<Rightarrow> now | e # _ \<Rightarrow> fst e)"
  have "sorted (n # map fst evs)" "\<forall>x\<in>set (n # map fst evs). x \<le> now"
    using assms(1,2) by (fastforce simp: n_def split: list.splits)+
  from attempts_knows [OF knows_new this at]
  have "knows t' now (\<lambda>ip. times_of ip admitted)" "it_window t' = w" "it_max t' = k" by (simp_all add: newIPThrottle_def)
  moreover have "length (recent w now (times_of ip admitted)) < k"
    using attempts_recent [of w now ip "newIPThrottle k w" evs] assms(3) at by simp
  ultimately show ?thesis using allow_few at by simp
qed

abbreviation attempt_of :: "arrival \<Rightarrow> int \<times> string" where
  "attempt_of a \<equiv> (ar_time a, remoteIP (cn_remote (ar_conn a)))"

lemma receive_loop_rejected:
  assumes "\<forall>a\<in>set pre. snd (snd (handleConn sv opts password ips (ar_env a) f (ar_conn a))) = Rejected"
    and "ic_n c = Map.empty" "0 < ic_max c"
  shows "\<exists>outs. receive_loop sv opts password ips t c f (pre @ rest) =
    (case receive_loop sv opts password ips (fst (attempts t (map attempt_of pre))) c f rest of
       (f2, os, r) \<Rightarrow> (f2, outs @ os, r))"
  using assms(1)
proof (induction pre arbitrary: t)
  case Nil
  show ?case by (intro exI [of _ "[]"]) (simp split: prod.splits)
next
  case (Cons a pre)
  let ?ip = "remoteIP (cn_remote (ar_conn a))"
  obtain ok t1 where al: "allow (ar_time a) t ?ip = (ok, t1)" by fastforce
  obtain c1 where c1: "acquire c ?ip = (True, c1)" "release c1 ?ip = c" using acquire_release [OF assms(2,3)] by blast
  obtain f1 out where h: "handleConn sv opts password ips (ar_env a) f (ar_conn a) = (f1, out, Rejected)"
    using Cons.prems by (cases "handleConn sv opts password ips (ar_env a) f (ar_conn a)") auto
  have f1: "f1 = f" using handleConn_rejected [OF h] .
  obtain outs where ih: "receive_loop sv opts password ips t1 c f (pre @ rest) =
    (case receive_loop sv opts password ips (fst (attempts t1 (map attempt_of pre))) c f rest of
       (f2, os, r) \<Rightarrow> (f2, outs @ os, r))" using Cons by fastforce
  have at: "fst (attempts t (map attempt_of (a # pre))) = fst (attempts t1 (map attempt_of pre))"
    using al by (simp split: prod.splits)
  show ?case
  proof (cases ok)
    case True
    then show ?thesis unfolding at using al c1 h f1 ih
      by (intro exI [of _ "out # outs"]) (simp split: prod.splits)
  next
    case False
    then show ?thesis unfolding at using al ih by (intro exI [of _ outs]) simp
  qed
qed

lemma first_bound_cases:
  "(\<exists>pre p post q. ps = pre @ p # post \<and> (\<forall>x\<in>set pre. bind (JoinHostPort host (itoa x)) = None) \<and>
      bind (JoinHostPort host (itoa p)) = Some q \<and> first_bound bind host ps = Some q) \<or>
   (\<forall>x\<in>set ps. bind (JoinHostPort host (itoa x)) = None) \<and> first_bound bind host ps = None"
proof (induction ps)
  case (Cons p ps)
  show ?case
  proof (cases "bind (JoinHostPort host (itoa p))")
    case (Some q)
    then have "p # ps = [] @ p # ps" "first_bound bind host (p # ps) = Some q" by simp_all
    then show ?thesis using Some by (metis empty_iff list.set(1))
  next
    case None
    then show ?thesis using Cons.IH
    proof (elim disjE exE conjE)
      fix pre x post q
      assume "ps = pre @ x # post" "\<forall>y\<in>set pre. bind (JoinHostPort host (itoa y)) = None"
        "bind (JoinHostPort host (itoa x)) = Some q" "first_bound bind host ps = Some q"
      then have "p # ps = (p # pre) @ x # post" "\<forall>y\<in>set (p # pre). bind (JoinHostPort host (itoa y)) = None"
        "first_bound bind host (p # ps) = Some q" using None by simp_all
      then show ?thesis using \<open>bind (JoinHostPort host (itoa x)) = Some q\<close> by blast
    qed simp_all
  qed
qed simp

section \<open>Properties\<close>


text \<open>A one-shot receive changes the disk by one transfer or not at all: when it returns a result, one of the arrivals
  was handled on the disk as it was at the start and completed with that result, leaving the disk the receive leaves;
  every connection handled before it was rejected. When every connection is rejected the disk is unchanged.\<close>

theorem receive_is_one_transfer:
  assumes "receive_loop sv opts password ips t c f arrivals = (f', outs, res)"
  shows "(res = Inl AcceptFailed \<longrightarrow> f' = f) \<and>
    (\<forall>r. res = Inr r \<longrightarrow> (\<exists>pre a post out. arrivals = pre @ a # post \<and>
      handleConn sv opts password ips (ar_env a) f (ar_conn a) = (f', out, Completed r)))"
  using assms
proof (induction arrivals arbitrary: t c outs)
  case (Cons a rest)
  have step: "(res = Inl AcceptFailed \<longrightarrow> f' = f) \<and>
      (\<forall>r. res = Inr r \<longrightarrow> (\<exists>pre b post out. a # rest = pre @ b # post \<and>
        handleConn sv opts password ips (ar_env b) f (ar_conn b) = (f', out, Completed r)))"
    if "receive_loop sv opts password ips t2 c2 f rest = (f', os, res)" for t2 c2 os
    using Cons.IH [OF that] by (metis append_Cons)
  obtain f1 out oc where h: "handleConn sv opts password ips (ar_env a) f (ar_conn a) = (f1, out, oc)"
    by (cases "handleConn sv opts password ips (ar_env a) f (ar_conn a)")
  show ?case
  proof (cases oc)
    case Rejected
    then have "f1 = f" using h handleConn_rejected by blast
    with Rejected h Cons.prems step show ?thesis by (auto simp: Let_def split: if_splits prod.splits)
  next
    case (HardError e)
    with h Cons.prems step show ?thesis by (auto simp: Let_def split: if_splits prod.splits)
  next
    case (Completed r)
    have "a # rest = [] @ a # rest" by simp
    with Completed h Cons.prems step show ?thesis by (simp add: Let_def split: if_splits prod.splits) blast+
  qed
qed auto

text \<open>An allow list of blanks is no allow list: with no password and one blank entry, a receiver announces the mode
  \<open>allow-ip\<close>, generates no passphrase and holds an empty list, so any address is admitted without a password.\<close>

theorem blank_allow_list_open:
  assumes "start_receive m lc (opts\<lparr>ro_password := [], ro_allow_ips := ['' '']\<rparr>) = Inr (opts1, password, ips, der, info)"
  shows "li_mode info = ''allow-ip'' \<and> password = [] \<and> ips = []"
proof -
  have "trim_space '' '' = []" by (simp add: trim_space_def trim_runes_def runes_ascii is_space_def of_char_Char horner_sum_simps)
  then have "parseAllowIPs ['' ''] = Inr []" by simp
  moreover have "receive_mode [] ['' ''] = ModeAllowIP" by (simp add: receive_mode_def)
  ultimately show ?thesis using assms
    by (auto simp: start_receive_def effective_password_def split: sum.splits prod.splits)
qed

text \<open>Without a pinned port a listener takes the first one from 4300 to 4600 that the system gives it, and fails only
  when it gives none.\<close>

theorem listen_first_free:
  "(\<exists>p. 4300 \<le> p \<and> p \<le> 4600 \<and> (\<forall>x. 4300 \<le> x \<and> x < p \<longrightarrow> bind (JoinHostPort host (itoa x)) = None) \<and>
      bind (JoinHostPort host (itoa p)) \<noteq> None \<and> listen bind host 0 = Inr (the (bind (JoinHostPort host (itoa p))))) \<or>
   (\<forall>x. 4300 \<le> x \<and> x \<le> 4600 \<longrightarrow> bind (JoinHostPort host (itoa x)) = None) \<and> listen bind host 0 = Inl NoFreePort"
  using first_bound_cases [of "[DefaultPort..portRangeEnd]" bind host]
proof (elim disjE exE conjE)
  fix pre p post q
  assume a: "[DefaultPort..portRangeEnd] = pre @ p # post" "\<forall>x\<in>set pre. bind (JoinHostPort host (itoa x)) = None"
    "bind (JoinHostPort host (itoa p)) = Some q" "first_bound bind host [DefaultPort..portRangeEnd] = Some q"
  have set: "x \<in> set (pre @ p # post) \<longleftrightarrow> 4300 \<le> x \<and> x \<le> 4600" for x
    unfolding a(1) [symmetric] set_upto atLeastAtMost_iff DefaultPort_def portRangeEnd_def ..
  from set [of p] have r: "4300 \<le> p" "p \<le> 4600" by simp_all
  have "sorted (pre @ p # post)" using a(1) sorted_upto by metis
  have "x \<in> set pre" if "4300 \<le> x" "x < p" for x
  proof -
    have "x \<in> set (pre @ p # post)" using that r unfolding set by simp
    moreover have "x \<notin> set (p # post)" using \<open>sorted (pre @ p # post)\<close> that(2) by (auto simp: sorted_append)
    ultimately show ?thesis by simp
  qed
  then show ?thesis using a(2,3) r by (auto simp: listen_def a(4))
next
  assume "\<forall>x\<in>set [DefaultPort..portRangeEnd]. bind (JoinHostPort host (itoa x)) = None"
    "first_bound bind host [DefaultPort..portRangeEnd] = None"
  then show ?thesis unfolding set_upto by (simp add: listen_def) (simp add: DefaultPort_def portRangeEnd_def)
qed

text \<open>C10 What a listener announces pins it: with the fingerprint of its certificate or of its identity as the pin, a
  sender accepts the certificate it presents, and the card in it carries the device's name and key. (Laws: a parsed
  certificate has the key and the names of its template; base64 decodes what it encoded; Ed25519 verifies its own
  signatures.)\<close>

theorem announced_pin_accepted:
  assumes made: "generateEphemeralCert cc cm now ident name = Inr (der, fp)" "cm_key cm = Some (Some spki)"
    and x509: "\<And>tmpl. cm_create cm tmpl (Some spki) = Some der \<Longrightarrow>
      parse der = Some \<lparr>c_der = der, c_spki = Some spki, c_uris = ct_uris tmpl\<rparr>"
    and b64: "\<forall>x. cc_unb64 cc (cc_b64 cc x) = Some x"
    and sig: "\<forall>m. cc_verify cc (cc_public cc ident) m (cc_sign cc ident m) \<and> length (cc_sign cc ident m) = ed_signature_size"
    and len: "length (cc_public cc ident) = ed_public_size" "length ident = ed_private_size"
  shows "verify_pin cc parse fp [der] = Inr () \<and> verify_pin cc parse (identityFingerprintOf cc ident) [der] = Inr () \<and>
    cardFromCert cc (parse der) = Some \<lparr>card_name = stripControls (card_label name), card_key = cc_public cc ident\<rparr>"
proof -
  obtain u where card: "buildCardURI cc ident name (Some spki) = Inr (Some u)" using len(2) by (simp add: buildCardURI_def Let_def)
  obtain tmpl where u: "ct_uris tmpl = [u]" "cm_create cm tmpl (Some spki) = Some der" and fp: "fp = certFingerprint (cc_sha cc) der"
  proof -
    obtain serial where "cm_create cm \<lparr>ct_serial = serial, ct_common_name = ''share2us-lan'', ct_not_before = now - 60 * 1000000000,
        ct_not_after = now + certValidity, ct_uris = [u]\<rparr> (Some spki) = Some der" "fp = certFingerprint (cc_sha cc) der"
      using made by (auto simp: generateEphemeralCert_def card split: option.split_asm)
    from that [OF _ this] show thesis by simp
  qed
  define leaf where "leaf = \<lparr>c_der = der, c_spki = Some spki, c_uris = [u]\<rparr>"
  have leaf: "parse der = Some leaf" using x509 [OF u(2)] u(1) by (simp add: leaf_def)
  have "c_spki leaf = Some spki" "buildCardURI cc ident name (c_spki leaf) = Inr (Some u)" "c_uris leaf = u # []"
    using card by (simp_all add: leaf_def)
  from card_roundtrip [OF b64 sig len this]
  have dc: "cardFromCert cc (Some leaf) = Some \<lparr>card_name = stripControls (card_label name), card_key = cc_public cc ident\<rparr>" .
  have "cc_public cc ident \<noteq> []" using len(1) by (auto simp: ed_public_size_def)
  then have "verify_pin cc parse (identityFingerprintOf cc ident) [der] = Inr ()"
    by (simp add: verify_pin_def Let_def leaf dc identityFingerprintOf_def len(2) IdentityFingerprint_def)
  then show ?thesis by (simp add: verify_pin_def Let_def fp certFingerprint_def dc leaf)
qed

section \<open>Concrete inputs\<close>

text \<open>A connection that is not TLS, before the demo push.\<close>

definition demo_junk :: arrival where
  "demo_junk = \<lparr>ar_time = 1, ar_conn = toy_conn\<lparr>cn_tls := False\<rparr>, ar_env = good_env\<rparr>"

lemma demo_junk_rejected:
  "handleConn demo_services demo_recv (so_password demo_send) [] (ar_env demo_junk) f (ar_conn demo_junk) = (f, [], Rejected)"
  by (simp add: handleConn_def admit_def demo_junk_def)


lemma listen_first_free_witness: "listen (\<lambda>_. Some 4305) ''h'' 0 = Inr 4305"
  using listen_first_free [of "\<lambda>_. Some 4305" "''h''"] by auto

definition demo_maker :: cert_maker where
  "demo_maker = \<lparr>cm_key = Some (Some ''der''), cm_serial = Some 7, cm_create = (\<lambda>t k. if ct_uris t = [toy_uri] then Some ''cert'' else None)\<rparr>"

lemma toy_card_uri: "buildCardURI toy_cc toy_ident ''pc'' (Some ''der'') = Inr (Some toy_uri)"
  by (simp add: buildCardURI_def toy_uri_def ed_private_size_def toy_ident_def toy_cc_def Let_def)

lemma announced_pin_accepted_witness:
  "verify_pin toy_cc (\<lambda>_. Some toy_cert) (hex_encode (cc_sha toy_cc ''cert'')) [''cert''] = Inr () \<and>
   verify_pin toy_cc (\<lambda>_. Some toy_cert) (identityFingerprintOf toy_cc toy_ident) [''cert''] = Inr () \<and>
   cardFromCert toy_cc (Some toy_cert) = Some \<lparr>card_name = stripControls (card_label ''pc''), card_key = cc_public toy_cc toy_ident\<rparr>"
proof (rule announced_pin_accepted [where cm = demo_maker and now = 0 and spki = "''der''"])
  show "generateEphemeralCert toy_cc demo_maker 0 toy_ident ''pc'' = Inr (''cert'', hex_encode (cc_sha toy_cc ''cert''))"
    by (simp add: generateEphemeralCert_def demo_maker_def toy_card_uri certFingerprint_def)
  show "Some toy_cert = Some \<lparr>c_der = ''cert'', c_spki = Some ''der'', c_uris = ct_uris tmpl\<rparr>"
    if "cm_create demo_maker tmpl (Some ''der'') = Some ''cert''" for tmpl
    using that by (simp add: demo_maker_def toy_cert_def split: if_splits)
  show "\<forall>m. cc_verify toy_cc (cc_public toy_cc toy_ident) m (cc_sign toy_cc toy_ident m) \<and>
      length (cc_sign toy_cc toy_ident m) = ed_signature_size"
    by (auto simp: toy_cc_def ed_signature_size_def min_def)
qed (simp_all add: toy_cc_def toy_ident_def demo_maker_def ed_public_size_def ed_private_size_def)

end
