(* ===== verification/Serving.thy ===== *)
theory Serving
  imports Listener
begin

text \<open>
  The listener of a broadcast while it runs (\<open>Broadcast\<close> of \<open>lanshare/broadcast.go\<close>, its accept loop): connections
  arrive at any time, pass the two guards or are closed, wait for a slot, and are handled concurrently by
  \<open>handleDownload\<close>. The steps refine the accept loop of Throttle, which only counts addresses; what each handler did is
  in a log. A handler reads the file system as it is when it is handled and writes nothing, so its run is one step.
\<close>

section \<open>The loop with its connections\<close>

record ('c, 'r) serving =
  vl_loop :: accept_loop
  vl_wait :: "'c option"
  vl_running :: "'c multiset"
  vl_log :: "('c \<times> 'r) list"

definition serving_start :: "('c, 'r) serving" where
  "serving_start = \<lparr>vl_loop = accept_start, vl_wait = None, vl_running = {#}, vl_log = []\<rparr>"

text \<open>\<open>addr\<close> is the address of a connection, \<open>handler\<close> what handling it gives. The slot of the semaphore is released after
  the address.\<close>

definition start_handler :: "'c \<Rightarrow> ('c, 'r) serving \<Rightarrow> ('c, 'r) serving" where
  "start_handler c s = s\<lparr>vl_wait := None, vl_running := add_mset c (vl_running s)\<rparr>"

definition finish_handler :: "('c \<Rightarrow> 'r) \<Rightarrow> 'c \<Rightarrow> ('c, 'r) serving \<Rightarrow> ('c, 'r) serving" where
  "finish_handler handler c s = s\<lparr>vl_running := vl_running s - {#c#}, vl_log := vl_log s @ [(c, handler c)]\<rparr>"

inductive serve_step :: "('c \<Rightarrow> ip_text) \<Rightarrow> ('c \<Rightarrow> 'r) \<Rightarrow> ('c, 'r) serving \<Rightarrow> ('c, 'r) serving \<Rightarrow> bool"
  for addr handler where
  Refuse: "vl_wait s = None \<Longrightarrow> guard now (addr c) (vl_loop s) = (False, l) \<Longrightarrow> serve_step addr handler s (s\<lparr>vl_loop := l\<rparr>)"
| Admit: "vl_wait s = None \<Longrightarrow> guard now (addr c) (vl_loop s) = (True, l) \<Longrightarrow>
    serve_step addr handler s (s\<lparr>vl_loop := l\<lparr>al_waiting := Some (addr c)\<rparr>, vl_wait := Some c\<rparr>)"
| Start: "vl_wait s = Some c \<Longrightarrow> size (vl_running s) + al_leaving (vl_loop s) < sem_slots \<Longrightarrow>
    serve_step addr handler s (start_handler c (s\<lparr>vl_loop :=
      (vl_loop s)\<lparr>al_waiting := None, al_running := add_mset (addr c) (al_running (vl_loop s))\<rparr>\<rparr>))"
| Finish: "c \<in># vl_running s \<Longrightarrow>
    serve_step addr handler s (finish_handler handler c (s\<lparr>vl_loop := (vl_loop s)
      \<lparr>al_inflight := release (al_inflight (vl_loop s)) (addr c), al_running := al_running (vl_loop s) - {#addr c#},
       al_leaving := Suc (al_leaving (vl_loop s))\<rparr>\<rparr>))"
| Free: "al_leaving (vl_loop s) = Suc n \<Longrightarrow> serve_step addr handler s (s\<lparr>vl_loop := (vl_loop s)\<lparr>al_leaving := n\<rparr>\<rparr>)"

section \<open>A broadcast\<close>

text \<open>A downloader's connection, with the environment its handler meets and the files at that time.\<close>

record pull_arrival =
  pv_conn :: conn
  pv_tx :: tx_env
  pv_reader :: reader
  pv_fs :: fs

definition pull_address :: "pull_arrival \<Rightarrow> ip_text" where
  "pull_address a = remoteIP (cn_remote (pv_conn a))"

definition pull_handler ::
  "('s, 'm) pull_services_scheme \<Rightarrow> BroadcastOptions \<Rightarrow> int \<Rightarrow> string \<Rightarrow> pull_arrival \<Rightarrow> bytes \<times> ConnEvent list" where
  "pull_handler sv op sz sha a = handleDownload sv (broadcast_options op) (pv_tx a) (pv_reader a) (pv_fs a) sz sha (pv_conn a)"

abbreviation broadcast_step ::
  "('s, 'm) pull_services_scheme \<Rightarrow> BroadcastOptions \<Rightarrow> int \<Rightarrow> string \<Rightarrow>
   (pull_arrival, bytes \<times> ConnEvent list) serving \<Rightarrow> (pull_arrival, bytes \<times> ConnEvent list) serving \<Rightarrow> bool" where
  "broadcast_step sv op sz sha \<equiv> serve_step pull_address (pull_handler sv op sz sha)"

text \<open>Whom a broadcast may serve.\<close>

definition pull_entitled :: "('s, 'm) pull_services_scheme \<Rightarrow> BroadcastOptions \<Rightarrow> int \<Rightarrow> conn \<Rightarrow> bool" where
  "pull_entitled sv op sz c \<longleftrightarrow> (\<exists>ekm req rest key. cn_tls c \<and> cn_handshake c \<and> cn_ekm c = Some ekm \<and>
    readControl (sv_un_req sv) (sv_un_error sv) msgDownloadReq (cn_in c) = Inr (req, rest) \<and>
    check_identity (sv_verify sv) (Some ekm) (q_identity_pub req) (q_identity_sig req) = Inr key \<and>
    0 \<le> q_offset req \<and> q_offset req \<le> sz \<and>
    (bo_access op = AccessTrusted \<longrightarrow> (\<exists>k t. key = Some k \<and> bo_is_trusted op = Some t \<and> t (IdentityFingerprint (sv_sha sv) k))) \<and>
    (bo_access op = AccessApprove \<or> bo_access op = [] \<longrightarrow> (\<exists>ask. bo_on_request op = Some ask \<and>
       ask \<lparr>ri_peer_ip = remoteIP (cn_remote c), ri_name = bo_name (broadcast_options op), ri_size = sz, ri_is_dir = False,
         ri_sender_key = key, ri_sender_name = SanitizeName (q_downloader_name req)\<rparr>)))"

section \<open>Facts\<close>

inductive_cases serve_stepE: "serve_step addr handler s t"

text \<open>The simulation: what the accept loop counts is what is running and waiting.\<close>

definition serving_ok :: "('c \<Rightarrow> ip_text) \<Rightarrow> ('c \<Rightarrow> 'r) \<Rightarrow> ('c, 'r) serving \<Rightarrow> bool" where
  "serving_ok addr handler s \<longleftrightarrow> loop_reachable (vl_loop s) \<and>
     al_running (vl_loop s) = image_mset addr (vl_running s) \<and> al_waiting (vl_loop s) = map_option addr (vl_wait s) \<and>
     (\<forall>(c, r) \<in> set (vl_log s). r = handler c)"

lemma guard_keeps:
  assumes "guard now ip s = (ok, l)"
  shows "al_running l = al_running s \<and> al_waiting l = al_waiting s \<and> al_leaving l = al_leaving s"
  using assms by (auto simp: guard_def split: prod.splits if_splits)

lemma serve_step_ok:
  assumes "serve_step addr handler s t" "serving_ok addr handler s"
  shows "serving_ok addr handler t"
  using assms(1)
proof (cases rule: serve_step.cases)
  case (Refuse now c l)
  then have "loop_step (vl_loop s) l" using assms(2) by (intro refused) (simp_all add: serving_ok_def)
  then show ?thesis using assms(2) Refuse guard_keeps [OF Refuse(3)] by (auto simp: serving_ok_def intro: reach_step)
next
  case (Admit now c l)
  then have "loop_step (vl_loop s) (l\<lparr>al_waiting := Some (addr c)\<rparr>)"
    using assms(2) by (intro admitted) (simp_all add: serving_ok_def)
  then show ?thesis using assms(2) Admit guard_keeps [OF Admit(3)] by (auto simp: serving_ok_def intro: reach_step)
next
  case (Start c)
  have "loop_step (vl_loop s) ((vl_loop s)\<lparr>al_waiting := None, al_running := add_mset (addr c) (al_running (vl_loop s))\<rparr>)"
    using assms(2) Start(2,3) by (intro started) (simp_all add: serving_ok_def)
  then show ?thesis using assms(2) Start(1) by (auto simp: serving_ok_def start_handler_def intro: reach_step)
next
  case (Finish c)
  have "addr c \<in># al_running (vl_loop s)" using assms(2) Finish(2) by (auto simp: serving_ok_def)
  then have "loop_step (vl_loop s) ((vl_loop s)\<lparr>al_inflight := release (al_inflight (vl_loop s)) (addr c),
      al_running := al_running (vl_loop s) - {#addr c#}, al_leaving := Suc (al_leaving (vl_loop s))\<rparr>)" by (rule released)
  moreover have "image_mset addr (vl_running s - {#c#}) = image_mset addr (vl_running s) - {#addr c#}"
    using Finish(2) by (simp add: image_mset_Diff)
  ultimately show ?thesis using assms(2) Finish(1) by (auto simp: serving_ok_def finish_handler_def intro: reach_step)
next
  case (Free n)
  then have "loop_step (vl_loop s) ((vl_loop s)\<lparr>al_leaving := n\<rparr>)" by (intro freed) simp
  then show ?thesis using assms(2) Free(1) by (auto simp: serving_ok_def intro: reach_step)
qed

lemma serving_reachable_ok: "(serve_step addr handler)\<^sup>*\<^sup>* serving_start s \<Longrightarrow> serving_ok addr handler s"
proof (induction rule: rtranclp_induct)
  case base
  show ?case by (simp add: serving_ok_def serving_start_def accept_start_def [symmetric] reach_start)
    (simp add: accept_start_def)
qed (rule serve_step_ok)

lemma count_image_filter: "count (image_mset f M) y = size (filter_mset (\<lambda>x. f x = y) M)"
  by (induction M) auto

section \<open>Properties\<close>

text \<open>C21 Whatever arrives in whatever order at a running broadcast, at most eight handlers run, at most two for one address,
  and a handler that got as far as streaming served a downloader the broadcast may serve: one that proved the identity
  it claims on its session, asked for an offset inside the file, and is trusted or was approved for that very request;
  a broadcast for which no rule was set asks for approval.\<close>

theorem broadcast_serves_entitled:
  assumes "(broadcast_step sv op sz sha)\<^sup>*\<^sup>* serving_start s"
  shows "size (vl_running s) \<le> 8 \<and>
    (\<forall>ip. ip \<noteq> [] \<longrightarrow> size (filter_mset (\<lambda>a. pull_address a = ip) (vl_running s)) \<le> 2) \<and>
    (\<forall>a out evs. (a, (out, evs)) \<in> set (vl_log s) \<longrightarrow> evs \<noteq> [] \<longrightarrow> pull_entitled sv op sz (pv_conn a))"
proof (intro conjI allI impI)
  have ok: "serving_ok pull_address (pull_handler sv op sz sha) s" using assms by (rule serving_reachable_ok)
  have inv: "loop_inv (vl_loop s)" using ok loop_inv_reachable by (simp add: serving_ok_def)
  have run: "al_running (vl_loop s) = image_mset pull_address (vl_running s)" using ok by (simp add: serving_ok_def)
  show "size (vl_running s) \<le> 8" using inv run by (simp add: loop_inv_def sem_slots_def)
  show "size (filter_mset (\<lambda>a. pull_address a = ip) (vl_running s)) \<le> 2" if "ip \<noteq> []" for ip
    using inv that run by (auto simp: loop_inv_def holders_def simp flip: count_image_filter dest!: spec [of _ ip])
  show "pull_entitled sv op sz (pv_conn a)" if "(a, (out, evs)) \<in> set (vl_log s)" "evs \<noteq> []" for a out evs
  proof -
    have "handleDownload sv (broadcast_options op) (pv_tx a) (pv_reader a) (pv_fs a) sz sha (pv_conn a) = (out, evs)"
      using ok that(1) by (auto simp: serving_ok_def pull_handler_def)
    from broadcast_gate [OF this that(2)] show ?thesis
      by (auto simp: pull_entitled_def broadcast_options_def Let_def AccessTrusted_def AccessApprove_def split: if_splits)
  qed
qed

section \<open>Concrete inputs\<close>

definition demo_puller :: pull_arrival where
  "demo_puller = \<lparr>pv_conn = toy_conn\<lparr>cn_in := frame msgDownloadReq ''q''\<rparr>, pv_tx = good_tx, pv_reader = plain_reader,
     pv_fs = [''/s/f'' \<mapsto> File ''hello'']\<rparr>"

lemma broadcast_serves_entitled_witness:
  "\<exists>s out evs. (broadcast_step demo_pull demo_offer 5 ''x'')\<^sup>*\<^sup>* serving_start s \<and> vl_log s = [(demo_puller, (out, evs))] \<and>
     (evs \<noteq> [] \<longrightarrow> pull_entitled demo_pull demo_offer 5 (pv_conn demo_puller)) \<and> size (vl_running s) \<le> 8"
proof -
  let ?h = "pull_handler demo_pull demo_offer 5 ''x''"
  obtain out evs where h: "?h demo_puller = (out, evs)" by fastforce
  have "fst (allow 0 (newIPThrottle 10 connWindow) (pull_address demo_puller))"
    using allow_after [of "[]" 0 connWindow "pull_address demo_puller" 10] by (simp add: recent_def times_of_def)
  moreover have "fst (acquire (newInflightCap 2) (pull_address demo_puller))"
    by (simp add: acquire_def held_def newInflightCap_def)
  ultimately obtain t c where "allow 0 (al_throttle accept_start) (pull_address demo_puller) = (True, t)"
    "acquire (al_inflight accept_start) (pull_address demo_puller) = (True, c)"
    by (metis accept_loop.select_convs(1,2) accept_start_def prod.collapse)
  then obtain l where g: "guard 0 (pull_address demo_puller) accept_start = (True, l)" by (simp add: guard_def)
  define s1 :: "(pull_arrival, bytes \<times> ConnEvent list) serving" where
    "s1 = serving_start\<lparr>vl_loop := l\<lparr>al_waiting := Some (pull_address demo_puller)\<rparr>, vl_wait := Some demo_puller\<rparr>"
  define s2 where "s2 = start_handler demo_puller (s1\<lparr>vl_loop :=
      (vl_loop s1)\<lparr>al_waiting := None, al_running := add_mset (pull_address demo_puller) (al_running (vl_loop s1))\<rparr>\<rparr>)"
  define s3 where "s3 = finish_handler ?h demo_puller (s2\<lparr>vl_loop := (vl_loop s2)
      \<lparr>al_inflight := release (al_inflight (vl_loop s2)) (pull_address demo_puller),
       al_running := al_running (vl_loop s2) - {#pull_address demo_puller#}, al_leaving := Suc (al_leaving (vl_loop s2))\<rparr>\<rparr>)"
  have "serve_step pull_address ?h serving_start s1"
    unfolding s1_def by (rule Admit [where now = 0]) (simp_all add: serving_start_def g)
  moreover have "serve_step pull_address ?h s1 s2" unfolding s2_def
    by (rule Start) (use guard_keeps [OF g] in \<open>simp_all add: s1_def serving_start_def accept_start_def sem_slots_def\<close>)
  moreover have "serve_step pull_address ?h s2 s3" unfolding s3_def
    by (rule Finish) (simp add: s2_def start_handler_def)
  ultimately have r: "(broadcast_step demo_pull demo_offer 5 ''x'')\<^sup>*\<^sup>* serving_start s3"
    by (meson converse_rtranclp_into_rtranclp rtranclp.rtrancl_refl)
  have "vl_log s3 = [(demo_puller, (out, evs))]"
    by (simp add: s3_def finish_handler_def s2_def start_handler_def s1_def serving_start_def h)
  then show ?thesis using broadcast_serves_entitled [OF r] r by auto
qed

end
