(* ===== verification/DaemonServe.thy ===== *)
theory DaemonServe
  imports Daemon Cache
begin

text \<open>
  Where a daemon listens and how it serves (\<open>daemonctl/daemonctl.go\<close>, \<open>transport_windows.go\<close>, the runtime
  directory of \<open>daemon_config.go\<close>): the endpoint on Unix and on Windows, \<open>Listen\<close>, the accept loop, and the named
  mutex and pipe that keep a second daemon out on Windows, as a step relation over starting processes. The lock of
  Unix is in theory Daemon.
\<close>

section \<open>Endpoint and server on Unix\<close>

text \<open>\<open>xdg\<close> is \<open>XDG_RUNTIME_DIR\<close>, \<open>cache\<close> is \<open>os.UserCacheDir\<close>.\<close>

definition DaemonRuntimeDir :: "os \<Rightarrow> string \<Rightarrow> string option \<Rightarrow> file_err + string" where
  "DaemonRuntimeDir s xdg cache =
     (case (if trim_space xdg \<noteq> [] then Inr (Join (trim_space xdg) ''share2us'')
            else (case CacheBaseDir cache of Inl e \<Rightarrow> Inl e | Inr c \<Rightarrow> Inr (Join c ''run''))) of
        Inl e \<Rightarrow> Inl e
      | Inr base \<Rightarrow> if os_mkdir_ok s base then Inr base else Inl IOError)"

definition DaemonSocketPath :: "os \<Rightarrow> string \<Rightarrow> string option \<Rightarrow> file_err + string" where
  "DaemonSocketPath s xdg cache =
     (case DaemonRuntimeDir s xdg cache of Inl e \<Rightarrow> Inl e | Inr dir \<Rightarrow> Inr (Join dir ''daemon.sock''))"

datatype listen_err = NoEndpoint file_err | NoToken file_err | ErrAlreadyRunning | BindFailed

text \<open>\<open>Listen\<close> of process \<open>i\<close>: the token of the server, or why there is none.\<close>

definition Listen_control ::
  "os \<Rightarrow> string \<Rightarrow> string option \<Rightarrow> bytes option \<Rightarrow> bind_sys \<Rightarrow> nat \<Rightarrow> files \<Rightarrow> sockets \<Rightarrow>
   files \<times> sockets \<times> (listen_err + string)" where
  "Listen_control s xdg cache rnd sys i fs w =
     (case DaemonSocketPath s xdg cache of
        Inl e \<Rightarrow> (fs, w, Inl (NoEndpoint e))
      | Inr _ \<Rightarrow> (case LoadOrCreateToken s fs rnd of
          (fs1, Inl e) \<Rightarrow> (fs1, w, Inl (NoToken e))
        | (fs1, Inr tok) \<Rightarrow>
            (let w1 = bindControl sys i w in
             (fs1, w1, if so_stage w1 i = Serving then Inr tok
               else if so_stage w1 i = Backed then Inl ErrAlreadyRunning else Inl BindFailed))))"

text \<open>\<open>controlServer.serve\<close>: each connection with its peer's process id and what it sends, in the order in which
  their handlers run.\<close>

fun serve_control ::
  "control_codec \<Rightarrow> string \<Rightarrow> ('st \<Rightarrow> Request \<Rightarrow> 'st \<times> Response) \<Rightarrow> 'st \<Rightarrow> (int \<times> bytes) list \<Rightarrow> 'st \<times> bytes list" where
  "serve_control kc token handler st [] = (st, [])"
| "serve_control kc token handler st ((pid, inp) # conns) =
     (let (st1, out) = handle_control kc token handler pid st inp;
          (st2, outs) = serve_control kc token handler st1 conns in (st2, out # outs))"

section \<open>The named pipe of Windows\<close>

definition backslash :: char where "backslash = CHR 0x5C"

text \<open>The name after the last backslash or slash.\<close>

definition account_name :: "string \<Rightarrow> string" where
  "account_name un = rev (takeWhile (\<lambda>c. c \<noteq> backslash \<and> c \<noteq> CHR ''/'') (rev un))"

definition pipe_rune :: "nat \<Rightarrow> bool" where
  "pipe_rune r \<longleftrightarrow> (97 \<le> r \<and> r \<le> 122) \<or> (65 \<le> r \<and> r \<le> 90) \<or> (48 \<le> r \<and> r \<le> 57) \<or> r = 45 \<or> r = 95"

definition sanitizePipeSegment :: "string \<Rightarrow> string" where
  "sanitizePipeSegment s =
     (let b = concat (map (\<lambda>rb. if pipe_rune (fst rb) then snd rb else ''_'') (runes s)) in
      if b = [] then ''default'' else b)"

definition pipe_prefix :: string where
  "pipe_prefix = [backslash, backslash, CHR ''.'', backslash] @ ''pipe'' @ [backslash] @ ''share2us-daemon-''"

text \<open>\<open>user\<close> is the name \<open>user.Current\<close> gives, \<open>None\<close> when it fails.\<close>

definition pipe_endpoint :: "string option \<Rightarrow> string" where
  "pipe_endpoint user = pipe_prefix @
     (case user of None \<Rightarrow> ''default'' | Some un \<Rightarrow> if un = [] then ''default'' else sanitizePipeSegment (account_name un))"

definition mutex_name :: "(bytes \<Rightarrow> bytes) \<Rightarrow> string \<Rightarrow> string" where
  "mutex_name sha pipe = ''Local'' @ [backslash] @ ''share2us-daemon-'' @ hex_encode (take 8 (sha pipe))"

text \<open>A process that starts: its logon session, which the \<open>Local\<close> name space belongs to, and its pipe.\<close>

record starter =
  wp_session :: nat
  wp_pipe :: string

datatype pipe_stage = NotStarted | HasMutex | ListenFailed | PipeServing | PipeRefused | PipeFailed | Ended

record pipe_world =
  pw_stage :: "nat \<Rightarrow> pipe_stage"
  pw_mutex :: "(nat \<times> string) \<Rightarrow> nat option"    \<comment> \<open>who has the mutex, by session and name\<close>
  pw_served :: "string \<Rightarrow> nat set"               \<comment> \<open>who serves a pipe\<close>

abbreviation at_pipe :: "nat \<Rightarrow> pipe_stage \<Rightarrow> pipe_world \<Rightarrow> pipe_world" where
  "at_pipe i p w \<equiv> w\<lparr>pw_stage := (pw_stage w)(i := p)\<rparr>"

definition mutex_of :: "(bytes \<Rightarrow> bytes) \<Rightarrow> starter \<Rightarrow> nat \<times> string" where
  "mutex_of sha p = (wp_session p, mutex_name sha (wp_pipe p))"

definition drop_mutex :: "nat \<times> string \<Rightarrow> pipe_world \<Rightarrow> pipe_world" where
  "drop_mutex m w = w\<lparr>pw_mutex := (pw_mutex w)(m := None)\<rparr>"

text \<open>\<open>acquireMutex\<close>; creating a name that exists gives a handle that is closed at once. \<open>ok\<close>: the system can create it.\<close>

definition acquireMutex :: "(bytes \<Rightarrow> bytes) \<Rightarrow> starter \<Rightarrow> bool \<Rightarrow> nat \<Rightarrow> pipe_world \<Rightarrow> pipe_world" where
  "acquireMutex sha p ok i w =
     (if \<not> ok then at_pipe i PipeFailed w
      else if pw_mutex w (mutex_of sha p) \<noteq> None then at_pipe i PipeRefused w
      else at_pipe i HasMutex (w\<lparr>pw_mutex := (pw_mutex w)(mutex_of sha p \<mapsto> i)\<rparr>))"

text \<open>\<open>ListenPipe\<close>; \<open>ok\<close> is the system's answer. When it fails the mutex is released.\<close>

definition listen_pipe :: "(bytes \<Rightarrow> bytes) \<Rightarrow> starter \<Rightarrow> nat \<Rightarrow> bool \<Rightarrow> pipe_world \<Rightarrow> pipe_world" where
  "listen_pipe sha p i ok w =
     (if ok then at_pipe i PipeServing (w\<lparr>pw_served := (pw_served w)(wp_pipe p := insert i (pw_served w (wp_pipe p)))\<rparr>)
      else at_pipe i ListenFailed (drop_mutex (mutex_of sha p) w))"

definition dial_pipe :: "starter \<Rightarrow> nat \<Rightarrow> pipe_world \<Rightarrow> pipe_world" where
  "dial_pipe p i w = at_pipe i (if pw_served w (wp_pipe p) \<noteq> {} then PipeRefused else PipeFailed) w"

text \<open>A process that ends gives up its pipe and its mutex, whether it closes them or dies.\<close>

definition end_pipe :: "(bytes \<Rightarrow> bytes) \<Rightarrow> starter \<Rightarrow> nat \<Rightarrow> pipe_world \<Rightarrow> pipe_world" where
  "end_pipe sha p i w = at_pipe i Ended (drop_mutex (mutex_of sha p)
     (w\<lparr>pw_served := (pw_served w)(wp_pipe p := pw_served w (wp_pipe p) - {i})\<rparr>))"

text \<open>\<open>P i\<close> is the \<open>i\<close>th process; with \<open>excl\<close> the system refuses a pipe name that is served.\<close>

inductive pipe_step :: "(bytes \<Rightarrow> bytes) \<Rightarrow> bool \<Rightarrow> (nat \<Rightarrow> starter) \<Rightarrow> pipe_world \<Rightarrow> pipe_world \<Rightarrow> bool"
  for sha excl P where
  Acquire: "pw_stage w i = NotStarted \<Longrightarrow> pipe_step sha excl P w (acquireMutex sha (P i) ok i w)"
| ListenPipe: "pw_stage w i = HasMutex \<Longrightarrow> (excl \<and> pw_served w (wp_pipe (P i)) \<noteq> {} \<longrightarrow> \<not> ok) \<Longrightarrow>
    pipe_step sha excl P w (listen_pipe sha (P i) i ok w)"
| DialPipe: "pw_stage w i = ListenFailed \<Longrightarrow> pipe_step sha excl P w (dial_pipe (P i) i w)"
| EndPipe: "pw_stage w i \<in> {HasMutex, PipeServing} \<Longrightarrow> pipe_step sha excl P w (end_pipe sha (P i) i w)"

definition no_pipes :: pipe_world where
  "no_pipes = \<lparr>pw_stage = (\<lambda>_. NotStarted), pw_mutex = Map.empty, pw_served = (\<lambda>_. {})\<rparr>"

section \<open>Facts\<close>

inductive_cases pipe_stepE: "pipe_step sha excl P w w'"

lemma DaemonSocketPath_InrD:
  "DaemonSocketPath s xdg cache = Inr p \<Longrightarrow> \<exists>dir. DaemonRuntimeDir s xdg cache = Inr dir \<and> p = Join dir ''daemon.sock'' \<and> os_mkdir_ok s dir"
  by (auto simp: DaemonSocketPath_def DaemonRuntimeDir_def split: sum.splits if_splits)

text \<open>The mutex is held by who has reached \<open>HasMutex\<close>, a pipe is served by who is at \<open>PipeServing\<close>.\<close>

definition pipes_ok :: "(bytes \<Rightarrow> bytes) \<Rightarrow> bool \<Rightarrow> (nat \<Rightarrow> starter) \<Rightarrow> pipe_world \<Rightarrow> bool" where
  "pipes_ok sha excl P w \<longleftrightarrow>
     (\<forall>i. pw_stage w i \<in> {HasMutex, PipeServing} \<longrightarrow> pw_mutex w (mutex_of sha (P i)) = Some i) \<and>
     (\<forall>i p. wp_pipe (P i) = p \<longrightarrow> (i \<in> pw_served w p \<longleftrightarrow> pw_stage w i = PipeServing)) \<and>
     (excl \<longrightarrow> (\<forall>i j. pw_stage w i = PipeServing \<and> pw_stage w j = PipeServing \<and> wp_pipe (P i) = wp_pipe (P j) \<longrightarrow> i = j))"

lemmas pipe_defs = acquireMutex_def listen_pipe_def dial_pipe_def end_pipe_def drop_mutex_def

lemma pipes_okD:
  assumes "pipes_ok sha excl P w"
  shows "pw_stage w i \<in> {HasMutex, PipeServing} \<Longrightarrow> pw_mutex w (mutex_of sha (P i)) = Some i"
    and "wp_pipe (P i) = p \<Longrightarrow> i \<in> pw_served w p \<longleftrightarrow> pw_stage w i = PipeServing"
    and "excl \<Longrightarrow> pw_stage w i = PipeServing \<Longrightarrow> pw_stage w j = PipeServing \<Longrightarrow> wp_pipe (P i) = wp_pipe (P j) \<Longrightarrow> i = j"
  using assms unfolding pipes_ok_def by blast+

lemma acquire_ok:
  assumes "pipes_ok sha excl P w" "pw_stage w i = NotStarted"
  shows "pipes_ok sha excl P (acquireMutex sha (P i) ok i w)"
proof (cases "pw_mutex w (mutex_of sha (P i)) = None")
  case True
  then have "pw_stage w j \<in> {HasMutex, PipeServing} \<Longrightarrow> mutex_of sha (P j) \<noteq> mutex_of sha (P i)" for j
    using pipes_okD(1) [OF assms(1)] by fastforce
  with True assms show ?thesis by (auto simp: pipes_ok_def acquireMutex_def)
next
  case False
  then show ?thesis using assms by (auto simp: pipes_ok_def acquireMutex_def)
qed

lemma mutex_other:
  assumes "pipes_ok sha excl P w" "pw_stage w i \<in> {HasMutex, PipeServing}" "pw_stage w j \<in> {HasMutex, PipeServing}" "i \<noteq> j"
  shows "mutex_of sha (P i) \<noteq> mutex_of sha (P j)"
  using pipes_okD(1) [OF assms(1,2)] pipes_okD(1) [OF assms(1,3)] assms(4) by auto

lemma listen_ok:
  assumes "pipes_ok sha excl P w" "pw_stage w i = HasMutex" "excl \<and> pw_served w (wp_pipe (P i)) \<noteq> {} \<longrightarrow> \<not> ok"
  shows "pipes_ok sha excl P (listen_pipe sha (P i) i ok w)"
proof (cases ok)
  case True
  have "excl \<Longrightarrow> pw_stage w j = PipeServing \<Longrightarrow> wp_pipe (P j) \<noteq> wp_pipe (P i) \<and> wp_pipe (P i) \<noteq> wp_pipe (P j)" for j
    using True assms(3) pipes_okD(2) [OF assms(1), of j] by auto
  with True assms(1,2) show ?thesis unfolding pipes_ok_def listen_pipe_def
    by (auto simp: pipes_okD(2) [OF assms(1)])
next
  case False
  have "pw_stage w j \<in> {HasMutex, PipeServing} \<Longrightarrow> j \<noteq> i \<Longrightarrow> mutex_of sha (P j) \<noteq> mutex_of sha (P i)" for j
    using mutex_other [OF assms(1)] assms(2) by blast
  with False assms(1,2) show ?thesis unfolding pipes_ok_def listen_pipe_def drop_mutex_def
    by (auto simp: pipes_okD(2) [OF assms(1)])
qed

lemma end_ok:
  assumes "pipes_ok sha excl P w" "pw_stage w i \<in> {HasMutex, PipeServing}"
  shows "pipes_ok sha excl P (end_pipe sha (P i) i w)"
proof -
  have "pw_stage w j \<in> {HasMutex, PipeServing} \<Longrightarrow> j \<noteq> i \<Longrightarrow> mutex_of sha (P j) \<noteq> mutex_of sha (P i)" for j
    using mutex_other [OF assms(1)] assms(2) by blast
  with assms show ?thesis unfolding pipes_ok_def end_pipe_def drop_mutex_def
    by (auto simp: pipes_okD(2) [OF assms(1)])
qed

lemma pipe_step_ok: "pipe_step sha excl P w w' \<Longrightarrow> pipes_ok sha excl P w \<Longrightarrow> pipes_ok sha excl P w'"
proof (erule pipe_stepE)
  fix i
  assume "pipes_ok sha excl P w" "w' = dial_pipe (P i) i w" "pw_stage w i = ListenFailed"
  then show "pipes_ok sha excl P w'" by (auto simp: pipes_ok_def dial_pipe_def)
qed (auto intro: acquire_ok listen_ok end_ok)

lemma no_pipes_ok: "pipes_ok sha excl P no_pipes"
  by (simp add: pipes_ok_def no_pipes_def)

lemma pipe_reachable_ok: "(pipe_step sha excl P)\<^sup>*\<^sup>* no_pipes w \<Longrightarrow> pipes_ok sha excl P w"
  by (induction rule: rtranclp_induct) (auto simp: no_pipes_ok intro: pipe_step_ok)

text \<open>A plain account name stays as it is.\<close>

definition plain_account :: "string \<Rightarrow> bool" where
  "plain_account u \<longleftrightarrow> u \<noteq> [] \<and> list_all (\<lambda>c. pipe_rune (of_char c)) u"

lemma pipe_rune_char: "pipe_rune (of_char c) \<Longrightarrow> of_char c < (0x80 :: nat)"
  by (auto simp: pipe_rune_def)

lemma plain_account_endpoint:
  assumes "plain_account u"
  shows "pipe_endpoint (Some u) = pipe_prefix @ u"
proof -
  have a: "list_all (\<lambda>c. of_char c < (0x80 :: nat)) u"
    using assms pipe_rune_char by (auto simp: plain_account_def list_all_iff)
  have "\<not> pipe_rune (of_char backslash)" "\<not> pipe_rune (of_char (CHR ''/''))"
    by (simp_all add: pipe_rune_def backslash_def of_char_Char horner_sum_simps)
  then have "\<forall>c \<in> set (rev u). c \<noteq> backslash \<and> c \<noteq> CHR ''/''"
    using assms by (auto simp: plain_account_def list_all_iff)
  then have "takeWhile (\<lambda>c. c \<noteq> backslash \<and> c \<noteq> CHR ''/'') (rev u) = rev u" by (simp only: takeWhile_eq_all_conv)
  then have n: "account_name u = u" by (metis account_name_def rev_rev_ident)
  have "concat (map (\<lambda>rb. if pipe_rune (fst rb) then snd rb else ''_'') (map (\<lambda>c. (of_char c, [c])) v)) = v"
    if "list_all (\<lambda>c. pipe_rune (of_char c)) v" for v using that by (induction v) auto
  with assms have "sanitizePipeSegment u = u"
    by (simp add: sanitizePipeSegment_def runes_ascii [OF a] plain_account_def Let_def)
  with n assms show ?thesis by (simp add: pipe_endpoint_def plain_account_def)
qed

section \<open>Properties\<close>

text \<open>C37 On Windows one daemon serves, however the starts overlap: in every state that processes reach by acquiring the
  mutex, listening, dialling and ending in any order, two that serve the same pipe in one logon session are the same;
  across sessions too, as long as the system refuses to listen on a pipe that is served.\<close>

theorem one_pipe_daemon:
  assumes "(pipe_step sha excl P)\<^sup>*\<^sup>* no_pipes w" "pw_stage w i = PipeServing" "pw_stage w j = PipeServing"
    and "wp_pipe (P i) = wp_pipe (P j)" "excl \<or> wp_session (P i) = wp_session (P j)"
  shows "i = j"
proof -
  have ok: "pipes_ok sha excl P w" using assms(1) by (rule pipe_reachable_ok)
  show ?thesis
  proof (cases "excl")
    case True
    then show ?thesis using pipes_okD(3) [OF ok] assms(2-4) by blast
  next
    case False
    then have "mutex_of sha (P i) = mutex_of sha (P j)" using assms(4,5) by (simp add: mutex_of_def)
    then show ?thesis using mutex_other [OF ok] assms(2,3) by blast
  qed
qed

text \<open>Accounts with plain names have pipes of their own.\<close>

theorem plain_pipes_apart:
  assumes "plain_account u" "plain_account v"
  shows "pipe_endpoint (Some u) = pipe_endpoint (Some v) \<longleftrightarrow> u = v"
  using assms by (simp add: plain_account_endpoint)

text \<open>Others do not: the domain is cut off, and every character outside the plain ones becomes an underscore.\<close>

theorem pipe_names_collide:
  "pipe_endpoint (Some (''ONE'' @ [backslash] @ ''ann'')) = pipe_endpoint (Some (''TWO'' @ [backslash] @ ''ann'')) \<and>
   pipe_endpoint (Some ''an.n'') = pipe_endpoint (Some ''an n'')"
proof -
  have "account_name (d @ [backslash] @ ''ann'') = ''ann''" for d by (simp add: account_name_def backslash_def)
  from this [of "''ONE''"] this [of "''TWO''"]
  have 1: "pipe_endpoint (Some (''ONE'' @ [backslash] @ ''ann'')) = pipe_endpoint (Some (''TWO'' @ [backslash] @ ''ann''))"
    by (simp add: pipe_endpoint_def)
  have "account_name ''an.n'' = ''an.n''" "account_name ''an n'' = ''an n''" by (simp_all add: account_name_def backslash_def)
  moreover have "sanitizePipeSegment ''an.n'' = ''an_n''" "sanitizePipeSegment ''an n'' = ''an_n''"
    by (simp_all add: sanitizePipeSegment_def runes_ascii pipe_rune_def of_char_Char horner_sum_simps)
  ultimately show ?thesis using 1 by (simp add: pipe_endpoint_def)
qed

text \<open>Who lacks the token changes nothing: however many connections a daemon serves, and whatever they send, when no
  line that parses carries its token the daemon's state stays as it was, and every answer is empty or one of the two
  refusals.\<close>

theorem strangers_change_nothing:
  assumes "\<And>pid inp req. (pid, inp) \<in> set conns \<Longrightarrow> kc_un_request kc (read_line inp) = Some req \<Longrightarrow> ct_token req \<noteq> token"
  shows "\<exists>outs. serve_control kc token handler st conns = (st, outs) \<and> length outs = length conns \<and>
    set outs \<subseteq> {[], kc_mar_response kc (err_response ''bad request'') @ [CHR 0x0A],
      kc_mar_response kc (err_response ''unauthorized'') @ [CHR 0x0A]}"
  using assms
proof (induction conns)
  case (Cons c conns)
  obtain pid inp where c: "c = (pid, inp)" by (cases c)
  have h: "\<exists>out. handle_control kc token handler pid st inp = (st, out) \<and>
      out \<in> {[], kc_mar_response kc (err_response ''bad request'') @ [CHR 0x0A],
        kc_mar_response kc (err_response ''unauthorized'') @ [CHR 0x0A]}"
    using Cons.prems [of pid inp] c by (auto simp: handle_control_def Let_def split: option.splits)
  from Cons.IH Cons.prems obtain outs where "serve_control kc token handler st conns = (st, outs)"
    "length outs = length conns"
    "set outs \<subseteq> {[], kc_mar_response kc (err_response ''bad request'') @ [CHR 0x0A],
      kc_mar_response kc (err_response ''unauthorized'') @ [CHR 0x0A]}" by (metis list.set_intros(2))
  with h c show ?case by auto
qed simp

section \<open>Concrete inputs\<close>

lemma one_pipe_daemon_witness:
  "\<exists>w. (pipe_step id False (\<lambda>_. \<lparr>wp_session = 3, wp_pipe = ''p''\<rparr>))\<^sup>*\<^sup>* no_pipes w \<and> pw_stage w 4 = PipeServing \<and>
     \<not> (pw_stage w 5 = PipeServing)"
proof -
  let ?P = "\<lambda>_ :: nat. \<lparr>wp_session = 3, wp_pipe = ''p''\<rparr>"
  define w1 where "w1 = acquireMutex id (?P 4) True 4 no_pipes"
  define w2 where "w2 = listen_pipe id (?P 4) 4 True w1"
  have 1: "pipe_step id False ?P no_pipes w1" unfolding w1_def by (rule Acquire) (simp add: no_pipes_def)
  have 2: "pipe_step id False ?P w1 w2" unfolding w2_def
    by (rule ListenPipe) (simp_all add: w1_def acquireMutex_def no_pipes_def)
  from 1 2 have r: "(pipe_step id False ?P)\<^sup>*\<^sup>* no_pipes w2" by (meson converse_rtranclp_into_rtranclp rtranclp.rtrancl_refl)
  have s: "pw_stage w2 4 = PipeServing" by (simp add: w2_def listen_pipe_def)
  from one_pipe_daemon [OF r s, of 5] r s show ?thesis by auto
qed

lemma strangers_change_nothing_witness:
  "\<exists>outs. serve_control demo_control ''tok'' (\<lambda>n r. (n + 1, err_response [])) (0 :: int) [(7, ''00'' @ [CHR 0x0A]), (7, ''z'')] = (0, outs) \<and>
     length outs = length [(7 :: int, ''00'' @ [CHR 0x0A]), (7, ''z'')] \<and>
     set outs \<subseteq> {[], kc_mar_response demo_control (err_response ''bad request'') @ [CHR 0x0A],
       kc_mar_response demo_control (err_response ''unauthorized'') @ [CHR 0x0A]}"
proof (rule strangers_change_nothing)
  fix pid :: int and inp :: bytes and req
  assume "(pid, inp) \<in> set [(7, ''00'' @ [CHR 0x0A]), (7, ''z'')]" "kc_un_request demo_control (read_line inp) = Some req"
  then show "ct_token req \<noteq> ''tok''"
    by (auto simp: demo_control_def read_line_def op_request_def hex_val_def dest!: arg_cong [where f = length] split: option.splits)
qed

end
