(* ===== verification/Device.thy ===== *)
theory Device
  imports Daemon
begin

unbundle bit_operations_syntax

text \<open>
  What a device calls itself (\<open>device.go\<close> and its variants per operating system): the machine id the system keeps,
  on Linux, macOS and Windows, the random one kept in the configuration where there is none, and the metadata
  a login sends. The output of \<open>ioreg\<close> and \<open>reg\<close>, the host name and random bytes are parameters.
\<close>

section \<open>The system's machine id\<close>

fun first_id_file :: "os \<Rightarrow> files \<Rightarrow> string list \<Rightarrow> string option" where
  "first_id_file s fs [] = None"
| "first_id_file s fs (p # ps) =
     (case read_file s fs p of
        Inl _ \<Rightarrow> first_id_file s fs ps
      | Inr raw \<Rightarrow> if trim_space raw \<noteq> [] then Some (trim_space raw) else first_id_file s fs ps)"

definition machine_id_linux :: "os \<Rightarrow> files \<Rightarrow> string option" where
  "machine_id_linux s fs = first_id_file s fs [''/etc/machine-id'', ''/var/lib/dbus/machine-id'']"

text \<open>\<open>strings.Cut\<close> at a character, \<open>strings.Trim\<close> of one.\<close>

definition after_char :: "char \<Rightarrow> string \<Rightarrow> string option" where
  "after_char c s = (case dropWhile (\<lambda>x. x \<noteq> c) s of [] \<Rightarrow> None | _ # v \<Rightarrow> Some v)"

definition trim_char :: "char \<Rightarrow> string \<Rightarrow> string" where
  "trim_char c s = trim_right (dropWhile (\<lambda>x. x = c) s) [c]"

definition platform_uuid :: "string \<Rightarrow> string option" where
  "platform_uuid line =
     (if \<not> contains line ''IOPlatformUUID'' then None
      else (case after_char CHR ''='' line of
          None \<Rightarrow> None
        | Some v \<Rightarrow> (let i = trim_char CHR 0x22 (trim_space v) in if i \<noteq> [] then Some i else None)))"

fun first_some :: "('a \<Rightarrow> 'b option) \<Rightarrow> 'a list \<Rightarrow> 'b option" where
  "first_some f [] = None"
| "first_some f (x # xs) = (case f x of Some y \<Rightarrow> Some y | None \<Rightarrow> first_some f xs)"

definition machine_id_darwin :: "string option \<Rightarrow> string option" where
  "machine_id_darwin out = (case out of None \<Rightarrow> None | Some s \<Rightarrow> first_some platform_uuid (split_char CHR 0x0A s))"

text \<open>\<open>strings.Fields\<close>: \<open>acc\<close> is the field that is open.\<close>

fun word_groups :: "(nat \<times> string) list \<Rightarrow> string \<Rightarrow> string list" where
  "word_groups [] acc = (if acc = [] then [] else [acc])"
| "word_groups (rb # rest) acc =
     (if is_space (fst rb) then (if acc = [] then word_groups rest [] else acc # word_groups rest [])
      else word_groups rest (acc @ snd rb))"

definition string_fields :: "string \<Rightarrow> string list" where
  "string_fields s = word_groups (runes s) []"

text \<open>The loop over the fields, on what is left of them.\<close>

fun guid_field :: "string list \<Rightarrow> string option" where
  "guid_field (f # g # v # rest) =
     (if equal_fold f ''MachineGuid'' \<and> trim_space v \<noteq> [] then Some (trim_space v) else guid_field (g # v # rest))"
| "guid_field _ = None"

definition machine_id_windows :: "string option \<Rightarrow> string option" where
  "machine_id_windows out = (case out of None \<Rightarrow> None | Some s \<Rightarrow> guid_field (string_fields s))"

section \<open>The random machine id\<close>

text \<open>The version and variant bits of a random UUID; \<open>raw\<close> are 16 bytes.\<close>

definition set_uuid_bits :: "bytes \<Rightarrow> bytes" where
  "set_uuid_bits raw = raw[6 := char_of ((of_char (raw ! 6) AND 0x0F) OR 0x40 :: nat),
     8 := char_of ((of_char (raw ! 8) AND 0x3F) OR 0x80 :: nat)]"

definition slice :: "nat \<Rightarrow> nat \<Rightarrow> string \<Rightarrow> string" where
  "slice a b s = take (b - a) (drop a s)"

definition uuid_text :: "string \<Rightarrow> string" where
  "uuid_text e = slice 0 8 e @ ''-'' @ slice 8 12 e @ ''-'' @ slice 12 16 e @ ''-'' @ slice 16 20 e @ ''-'' @ slice 20 32 e"

definition randomUUID :: "bytes option \<Rightarrow> string option" where
  "randomUUID rnd = map_option (\<lambda>raw. uuid_text (hex_encode (set_uuid_bits raw))) rnd"

datatype device_err = DeviceConfig config_err | NoRandomId

definition fallbackMachineID ::
  "config_codec \<Rightarrow> os \<Rightarrow> files \<Rightarrow> bytes option \<Rightarrow> files \<times> (device_err + string)" where
  "fallbackMachineID fc s fs rnd =
     (case lookup_config fc s fs of
        Inl e \<Rightarrow> (fs, Inl (DeviceConfig e))
      | Inr found \<Rightarrow>
          (let c = (case found of None \<Rightarrow> empty_config | Some c \<Rightarrow> c) in
           if trim_space (cf_machine_id c) \<noteq> [] then (fs, Inr (trim_space (cf_machine_id c)))
           else (case randomUUID rnd of
               None \<Rightarrow> (fs, Inl NoRandomId)
             | Some generated \<Rightarrow> (case SaveConfig fc s fs (c\<lparr>cf_machine_id := generated\<rparr>) of
                 (fs1, Some e) \<Rightarrow> (fs1, Inl (DeviceConfig e)) | (fs1, None) \<Rightarrow> (fs1, Inr generated)))))"

record DeviceMetadata =
  dm_device_name :: string
  dm_machine_id :: string
  dm_os :: string
  dm_arch :: string
  dm_hostname :: string

text \<open>\<open>sysid\<close> is the system's machine id, \<open>host\<close> the host name, empty when it cannot be read.\<close>

definition device_label :: "string \<Rightarrow> string \<Rightarrow> string" where
  "device_label name host =
     (if trim_space name \<noteq> [] then trim_space name
      else if trim_space host \<noteq> [] then trim_space host else ''Share2Us CLI'')"

definition DetectDeviceMetadata ::
  "(bytes \<Rightarrow> bytes) \<Rightarrow> config_codec \<Rightarrow> os \<Rightarrow> string \<Rightarrow> string \<Rightarrow> string \<Rightarrow> string option \<Rightarrow> bytes option \<Rightarrow> string \<Rightarrow> files \<Rightarrow>
   files \<times> (device_err + DeviceMetadata)" where
  "DetectDeviceMetadata sha fc s goos arch host sysid rnd name fs =
     (case (if sysid \<noteq> None \<and> sysid \<noteq> Some [] then (fs, Inr (the sysid)) else fallbackMachineID fc s fs rnd) of
        (fs1, Inl e) \<Rightarrow> (fs1, Inl e)
      | (fs1, Inr raw) \<Rightarrow> (fs1, Inr \<lparr>dm_device_name = device_label name host, dm_machine_id = hex_encode (sha raw),
          dm_os = goos, dm_arch = arch, dm_hostname = host\<rparr>))"

section \<open>Facts\<close>

text \<open>A configuration saved is read back, with its addresses in normal form.\<close>

definition config_law :: "config_codec \<Rightarrow> bool" where
  "config_law fc \<longleftrightarrow> (\<forall>c raw. fc_mar fc c = Some raw \<longrightarrow> fc_un fc (raw @ [CHR 0x0A]) = Some c)"

lemma SaveConfig_read:
  assumes "SaveConfig fc s fs c = (fs1, None)" "config_law fc" "\<And>p. os_read_ok s p"
  shows "\<exists>h b sh. LoadConfig fc s fs1 = Inr (c\<lparr>cf_host := h, cf_base_url := b, cf_share_base := sh\<rparr>)"
proof -
  obtain p where p: "ConfigPath s = Inr p" "SaveConfigAt fc s fs p c = (fs1, None)"
    using assms(1) by (auto simp: SaveConfig_def split: sum.split_asm)
  then obtain h b sh raw where
    m: "fc_mar fc (c\<lparr>cf_host := h, cf_base_url := b, cf_share_base := sh\<rparr>) = Some raw" and
    w: "write_file s fs p (raw @ [CHR 0x0A]) = (fs1, None)"
    by (auto simp: SaveConfigAt_def split: sum.split_asm option.split_asm prod.split_asm)
  have "read_file s fs1 p = Inr (raw @ [CHR 0x0A])" using disk.rd_wr [OF w] assms(3) by simp
  then show ?thesis using p(1) m assms(2) by (auto simp: LoadConfig_def LoadConfigAt_def config_law_def)
qed

lemma length_hex16: "length raw = 16 \<Longrightarrow> length (hex_encode (set_uuid_bits raw)) = 32"
  by (simp add: set_uuid_bits_def length_hex_encode)

lemma length_slice: "b \<le> length s \<Longrightarrow> length (slice a b s) = b - a"
  by (simp add: slice_def)

lemma slice_set: "set (slice a b s) \<subseteq> set s"
  unfolding slice_def by (meson order_trans set_drop_subset set_take_subset)

lemma uuid_set: "c \<in> set (uuid_text e) \<Longrightarrow> c = CHR ''-'' \<or> c \<in> set e"
  using slice_set [of _ _ e] by (auto simp: uuid_text_def)

lemma trim_uuid: "randomUUID (Some raw) = Some u \<Longrightarrow> length raw = 16 \<Longrightarrow> trim_space u = u \<and> u \<noteq> []"
proof -
  assume u: "randomUUID (Some raw) = Some u" and l: "length raw = 16"
  let ?e = "hex_encode (set_uuid_bits raw)"
  have ue: "u = uuid_text ?e" using u by (simp add: randomUUID_def)
  have plain: "\<not> is_space (of_char c) \<and> of_char c < (0x80::nat)" if "c \<in> set u" for c
    using uuid_set [of c ?e] that ue hex_set [of c "set_uuid_bits raw"]
    by (auto simp: is_space_def of_char_Char horner_sum_simps)
  have ne: "u \<noteq> []" by (simp add: ue uuid_text_def)
  have "trim_space u = u"
    using plain ne by (intro trim_space_ascii_id) (auto simp: list_all_iff)
  then show ?thesis using ne by blast
qed

lemma fallback_kept:
  assumes "fallbackMachineID fc s fs rnd = (fs1, Inr i)" "config_law fc" "\<And>p. os_read_ok s p"
    and "\<And>raw. rnd = Some raw \<Longrightarrow> length raw = 16"
  shows "fallbackMachineID fc s fs1 rnd' = (fs1, Inr i)"
proof -
  obtain found where found: "lookup_config fc s fs = Inr found"
    using assms(1) by (cases "lookup_config fc s fs") (auto simp: fallbackMachineID_def)
  define c where "c = (case found of None \<Rightarrow> empty_config | Some c \<Rightarrow> c)"
  show ?thesis
  proof (cases "trim_space (cf_machine_id c) = []")
    case False
    then show ?thesis using assms(1) found by (auto simp: fallbackMachineID_def Let_def c_def)
  next
    case True
    then obtain raw where r: "rnd = Some raw" "randomUUID rnd = Some i"
      "SaveConfig fc s fs (c\<lparr>cf_machine_id := i\<rparr>) = (fs1, None)"
      using assms(1) found
      by (cases rnd) (auto simp: fallbackMachineID_def Let_def c_def randomUUID_def split: prod.split_asm option.split_asm)
    from SaveConfig_read [OF r(3) assms(2,3)] obtain h b sh where
      "LoadConfig fc s fs1 = Inr (c\<lparr>cf_machine_id := i, cf_host := h, cf_base_url := b, cf_share_base := sh\<rparr>)" by auto
    moreover have "trim_space i = i" "i \<noteq> []" using trim_uuid [of raw i] r assms(4) by auto
    ultimately show ?thesis by (simp add: fallbackMachineID_def lookup_config_def Let_def)
  qed
qed

section \<open>Properties\<close>

text \<open>C18 A device keeps its machine id: after a first \<open>DetectDeviceMetadata\<close> succeeded, a second one on the files it left,
  whatever random bytes it would draw, gives the same id, also on a system that has none of its own. (Law of JSON: a
  configuration rendered parses back.)\<close>

theorem machine_id_stable:
  assumes "DetectDeviceMetadata sha fc s goos arch host sysid rnd name fs = (fs1, Inr md)"
    and "config_law fc" "\<And>p. os_read_ok s p" "\<And>raw. rnd = Some raw \<Longrightarrow> length raw = 16"
  shows "\<exists>md'. DetectDeviceMetadata sha fc s goos arch host sysid rnd' name' fs1 = (fs1, Inr md') \<and>
    dm_machine_id md' = dm_machine_id md"
proof (cases "sysid \<noteq> None \<and> sysid \<noteq> Some []")
  case True
  then show ?thesis using assms(1) by (auto simp: DetectDeviceMetadata_def)
next
  case False
  then obtain i where "fallbackMachineID fc s fs rnd = (fs1, Inr i)" "dm_machine_id md = hex_encode (sha i)"
    using assms(1) by (auto simp: DetectDeviceMetadata_def split: prod.split_asm sum.split_asm)
  moreover from fallback_kept [OF this(1) assms(2-4)] have "fallbackMachineID fc s fs1 rnd' = (fs1, Inr i)" .
  ultimately show ?thesis using False by (auto simp: DetectDeviceMetadata_def)
qed

text \<open>The random id is a version 4 UUID: 36 characters, dashes in their places, the version digit 4 and a variant
  digit from 8 to b.\<close>

lemma and_low_bits: "x AND 0x0F = x mod (16 :: nat)" "x AND 0x3F = x mod (64 :: nat)"
  using take_bit_eq_mask [of 4 x] take_bit_eq_mask [of 6 x] by (simp_all add: take_bit_eq_mod mask_eq_exp_minus_1)

lemma low_bits_disjoint: "(x mod 16) AND 0x40 = (0 :: nat)" "(x mod 64) AND 0x80 = (0 :: nat)"
  unfolding and_low_bits [symmetric] by (simp_all add: and.assoc)

lemma uuid_bits: "(x AND 0x0F) OR 0x40 = x mod 16 + (64 :: nat)" "(x AND 0x3F) OR 0x80 = x mod 64 + (128 :: nat)"
  using disjunctive_add_eq_or [OF low_bits_disjoint(1) [of x]] disjunctive_add_eq_or [OF low_bits_disjoint(2) [of x]]
  by (simp_all add: and_low_bits)

lemma uuid_nibbles: "(x mod 16 + 64) mod 256 div 16 = (4 :: nat)" "(x mod 64 + 128) mod 256 div 16 \<in> {8, 9, 10, 11 :: nat}"
proof -
  have m: "x mod 16 < 16" "x mod 64 < 64" by simp_all
  then have "(x mod 16 + 64) mod 256 = x mod 16 + 64" "(x mod 64 + 128) mod 256 = x mod 64 + 128" by (intro mod_less; linarith)+
  moreover have "(x mod 64 + 128) div 16 = x mod 64 div 16 + 8" "x mod 64 div 16 < 4" "(x mod 16 + 64) div 16 = 4"
    using m by linarith+
  ultimately show "(x mod 16 + 64) mod 256 div 16 = (4 :: nat)" "(x mod 64 + 128) mod 256 div 16 \<in> {8, 9, 10, 11 :: nat}"
    by auto
qed

lemma hex_encode_nth: "i < length b \<Longrightarrow> hex_encode b ! (2 * i) = hex_digit (of_char (b ! i) div 16)"
proof (induction b arbitrary: i)
  case (Cons x b)
  then show ?case by (cases i) (simp_all add: hex_encode_Cons)
qed simp

theorem uuid_shape:
  assumes "length raw = 16" "randomUUID (Some raw) = Some u"
  shows "length u = 36 \<and> u ! 14 = CHR ''4'' \<and> u ! 19 \<in> {CHR ''8'', CHR ''9'', CHR ''a'', CHR ''b''} \<and>
    u ! 8 = CHR ''-'' \<and> u ! 13 = CHR ''-'' \<and> u ! 18 = CHR ''-'' \<and> u ! 23 = CHR ''-''"
proof -
  define e where "e = hex_encode (set_uuid_bits raw)"
  have l: "length e = 32" unfolding e_def using assms(1) by (rule length_hex16)
  have u: "u = uuid_text e" using assms(2) by (simp add: randomUUID_def e_def)
  have "length u = 36" "u ! 14 = e ! 12" "u ! 19 = e ! 16"
    "u ! 8 = CHR ''-''" "u ! 13 = CHR ''-''" "u ! 18 = CHR ''-''" "u ! 23 = CHR ''-''"
    by (simp_all add: u uuid_text_def slice_def nth_append l)
  moreover have "e ! 12 = hex_digit 4"
    using hex_encode_nth [of 6 "set_uuid_bits raw"] assms(1) uuid_nibbles(1)
    by (simp add: e_def set_uuid_bits_def uuid_bits of_char_of)
  moreover have "\<exists>n \<in> {8, 9, 10, 11}. e ! 16 = hex_digit n"
    using hex_encode_nth [of 8 "set_uuid_bits raw"] assms(1) uuid_nibbles(2) [of "of_char (raw ! 8)"]
    by (simp add: e_def set_uuid_bits_def uuid_bits of_char_of) (elim disjE; simp)
  ultimately show ?thesis by (auto simp: hex_digit_def char_of_def bit_0)
qed

section \<open>Concrete inputs\<close>

definition demo_uuid :: string where "demo_uuid = the (randomUUID (Some (replicate 16 CHR ''a'')))"

definition demo_named :: Config where "demo_named = empty_config\<lparr>cf_machine_id := demo_uuid\<rparr>"

definition demo_config_codec :: config_codec where
  "demo_config_codec = \<lparr>fc_un = (\<lambda>_. Some demo_named), fc_mar = (\<lambda>c. if c = demo_named then Some ''c'' else None)\<rparr>"

lemma demo_config_path: "ConfigPath demo_os = Inr ''/home/a/.config/share2us/config.json''"
  by code_simp

lemma demo_detect:
  "DetectDeviceMetadata id demo_config_codec demo_os ''linux'' ''arm'' [] None (Some (replicate 16 CHR ''a'')) ''pc'' Map.empty =
     ([''/home/a/.config/share2us/config.json'' \<mapsto> ''c'' @ [CHR 0x0A]],
      Inr \<lparr>dm_device_name = device_label ''pc'' [], dm_machine_id = hex_encode demo_uuid, dm_os = ''linux'', dm_arch = ''arm'', dm_hostname = []\<rparr>)"
proof -
  have "lookup_config demo_config_codec demo_os Map.empty = Inr None"
    by (simp add: lookup_config_def LoadConfig_def demo_config_path LoadConfigAt_def read_file_def)
  moreover have "trim_space (cf_machine_id empty_config) = []" by (simp add: empty_config_def)
  moreover have "randomUUID (Some (replicate 16 CHR ''a'')) = Some demo_uuid" by (simp add: demo_uuid_def randomUUID_def)
  moreover have "empty_config\<lparr>cf_machine_id := demo_uuid, cf_host := [], cf_base_url := [], cf_share_base := []\<rparr> = demo_named"
    by (simp add: demo_named_def empty_config_def)
  then have "SaveConfig demo_config_codec demo_os Map.empty (empty_config\<lparr>cf_machine_id := demo_uuid\<rparr>) =
      ([''/home/a/.config/share2us/config.json'' \<mapsto> ''c'' @ [CHR 0x0A]], None)"
    by (simp add: SaveConfig_def demo_config_path SaveConfigAt_def normalized_def demo_config_codec_def write_file_def)
      (simp add: empty_config_def)
  ultimately show ?thesis by (simp add: DetectDeviceMetadata_def fallbackMachineID_def Let_def)
qed

lemma machine_id_stable_witness:
  "\<exists>md'. DetectDeviceMetadata id demo_config_codec demo_os ''linux'' ''arm'' [] None (Some (replicate 16 CHR ''z'')) ''other''
      [''/home/a/.config/share2us/config.json'' \<mapsto> ''c'' @ [CHR 0x0A]] =
      ([''/home/a/.config/share2us/config.json'' \<mapsto> ''c'' @ [CHR 0x0A]], Inr md') \<and>
    dm_machine_id md' = hex_encode demo_uuid"
  using machine_id_stable [OF demo_detect _ demo_os_ok(1), of "Some (replicate 16 CHR ''z'')" "''other''"]
  by (simp add: config_law_def demo_config_codec_def)

end
