(* ===== verification/P2PFlow.thy ===== *)
theory P2PFlow
  imports P2PStream
begin

text \<open>
  Flow control of a peer-to-peer session (\<open>p2p/session.go\<close>): waiting for room in the send buffer, draining it, the
  end of a receive, and the hand-over between the WebRTC library, which reports that the buffer has run low, and the
  writer that waits for that report. What each \<open>select\<close> takes is a parameter; the hand-over is a step relation.
\<close>

section \<open>Writing one frame\<close>

definition maxBufferedAmount :: nat where "maxBufferedAmount = 2 ^ 20"
definition bufferedAmountLowThreshold :: nat where "bufferedAmountLowThreshold = 512 * 1024"

datatype wait_event = BufferLow | WaitCtx | WaitFailed string | WaitClosed

fun wait_err :: "wait_event \<Rightarrow> p2p_err option" where
  "wait_err BufferLow = None"
| "wait_err WaitCtx = Some CtxDone"
| "wait_err (WaitFailed why) = Some (SessionFailed why)"
| "wait_err WaitClosed = Some SessionClosed"

text \<open>\<open>obs\<close> are the turns of the loop: the amount it sees, and what its \<open>select\<close> takes when it waits; after the last one
  there is room. \<open>ok\<close>: the data channel takes the message.\<close>

fun writeFrame :: "(nat \<times> wait_event) list \<Rightarrow> bool \<Rightarrow> bytes \<Rightarrow> p2p_err + bytes" where
  "writeFrame [] ok payload = (if ok then Inr (frame_msg payload) else Inl ChannelSend)"
| "writeFrame ((amount, e) # obs) ok payload =
     (if amount \<ge> maxBufferedAmount then (case wait_err e of Some x \<Rightarrow> Inl x | None \<Rightarrow> writeFrame obs ok payload)
      else if ok then Inr (frame_msg payload) else Inl ChannelSend)"

text \<open>\<open>drain\<close>: here \<open>BufferLow\<close> is a tick; after the last turn the buffer is empty.\<close>

fun drain :: "(nat \<times> wait_event) list \<Rightarrow> p2p_err option" where
  "drain [] = None"
| "drain ((amount, e) # obs) =
     (if amount > 0 then (case wait_err e of Some x \<Rightarrow> Some x | None \<Rightarrow> drain obs) else None)"

text \<open>\<open>ctxErr\<close>: what it may return; when several ends have come the \<open>select\<close> takes any of them.\<close>

definition ctxErr :: "bool \<Rightarrow> string option \<Rightarrow> bool \<Rightarrow> p2p_err option list" where
  "ctxErr cancelled failed closed =
     (let ends = (if cancelled then [Some CtxDone] else []) @
        (case failed of None \<Rightarrow> [] | Some why \<Rightarrow> [Some (SessionFailed why)]) @ (if closed then [Some SessionClosed] else []) in
      if ends = [] then [None] else ends)"

text \<open>\<open>sendAck\<close>: what goes out on the control channel, if there is one.\<close>

definition sendAck :: "bool \<Rightarrow> bytes list" where
  "sendAck ctrl = (if ctrl then [ackMessage] else [])"

section \<open>The writer and the library\<close>

text \<open>The buffer, the one place of \<open>bufLow\<close>, and whether the writer is past its check and in the \<open>select\<close>.\<close>

record flow =
  fl_buffered :: nat
  fl_token :: bool
  fl_waiting :: bool

definition check_full :: "flow \<Rightarrow> flow" where
  "check_full s = s\<lparr>fl_waiting := True\<rparr>"

definition put_frame :: "nat \<Rightarrow> flow \<Rightarrow> flow" where
  "put_frame n s = s\<lparr>fl_buffered := fl_buffered s + 4 + n\<rparr>"

definition wake :: "flow \<Rightarrow> flow" where
  "wake s = s\<lparr>fl_token := False, fl_waiting := False\<rparr>"

text \<open>The library sends \<open>k\<close> bytes; when the amount falls to the threshold it runs \<open>OnBufferedAmountLow\<close>, which puts the
  token unless it is there already.\<close>

definition flush :: "nat \<Rightarrow> flow \<Rightarrow> flow" where
  "flush k s = (let left = fl_buffered s - k in
     s\<lparr>fl_buffered := left,
       fl_token := fl_token s \<or> (fl_buffered s > bufferedAmountLowThreshold \<and> left \<le> bufferedAmountLowThreshold)\<rparr>)"

inductive flow_step :: "flow \<Rightarrow> flow \<Rightarrow> bool" where
  Full: "\<not> fl_waiting s \<Longrightarrow> fl_buffered s \<ge> maxBufferedAmount \<Longrightarrow> flow_step s (check_full s)"
| Put: "\<not> fl_waiting s \<Longrightarrow> fl_buffered s < maxBufferedAmount \<Longrightarrow> n \<le> p2p_chunkSize \<Longrightarrow> flow_step s (put_frame n s)"
| Wake: "fl_waiting s \<Longrightarrow> fl_token s \<Longrightarrow> flow_step s (wake s)"
| Flush: "flow_step s (flush k s)"

definition flow_start :: flow where
  "flow_start = \<lparr>fl_buffered = 0, fl_token = False, fl_waiting = False\<rparr>"

definition flow_ok :: "flow \<Rightarrow> bool" where
  "flow_ok s \<longleftrightarrow> (fl_waiting s \<and> \<not> fl_token s \<longrightarrow> fl_buffered s > bufferedAmountLowThreshold) \<and>
     fl_buffered s < maxBufferedAmount + 4 + p2p_chunkSize"

inductive_cases flow_stepE: "flow_step s t"

lemmas flow_defs = check_full_def put_frame_def wake_def flush_def Let_def

lemma flow_step_ok: "flow_step s t \<Longrightarrow> flow_ok s \<Longrightarrow> flow_ok t"
  by (erule flow_stepE)
    (auto simp: flow_ok_def flow_defs maxBufferedAmount_def bufferedAmountLowThreshold_def p2p_chunkSize_def)

lemma flow_reachable_ok: "flow_step\<^sup>*\<^sup>* flow_start s \<Longrightarrow> flow_ok s"
proof (induction rule: rtranclp_induct)
  case base
  show ?case by (simp add: flow_ok_def flow_start_def maxBufferedAmount_def)
qed (rule flow_step_ok)

section \<open>Properties\<close>

text \<open>C28 No wake-up is lost: however the writer and the library interleave, the buffer never holds more than the cap and
  one frame, and a writer that waits is woken at once or by the library's next fall to the threshold, which is still
  to come; sending everything that is buffered lets it go on.\<close>

theorem writer_not_stuck:
  assumes "flow_step\<^sup>*\<^sup>* flow_start s"
  shows "fl_buffered s < maxBufferedAmount + 4 + p2p_chunkSize \<and>
    (fl_waiting s \<longrightarrow> fl_token (flush (fl_buffered s) s) \<and> \<not> fl_waiting (wake (flush (fl_buffered s) s)) \<and>
      flow_step\<^sup>*\<^sup>* s (wake (flush (fl_buffered s) s)))"
proof -
  have ok: "flow_ok s" using assms by (rule flow_reachable_ok)
  have "fl_token (flush (fl_buffered s) s)" if "fl_waiting s"
    using ok that by (auto simp: flow_ok_def flow_defs)
  moreover have "flow_step\<^sup>*\<^sup>* s (wake (flush (fl_buffered s) s))" if "fl_waiting s"
  proof -
    have "flow_step s (flush (fl_buffered s) s)" by (rule Flush)
    moreover have "flow_step (flush (fl_buffered s) s) (wake (flush (fl_buffered s) s))"
      using calculation that \<open>fl_waiting s \<Longrightarrow> fl_token (flush (fl_buffered s) s)\<close> by (intro Wake) (simp_all add: flow_defs)
    ultimately show ?thesis by (meson converse_rtranclp_into_rtranclp rtranclp.rtrancl_refl)
  qed
  ultimately show ?thesis using ok by (simp add: flow_ok_def wake_def)
qed

text \<open>A frame that \<open>writeFrame\<close> puts out is the frame of its payload, and it gives up only for a reason the session has.\<close>

lemma writeFrame_result:
  "writeFrame obs ok payload = Inr m \<Longrightarrow> m = frame_msg payload"
  "writeFrame obs ok payload = Inl e \<Longrightarrow> e = ChannelSend \<or> (\<exists>(a, w) \<in> set obs. a \<ge> maxBufferedAmount \<and> wait_err w = Some e)"
  by (induction obs ok payload rule: writeFrame.induct) (auto split: if_splits option.splits)

section \<open>Concrete inputs\<close>

lemma writer_not_stuck_witness:
  "fl_token (flush (2 ^ 20 + 3) \<lparr>fl_buffered = 2 ^ 20 + 3, fl_token = False, fl_waiting = True\<rparr>)"
proof -
  define full where "full m = \<lparr>fl_buffered = m, fl_token = False, fl_waiting = False\<rparr>" for m
  have put: "flow_step (full m) (full (m + 4 + n))" if "m < 2 ^ 20" "n \<le> 16384" for m n
  proof -
    have "flow_step (full m) (put_frame n (full m))"
      using that by (intro Put) (simp_all add: full_def maxBufferedAmount_def p2p_chunkSize_def)
    then show ?thesis by (simp add: put_frame_def full_def)
  qed
  have reach: "flow_step\<^sup>*\<^sup>* flow_start (full (k * 16383))" if "k \<le> 64" for k
    using that
  proof (induction k)
    case 0
    show ?case by (simp add: flow_start_def full_def)
  next
    case (Suc k)
    have "flow_step (full (k * 16383)) (full (k * 16383 + 4 + 16379))" by (rule put) (use Suc.prems in simp_all)
    moreover have "k * 16383 + 4 + 16379 = Suc k * 16383" by simp
    ultimately show ?case using Suc by simp
  qed
  have "flow_step (full (64 * 16383)) (full (64 * 16383 + 4 + 63))" by (rule put) simp_all
  with reach [of 64] have r: "flow_step\<^sup>*\<^sup>* flow_start (full (2 ^ 20 + 3))" by simp
  have "flow_step (full (2 ^ 20 + 3)) (check_full (full (2 ^ 20 + 3)))"
    by (rule Full) (simp_all add: full_def maxBufferedAmount_def)
  with r have "flow_step\<^sup>*\<^sup>* flow_start (check_full (full (2 ^ 20 + 3)))" by simp
  from writer_not_stuck [OF this] show ?thesis by (simp add: check_full_def full_def)
qed

end
