(* ===== verification/P2PSession.thy ===== *)
theory P2PSession
  imports P2PConnect P2PFlow
begin

text \<open>
  The inside of a peer-to-peer session (\<open>newWebRTCSession\<close> and the callbacks of \<open>p2p/session.go\<close>, \<open>wsSignaler\<close> of
  \<open>p2p/signaling.go\<close>): the WebSocket that carries the signalling, the signals that a channel is open, and the bounded
  queues between the goroutine of the WebRTC library and the session. Callbacks that can overlap are step relations.
\<close>

section \<open>The WebSocket\<close>

record ws_config =
  wc_url :: string
  wc_code :: string
  wc_token :: string
  wc_role :: p2p_role

definition newWSSignaler :: "string \<Rightarrow> RelayConfig \<Rightarrow> p2p_role \<Rightarrow> ws_config" where
  "newWSSignaler url cfg role = \<lparr>wc_url = signalURL url, wc_code = rc_code cfg, wc_token = rc_token cfg, wc_role = role\<rparr>"

datatype ws_err = WsMarshal | WsWrite | WsRead | WsDecode

text \<open>The connection: whether there is one, what went out, and what \<open>close\<close> left.\<close>

record ws =
  ws_conn :: bool
  ws_out :: "bytes list"
  ws_closed :: bool
  ws_close_err :: "string option"

definition ws_send :: "(sigMsg \<Rightarrow> bytes option) \<Rightarrow> bool \<Rightarrow> sigMsg \<Rightarrow> ws \<Rightarrow> ws \<times> ws_err option" where
  "ws_send mar write_ok m w =
     (case mar m of
        None \<Rightarrow> (w, Some WsMarshal)
      | Some b \<Rightarrow> if write_ok then (w\<lparr>ws_out := ws_out w @ [b]\<rparr>, None) else (w, Some WsWrite))"

text \<open>\<open>None\<close>: the read fails.\<close>

definition ws_recv :: "(bytes \<Rightarrow> sigMsg option) \<Rightarrow> bytes option \<Rightarrow> ws_err + sigMsg" where
  "ws_recv un input = (case input of
     None \<Rightarrow> Inl WsRead
   | Some b \<Rightarrow> (case un b of None \<Rightarrow> Inl WsDecode | Some m \<Rightarrow> Inr m))"

text \<open>\<open>close\<close>: a farewell, whose failure does not matter, then the end of the connection; \<open>err\<close> is what closing
  reports, and whether that only says it was closed already. A second call does nothing.\<close>

definition ws_close :: "(sigMsg \<Rightarrow> bytes option) \<Rightarrow> bool \<Rightarrow> (string \<times> bool) option \<Rightarrow> ws \<Rightarrow> ws \<times> string option" where
  "ws_close mar write_ok err w =
     (if ws_closed w then (w, ws_close_err w)
      else if \<not> ws_conn w then (w\<lparr>ws_closed := True\<rparr>, ws_close_err w)
      else (let e = (case err of None \<Rightarrow> None | Some (why, already) \<Rightarrow> if already then None else Some why);
              w1 = (fst (ws_send mar write_ok (msg_of ''bye'') w))\<lparr>ws_closed := True, ws_close_err := e\<rparr> in (w1, e)))"

text \<open>A candidate found on this side is sent on; the last one, which is empty, and one that cannot be rendered are not.\<close>

definition outbound_ice :: "(sigMsg \<Rightarrow> bytes option) \<Rightarrow> bool \<Rightarrow> string option option \<Rightarrow> ws \<Rightarrow> ws" where
  "outbound_ice mar write_ok c w = (case c of
     Some (Some json) \<Rightarrow> fst (ws_send mar write_ok ((msg_of ''ice'')\<lparr>sm_candidate := json\<rparr>) w)
   | _ \<Rightarrow> w)"

section \<open>The signal that a channel is open\<close>

text \<open>A Go channel that is closed as a signal, and the callbacks that want to close it: not yet at the \<open>select\<close>, past it
  on the way to \<open>close\<close>, done. Closing a closed channel panics.\<close>

datatype opener = Idle | WillClose | Done

record open_gate =
  og_closed :: bool
  og_panic :: bool
  og_opener :: "nat \<Rightarrow> opener"

definition look_step :: "nat \<Rightarrow> open_gate \<Rightarrow> open_gate" where
  "look_step i g = g\<lparr>og_opener := (og_opener g)(i := if og_closed g then Done else WillClose)\<rparr>"

definition close_step :: "nat \<Rightarrow> open_gate \<Rightarrow> open_gate" where
  "close_step i g = g\<lparr>og_closed := True, og_panic := og_panic g \<or> og_closed g, og_opener := (og_opener g)(i := Done)\<rparr>"

text \<open>\<open>markOpen\<close> run as a whole (\<open>markCtrlOpen\<close> is the same on the other signal).\<close>

definition markOpen :: "nat \<Rightarrow> open_gate \<Rightarrow> open_gate" where
  "markOpen i g = (let g1 = look_step i g in if og_opener g1 i = WillClose then close_step i g1 else g1)"

inductive open_step :: "open_gate \<Rightarrow> open_gate \<Rightarrow> bool" where
  Look: "og_opener g i = Idle \<Longrightarrow> open_step g (look_step i g)"
| Close: "og_opener g i = WillClose \<Longrightarrow> open_step g (close_step i g)"

definition new_gate :: open_gate where
  "new_gate = \<lparr>og_closed = False, og_panic = False, og_opener = \<lambda>_. Idle\<rparr>"

section \<open>The queues of received messages\<close>

text \<open>A queue of bounded size between the library's goroutine, which runs the callback of one message after the other,
  and the session: what was delivered, what is queued, what the session took, the message whose callback is blocked
  because the queue is full, the messages given up because the session was closed, the first failure.\<close>

record 'a inbox =
  ib_msgs :: "bytes list"
  ib_queue :: "'a list"
  ib_taken :: "'a list"
  ib_blocked :: "'a option"
  ib_lost :: nat
  ib_closed :: bool
  ib_failed :: "p2p_err option"

definition inbox_start :: "'a inbox" where
  "inbox_start = \<lparr>ib_msgs = [], ib_queue = [], ib_taken = [], ib_blocked = None, ib_lost = 0, ib_closed = False, ib_failed = None\<rparr>"

text \<open>The callback up to its \<open>select\<close>: a message that does not decode fails the session.\<close>

definition on_message :: "(bytes \<Rightarrow> p2p_err + 'a) \<Rightarrow> bytes \<Rightarrow> 'a inbox \<Rightarrow> 'a inbox" where
  "on_message dec m s = (case dec m of
     Inl e \<Rightarrow> s\<lparr>ib_msgs := ib_msgs s @ [m], ib_failed := (if ib_failed s = None then Some e else ib_failed s)\<rparr>
   | Inr f \<Rightarrow> s\<lparr>ib_msgs := ib_msgs s @ [m], ib_blocked := Some f\<rparr>)"

definition enqueue :: "'a \<Rightarrow> 'a inbox \<Rightarrow> 'a inbox" where
  "enqueue f s = s\<lparr>ib_queue := ib_queue s @ [f], ib_blocked := None\<rparr>"

definition give_up :: "'a inbox \<Rightarrow> 'a inbox" where
  "give_up s = s\<lparr>ib_blocked := None, ib_lost := Suc (ib_lost s)\<rparr>"

definition take_next :: "'a inbox \<Rightarrow> 'a inbox" where
  "take_next s = s\<lparr>ib_taken := ib_taken s @ take 1 (ib_queue s), ib_queue := drop 1 (ib_queue s)\<rparr>"

inductive inbox_step :: "nat \<Rightarrow> (bytes \<Rightarrow> p2p_err + 'a) \<Rightarrow> 'a inbox \<Rightarrow> 'a inbox \<Rightarrow> bool" for cap dec where
  Message: "ib_blocked s = None \<Longrightarrow> inbox_step cap dec s (on_message dec m s)"
| Enqueue: "ib_blocked s = Some f \<Longrightarrow> length (ib_queue s) < cap \<Longrightarrow> inbox_step cap dec s (enqueue f s)"
| GiveUp: "ib_blocked s = Some f \<Longrightarrow> ib_closed s \<Longrightarrow> inbox_step cap dec s (give_up s)"
| Take: "ib_queue s \<noteq> [] \<Longrightarrow> inbox_step cap dec s (take_next s)"
| CloseSession: "inbox_step cap dec s (s\<lparr>ib_closed := True\<rparr>)"

text \<open>The queue of frames and the one of control messages.\<close>

definition recvCh_size :: nat where "recvCh_size = 128"
definition ctrlRecv_size :: nat where "ctrlRecv_size = 1"

abbreviation frame_step :: "frame inbox \<Rightarrow> frame inbox \<Rightarrow> bool" where
  "frame_step \<equiv> inbox_step recvCh_size decodeFrame"

abbreviation control_step :: "bytes inbox \<Rightarrow> bytes inbox \<Rightarrow> bool" where
  "control_step \<equiv> inbox_step ctrlRecv_size Inr"

section \<open>A new session\<close>

text \<open>The signaller is the given one or, without one, a WebSocket; the role is an \<open>int\<close> here.\<close>

record new_session =
  ns_role :: p2p_role
  ns_socket :: "ws_config option"
  ns_file_open :: open_gate
  ns_control_open :: open_gate
  ns_control :: "bytes inbox"
  ns_frames :: "frame inbox"
  ns_flow :: flow

definition role_of :: "int \<Rightarrow> p2p_role option" where
  "role_of n = (if n = 0 then Some SenderRole else if n = 1 then Some ReceiverRole else None)"

definition newWebRTCSession :: "string \<Rightarrow> RelayConfig \<Rightarrow> int \<Rightarrow> bool \<Rightarrow> connect_err + new_session" where
  "newWebRTCSession url cfg role given = (case role_of role of
     None \<Rightarrow> Inl InvalidRole
   | Some r \<Rightarrow> Inr \<lparr>ns_role = r, ns_socket = (if given then None else Some (newWSSignaler url cfg r)),
       ns_file_open = new_gate, ns_control_open = new_gate, ns_control = inbox_start, ns_frames = inbox_start,
       ns_flow = flow_start\<rparr>)"

section \<open>Facts\<close>

inductive_cases inbox_stepE: "inbox_step cap dec s t"

lemmas inbox_defs = on_message_def enqueue_def give_up_def take_next_def

text \<open>What a run of messages decodes to.\<close>

definition decoded :: "(bytes \<Rightarrow> p2p_err + 'a) \<Rightarrow> bytes list \<Rightarrow> 'a list" where
  "decoded dec ms = List.map_filter (\<lambda>m. case dec m of Inl _ \<Rightarrow> None | Inr f \<Rightarrow> Some f) ms"

lemma decoded_simps [simp]:
  "decoded dec [] = []"
  "decoded dec (ms @ [m]) = decoded dec ms @ (case dec m of Inl _ \<Rightarrow> [] | Inr f \<Rightarrow> [f])"
  by (simp_all add: decoded_def List.map_filter_def split: sum.split)

lemma decoded_Cons: "decoded dec (m # ms) = (case dec m of Inl _ \<Rightarrow> [] | Inr f \<Rightarrow> [f]) @ decoded dec ms"
  by (simp add: decoded_def List.map_filter_def split: sum.split)

lemma decoded_append: "decoded dec (xs @ ys) = decoded dec xs @ decoded dec ys"
  by (induction xs) (simp_all add: decoded_Cons)

lemma decoded_frames: "decoded decodeFrame ms = queued ms"
  by (induction ms) (auto simp: decoded_Cons split: sum.split)

lemma decoded_all: "decoded Inr ms = ms"
  by (induction ms) (simp_all add: decoded_Cons)

definition held_frames :: "'a inbox \<Rightarrow> 'a list" where
  "held_frames s = ib_taken s @ ib_queue s @ (case ib_blocked s of None \<Rightarrow> [] | Some f \<Rightarrow> [f])"

definition inbox_ok :: "nat \<Rightarrow> (bytes \<Rightarrow> p2p_err + 'a) \<Rightarrow> 'a inbox \<Rightarrow> bool" where
  "inbox_ok cap dec s \<longleftrightarrow> length (ib_queue s) \<le> cap \<and> (0 < ib_lost s \<longrightarrow> ib_closed s) \<and>
     (ib_lost s = 0 \<longrightarrow> held_frames s = decoded dec (ib_msgs s))"

lemma take_drop_one: "xs @ take (Suc 0) q @ drop (Suc 0) q @ r = xs @ q @ r"
  by (metis append.assoc append_take_drop_id)

lemma inbox_step_ok: "inbox_step cap dec s t \<Longrightarrow> inbox_ok cap dec s \<Longrightarrow> inbox_ok cap dec t"
proof (erule inbox_stepE)
  assume "inbox_ok cap dec s" "t = take_next s" "ib_queue s \<noteq> []"
  then show "inbox_ok cap dec t" by (auto simp: inbox_ok_def held_frames_def take_next_def take_drop_one)
qed (auto simp: inbox_ok_def held_frames_def inbox_defs split: sum.split)

lemma inbox_reachable_ok: "(inbox_step cap dec)\<^sup>*\<^sup>* inbox_start s \<Longrightarrow> inbox_ok cap dec s"
proof (induction rule: rtranclp_induct)
  case base
  show ?case by (simp add: inbox_ok_def inbox_start_def held_frames_def)
qed (rule inbox_step_ok)

lemma inbox_takes_prefix:
  assumes "(inbox_step cap dec)\<^sup>*\<^sup>* inbox_start s" "\<not> ib_closed s"
  shows "prefix (ib_taken s) (decoded dec (ib_msgs s))"
  using inbox_reachable_ok [OF assms(1)] assms(2) unfolding inbox_ok_def held_frames_def by (metis neq0_conv prefix_def)

lemma delivered:
  assumes "ib_blocked s = None" "dec m = Inr f" "length (ib_queue s) < cap"
  shows "(inbox_step cap dec)\<^sup>*\<^sup>* s (enqueue f (on_message dec m s))"
proof -
  have "inbox_step cap dec s (on_message dec m s)" using assms(1) by (rule Message)
  moreover have "inbox_step cap dec (on_message dec m s) (enqueue f (on_message dec m s))"
    by (rule Enqueue) (simp_all add: on_message_def assms)
  ultimately show ?thesis by (meson converse_rtranclp_into_rtranclp rtranclp.rtrancl_refl)
qed

section \<open>Properties\<close>

text \<open>C33 A peer-to-peer receive that reports success has the whole file, with the queue between the library and the session
  as it is: wherever the library and the session stand, when the messages delivered are a prefix of those the sender
  wrote, the session has not been closed and \<open>Receive\<close> returned without an error from the frames it took out of the
  queue, the sender had read its source to the end, the bytes written are exactly the source's, and the
  acknowledgement was sent. The queue never holds more than 128 frames.\<close>

theorem received_file_whole:
  assumes "p2p_Send env reads = (msgs, r)" "\<forall>rd\<in>set reads. length (fst rd) \<le> p2p_chunkSize"
    and "frame_step\<^sup>*\<^sup>* inbox_start s" "prefix (ib_msgs s) msgs" "\<not> ib_closed s"
    and "taken evs = ib_taken s" "p2p_Receive ReceiverRole True evs = (out, Some (Inr ()), acked)"
  shows "ends_well reads \<and> out = concat (payloads reads) \<and> acked \<and> length (ib_queue s) \<le> 128"
proof -
  have "prefix (ib_taken s) (queued (ib_msgs s))" using inbox_takes_prefix [OF assms(3,5)] by (simp add: decoded_frames)
  moreover have "prefix (queued (ib_msgs s)) (queued msgs)"
    using assms(4) by (auto simp: prefix_def decoded_append simp flip: decoded_frames)
  ultimately have "prefix (taken evs) (queued msgs)" unfolding assms(6) by (rule prefix_order.trans)
  from p2p_receive_complete [OF assms(1,2) this assms(7)]
  show ?thesis using inbox_reachable_ok [OF assms(3)] by (simp add: inbox_ok_def recvCh_size_def)
qed

text \<open>The control channel keeps the order: the verification of the peer, which takes the first message, sees the peer's
  code, and the wait for the acknowledgement, which takes the second, sees what the peer sent second.\<close>

lemma control_in_order:
  assumes "control_step\<^sup>*\<^sup>* inbox_start s" "\<not> ib_closed s"
  shows "prefix (ib_taken s) (ib_msgs s) \<and> length (ib_queue s) \<le> 1"
  using inbox_takes_prefix [OF assms] inbox_reachable_ok [OF assms(1)]
  by (simp add: decoded_all inbox_ok_def ctrlRecv_size_def)

text \<open>Callbacks that run one after the other close the signal once, however many there are.\<close>

theorem markOpen_once:
  "ks \<noteq> [] \<Longrightarrow> og_closed (fold markOpen ks new_gate) \<and> \<not> og_panic (fold markOpen ks new_gate)"
proof -
  have later: "og_closed (fold markOpen ks g) \<and> \<not> og_panic (fold markOpen ks g)" if "og_closed g" "\<not> og_panic g" for ks g
    using that by (induction ks arbitrary: g) (simp_all add: markOpen_def look_step_def)
  assume "ks \<noteq> []"
  then obtain i js where "ks = i # js" by (cases ks) auto
  then show ?thesis using later [of "markOpen i new_gate" js]
    by (simp add: markOpen_def look_step_def close_step_def new_gate_def)
qed

text \<open>Two that overlap can both find the signal open and both close it: the second \<open>close\<close> panics.\<close>

theorem open_race_panics: "\<exists>g. open_step\<^sup>*\<^sup>* new_gate g \<and> og_panic g"
proof -
  let ?g1 = "look_step 0 new_gate" let ?g2 = "look_step 1 ?g1" let ?g3 = "close_step 0 ?g2" let ?g4 = "close_step 1 ?g3"
  have "open_step new_gate ?g1" by (rule Look) (simp add: new_gate_def)
  moreover have "open_step ?g1 ?g2" by (rule Look) (simp add: look_step_def new_gate_def)
  moreover have "open_step ?g2 ?g3" by (rule Close) (simp add: look_step_def new_gate_def)
  moreover have "open_step ?g3 ?g4" by (rule Close) (simp add: look_step_def close_step_def new_gate_def)
  moreover have "og_panic ?g4" by (simp add: close_step_def)
  ultimately show ?thesis by (meson converse_rtranclp_into_rtranclp rtranclp.rtrancl_refl)
qed

text \<open>What one side sends over the WebSocket the other reads, in order; and closing is done once.\<close>

lemma ws_roundtrip:
  assumes "\<And>m b. mar m = Some b \<Longrightarrow> un b = Some m" "\<forall>m\<in>set ms. mar m \<noteq> None"
  shows "map (ws_recv un) (map Some (ws_out (fold (\<lambda>m w. fst (ws_send mar True m w)) ms (w\<lparr>ws_out := []\<rparr>)))) = map Inr ms"
proof -
  have "ws_out (fold (\<lambda>m w. fst (ws_send mar True m w)) ms w) = ws_out w @ map (the \<circ> mar) ms" for w
    using assms(2) by (induction ms arbitrary: w) (auto simp: ws_send_def)
  then show ?thesis using assms by (auto simp: ws_recv_def split: option.split)
qed

lemma ws_close_once: "ws_close mar ok e w = (w1, r) \<Longrightarrow> ws_close mar ok' e' w1 = (w1, r)"
  by (auto simp: ws_close_def Let_def split: if_splits)

section \<open>Concrete inputs\<close>

lemma received_file_whole_witness:
  "ends_well [(''ab'', AtEnd)] \<and> ''ab'' = concat (payloads [(''ab'', AtEnd)])"
proof -
  let ?m = "[frame_msg ''ab'', frame_msg []]" and ?f = "[FrameData ''ab'', FrameEOF]"
  let ?evs = "[GotFrame (FrameData ''ab'') True, GotFrame FrameEOF True]"
  define s1 :: "frame inbox" where "s1 = enqueue (FrameData ''ab'') (on_message decodeFrame (frame_msg ''ab'') inbox_start)"
  define s2 where "s2 = enqueue FrameEOF (on_message decodeFrame (frame_msg []) s1)"
  have d: "decodeFrame (frame_msg ''ab'') = Inr (FrameData ''ab'')" "decodeFrame (frame_msg []) = Inr FrameEOF"
    by (simp_all add: decodeFrame_msg)
  have "frame_step\<^sup>*\<^sup>* inbox_start s1" unfolding s1_def
    by (rule delivered) (simp_all add: d inbox_start_def recvCh_size_def)
  also have "frame_step\<^sup>*\<^sup>* s1 s2" unfolding s2_def
    by (rule delivered) (simp_all add: s1_def on_message_def enqueue_def d inbox_start_def recvCh_size_def)
  also have "frame_step\<^sup>*\<^sup>* s2 (take_next s2)"
    by (rule r_into_rtranclp, rule Take) (simp add: s2_def enqueue_def)
  also have "frame_step\<^sup>*\<^sup>* (take_next s2) (take_next (take_next s2))"
    by (rule r_into_rtranclp, rule Take) (simp add: s1_def s2_def on_message_def enqueue_def take_next_def d inbox_start_def)
  finally have r: "frame_step\<^sup>*\<^sup>* inbox_start (take_next (take_next s2))" .
  have st: "ib_msgs (take_next (take_next s2)) = ?m" "ib_taken (take_next (take_next s2)) = ?f"
    "\<not> ib_closed (take_next (take_next s2))"
    by (simp_all add: s1_def s2_def on_message_def enqueue_def take_next_def d inbox_start_def)
  have send: "p2p_Send demo_send [(''ab'', AtEnd)] = (?m, None)"
    by (simp add: p2p_Send_def demo_send_def awaitAck_def)
  have recv: "p2p_Receive ReceiverRole True ?evs = (''ab'', Some (Inr ()), True)" by (simp add: p2p_Receive_def)
  from received_file_whole [OF send _ r _ st(3) _ recv] st show ?thesis by (simp add: p2p_chunkSize_def)
qed

end
