(* ===== verification/Responses.thy ===== *)
theory Responses
  imports Endpoints
begin

text \<open>
  The answers of the API (the response structs of \<open>client.go\<close>, \<open>agent.go\<close>, \<open>agent_projects.go\<close>): each struct as
  the table of its JSON names and Go types, and \<open>encoding/json\<close> decoding a parsed value into such a type: what a
  missing, a \<open>null\<close>, a repeated or a wrongly typed field does. Names are matched exactly first, then without regard
  to ASCII case. Parsing the text is a parameter (a number that is no integer fits no field here, so a text with one
  counts as not parsed where it would be decoded).
\<close>

section \<open>Types and values\<close>

text \<open>An integer type is signed or not and has a width.\<close>

datatype gtype = TStr | TBool | TInt bool nat | TList gtype | TObj "(string \<times> gtype) list" | TPtr gtype | TMap

text \<open>A nil slice, map or pointer is \<open>None\<close>.\<close>

datatype gval =
    VStr string | VBool bool | VInt int | VList "gval list option" | VObj "(string \<times> gval) list" | VPtr "gval option"
  | VMap "(string \<times> string) list option"

definition int_fits :: "bool \<Rightarrow> nat \<Rightarrow> int \<Rightarrow> bool" where
  "int_fits sg w n = (if sg then - (2 ^ (w - 1)) \<le> n \<and> n < 2 ^ (w - 1) else 0 \<le> n \<and> n < 2 ^ w)"

fun zero_of :: "gtype \<Rightarrow> gval" where
  "zero_of TStr = VStr []"
| "zero_of TBool = VBool False"
| "zero_of (TInt sg w) = VInt 0"
| "zero_of (TList t) = VList None"
| "zero_of (TObj fs) = VObj (map (\<lambda>f. (fst f, zero_of (snd f))) fs)"
| "zero_of (TPtr t) = VPtr None"
| "zero_of TMap = VMap None"

section \<open>Decoding\<close>

definition field_named :: "(string \<times> gtype) list \<Rightarrow> string \<Rightarrow> (string \<times> gtype) option" where
  "field_named fs k =
     (case find (\<lambda>f. fst f = k) fs of Some f \<Rightarrow> Some f | None \<Rightarrow> find (\<lambda>f. equal_fold (fst f) k) fs)"

definition field_value :: "(string \<times> gval) list \<Rightarrow> string \<Rightarrow> gval \<Rightarrow> gval" where
  "field_value vs k d = (case map_of vs k of None \<Rightarrow> d | Some v \<Rightarrow> v)"

definition set_field :: "string \<Rightarrow> gval \<Rightarrow> (string \<times> gval) list \<Rightarrow> (string \<times> gval) list" where
  "set_field k v vs = map (\<lambda>f. if fst f = k then (k, v) else f) vs"

text \<open>The entries of a \<open>map[string]string\<close>, added to what it holds; \<open>null\<close> gives the empty string.\<close>

fun decode_map :: "(string \<times> string) list \<Rightarrow> (string \<times> json) list \<Rightarrow> (string \<times> string) list option" where
  "decode_map m [] = Some m"
| "decode_map m ((k, j) # kvs) = (case j of
     JStr s \<Rightarrow> decode_map (AList.update k s m) kvs
   | JNull \<Rightarrow> decode_map (AList.update k [] m) kvs
   | _ \<Rightarrow> None)"

text \<open>What a value of the type holds already.\<close>

definition pointee :: "gtype \<Rightarrow> gval \<Rightarrow> gval" where
  "pointee t old = (case old of VPtr (Some v) \<Rightarrow> v | _ \<Rightarrow> zero_of t)"

definition elems_of :: "gval \<Rightarrow> gval list" where
  "elems_of old = (case old of VList (Some vs) \<Rightarrow> vs | _ \<Rightarrow> [])"

definition fields_of :: "gval \<Rightarrow> (string \<times> gval) list" where
  "fields_of old = (case old of VObj vs \<Rightarrow> vs | _ \<Rightarrow> [])"

definition map_of_val :: "gval \<Rightarrow> (string \<times> string) list" where
  "map_of_val old = (case old of VMap (Some m) \<Rightarrow> m | _ \<Rightarrow> [])"

text \<open>\<open>null\<close> empties a pointer, a slice and a map, and leaves any other value as it is.\<close>

definition null_value :: "gtype \<Rightarrow> gval \<Rightarrow> gval" where
  "null_value t old = (case t of TPtr _ \<Rightarrow> VPtr None | TList _ \<Rightarrow> VList None | TMap \<Rightarrow> VMap None | _ \<Rightarrow> old)"

text \<open>Into a value that is there already (the zero value, or what an earlier field of the same name left). The elements
  of a slice are decoded over the elements it has.\<close>

function decode :: "gtype \<Rightarrow> gval \<Rightarrow> json \<Rightarrow> gval option"
  and decode_fields :: "(string \<times> gtype) list \<Rightarrow> (string \<times> gval) list \<Rightarrow> (string \<times> json) list \<Rightarrow> (string \<times> gval) list option"
  and decode_elems :: "gtype \<Rightarrow> gval list \<Rightarrow> json list \<Rightarrow> gval list option" where
  "decode t old j = (if j = JNull then Some (null_value t old) else (case t of
     TStr \<Rightarrow> (case j of JStr s \<Rightarrow> Some (VStr s) | _ \<Rightarrow> None)
   | TBool \<Rightarrow> (case j of JBool b \<Rightarrow> Some (VBool b) | _ \<Rightarrow> None)
   | TInt sg w \<Rightarrow> (case j of JNum n \<Rightarrow> if int_fits sg w n then Some (VInt n) else None | _ \<Rightarrow> None)
   | TPtr u \<Rightarrow> map_option (\<lambda>v. VPtr (Some v)) (decode u (pointee u old) j)
   | TList u \<Rightarrow> (case j of JArr js \<Rightarrow> map_option (\<lambda>vs. VList (Some vs)) (decode_elems u (elems_of old) js) | _ \<Rightarrow> None)
   | TObj fs \<Rightarrow> (case j of JObj kvs \<Rightarrow> map_option VObj (decode_fields fs (fields_of old) kvs) | _ \<Rightarrow> None)
   | TMap \<Rightarrow> (case j of JObj kvs \<Rightarrow> map_option (\<lambda>m. VMap (Some m)) (decode_map (map_of_val old) kvs) | _ \<Rightarrow> None)))"
| "decode_fields fs vs [] = Some vs"
| "decode_fields fs vs (kv # kvs) = (case field_named fs (fst kv) of
     None \<Rightarrow> decode_fields fs vs kvs
   | Some f \<Rightarrow> (case decode (snd f) (field_value vs (fst f) (zero_of (snd f))) (snd kv) of
       None \<Rightarrow> None
     | Some v \<Rightarrow> decode_fields fs (set_field (fst f) v vs) kvs))"
| "decode_elems t olds [] = Some []"
| "decode_elems t olds (j # js) =
     (case decode t (case olds of [] \<Rightarrow> zero_of t | v # _ \<Rightarrow> v) j of
        None \<Rightarrow> None
      | Some v \<Rightarrow> map_option ((#) v) (decode_elems t (tl olds) js))"
  by pat_completeness auto

termination
  by (relation "measures [\<lambda>x. case x of Inl (t, old, j) \<Rightarrow> size j | Inr (Inl (fs, vs, kvs)) \<Rightarrow> size_list (size_prod (\<lambda>_. 0) size) kvs
        | Inr (Inr (t, olds, js)) \<Rightarrow> size_list size js,
      \<lambda>x. case x of Inl (t, old, j) \<Rightarrow> size t | _ \<Rightarrow> 0]") (auto split: prod.split)

declare decode.simps [simp del]

text \<open>\<open>json.Unmarshal\<close> into a fresh value, and a call that decodes its answer so.\<close>

definition unmarshal :: "(bytes \<Rightarrow> json option) \<Rightarrow> gtype \<Rightarrow> bytes \<Rightarrow> gval option" where
  "unmarshal parse t b = Option.bind (parse b) (decode t (zero_of t))"

definition typed_call ::
  "http_env \<Rightarrow> client \<Rightarrow> (json \<Rightarrow> bytes) \<Rightarrow> (bytes \<Rightarrow> json option) \<Rightarrow> gtype \<Rightarrow> call \<Rightarrow>
   http_request list \<times> int list \<times> (client_err + gval option)" where
  "typed_call env c mar parse t ca = run_call env c mar (unmarshal parse t) ca"

section \<open>The answers\<close>

definition SignedTrustList_type :: gtype where
  "SignedTrustList_type = TObj [(''kid'', TStr), (''payload'', TStr), (''signature'', TStr)]"

definition DeviceCodeResponse_type :: gtype where
  "DeviceCodeResponse_type = TObj [
    (''device_code'', TStr), (''user_code'', TStr), (''verification_uri'', TStr),
    (''verification_uri_complete'', TStr), (''interval'', TInt True 64), (''expires_in'', TInt True 64)]"

definition DeviceTokenResponse_type :: gtype where
  "DeviceTokenResponse_type = TObj [
    (''credential'', TStr), (''device_session_id'', TStr), (''scopes'', TList TStr), (''expires_at'', TStr)]"

definition MeResponse_type :: gtype where
  "MeResponse_type = TObj [
    (''account_id'', TStr), (''user_id'', TStr), (''email'', TStr), (''plan_id'', TStr), (''plan_name'', TStr),
    (''source'', TStr), (''scopes'', TList TStr), (''mcp_enabled'', TPtr TBool)]"

definition TeammateDevice_type :: gtype where
  "TeammateDevice_type = TObj [
    (''device_id'', TStr), (''public_key'', TStr)]"

definition TeammateDeviceList_type :: gtype where
  "TeammateDeviceList_type = TObj [
    (''mode'', TStr), (''code'', TStr), (''devices'', TList TeammateDevice_type)]"

definition TeammateSenderPref_type :: gtype where
  "TeammateSenderPref_type = TObj [
    (''email'', TStr), (''mode'', TStr)]"

definition TeammatePolicy_type :: gtype where
  "TeammatePolicy_type = TObj [
    (''mode'', TStr), (''senders'', TList TeammateSenderPref_type)]"

definition PendingInboxShare_type :: gtype where
  "PendingInboxShare_type = TObj [
    (''public_id'', TStr), (''file_name'', TStr), (''size_bytes'', TInt False 64), (''content_type'', TStr),
    (''sender_email'', TStr), (''from_device_name'', TStr), (''created_at'', TStr), (''expires_at'', TStr)]"

definition PendingInboxResponse_type :: gtype where
  "PendingInboxResponse_type = TObj [
    (''shares'', TList PendingInboxShare_type)]"

definition PresignedUpload_type :: gtype where
  "PresignedUpload_type = TObj [
    (''url'', TStr), (''method'', TStr), (''headers'', TMap)]"

definition ShareRef_type :: gtype where
  "ShareRef_type = TObj [
    (''public_id'', TStr), (''link'', TStr), (''live_update'', TBool), (''version'', TInt False 64),
    (''targeted'', TBool), (''recipient_restricted'', TPtr TBool)]"

definition UploadCreateResponse_type :: gtype where
  "UploadCreateResponse_type = TObj [
    (''upload'', PresignedUpload_type), (''share'', ShareRef_type), (''upload_session_id'', TStr),
    (''expires_at'', TStr), (''link'', TStr), (''skipped_upload'', TBool),
    (''email_shares_remaining'', TPtr (TInt True 64))]"

definition LivePutResponse_type :: gtype where
  "LivePutResponse_type = TObj [
    (''changed'', TBool), (''crc32'', TStr), (''size'', TInt False 64), (''ttl_seconds'', TInt True 64)]"

definition LiveFlushResponse_type :: gtype where
  "LiveFlushResponse_type = TObj [
    (''public_id'', TStr), (''version'', TInt False 64), (''sha256'', TStr), (''size'', TInt False 64)]"

definition UploadCompleteResponse_type :: gtype where
  "UploadCompleteResponse_type = TObj [
    (''public_id'', TStr), (''status'', TStr), (''expires_at'', TStr), (''version'', TInt False 64)]"

definition Share_type :: gtype where
  "Share_type = TObj [
    (''public_id'', TStr), (''file_name'', TStr), (''created_at'', TStr), (''size_bytes'', TInt False 64),
    (''sha256'', TStr), (''status'', TStr), (''expires_at'', TStr), (''download_count'', TInt False 64),
    (''max_downloads'', TInt False 64), (''view_count'', TInt False 64), (''max_views'', TInt False 64),
    (''disabled'', TBool), (''disabled_at'', TStr), (''content_class'', TStr), (''encrypted'', TBool),
    (''encryption_algo'', TStr), (''recipient_restricted'', TBool), (''recipients'', TList TStr),
    (''allowed_domains'', TList TStr), (''denied_domains'', TList TStr), (''device_session_id'', TStr),
    (''device_name'', TStr), (''live_update'', TBool), (''version'', TInt False 64)]"

definition ListSharesResponse_type :: gtype where
  "ListSharesResponse_type = TObj [
    (''shares'', TList Share_type)]"

definition DeviceSession_type :: gtype where
  "DeviceSession_type = TObj [
    (''id'', TStr), (''device_name'', TStr), (''machine_id'', TStr), (''client_type'', TStr),
    (''public_key'', TStr), (''lan_fingerprint'', TStr), (''created_at'', TStr), (''last_used_at'', TStr),
    (''expires_at'', TStr), (''current'', TBool)]"

definition ListDevicesResponse_type :: gtype where
  "ListDevicesResponse_type = TObj [
    (''sessions'', TList DeviceSession_type)]"

definition InboxShare_type :: gtype where
  "InboxShare_type = TObj [
    (''public_id'', TStr), (''file_name'', TStr), (''size_bytes'', TInt False 64), (''content_type'', TStr),
    (''content_class'', TStr), (''sealed_key'', TStr), (''created_at'', TStr), (''expires_at'', TStr),
    (''from_device_name'', TStr)]"

definition InboxResponse_type :: gtype where
  "InboxResponse_type = TObj [
    (''shares'', TList InboxShare_type)]"

definition RevokeAllResponse_type :: gtype where
  "RevokeAllResponse_type = TObj [
    (''revoked'', TInt False 64)]"

definition UsageResponse_type :: gtype where
  "UsageResponse_type = TObj [
    (''storage_used_bytes'', TInt False 64), (''storage_quota_bytes'', TInt False 64),
    (''monthly_upload_bytes'', TInt False 64), (''monthly_upload_limit_bytes'', TInt False 64),
    (''active_shares'', TInt False 64), (''max_active_shares'', TInt False 64),
    (''max_file_size_bytes'', TInt False 64), (''max_downloads_per_share'', TInt False 64),
    (''default_expiry_hours'', TInt False 64), (''maximum_expiry_hours'', TInt False 64),
    (''allowed_content_classes'', TList TStr), (''password_protection_enabled'', TBool),
    (''one_time_download_enabled'', TBool), (''client_side_encryption_enabled'', TBool)]"

definition UpdateDownloads_type :: gtype where
  "UpdateDownloads_type = TObj [
    (''archive_url'', TStr), (''crc32_url'', TStr), (''crc32'', TStr), (''size_bytes'', TInt True 64),
    (''sha256'', TStr)]"

definition UpdateCheckResponse_type :: gtype where
  "UpdateCheckResponse_type = TObj [
    (''current_version'', TStr), (''latest_version'', TStr), (''update_available'', TBool),
    (''platform'', TStr), (''channel'', TStr), (''prerelease'', TBool), (''downloads'', UpdateDownloads_type)]"

definition AnalyticsTimelinePoint_type :: gtype where
  "AnalyticsTimelinePoint_type = TObj [
    (''date'', TStr), (''views'', TInt False 64), (''downloads'', TInt False 64)]"

definition ShareAccessEvent_type :: gtype where
  "ShareAccessEvent_type = TObj [
    (''occurred_at'', TStr), (''ip'', TStr), (''country'', TStr), (''client'', TStr), (''event_type'', TStr)]"

definition ShareAnalyticsResponse_type :: gtype where
  "ShareAnalyticsResponse_type = TObj [
    (''views'', TInt False 64), (''downloads'', TInt False 64), (''unique_visitors'', TInt False 64),
    (''first_accessed_at'', TStr), (''last_accessed_at'', TStr),
    (''timeline'', TList AnalyticsTimelinePoint_type), (''recent'', TList ShareAccessEvent_type)]"

definition OnboardingStatus_type :: gtype where
  "OnboardingStatus_type = TObj [
    (''onboarded'', TBool), (''consent_required'', TBool), (''consent_version'', TStr)]"

definition P2PICEServer_type :: gtype where
  "P2PICEServer_type = TObj [
    (''urls'', TList TStr), (''username'', TStr), (''credential'', TStr)]"

definition P2PRoomAuth_type :: gtype where
  "P2PRoomAuth_type = TObj [
    (''room'', TStr), (''role'', TStr), (''token'', TStr), (''expires_at'', TStr), (''relay_url'', TStr),
    (''ice_servers'', TList P2PICEServer_type)]"

definition APITokenInfo_type :: gtype where
  "APITokenInfo_type = TObj [
    (''id'', TStr), (''label'', TStr), (''scopes'', TList TStr), (''token_hint'', TStr), (''expires_at'', TStr)]"

definition CreateAPITokenResponse_type :: gtype where
  "CreateAPITokenResponse_type = TObj [
    (''token'', TStr), (''api_token'', APITokenInfo_type)]"

definition ResealEntry_type :: gtype where
  "ResealEntry_type = TObj [
    (''share_id'', TStr), (''recipient_email'', TStr), (''target_session_id'', TStr), (''public_key'', TStr)]"

definition ResealQueueResponse_type :: gtype where
  "ResealQueueResponse_type = TObj [
    (''requests'', TList ResealEntry_type)]"

definition LanTrustChallenge_type :: gtype where
  "LanTrustChallenge_type = TObj [
    (''challenge_id'', TStr), (''factor'', TStr), (''sent_to'', TStr), (''expires_in'', TInt True 64),
    (''verify_code'', TStr)]"

definition LanTrustedDevice_type :: gtype where
  "LanTrustedDevice_type = TObj [
    (''fingerprint'', TStr), (''name'', TStr), (''mode'', TStr), (''approved_via'', TStr)]"

definition LanTrustList_type :: gtype where
  "LanTrustList_type = TObj [
    (''devices'', TList LanTrustedDevice_type), (''signed'', SignedTrustList_type), (''public_key'', TStr)]"

definition AgentSessionInfo_type :: gtype where
  "AgentSessionInfo_type = TObj [
    (''agent_id'', TStr), (''session_id'', TStr), (''tool'', TStr), (''name'', TStr), (''project'', TStr),
    (''status'', TStr), (''device_id'', TStr), (''device_name'', TStr), (''device_public_key'', TStr),
    (''lan_fingerprint'', TStr), (''last_seen'', TStr)]"

definition AgentInjectResult_type :: gtype where
  "AgentInjectResult_type = TObj [
    (''id'', TStr), (''status'', TStr), (''target_status'', TStr), (''busy'', TBool)]"

definition AgentRequest_type :: gtype where
  "AgentRequest_type = TObj [
    (''id'', TStr), (''sender_device_id'', TStr), (''target_session_id'', TStr), (''tool'', TStr),
    (''sealed_prompt'', TStr), (''has_file'', TBool), (''sealed_file_key'', TStr), (''goal_id'', TStr),
    (''created_at'', TStr), (''signature'', TStr), (''issued_at'', TStr), (''nonce'', TStr),
    (''sender_signing_public_key'', TStr), (''project_id'', TStr), (''sender_agent_id'', TStr),
    (''target_agent_id'', TStr)]"

definition AgentInjectState_type :: gtype where
  "AgentInjectState_type = TObj [
    (''id'', TStr), (''status'', TStr), (''result'', TStr)]"

definition AgentGrant_type :: gtype where
  "AgentGrant_type = TObj [
    (''sender_device_id'', TStr), (''approved_at'', TStr)]"

definition Goal_type :: gtype where
  "Goal_type = TObj [
    (''id'', TStr), (''project'', TStr), (''objective'', TStr), (''acceptance'', TStr), (''branch'', TStr),
    (''state'', TStr), (''hop_cap'', TInt True 32), (''hops_used'', TInt True 64), (''expires_at'', TStr),
    (''risk_ceiling'', TInt True 16), (''created_by_agent'', TStr), (''created_at'', TStr), (''live'', TBool),
    (''close_reason'', TStr), (''close_evidence'', TStr), (''closed_at'', TStr)]"

definition ProjectAgentAddress_type :: gtype where
  "ProjectAgentAddress_type = TObj [
    (''agent_id'', TStr), (''function'', TStr), (''session_id'', TStr), (''tool'', TStr), (''status'', TStr),
    (''device_id'', TStr), (''device_public_key'', TStr), (''last_seen'', TStr), (''yours'', TBool)]"

definition AgentInvite_type :: gtype where
  "AgentInvite_type = TObj [
    (''id'', TStr), (''agent_id'', TStr), (''function'', TStr), (''pending'', TBool), (''invited_at'', TStr),
    (''accepted_at'', TStr), (''project_id'', TStr), (''project_name'', TStr), (''sharenet_id'', TStr),
    (''sharenet_name'', TStr)]"

definition AgentJoinResult_type :: gtype where
  "AgentJoinResult_type = TObj [
    (''status'', TStr), (''request_id'', TStr), (''project_name'', TStr), (''sharenet_name'', TStr)]"

text \<open>All of them.\<close>

definition response_types :: "gtype list" where
  "response_types = [
     SignedTrustList_type, DeviceCodeResponse_type, DeviceTokenResponse_type, MeResponse_type,
     TeammateDevice_type, TeammateDeviceList_type, TeammateSenderPref_type, TeammatePolicy_type,
     PendingInboxShare_type, PendingInboxResponse_type, PresignedUpload_type, ShareRef_type,
     UploadCreateResponse_type, LivePutResponse_type, LiveFlushResponse_type, UploadCompleteResponse_type,
     Share_type, ListSharesResponse_type, DeviceSession_type, ListDevicesResponse_type, InboxShare_type,
     InboxResponse_type, RevokeAllResponse_type, UsageResponse_type, UpdateDownloads_type,
     UpdateCheckResponse_type, AnalyticsTimelinePoint_type, ShareAccessEvent_type, ShareAnalyticsResponse_type,
     OnboardingStatus_type, P2PICEServer_type, P2PRoomAuth_type, APITokenInfo_type,
     CreateAPITokenResponse_type, ResealEntry_type, ResealQueueResponse_type, LanTrustChallenge_type,
     LanTrustedDevice_type, LanTrustList_type, AgentSessionInfo_type, AgentInjectResult_type,
     AgentRequest_type, AgentInjectState_type, AgentGrant_type, Goal_type, ProjectAgentAddress_type,
     AgentInvite_type, AgentJoinResult_type]"

lemmas response_defs = SignedTrustList_type_def DeviceCodeResponse_type_def DeviceTokenResponse_type_def MeResponse_type_def TeammateDevice_type_def TeammateDeviceList_type_def TeammateSenderPref_type_def TeammatePolicy_type_def PendingInboxShare_type_def PendingInboxResponse_type_def PresignedUpload_type_def ShareRef_type_def UploadCreateResponse_type_def LivePutResponse_type_def LiveFlushResponse_type_def UploadCompleteResponse_type_def Share_type_def ListSharesResponse_type_def DeviceSession_type_def ListDevicesResponse_type_def InboxShare_type_def InboxResponse_type_def RevokeAllResponse_type_def UsageResponse_type_def UpdateDownloads_type_def UpdateCheckResponse_type_def AnalyticsTimelinePoint_type_def ShareAccessEvent_type_def ShareAnalyticsResponse_type_def OnboardingStatus_type_def P2PICEServer_type_def P2PRoomAuth_type_def APITokenInfo_type_def CreateAPITokenResponse_type_def ResealEntry_type_def ResealQueueResponse_type_def LanTrustChallenge_type_def LanTrustedDevice_type_def LanTrustList_type_def AgentSessionInfo_type_def AgentInjectResult_type_def AgentRequest_type_def AgentInjectState_type_def AgentGrant_type_def Goal_type_def ProjectAgentAddress_type_def AgentInvite_type_def AgentJoinResult_type_def

section \<open>Well-typed values\<close>

fun has_type :: "gtype \<Rightarrow> gval \<Rightarrow> bool" where
  "has_type TStr v = (case v of VStr _ \<Rightarrow> True | _ \<Rightarrow> False)"
| "has_type TBool v = (case v of VBool _ \<Rightarrow> True | _ \<Rightarrow> False)"
| "has_type (TInt sg w) v = (case v of VInt n \<Rightarrow> int_fits sg w n | _ \<Rightarrow> False)"
| "has_type (TList t) v = (case v of VList None \<Rightarrow> True | VList (Some vs) \<Rightarrow> list_all (has_type t) vs | _ \<Rightarrow> False)"
| "has_type (TPtr t) v = (case v of VPtr None \<Rightarrow> True | VPtr (Some u) \<Rightarrow> has_type t u | _ \<Rightarrow> False)"
| "has_type TMap v = (case v of VMap None \<Rightarrow> True | VMap (Some m) \<Rightarrow> distinct (map fst m) | _ \<Rightarrow> False)"
| "has_type (TObj fs) v = (case v of VObj vs \<Rightarrow>
      list_all2 (\<lambda>f x. fst x = fst f \<and> has_type (snd f) (snd x)) fs vs | _ \<Rightarrow> False)"

text \<open>Field names are distinct and a pointer points to a scalar.\<close>

fun wf_type :: "gtype \<Rightarrow> bool" where
  "wf_type (TList t) = wf_type t"
| "wf_type (TPtr t) = (case t of TStr \<Rightarrow> True | TBool \<Rightarrow> True | TInt _ _ \<Rightarrow> True | _ \<Rightarrow> False)"
| "wf_type (TObj fs) = (distinct (map fst fs) \<and> list_all (\<lambda>f. wf_type (snd f)) fs)"
| "wf_type _ = True"

lemma zero_typed: "has_type t (zero_of t)"
proof (induction t)
  case (TObj fs)
  have "has_type (snd f) (zero_of (snd f))" if "f \<in> set fs" for f
    using TObj [OF that, of "snd f"] by (cases f) simp
  then show ?case by (simp add: list.rel_map list.rel_refl_strong)
qed (simp_all add: int_fits_def)

abbreviation fields_typed :: "(string \<times> gtype) list \<Rightarrow> (string \<times> gval) list \<Rightarrow> bool" where
  "fields_typed \<equiv> list_all2 (\<lambda>f x. fst x = fst f \<and> has_type (snd f) (snd x))"

lemma fields_typed_names: "fields_typed fs vs \<Longrightarrow> map fst vs = map fst fs"
  by (induction rule: list_all2_induct) auto

lemma field_named_mem: "field_named fs k = Some f \<Longrightarrow> f \<in> set fs"
  by (auto simp: field_named_def find_Some_iff split: option.splits)

lemma field_value_typed:
  assumes "fields_typed fs vs" "distinct (map fst fs)" "f \<in> set fs"
  shows "has_type (snd f) (field_value vs (fst f) d)"
  using assms
proof (induction rule: list_all2_induct)
  case (Cons g fs x vs)
  show ?case
  proof (cases "fst x = fst f")
    case True
    then have "f = g" using Cons by (auto simp: image_iff)
    then show ?thesis using Cons True by (cases x) (simp add: field_value_def)
  next
    case False
    then show ?thesis using Cons by (cases x) (auto simp: field_value_def)
  qed
qed simp

lemma set_field_typed:
  assumes "fields_typed fs vs" "distinct (map fst fs)" "f \<in> set fs" "has_type (snd f) v"
  shows "fields_typed fs (set_field (fst f) v vs)"
  using assms
proof (induction rule: list_all2_induct)
  case (Cons g fs x vs)
  show ?case
  proof (cases "f \<in> set fs")
    case True
    then show ?thesis using Cons by (auto simp: set_field_def image_iff)
  next
    case False
    then have f: "f = g" using Cons.prems by simp
    have "set_field (fst f) v vs = vs"
    proof -
      have "fst f \<notin> fst ` set vs" using Cons.prems(1) f fields_typed_names [OF Cons.hyps(2)] by (metis distinct.simps(2) list.set_map list.simps(9))
      then show ?thesis by (auto simp: set_field_def image_iff intro!: map_idI)
    qed
    then show ?thesis using Cons f by (simp add: set_field_def)
  qed
qed (simp add: set_field_def)

lemma decode_map_distinct: "decode_map m kvs = Some m' \<Longrightarrow> distinct (map fst m) \<Longrightarrow> distinct (map fst m')"
  by (induction m kvs rule: decode_map.induct) (auto split: json.splits intro: distinct_update)

lemma decode_typed_all:
  "wf_type t \<Longrightarrow> has_type t old \<Longrightarrow> decode t old j = Some v \<Longrightarrow> has_type t v"
  "distinct (map fst fs) \<Longrightarrow> list_all (\<lambda>f. wf_type (snd f)) fs \<Longrightarrow> fields_typed fs vs \<Longrightarrow> decode_fields fs vs kvs = Some vs' \<Longrightarrow>
     fields_typed fs vs'"
  "wf_type t \<Longrightarrow> list_all (has_type t) olds \<Longrightarrow> decode_elems t olds js = Some us \<Longrightarrow> list_all (has_type t) us"
proof (induction t old j and fs vs kvs and t olds js arbitrary: v and vs' and us rule: decode_decode_fields_decode_elems.induct)
  case (1 t old j)
  show ?case
  proof (cases "j = JNull")
    case True
    then show ?thesis using "1.prems" by (cases t) (auto simp: decode.simps null_value_def)
  next
    case nn: False
    show ?thesis
    proof (cases t)
      case (TPtr u)
      then obtain w where w: "decode u (pointee u old) j = Some w" "v = VPtr (Some w)"
        using "1.prems" nn by (auto simp: decode.simps)
      have "has_type u (pointee u old)" using 1(5) TPtr zero_typed [of u]
        by (auto simp: pointee_def split: gval.splits option.splits)
      moreover have "wf_type u" using 1(4) TPtr by (cases u) auto
      ultimately show ?thesis using 1(3) [OF nn TPtr _ _ w(1)] TPtr w(2) by simp
    next
      case (TList u)
      then obtain js ws where w: "j = JArr js" "decode_elems u (elems_of old) js = Some ws" "v = VList (Some ws)"
        using "1.prems" nn by (auto simp: decode.simps split: json.splits)
      have "list_all (has_type u) (elems_of old)" using 1(5) TList
        by (auto simp: elems_of_def split: gval.splits option.splits)
      then show ?thesis using 1(1) [OF nn TList w(1) _ _ w(2)] 1(4) TList w(3) by simp
    next
      case (TObj fs)
      then obtain kvs ws where w: "j = JObj kvs" "decode_fields fs (fields_of old) kvs = Some ws" "v = VObj ws"
        using "1.prems" nn by (auto simp: decode.simps split: json.splits)
      have "fields_typed fs (fields_of old)" using 1(5) TObj
        by (auto simp: fields_of_def split: gval.splits)
      then show ?thesis using 1(2) [OF nn TObj w(1) _ _ _ w(2)] 1(4) TObj w(3) by simp
    next
      case TMap
      then obtain kvs m where w: "j = JObj kvs" "decode_map (map_of_val old) kvs = Some m" "v = VMap (Some m)"
        using "1.prems" nn by (auto simp: decode.simps split: json.splits)
      have "distinct (map fst (map_of_val old))" using 1(5) TMap
        by (auto simp: map_of_val_def split: gval.splits option.splits)
      then show ?thesis using decode_map_distinct [OF w(2)] w(3) TMap by simp
    qed (use "1.prems" nn in \<open>auto simp: decode.simps split: json.splits if_splits\<close>)
  qed
next
  case (3 fs vs kv kvs)
  show ?case
  proof (cases "field_named fs (fst kv)")
    case None
    then show ?thesis using 3 by simp
  next
    case (Some f)
    then have f: "f \<in> set fs" by (rule field_named_mem)
    then obtain w where w: "decode (snd f) (field_value vs (fst f) (zero_of (snd f))) (snd kv) = Some w"
      "decode_fields fs (set_field (fst f) w vs) kvs = Some vs'" using 3 Some by (auto split: option.splits)
    have "has_type (snd f) (field_value vs (fst f) (zero_of (snd f)))"
      using 3 f by (intro field_value_typed) auto
    moreover have "wf_type (snd f)" using 3(5) f by (simp add: list_all_iff)
    ultimately have "has_type (snd f) w" using 3(2) [OF Some] w(1) by blast
    then have "fields_typed fs (set_field (fst f) w vs)" using 3 f by (intro set_field_typed) auto
    then show ?thesis using 3(3) [OF Some w(1)] 3 w(2) by blast
  qed
next
  case (5 t olds j js)
  then obtain w ws where w: "decode t (case olds of [] \<Rightarrow> zero_of t | v # _ \<Rightarrow> v) j = Some w"
    "decode_elems t (tl olds) js = Some ws" "us = w # ws" by (auto split: option.splits)
  have "has_type t (case olds of [] \<Rightarrow> zero_of t | v # _ \<Rightarrow> v)" using 5(4) zero_typed by (cases olds) auto
  moreover have "list_all (has_type t) (tl olds)" using 5(4) by (cases olds) auto
  ultimately show ?case using 5(1) [OF _ _ w(1)] 5(2) [OF w(1)] 5(3) w by auto
qed simp_all

section \<open>Values as JSON\<close>

text \<open>A value as a server renders it: every field in the order of the struct.\<close>

fun encode :: "gval \<Rightarrow> json" where
  "encode (VStr s) = JStr s"
| "encode (VBool b) = JBool b"
| "encode (VInt n) = JNum n"
| "encode (VList o1) = (case o1 of None \<Rightarrow> JNull | Some vs \<Rightarrow> JArr (map encode vs))"
| "encode (VObj fs) = JObj (map (\<lambda>f. (fst f, encode (snd f))) fs)"
| "encode (VPtr o1) = (case o1 of None \<Rightarrow> JNull | Some v \<Rightarrow> encode v)"
| "encode (VMap o1) = (case o1 of None \<Rightarrow> JNull | Some m \<Rightarrow> JObj (map (\<lambda>f. (fst f, JStr (snd f))) m))"

lemma update_fresh: "k \<notin> fst ` set m \<Longrightarrow> AList.update k v m = m @ [(k, v)]"
  by (induction m) auto

lemma decode_map_encode:
  "distinct (map fst (m @ ms)) \<Longrightarrow> decode_map m (map (\<lambda>f. (fst f, JStr (snd f))) ms) = Some (m @ ms)"
proof (induction ms arbitrary: m)
  case (Cons f ms)
  then show ?case using Cons.IH [of "m @ [f]"] by (simp add: update_fresh)
qed simp

text \<open>A field not yet decoded is at its zero value behind those that are.\<close>

lemma field_named_exact: "distinct (map fst fs) \<Longrightarrow> f \<in> set fs \<Longrightarrow> field_named fs (fst f) = Some f"
proof -
  assume d: "distinct (map fst fs)" and f: "f \<in> set fs"
  have "find (\<lambda>g. fst g = fst f) fs = Some f" using d f by (induction fs) (auto simp: image_iff)
  then show ?thesis by (simp add: field_named_def)
qed

lemma field_value_after:
  "n \<notin> fst ` set vs \<Longrightarrow> field_value (vs @ (n, z) # ws) n d = z"
  by (simp add: field_value_def map_add_def map_of_eq_None_iff split: option.splits)
    (metis domI dom_map_of_conv_image_fst)

lemma set_field_after:
  "n \<notin> fst ` set vs \<Longrightarrow> n \<notin> fst ` set ws \<Longrightarrow> set_field n v (vs @ (n, z) # ws) = vs @ (n, v) # ws"
  by (auto simp: set_field_def image_iff intro!: map_idI)

lemma encode_not_null: "has_type t v \<Longrightarrow> (case t of TStr \<Rightarrow> True | TBool \<Rightarrow> True | TInt _ _ \<Rightarrow> True | _ \<Rightarrow> False) \<Longrightarrow> encode v \<noteq> JNull"
  by (cases t; cases v) auto

lemma decode_encode_all:
  "wf_type t \<Longrightarrow> has_type t v \<Longrightarrow> decode t (zero_of t) (encode v) = Some v"
proof (induction t arbitrary: v)
  case (TList t)
  show ?case
  proof (cases "v = VList None")
    case True
    then show ?thesis by (simp add: decode.simps null_value_def)
  next
    case False
    then obtain vs where v: "v = VList (Some vs)" "list_all (has_type t) vs"
      using TList.prems(2) by (auto split: gval.splits option.splits)
    have "decode_elems t [] (map encode us) = Some us" if "list_all (has_type t) us" for us
      using that TList.IH TList.prems(1) by (induction us) auto
    then show ?thesis using v by (simp add: decode.simps elems_of_def)
  qed
next
  case (TPtr t)
  show ?case
  proof (cases "v = VPtr None")
    case True
    then show ?thesis by (simp add: decode.simps null_value_def)
  next
    case False
    then obtain u where u: "v = VPtr (Some u)" "has_type t u"
      using TPtr.prems(2) by (auto split: gval.splits option.splits)
    have "wf_type t" using TPtr.prems(1) by (cases t) auto
    with TPtr.IH u(2) have "decode t (zero_of t) (encode u) = Some u" by blast
    moreover have "encode u \<noteq> JNull" using encode_not_null [OF u(2)] TPtr.prems(1) by (cases t) auto
    ultimately show ?thesis using u(1) by (simp add: decode.simps [of "TPtr t"] pointee_def)
  qed
next
  case (TObj fs)
  obtain vs where v: "v = VObj vs" "fields_typed fs vs" using TObj.prems(2) by (auto split: gval.splits)
  have d: "distinct (map fst fs)" using TObj.prems(1) by simp
  have one: "decode (snd f) (zero_of (snd f)) (encode x) = Some x" if "f \<in> set fs" "has_type (snd f) x" for f x
    using TObj.IH [of f "snd f"] that TObj.prems(1) by (cases f) (auto simp: list_all_iff)
  have "decode_fields fs (done @ map (\<lambda>f. (fst f, zero_of (snd f))) todo) (map (\<lambda>f. (fst f, encode (snd f))) us) = Some (done @ us)"
    if "fs = pre @ todo" "map fst done = map fst pre" "fields_typed todo us" for pre todo "done" us
    using that
  proof (induction todo arbitrary: pre "done" us)
    case (Cons f todo)
    obtain x xs where us: "us = (fst f, x) # xs" "has_type (snd f) x" "fields_typed todo xs"
      using Cons.prems(3) by (cases us) auto
    have "f \<in> set fs" using Cons.prems(1) by simp
    have "fst f \<notin> set (map fst pre)" "fst f \<notin> fst ` set todo" using d Cons.prems(1) by auto
    then have fresh: "fst f \<notin> fst ` set done" "fst f \<notin> fst ` set todo" using Cons.prems(2) by (metis list.set_map)+
    have "decode_fields fs ((done @ [(fst f, x)]) @ map (\<lambda>f. (fst f, zero_of (snd f))) todo) (map (\<lambda>f. (fst f, encode (snd f))) xs) =
        Some ((done @ [(fst f, x)]) @ xs)"
      using Cons.IH [of "pre @ [f]" "done @ [(fst f, x)]" xs] Cons.prems us(3) by simp
    then show ?case using us(1) fresh one [OF \<open>f \<in> set fs\<close> us(2)]
      by (simp add: field_named_exact [OF d \<open>f \<in> set fs\<close>] field_value_after set_field_after image_image)
  qed simp
  from this [of "[]" fs "[]" vs] v show ?case by (simp add: decode.simps [of "TObj fs"] fields_of_def)
next
  case TMap
  show ?case
  proof (cases "v = VMap None")
    case True
    then show ?thesis by (simp add: decode.simps null_value_def)
  next
    case False
    then obtain m where "v = VMap (Some m)" "distinct (map fst m)" using TMap.prems(2) by (auto split: gval.splits option.splits)
    then show ?thesis using decode_map_encode [of "[]" m] by (simp add: decode.simps map_of_val_def)
  qed
qed (auto simp: decode.simps split: gval.splits)

section \<open>Properties\<close>

lemma response_types_wf: "list_all wf_type response_types"
  by (simp add: response_types_def response_defs)

lemma request_attempts_got:
  "request_attempts env got other req tot ns = (rs, ws, Inr v) \<Longrightarrow> \<exists>resp. success resp \<and> got resp = Inr v"
  by (induction ns arbitrary: tot rs ws) (auto split: if_splits option.splits verdict.splits prod.splits)



text \<open>What a server renders from a value of a response type is what the client reads: decoding the rendered value
  into a fresh struct gives the value back, nil slices, maps and pointers included.\<close>

theorem response_roundtrip:
  assumes "t \<in> set response_types" "has_type t v" "parse b = Some (encode v)"
  shows "unmarshal parse t b = Some v"
proof -
  have "wf_type t" using assms(1) response_types_wf by (simp add: list_all_iff)
  then show ?thesis using decode_encode_all assms(2,3) by (simp add: unmarshal_def)
qed

lemma response_roundtrip_witness:
  "unmarshal (\<lambda>_. Some (encode (VObj [(''revoked'', VInt 3)]))) RevokeAllResponse_type [] =
   Some (VObj [(''revoked'', VInt 3)])"
proof (rule response_roundtrip)
  show "RevokeAllResponse_type \<in> set response_types" by (simp add: response_types_def)
qed (simp_all add: RevokeAllResponse_type_def int_fits_def)

end
