(* ===== verification/TrustAdmin.thy ===== *)
theory TrustAdmin
  imports Trust "HOL-Library.Multiset" "HOL-Library.List_Lexorder" "HOL-Library.Char_ord"
begin

text \<open>
  What is left of the local side of device trust (\<open>lanid/lanid.go\<close>): listing the devices of the verified cache, the
  retired local writers, which refuse, and the removal of the file they once wrote.
\<close>

text \<open>\<open>List\<close>: by name. \<open>sort.Slice\<close> leaves the order of devices with the same name open; here it is the order of the
  list that was signed.\<close>

definition trusted_List :: "trust_services \<Rightarrow> os \<Rightarrow> int \<Rightarrow> files \<Rightarrow> files \<times> TrustedDevice list" where
  "trusted_List tv s now fs = (case cachedDevices tv s now fs of (fs1, ds) \<Rightarrow> (fs1, sort_key td_name ds))"

datatype local_trust_err = ErrLocalTrustDisabled

definition Trust_local :: "files \<Rightarrow> string \<Rightarrow> string \<Rightarrow> files \<times> local_trust_err option" where
  "Trust_local fs fp name = (fs, Some ErrLocalTrustDisabled)"

definition TrustWithMode :: "files \<Rightarrow> string \<Rightarrow> string \<Rightarrow> string \<Rightarrow> files \<times> local_trust_err option" where
  "TrustWithMode fs fp name md = (fs, Some ErrLocalTrustDisabled)"

definition SetMode :: "files \<Rightarrow> string \<Rightarrow> string \<Rightarrow> files \<times> local_trust_err option" where
  "SetMode fs fp md = (fs, Some ErrLocalTrustDisabled)"

definition Untrust :: "files \<Rightarrow> string \<Rightarrow> files \<times> local_trust_err option" where
  "Untrust fs fp = (fs, Some ErrLocalTrustDisabled)"

definition RemoveLegacyTrustFile :: "os \<Rightarrow> files \<Rightarrow> files" where
  "RemoveLegacyTrustFile s fs = (case lan_path s ''lan_trusted.json'' of Inl _ \<Rightarrow> fs | Inr p \<Rightarrow> fst (remove_file s fs p))"

section \<open>Facts\<close>

text \<open>What is listed is what the server signed for the account logged in, each device as often, in the order of the names.\<close>

theorem trusted_List_signed:
  assumes "trusted_List tv s now fs = (fs', ds)"
  shows "sorted (map td_name ds) \<and> (\<forall>d\<in>set ds. \<exists>(f :: signedTrustFile) p account. trustKeyAllowed (tv_keys_env tv) (sf_public f) \<and>
    VerifyTrustList tv (sf_list f) (sf_public f) now = Inr p \<and> mset ds = mset (tp_devices p) \<and>
    tv_account tv = Some account \<and> account fs = (fs', tp_account p) \<and> tp_account p \<noteq> [])"
proof -
  obtain cs where c: "cachedDevices tv s now fs = (fs', cs)" "ds = sort_key td_name cs"
    using assms by (auto simp: trusted_List_def split: prod.splits)
  have m: "mset ds = mset cs" "set ds = set cs" using c(2) by simp_all
  have "\<exists>(f :: signedTrustFile) p account. trustKeyAllowed (tv_keys_env tv) (sf_public f) \<and>
    VerifyTrustList tv (sf_list f) (sf_public f) now = Inr p \<and> mset ds = mset (tp_devices p) \<and>
    tv_account tv = Some account \<and> account fs = (fs', tp_account p) \<and> tp_account p \<noteq> []" if "d \<in> set ds" for d
    using cachedDevices_memberD [OF c(1), of d] that m by (metis (no_types, lifting))
  then show ?thesis using c(2) by simp
qed

text \<open>Removing the legacy file touches no other file.\<close>

lemma RemoveLegacyTrustFile_only:
  "(\<And>p. lan_path s ''lan_trusted.json'' = Inr p \<Longrightarrow> q \<noteq> p) \<Longrightarrow> RemoveLegacyTrustFile s fs q = fs q"
  by (auto simp: RemoveLegacyTrustFile_def remove_file_def split: sum.splits)

end
