(* ===== verification/ScanLoop.thy ===== *)
theory ScanLoop
  imports ScanRoute "HOL-Library.Multiset"
begin

text \<open>
  A scan while it runs (\<open>Scan\<close> of \<open>lanshare/scan.go\<close>): one goroutine for each target, a semaphore that caps the probes,
  the list they append to, and the cancellation of the context, as a step relation; ScanRoute has the result that does
  not depend on it. Also how the tailscale command is found and asked.
\<close>

section \<open>The goroutines\<close>

text \<open>The targets not yet started, the goroutines that wait for the semaphore, those that probe, what was found, whether
  the context is cancelled, and what \<open>Scan\<close> returned: with the error of the context or without one.\<close>

record scanning =
  sl_todo :: "netaddr list"
  sl_waiting :: "netaddr multiset"
  sl_probing :: "netaddr multiset"
  sl_found :: "ScannedPeer list"
  sl_cancelled :: bool
  sl_result :: "(bool \<times> ScannedPeer list) option"

definition scan_start :: "netaddr list \<Rightarrow> scanning" where
  "scan_start targets = \<lparr>sl_todo = targets, sl_waiting = {#}, sl_probing = {#}, sl_found = [], sl_cancelled = False, sl_result = None\<rparr>"

text \<open>The loop over the targets.\<close>

definition launch :: "netaddr \<Rightarrow> scanning \<Rightarrow> scanning" where
  "launch a s = s\<lparr>sl_todo := tl (sl_todo s), sl_waiting := add_mset a (sl_waiting s)\<rparr>"

definition acquire_slot :: "netaddr \<Rightarrow> scanning \<Rightarrow> scanning" where
  "acquire_slot a s = s\<lparr>sl_waiting := sl_waiting s - {#a#}, sl_probing := add_mset a (sl_probing s)\<rparr>"

text \<open>The end of a probe with its outcome: the peer is appended under the lock, then the slot is free.\<close>

definition end_probe :: "netaddr \<Rightarrow> ScannedPeer option \<Rightarrow> scanning \<Rightarrow> scanning" where
  "end_probe a r s = s\<lparr>sl_probing := sl_probing s - {#a#}, sl_found := sl_found s @ (case r of None \<Rightarrow> [] | Some p \<Rightarrow> [p])\<rparr>"

definition scan_return :: "scanning \<Rightarrow> scanning" where
  "scan_return s = s\<lparr>sl_result := Some (False, sort_key sp_host (sl_found s))\<rparr>"

definition scan_abort :: "scanning \<Rightarrow> scanning" where
  "scan_abort s = s\<lparr>sl_result := Some (True, sl_found s)\<rparr>"

text \<open>\<open>probe\<close> is the outcome for a target when nothing interrupts it, \<open>conc\<close> the capacity of the semaphore. A probe of a
  cancelled context may fail.\<close>

inductive scan_step :: "(netaddr \<Rightarrow> ScannedPeer option) \<Rightarrow> nat \<Rightarrow> scanning \<Rightarrow> scanning \<Rightarrow> bool" for probe conc where
  Launch: "sl_result s = None \<Longrightarrow> sl_todo s = a # as \<Longrightarrow> \<not> sl_cancelled s \<Longrightarrow> scan_step probe conc s (launch a s)"
| Abort: "sl_result s = None \<Longrightarrow> sl_todo s \<noteq> [] \<Longrightarrow> sl_cancelled s \<Longrightarrow> scan_step probe conc s (scan_abort s)"
| Acquire: "a \<in># sl_waiting s \<Longrightarrow> size (sl_probing s) < conc \<Longrightarrow> scan_step probe conc s (acquire_slot a s)"
| Probe: "a \<in># sl_probing s \<Longrightarrow> scan_step probe conc s (end_probe a (probe a) s)"
| Interrupted: "a \<in># sl_probing s \<Longrightarrow> sl_cancelled s \<Longrightarrow> scan_step probe conc s (end_probe a None s)"
| CancelScan: "scan_step probe conc s (s\<lparr>sl_cancelled := True\<rparr>)"
| Return: "sl_result s = None \<Longrightarrow> sl_todo s = [] \<Longrightarrow> sl_waiting s = {#} \<Longrightarrow> sl_probing s = {#} \<Longrightarrow>
    scan_step probe conc s (scan_return s)"

text \<open>The steps of the scan that \<open>Scan\<close> plans.\<close>

definition scan_probe :: "scan_world \<Rightarrow> ScanOptions \<Rightarrow> netaddr \<Rightarrow> ScannedPeer option" where
  "scan_probe w op = scan_target (sw_crypto w) (sw_net w) (sw_self w) (sn_port (scan_defaults op)) (snd (scan_plan w (scan_defaults op)))"

definition scan_slots :: "ScanOptions \<Rightarrow> nat" where
  "scan_slots op = nat (sn_concurrency (scan_defaults op))"

definition scan_targets :: "scan_world \<Rightarrow> ScanOptions \<Rightarrow> netaddr list" where
  "scan_targets w op = fst (scan_plan w (scan_defaults op))"

abbreviation scan_run :: "scan_world \<Rightarrow> ScanOptions \<Rightarrow> scanning \<Rightarrow> bool" where
  "scan_run w op s \<equiv> (scan_step (scan_probe w op) (scan_slots op))\<^sup>*\<^sup>* (scan_start (scan_targets w op)) s"

section \<open>The tailscale command\<close>

text \<open>\<open>look\<close> is \<open>exec.LookPath\<close>, \<open>programs\<close> the variable \<open>ProgramFiles\<close>, \<open>is_file\<close> the test of a candidate, and \<open>join\<close> the
  \<open>filepath.Join\<close> of Windows.\<close>

definition tailscale_candidates :: "(string list \<Rightarrow> string) \<Rightarrow> string \<Rightarrow> string \<Rightarrow> string list" where
  "tailscale_candidates join goos programs =
     (let b = [CHR 0x5C] in
      if goos = ''windows'' then
        [''C:'' @ b @ ''Program Files'' @ b @ ''Tailscale'' @ b @ ''tailscale.exe'',
         ''C:'' @ b @ ''Program Files (x86)'' @ b @ ''Tailscale'' @ b @ ''tailscale.exe''] @
        (if programs \<noteq> [] then [join [programs, ''Tailscale'', ''tailscale.exe'']] else [])
      else if goos = ''darwin'' then
        [''/Applications/Tailscale.app/Contents/MacOS/Tailscale'', ''/usr/local/bin/tailscale'', ''/opt/homebrew/bin/tailscale'']
      else [''/usr/bin/tailscale'', ''/usr/local/bin/tailscale''])"

definition tailscaleBinary ::
  "(string list \<Rightarrow> string) \<Rightarrow> string \<Rightarrow> string \<Rightarrow> string option \<Rightarrow> (string \<Rightarrow> bool) \<Rightarrow> string" where
  "tailscaleBinary join goos programs look is_file = (case look of
     Some p \<Rightarrow> p
   | None \<Rightarrow> (case find is_file (tailscale_candidates join goos programs) of None \<Rightarrow> [] | Some c \<Rightarrow> c))"

text \<open>What the command says of the tailnet: nothing when there is no command, it fails or its output does not parse.\<close>

definition tailscale_status ::
  "(string \<Rightarrow> bytes option) \<Rightarrow> (bytes \<Rightarrow> (bool \<times> string list) list option) \<Rightarrow> string \<Rightarrow> (bool \<times> string list) list option" where
  "tailscale_status run un bin = (if bin = [] then None else Option.bind (run bin) un)"

section \<open>Facts\<close>

lemma tailscaleBinary_found:
  "tailscaleBinary join goos programs None is_file \<noteq> [] \<Longrightarrow> is_file (tailscaleBinary join goos programs None is_file)"
proof -
  have f: "find P xs = Some x \<Longrightarrow> P x" for P :: "string \<Rightarrow> bool" and xs x by (auto simp: find_Some_iff)
  assume "tailscaleBinary join goos programs None is_file \<noteq> []"
  then show ?thesis using f [of is_file] by (auto simp: tailscaleBinary_def split: option.splits)
qed

lemma no_command_no_tailnet: "tailscalePeers (tailscale_status run un []) = []"
  by (simp add: tailscale_status_def tailscalePeers_def)

inductive_cases scan_stepE: "scan_step probe conc s t"

lemmas scan_step_defs = launch_def acquire_slot_def end_probe_def scan_return_def scan_abort_def

definition outcomes :: "(netaddr \<Rightarrow> ScannedPeer option) \<Rightarrow> netaddr multiset \<Rightarrow> ScannedPeer multiset" where
  "outcomes probe M = sum_mset (image_mset (\<lambda>a. case probe a of None \<Rightarrow> {#} | Some p \<Rightarrow> {#p#}) M)"

lemma outcomes_simps [simp]:
  "outcomes probe {#} = {#}"
  "outcomes probe (add_mset a M) = (case probe a of None \<Rightarrow> {#} | Some p \<Rightarrow> {#p#}) + outcomes probe M"
  "outcomes probe (M + N) = outcomes probe M + outcomes probe N"
  by (simp_all add: outcomes_def)

lemma outcomes_diff: "a \<in># M \<Longrightarrow> outcomes probe M = (case probe a of None \<Rightarrow> {#} | Some p \<Rightarrow> {#p#}) + outcomes probe (M - {#a#})"
  by (metis insert_DiffM outcomes_simps(2))

lemma outcomes_list: "outcomes probe (mset as) = mset (List.map_filter probe as)"
  by (induction as) (auto simp: List.map_filter_simps split: option.splits)

text \<open>The invariant: found, and still to be found, are the outcomes of all targets; once cancelled, found is a part.\<close>

definition result_ok :: "ScannedPeer multiset \<Rightarrow> bool \<Rightarrow> (bool \<times> ScannedPeer list) option \<Rightarrow> bool" where
  "result_ok all cancelled r \<longleftrightarrow> (\<forall>aborted ps. r = Some (aborted, ps) \<longrightarrow> mset ps \<subseteq># all \<and>
     (\<not> aborted \<longrightarrow> sorted (map sp_host ps)) \<and> (\<not> cancelled \<longrightarrow> \<not> aborted \<and> mset ps = all))"

definition scan_ok :: "(netaddr \<Rightarrow> ScannedPeer option) \<Rightarrow> nat \<Rightarrow> netaddr list \<Rightarrow> scanning \<Rightarrow> bool" where
  "scan_ok probe conc targets s \<longleftrightarrow> size (sl_probing s) \<le> conc \<and>
     mset (sl_found s) + outcomes probe (sl_probing s + sl_waiting s + mset (sl_todo s)) \<subseteq># outcomes probe (mset targets) \<and>
     (\<not> sl_cancelled s \<longrightarrow>
       mset (sl_found s) + outcomes probe (sl_probing s + sl_waiting s + mset (sl_todo s)) = outcomes probe (mset targets)) \<and>
     result_ok (outcomes probe (mset targets)) (sl_cancelled s) (sl_result s)"

lemma scan_step_ok: "scan_step probe conc s t \<Longrightarrow> scan_ok probe conc targets s \<Longrightarrow> scan_ok probe conc targets t"
proof (erule scan_stepE)
  fix a as assume "scan_ok probe conc targets s" "t = launch a s" "sl_todo s = a # as"
  then show ?thesis by (simp add: scan_ok_def scan_step_defs ac_simps)
next
  assume "scan_ok probe conc targets s" "t = scan_abort s" "sl_cancelled s"
  then show ?thesis
    by (auto simp: scan_ok_def scan_step_defs result_ok_def intro: subset_mset.order_trans [OF mset_subset_eq_add_left])
next
  fix a assume a: "scan_ok probe conc targets s" "t = acquire_slot a s" "a \<in># sl_waiting s" "size (sl_probing s) < conc"
  then obtain M where "sl_waiting s = add_mset a M" using multi_member_split by metis
  then show ?thesis using a by (simp add: scan_ok_def scan_step_defs ac_simps)
next
  fix a assume a: "scan_ok probe conc targets s" "t = end_probe a (probe a) s" "a \<in># sl_probing s"
  then obtain M where "sl_probing s = add_mset a M" using multi_member_split by metis
  then show ?thesis using a by (cases "probe a") (simp_all add: scan_ok_def scan_step_defs ac_simps)
next
  fix a assume a: "scan_ok probe conc targets s" "t = end_probe a None s" "a \<in># sl_probing s" "sl_cancelled s"
  then obtain M where "sl_probing s = add_mset a M" using multi_member_split by metis
  then show ?thesis using a
    by (cases "probe a") (auto simp: scan_ok_def scan_step_defs ac_simps dest: mset_subset_eq_insertD subset_mset.less_imp_le)
next
  assume "scan_ok probe conc targets s" "t = s\<lparr>sl_cancelled := True\<rparr>"
  then show ?thesis by (auto simp: scan_ok_def result_ok_def)
next
  assume "scan_ok probe conc targets s" "t = scan_return s" "sl_todo s = []" "sl_waiting s = {#}" "sl_probing s = {#}"
  then show ?thesis by (simp add: scan_ok_def scan_step_defs result_ok_def)
qed

lemma scan_reachable_ok: "(scan_step probe conc)\<^sup>*\<^sup>* (scan_start targets) s \<Longrightarrow> scan_ok probe conc targets s"
proof (induction rule: rtranclp_induct)
  case base
  show ?case by (simp add: scan_ok_def scan_start_def result_ok_def)
qed (rule scan_step_ok)

lemma Scan_outcomes: "mset (Scan w op) = outcomes (scan_probe w op) (mset (scan_targets w op))"
  by (simp add: outcomes_list Scan_def scan_probe_def scan_targets_def Let_def split: prod.split)

section \<open>Properties\<close>

text \<open>C13 The order in which the probes run and end does not matter: at any time no more probes are in progress than the
  options allow, every peer found is one of the sequential scan, and a scan that was not cancelled returns the peers of
  the sequential scan, sorted by host.\<close>

theorem scan_interleaving:
  assumes "scan_run w op s"
  shows "size (sl_probing s) \<le> scan_slots op \<and> set (sl_found s) \<subseteq> set (Scan w op) \<and>
    (\<forall>aborted ps. sl_result s = Some (aborted, ps) \<and> \<not> sl_cancelled s \<longrightarrow>
       \<not> aborted \<and> mset ps = mset (Scan w op) \<and> sorted (map sp_host ps))"
proof -
  have ok: "scan_ok (scan_probe w op) (scan_slots op) (scan_targets w op) s" using assms by (rule scan_reachable_ok)
  then have "mset (sl_found s) \<subseteq># mset (Scan w op)" unfolding Scan_outcomes scan_ok_def
    using mset_subset_eq_add_left subset_mset.order_trans by blast
  then have "set (sl_found s) \<subseteq> set (Scan w op)" using set_mset_mono by fastforce
  with ok show ?thesis unfolding Scan_outcomes by (auto simp: scan_ok_def result_ok_def)
qed

text \<open>A scan whose context is cancelled after the last target was started returns what it has without an error.\<close>

theorem cancelled_scan_succeeds:
  assumes "scan_targets w op = [a]" "scan_slots op \<noteq> 0"
  shows "\<exists>s. scan_run w op s \<and> sl_cancelled s \<and> sl_result s = Some (False, [])"
proof -
  let ?step = "scan_step (scan_probe w op) (scan_slots op)"
  let ?s1 = "launch a (scan_start [a])" let ?s2 = "acquire_slot a ?s1" let ?s3 = "?s2\<lparr>sl_cancelled := True\<rparr>"
  let ?s4 = "end_probe a None ?s3" let ?s5 = "scan_return ?s4"
  have "?step (scan_start [a]) ?s1" by (rule Launch) (simp_all add: scan_start_def)
  moreover have "?step ?s1 ?s2" by (rule Acquire) (use assms(2) in \<open>simp_all add: launch_def scan_start_def\<close>)
  moreover have "?step ?s2 ?s3" by (rule CancelScan)
  moreover have "?step ?s3 ?s4" by (rule Interrupted) (simp_all add: acquire_slot_def)
  moreover have "?step ?s4 ?s5" by (rule Return) (simp_all add: scan_step_defs scan_start_def)
  ultimately have "scan_run w op ?s5" unfolding assms(1) by (meson converse_rtranclp_into_rtranclp rtranclp.rtrancl_refl)
  then show ?thesis by (intro exI [of _ ?s5]) (simp add: scan_step_defs scan_start_def)
qed

section \<open>Concrete inputs\<close>

lemma scan_interleaving_witness:
  "\<exists>s. scan_run demo_world (match_scan demo_match demo_heard) s \<and> size (sl_probing s) = 1 \<and>
     size (sl_probing s) \<le> scan_slots (match_scan demo_match demo_heard)"
proof -
  let ?op = "match_scan demo_match demo_heard"
  let ?step = "scan_step (scan_probe demo_world ?op) (scan_slots ?op)"
  have t: "browseTargets demo_heard = [A4 3232236041]" by (simp add: browseTargets_def demo_heard_def demo_address)
  have ts: "scan_targets demo_world ?op = [A4 3232236041]"
    by (simp add: scan_targets_def scan_plan_def scan_defaults_def match_scan_def t scanTargets_def wantTailnet_def
        tailscalePeers_def demo_world_def)
  have n: "scan_slots ?op \<noteq> 0" by (simp add: scan_slots_def scan_defaults_def)
  let ?s1 = "launch (A4 3232236041) (scan_start [A4 3232236041])" let ?s2 = "acquire_slot (A4 3232236041) ?s1"
  have "?step (scan_start [A4 3232236041]) ?s1" by (rule Launch) (simp_all add: scan_start_def)
  moreover have "?step ?s1 ?s2" by (rule Acquire) (use n in \<open>simp_all add: launch_def scan_start_def\<close>)
  ultimately have r: "scan_run demo_world ?op ?s2" unfolding ts by (meson converse_rtranclp_into_rtranclp rtranclp.rtrancl_refl)
  have "size (sl_probing ?s2) = 1" by (simp add: scan_step_defs scan_start_def)
  then show ?thesis using scan_interleaving [OF r] r by blast
qed

end
