(* ===== verification/Announce.thy ===== *)
theory Announce
  imports ScanRoute
begin

text \<open>
  Announcing a listener on the local network (\<open>Advertise\<close> and \<open>AdvertiseBroadcast\<close> of \<open>lanshare/mdns.go\<close>) together
  with the set of this process's own fingerprints (\<open>lanshare/self.go\<close>): what is registered, what browsing then leaves
  out, and this machine's own addresses. The mDNS library says whether it took the registration.
\<close>

text \<open>The state of the process with what it has on the network: for each closer the instance and the TXT record, as long as
  it is not closed.\<close>

definition Advertise :: "bool \<Rightarrow> string \<Rightarrow> ListenInfo \<Rightarrow> self_state \<Rightarrow> self_state \<times> (string \<times> string list) option" where
  "Advertise registered name info s =
     (if \<not> registered then (s, None)
      else (registerSelf (li_fingerprint info) s, Some (advert_instance name, receiverTXT info)))"

definition AdvertiseBroadcast ::
  "bool \<Rightarrow> string \<Rightarrow> ListenInfo \<Rightarrow> string \<Rightarrow> int \<Rightarrow> self_state \<Rightarrow> self_state \<times> (string \<times> string list) option" where
  "AdvertiseBroadcast registered name info fileName fileSize s =
     (if \<not> registered then (s, None)
      else (registerSelf (li_fingerprint info) s, Some (broadcast_instance name, broadcastTXT name info fileName fileSize)))"

text \<open>\<open>IP.String\<close>, and \<open>localIPs\<close> over what \<open>net.InterfaceAddrs\<close> returns, if it does.\<close>

definition ip_string :: "nat list \<Rightarrow> string" where
  "ip_string ip = (case to4 ip of Some v \<Rightarrow> v4_string v | None \<Rightarrow> v6_string ip)"

definition localIPs :: "iface_addr list option \<Rightarrow> string list" where
  "localIPs addrs = (case addrs of
     None \<Rightarrow> []
   | Some as \<Rightarrow> List.map_filter (\<lambda>a. case a of IPNet ip _ \<Rightarrow> Some (ip_string ip) | OtherAddr \<Rightarrow> None) as)"

section \<open>Facts\<close>

lemma localIPs_self: "IPNet ip ones \<in> set as \<Longrightarrow> ip_string ip \<noteq> [] \<Longrightarrow> isSelfHost (localIPs (Some as)) (ip_string ip)"
  by (force simp: isSelfHost_def localIPs_def List.map_filter_def)

lemma txtValue_fingerprint: "txtValue (receiverTXT info) ''f'' = li_fingerprint info"
  by (simp add: txtValue_def receiverTXT_def has_prefix_def trim_prefix_def)

lemma txtValue_offer_fingerprint: "txtValue (broadcastTXT name info fn n) ''f'' = li_fingerprint info"
  by (simp add: txtValue_def broadcastTXT_def has_prefix_def trim_prefix_def)

lemma self_reachable_steps: "self_step\<^sup>*\<^sup>* s t \<Longrightarrow> self_reachable s \<Longrightarrow> self_reachable t"
  by (induction rule: rtranclp_induct) (auto intro: self_reachable.Step)

lemma advertised_closer:
  assumes "Advertise True name info s = (s1, adv) \<or> AdvertiseBroadcast True name info fileName fileSize s = (s1, adv)"
  shows "s1 = registerSelf (li_fingerprint info) s \<and> (\<exists>inst txt. adv = Some (inst, txt) \<and> txtValue txt ''f'' = li_fingerprint info)"
  using assms by (auto simp: Advertise_def AdvertiseBroadcast_def txtValue_fingerprint txtValue_offer_fingerprint)

section \<open>Properties\<close>

text \<open>A device never lists itself while it is advertised: after a receive or a broadcast advert was registered, whatever
  else was registered and closed since, as long as this advert is not closed no entry of the list carries its
  fingerprint, whatever the network delivers; and the entry the advert itself puts on the network has that
  fingerprint.\<close>

theorem own_advert_hidden:
  assumes "self_reachable s"
    and "Advertise True name info s = (s1, Some (inst, txt)) \<or>
      AdvertiseBroadcast True name info fileName fileSize s = (s1, Some (inst, txt))"
    and "self_step\<^sup>*\<^sup>* s1 t" "(li_fingerprint info, False) \<in> set (sf_closers t)" "li_fingerprint info \<noteq> []"
  shows "txtValue txt ''f'' = li_fingerprint info \<and>
    (\<forall>p\<in>set (Browse (sf_counts t) local entries). pr_fingerprint p \<noteq> li_fingerprint info)"
proof -
  from assms(2) have s1: "s1 = registerSelf (li_fingerprint info) s" and f: "txtValue txt ''f'' = li_fingerprint info"
    using advertised_closer by blast+
  have "self_reachable s1" unfolding s1 using assms(1) by (rule self_reachable.Step) (rule self_step.Register)
  then have "self_reachable t" using assms(3) by (metis self_reachable_steps)
  then have "isSelfFingerprint (sf_counts t) (li_fingerprint info)" using assms(4,5) self_while_advertised by blast
  then show ?thesis using f browse_safe [of _ "sf_counts t" local entries] by metis
qed

section \<open>Concrete inputs\<close>

definition demo_listen :: ListenInfo where
  "demo_listen = \<lparr>li_bind_addr = [], li_port = 4300, li_fingerprint = ''f1'', li_identity_fingerprint = [], li_passphrase = [],
     li_mode = ''open'', li_app_version = [], li_min_peer = []\<rparr>"

lemma own_advert_hidden_witness:
  "\<forall>p\<in>set (Browse (sf_counts (registerSelf ''f1'' \<lparr>sf_counts = Map.empty, sf_closers = []\<rparr>)) [] entries). pr_fingerprint p \<noteq> ''f1''"
proof -
  let ?s = "\<lparr>sf_counts = Map.empty :: self_counts, sf_closers = []\<rparr>"
  have a: "Advertise True ''pc'' demo_listen ?s = (registerSelf ''f1'' ?s, Some (advert_instance ''pc'', receiverTXT demo_listen)) \<or>
      AdvertiseBroadcast True ''pc'' demo_listen [] 0 ?s = (registerSelf ''f1'' ?s, Some (advert_instance ''pc'', receiverTXT demo_listen))"
    by (simp add: Advertise_def demo_listen_def)
  have c: "(li_fingerprint demo_listen, False) \<in> set (sf_closers (registerSelf ''f1'' ?s))" "li_fingerprint demo_listen \<noteq> []"
    by (simp_all add: registerSelf_def demo_listen_def)
  from own_advert_hidden [OF self_reachable.Start a rtranclp.rtrancl_refl c] show ?thesis by (simp add: demo_listen_def)
qed

end
