(* ===== verification/About.thy ===== *)
theory About
  imports GoText
begin

text \<open>
  What the program says of itself and a few small decisions beside it: the version it reports and whether the build
  offers peer-to-peer streaming (\<open>core.go\<close>), the tips of an interactive session (\<open>tips.go\<close>), which content may go into a
  QR code (\<open>qr.go\<close>), the anonymous install id (\<open>client.go\<close>), the default expiry (\<open>duration.go\<close>). The variables a build
  sets and the environment are arguments.
\<close>

section \<open>Version\<close>

definition P2PStreamingEnabled :: "string \<Rightarrow> bool" where
  "P2PStreamingEnabled flag = equal_fold (trim_space flag) ''true''"

definition version_char :: "nat \<Rightarrow> bool" where
  "version_char r \<longleftrightarrow> 97 \<le> r \<and> r \<le> 122 \<or> 65 \<le> r \<and> r \<le> 90 \<or> 48 \<le> r \<and> r \<le> 57 \<or> r = 45"

text \<open>The characters that become one dot: a full stop, an underscore, a colon and a slash.\<close>

definition version_break :: "nat \<Rightarrow> bool" where
  "version_break r \<longleftrightarrow> r = 46 \<or> r = 95 \<or> r = 58 \<or> r = 47"

text \<open>The loop of \<open>buildMetadata\<close>: the output so far and whether it ends in a dot.\<close>

fun version_loop :: "string \<Rightarrow> bool \<Rightarrow> nat list \<Rightarrow> string" where
  "version_loop out lastDot [] = out"
| "version_loop out lastDot (r # rs) =
     (if version_char r then version_loop (out @ [char_of r]) False rs
      else if version_break r then
        (if out \<noteq> [] \<and> \<not> lastDot then version_loop (out @ ''.'') True rs else version_loop out lastDot rs)
      else version_loop out lastDot rs)"

definition trim_dots :: "string \<Rightarrow> string" where
  "trim_dots s = rev (dropWhile (\<lambda>c. c = CHR ''.'') (rev (dropWhile (\<lambda>c. c = CHR ''.'') s)))"

definition buildMetadata :: "string \<Rightarrow> string" where
  "buildMetadata v =
     (let value = trim_space v in
      if value = [] \<or> value = ''dev'' \<or> value = ''unknown'' then []
      else trim_dots (version_loop [] False (map fst (runes value))))"

definition FullVersion :: "string \<Rightarrow> string \<Rightarrow> string" where
  "FullVersion build_version version =
     (if buildMetadata build_version \<noteq> [] then buildMetadata build_version
      else if buildMetadata version \<noteq> [] then buildMetadata version
      else ''dev'')"

text \<open>What a version may look like: letters, digits and dashes in groups with one dot between them.\<close>

definition plain_version :: "string \<Rightarrow> bool" where
  "plain_version s \<longleftrightarrow> (\<forall>c\<in>set s. version_char (of_char c) \<or> c = CHR ''.'') \<and>
     (\<forall>i. Suc i < length s \<longrightarrow> s ! i = CHR ''.'' \<longrightarrow> s ! Suc i \<noteq> CHR ''.'')"

lemma dropWhile_chain:
  "(\<forall>i. Suc i < length s \<longrightarrow> P (s ! i) (s ! Suc i)) \<Longrightarrow>
   \<forall>i. Suc i < length (dropWhile q s) \<longrightarrow> P (dropWhile q s ! i) (dropWhile q s ! Suc i)"
proof (induction s)
  case (Cons a s)
  then have "\<forall>i. Suc i < length s \<longrightarrow> P (s ! i) (s ! Suc i)" by (metis Suc_less_eq length_Cons nth_Cons_Suc)
  then show ?case using Cons by auto
qed simp

lemma plain_version_rev: "plain_version (rev s) \<longleftrightarrow> plain_version s"
proof -
  have "plain_version (rev t)" if "plain_version t" for t
    unfolding plain_version_def
  proof (intro conjI allI impI)
    show "\<forall>c\<in>set (rev t). version_char (of_char c) \<or> c = CHR ''.''" using that by (simp add: plain_version_def)
    fix i assume i: "Suc i < length (rev t)" "rev t ! i = CHR ''.''"
    let ?k = "length t - Suc (Suc i)"
    have k: "Suc ?k < length t" "rev t ! Suc i = t ! ?k" "rev t ! i = t ! Suc ?k"
      using i(1) by (simp_all add: rev_nth Suc_diff_Suc)
    then show "rev t ! Suc i \<noteq> CHR ''.''" using that i(2) unfolding plain_version_def by metis
  qed
  from this [of s] this [of "rev s"] show ?thesis by auto
qed

lemma plain_version_dropWhile: "plain_version s \<Longrightarrow> plain_version (dropWhile q s)"
  using dropWhile_chain [of s "\<lambda>a b. a = CHR ''.'' \<longrightarrow> b \<noteq> CHR ''.''" q] set_dropWhileD [of _ q s]
  unfolding plain_version_def by blast

lemma plain_version_snoc:
  "plain_version s \<Longrightarrow> version_char (of_char c) \<or> c = CHR ''.'' \<Longrightarrow>
   s = [] \<or> last s \<noteq> CHR ''.'' \<or> c \<noteq> CHR ''.'' \<Longrightarrow> plain_version (s @ [c])"
  unfolding plain_version_def
proof (intro conjI)
  assume h: "(\<forall>c\<in>set s. version_char (of_char c) \<or> c = CHR ''.'') \<and>
      (\<forall>i. Suc i < length s \<longrightarrow> s ! i = CHR ''.'' \<longrightarrow> s ! Suc i \<noteq> CHR ''.'')"
    "s = [] \<or> last s \<noteq> CHR ''.'' \<or> c \<noteq> CHR ''.''" "version_char (of_char c) \<or> c = CHR ''.''"
  show "\<forall>d\<in>set (s @ [c]). version_char (of_char d) \<or> d = CHR ''.''" using h by auto
  show "\<forall>i. Suc i < length (s @ [c]) \<longrightarrow> (s @ [c]) ! i = CHR ''.'' \<longrightarrow> (s @ [c]) ! Suc i \<noteq> CHR ''.''"
  proof (intro allI impI)
    fix i assume i: "Suc i < length (s @ [c])" "(s @ [c]) ! i = CHR ''.''"
    show "(s @ [c]) ! Suc i \<noteq> CHR ''.''"
    proof (cases "Suc i < length s")
      case True
      then show ?thesis using h(1) i(2) by (simp add: nth_append)
    next
      case False
      then have "Suc i = length s" "s \<noteq> []" using i(1) by auto
      then have "s ! i = last s" by (metis diff_Suc_1 last_conv_nth)
      then show ?thesis using h(2) i(2) \<open>Suc i = length s\<close> \<open>s \<noteq> []\<close> by (auto simp: nth_append)
    qed
  qed
qed

lemma version_char_bounds: "version_char r \<Longrightarrow> r < 128 \<and> r \<noteq> 46"
  by (auto simp: version_char_def)

lemma version_loop_plain:
  "plain_version out \<Longrightarrow> (lastDot \<longleftrightarrow> out \<noteq> [] \<and> last out = CHR ''.'') \<Longrightarrow> plain_version (version_loop out lastDot rs)"
proof (induction rs arbitrary: out lastDot)
  case (Cons r rs)
  have dot: "of_char (CHR ''.'') = (46 :: nat)" by (simp add: of_char_Char horner_sum_simps)
  show ?case
  proof (cases "version_char r")
    case True
    have "r mod 256 = r" using version_char_bounds [OF True] by simp
    then have "of_char (char_of r :: char) = r" by simp
    moreover from this have "(char_of r :: char) \<noteq> CHR ''.''" using version_char_bounds [OF True] dot by metis
    ultimately show ?thesis using Cons.IH [of "out @ [char_of r]" False] True Cons.prems(1)
      by (simp add: plain_version_snoc)
  next
    case False
    have "plain_version (out @ ''.'')" if "out \<noteq> []" "\<not> lastDot"
      using plain_version_snoc [of out "CHR ''.''"] that Cons.prems by auto
    then show ?thesis using Cons.IH [of "out @ ''.''" True] Cons.IH [of out lastDot] Cons.prems False by auto
  qed
qed simp

lemma dropWhile_both:
  fixes s :: string and q
  defines "e \<equiv> dropWhile q (rev (dropWhile q s))"
  assumes "e \<noteq> []" shows "\<not> q (hd e) \<and> \<not> q (last e)"
proof -
  have a: "\<not> q (hd e)" using assms(2) hd_dropWhile [of q "rev (dropWhile q s)"] unfolding e_def by blast
  have ne: "dropWhile q s \<noteq> []" using assms(2) unfolding e_def by (metis dropWhile.simps(1) rev.simps(1))
  have "rev (dropWhile q s) = takeWhile q (rev (dropWhile q s)) @ e" unfolding e_def by simp
  then have "last (rev (dropWhile q s)) = last e" using assms(2) by (metis last_appendR)
  then have "last e = hd (dropWhile q s)" by (simp only: last_rev)
  then show ?thesis using a hd_dropWhile [OF ne] by simp
qed

lemma trim_dots_ends:
  assumes "trim_dots s \<noteq> []" shows "hd (trim_dots s) \<noteq> CHR ''.'' \<and> last (trim_dots s) \<noteq> CHR ''.''"
  using dropWhile_both [of "\<lambda>c. c = CHR ''.''" s] assms
  unfolding trim_dots_def by (simp add: hd_rev last_rev)

text \<open>The version a build reports is never empty and always plain: letters, digits and dashes, in groups with a single dot
  between them and none at either end, whatever text the build was stamped with.\<close>

theorem FullVersion_plain:
  "FullVersion bv v \<noteq> [] \<and> plain_version (FullVersion bv v) \<and>
   hd (FullVersion bv v) \<noteq> CHR ''.'' \<and> last (FullVersion bv v) \<noteq> CHR ''.''"
proof -
  have start: "plain_version []" by (simp add: plain_version_def)
  have built: "plain_version (buildMetadata u)" for u
    using version_loop_plain [OF start, of False] plain_version_dropWhile start
    by (simp add: buildMetadata_def Let_def trim_dots_def plain_version_rev)
  have ends: "hd (buildMetadata u) \<noteq> CHR ''.'' \<and> last (buildMetadata u) \<noteq> CHR ''.''" if "buildMetadata u \<noteq> []" for u
    using that trim_dots_ends by (auto simp: buildMetadata_def Let_def split: if_splits)
  have "plain_version ''dev''"
    by (auto simp: plain_version_def version_char_def of_char_Char horner_sum_simps less_Suc_eq)
  then show ?thesis using built ends by (auto simp: FullVersion_def)
qed

section \<open>Tips\<close>

text \<open>The dash of the templates, in UTF-8.\<close>

definition em_dash :: string where "em_dash = [char_of (0xE2 :: nat), char_of (0x80 :: nat), char_of (0x94 :: nat)]"

definition tipTemplates :: "string list" where
  "tipTemplates = [
    ''Tip: `%s <file> --expires 24h` sets how long a link stays live.'',
    ''Tip: `%s <file> --to alex@acme.dev` locks a share to one recipient.'',
    ''Tip: `%s <text> --password` puts a share behind a password.'',
    ''Tip: `%s ls` lists your active shares; add `--json` for scripting.'',
    ''Tip: `%s revoke <id>` kills a share instantly '' @ em_dash @ '' the file is tombstoned.'',
    ''Tip: `%s <file> --device laptop` sends an end-to-end encrypted copy to your own device.'',
    ''Tip: `%s <file> --email teammate@work.com` shares end-to-end with a contact's device.'',
    ''Tip: `%s receive` pulls files sent to this device's inbox.'',
    ''Tip: `%s tui` opens the terminal UI to browse and manage shares.'',
    ''Tip: `%s usage` shows your storage and share quota at a glance.'',
    ''Tip: Set SHARE2US_API_TOKEN to a scoped token to use %s in CI.'',
    ''Tip: `%s devices` lists your logged-in devices; revoke any you don't recognize.'',
    ''Tip: A share link never leaks its filename '' @ em_dash @ '' it's an opaque, unguessable id.'',
    ''Tip: `%s extend <id> 7d` pushes back a share's expiry.'',
    ''Tip: Turn these tips off with SHARE2US_NO_TIPS=1.'']"

fun renderTip :: "string \<Rightarrow> string \<Rightarrow> string" where
  "renderTip [] command = []"
| "renderTip [c] command = [c]"
| "renderTip (c # d # cs) command =
     (if c = CHR ''%'' \<and> d = CHR ''s'' then command @ renderTip cs command else c # renderTip (d # cs) command)"

definition Tips :: "string \<Rightarrow> string list" where
  "Tips command = map (\<lambda>t. renderTip t (if command = [] then ''s2u'' else command)) tipTemplates"

text \<open>\<open>pick\<close> is what \<open>rand.Intn\<close> returned.\<close>

definition RandomTip :: "nat \<Rightarrow> string \<Rightarrow> string" where
  "RandomTip pick command = (if tipTemplates = [] then [] else renderTip (tipTemplates ! pick) command)"

fun has_verb :: "string \<Rightarrow> bool" where
  "has_verb (c # d # cs) \<longleftrightarrow> c = CHR ''%'' \<and> d = CHR ''s'' \<or> has_verb (d # cs)"
| "has_verb _ \<longleftrightarrow> False"

lemma renderTip_piece:
  "\<not> has_verb p \<Longrightarrow> renderTip (p @ ''%s'' @ rest) command = p @ command @ renderTip rest command"
  by (induction p rule: has_verb.induct) auto

lemma renderTip_plain: "\<not> has_verb p \<Longrightarrow> renderTip p command = p"
  by (induction p rule: has_verb.induct) auto

text \<open>Rendering a template puts the command name between the pieces that the placeholders separate, however many there are.\<close>

lemma renderTip_pieces:
  "\<not> has_verb p \<Longrightarrow> list_all (\<lambda>q. \<not> has_verb q) ps \<Longrightarrow>
   renderTip (p @ concat (map ((@) ''%s'') ps)) command = p @ concat (map ((@) command) ps)"
proof (induction ps arbitrary: p)
  case (Cons q ps)
  then show ?case using renderTip_piece [of p "q @ concat (map ((@) ''%s'') ps)" command]
    by (simp only: list.map concat.simps append_assoc list.pred_inject simp_thms)
qed (simp add: renderTip_plain)

section \<open>Small decisions\<close>

definition QRContentMaxBytes :: nat where "QRContentMaxBytes = 1000"
definition QRContentWarnBytes :: nat where "QRContentWarnBytes = 300"

definition QRIsText :: "string \<Rightarrow> bool" where
  "QRIsText b = (if \<not> utf8_valid b then False else list_all (\<lambda>c. c \<noteq> CHR 0x00) b)"

text \<open>The 16 random bytes, or none when \<open>rand.Read\<close> failed.\<close>

definition NewInstallID :: "string option \<Rightarrow> string" where
  "NewInstallID random = (case random of None \<Rightarrow> [] | Some buf \<Rightarrow> hex_encode buf)"

definition DefaultExpiry :: "string \<Rightarrow> string" where
  "DefaultExpiry env_expiry = trim_space env_expiry"

end
